(* ===== verification/Prelude.thy ===== *)
theory Prelude
  imports
    Main
    "HOL-Library.AList"
    "HOL-Library.Multiset"
    "HOL-Library.Char_ord"
    "HOL-Library.List_Lexorder"
    "HOL-Library.Product_Lexorder"
begin

text \<open>
  Shared vocabulary of the development.

  \<^item> A Python \<open>str\<close> is represented by its UTF-8 bytes (an Isabelle \<open>char\<close> is one
    byte).  UTF-8 keeps equality and the code point order of Python strings, so dict keys,
    set membership and \<open>sorted\<close> mean the same; \<open>len\<close> and slices agree on ASCII text, and
    the code only slices strings after it has checked that they are ASCII.
  \<^item> Python \<open>bytes\<close> are lists of \<open>char\<close> too; \<open>str.encode("utf-8")\<close> is the identity.
  \<^item> A Python \<open>dict\<close> is an association list in insertion order.  \<open>AList.update\<close> is
    \<open>d[k] = v\<close>: an existing key keeps its position, a new key goes to the end.
  \<^item> An exception is a value: a fallible function returns \<open>exn + 'a\<close>.
  \<^item> \<open>sorted(xs, key=f)\<close> is \<open>sort_key f xs\<close>; both are stable.
\<close>

named_theorems result_simps \<open>equations of the error monad\<close>
named_theorems path_simps \<open>facts about validated artifact paths\<close>
named_theorems valid_intros \<open>Hoare rules for effectful operations\<close>

type_synonym bytes = "char list"
type_synonym ('k, 'v) dict = "('k \<times> 'v) list"

section \<open>Exceptions and results\<close>

text \<open>
  The exception classes the modelled modules raise.  A string argument is the message (or the
  stable error code where the class carries one).
\<close>

datatype exn =
    ValueError string
  | TypeError string
  | RuntimeError string
  | WebDAVError string
  | WebDAVHTTPError string "string list" int
  | WebDAVIntegrityError string
  | WebDAVReadbackIntegrityError string
  | ArtifactContractError string
  | PartialExecutionError string string
  | RetirementError string
  | CorpusDiffError string int int int "string list"
  | RevisionHistoryV5Error string
  | OSError string
  | KeyError string
  | CancelledError
  | IndexError string
  | AssertionError
  | IntegrityError string
  | ValidationError string
  | OCRVerificationError string
  | GCError string
  | GCMarkVerificationError string
  | GCDeletionError string
  | GCPartialFailure int
  | StorageQuotaError string

type_synonym 'a result = "exn + 'a"

definition rbind :: "'e + 'a \<Rightarrow> ('a \<Rightarrow> 'e + 'b) \<Rightarrow> 'e + 'b" where
  "rbind m f = (case m of Inl e \<Rightarrow> Inl e | Inr x \<Rightarrow> f x)"

definition raise_if :: "bool \<Rightarrow> 'e \<Rightarrow> 'e + unit" where
  "raise_if c e = (if c then Inl e else Inr ())"

lemma rbind_simps [simp, result_simps]:
  "rbind (Inl e) f = Inl e" "rbind (Inr x) f = f x"
  by (simp_all add: rbind_def)

lemma rbind_eq_Inr_iff [simp, result_simps]:
  "rbind m f = Inr y \<longleftrightarrow> (\<exists>x. m = Inr x \<and> f x = Inr y)"
  by (cases m) simp_all

lemma rbind_eq_Inl_iff [result_simps]:
  "rbind m f = Inl e \<longleftrightarrow> m = Inl e \<or> (\<exists>x. m = Inr x \<and> f x = Inl e)"
  by (cases m) simp_all

lemma raise_if_eq [simp, result_simps]:
  "raise_if c e = Inr u \<longleftrightarrow> \<not> c" "raise_if c e = Inl e' \<longleftrightarrow> c \<and> e' = e"
  by (auto simp: raise_if_def)

lemma raise_if_simps [simp, result_simps]:
  "raise_if True e = Inl e" "raise_if False e = Inr ()"
  by (simp_all add: raise_if_def)

text \<open>A comprehension whose element expression may raise: the first exception wins.\<close>

fun rmap :: "('a \<Rightarrow> 'e + 'b) \<Rightarrow> 'a list \<Rightarrow> 'e + 'b list" where
  "rmap f [] = Inr []"
| "rmap f (x # xs) = rbind (f x) (\<lambda>y. rbind (rmap f xs) (\<lambda>ys. Inr (y # ys)))"

lemma rmap_Inr_iff: "rmap f xs = Inr ys \<longleftrightarrow> list_all2 (\<lambda>x y. f x = Inr y) xs ys"
  by (induction xs arbitrary: ys) (auto simp: list_all2_Cons1)

text \<open>A loop over a list whose body may raise.\<close>

fun rfold :: "('s \<Rightarrow> 'a \<Rightarrow> 'e + 's) \<Rightarrow> 's \<Rightarrow> 'a list \<Rightarrow> 'e + 's" where
  "rfold f s [] = Inr s"
| "rfold f s (x # xs) = rbind (f s x) (\<lambda>s'. rfold f s' xs)"

lemma rfold_invariant:
  assumes "rfold f s xs = Inr t" and "P s"
    and "\<And>s x s'. P s \<Longrightarrow> x \<in> set xs \<Longrightarrow> f s x = Inr s' \<Longrightarrow> P s'"
  shows "P t"
  using assms
proof (induction xs arbitrary: s)
  case (Cons x xs)
  from Cons.prems(1) obtain s' where s': "f s x = Inr s'" "rfold f s' xs = Inr t"
    by auto
  have "P s'" using Cons.prems(2) s'(1) by (intro Cons.prems(3) [of s x s']) auto
  with s'(2) Cons.prems(3) show ?case by (intro Cons.IH [of s']) auto
qed simp

lemma rfold_prefix:
  assumes "rfold f s xs = Inr t" "P [] s"
    and "\<And>ys x s s'. P ys s \<Longrightarrow> set ys \<subseteq> set xs \<Longrightarrow> \<exists>zs. xs = ys @ x # zs \<Longrightarrow> f s x = Inr s' \<Longrightarrow> P (ys @ [x]) s'"
  shows "P xs t"
proof -
  have "P (ys @ xs') t" if "rfold f s xs' = Inr t" "P ys s" "xs = ys @ xs'" for ys xs' s
    using that
  proof (induction xs' arbitrary: ys s)
    case (Cons x xs')
    from Cons.prems(1) obtain s' where s': "f s x = Inr s'" "rfold f s' xs' = Inr t" by auto
    have "P (ys @ [x]) s'"
      using Cons.prems s'(1) by (intro assms(3) [of ys s x s']) auto
    with Cons.IH [of s' "ys @ [x]"] s'(2) Cons.prems(3) show ?case by simp
  qed simp
  from this [of s xs "[]"] assms(1,2) show ?thesis by simp
qed

section \<open>Strings\<close>

definition is_lower :: "char \<Rightarrow> bool" where
  "is_lower c \<longleftrightarrow> CHR ''a'' \<le> c \<and> c \<le> CHR ''z''"

definition is_upper :: "char \<Rightarrow> bool" where
  "is_upper c \<longleftrightarrow> CHR ''A'' \<le> c \<and> c \<le> CHR ''Z''"

definition is_digit :: "char \<Rightarrow> bool" where
  "is_digit c \<longleftrightarrow> CHR ''0'' \<le> c \<and> c \<le> CHR ''9''"

definition is_alnum :: "char \<Rightarrow> bool" where
  "is_alnum c \<longleftrightarrow> is_lower c \<or> is_upper c \<or> is_digit c"

definition is_hex :: "char \<Rightarrow> bool" where
  "is_hex c \<longleftrightarrow> is_digit c \<or> (CHR ''a'' \<le> c \<and> c \<le> CHR ''f'')"

text \<open>\<open>re.fullmatch("[0-9a-f]{64}", s)\<close>.\<close>

definition sha256_hex :: "string \<Rightarrow> bool" where
  "sha256_hex s \<longleftrightarrow> length s = 64 \<and> list_all is_hex s"

lemma is_hex_alnum: "is_hex c \<Longrightarrow> is_alnum c"
  by (auto simp: is_hex_def is_alnum_def is_lower_def less_eq_char_def)

text \<open>\<open>"/".join(parts)\<close> and \<open>raw.split("/")\<close>, for any separator character.\<close>

fun join_with :: "char \<Rightarrow> string list \<Rightarrow> string" where
  "join_with c [] = []"
| "join_with c [s] = s"
| "join_with c (s # t # ss) = s @ c # join_with c (t # ss)"

fun split_on :: "char \<Rightarrow> string \<Rightarrow> string list" where
  "split_on c [] = [[]]"
| "split_on c (x # xs) =
     (if x = c then [] # split_on c xs
      else (case split_on c xs of [] \<Rightarrow> [[x]] | s # ss \<Rightarrow> (x # s) # ss))"

lemma join_with_Cons: "ss \<noteq> [] \<Longrightarrow> join_with c (s # ss) = s @ c # join_with c ss"
  by (cases ss) auto

lemma split_on_nonempty [simp]: "split_on c s \<noteq> []"
  by (cases s) (auto split: list.splits)

lemma join_split_on [simp]: "join_with c (split_on c s) = s"
proof (induction s)
  case (Cons x xs)
  show ?case
  proof (cases "split_on c xs")
    case (Cons t ts)
    with Cons.IH show ?thesis by (cases ts) auto
  qed simp
qed simp

lemma split_on_plain: "c \<notin> set s \<Longrightarrow> split_on c s = [s]"
  by (induction s) auto

lemma split_on_append: "c \<notin> set s \<Longrightarrow> split_on c (s @ c # t) = s # split_on c t"
  by (induction s) auto

lemma split_join_on:
  "ss \<noteq> [] \<Longrightarrow> \<forall>s \<in> set ss. c \<notin> set s \<Longrightarrow> split_on c (join_with c ss) = ss"
  by (induction c ss rule: join_with.induct) (auto simp: split_on_plain split_on_append)

lemma split_on_no_sep: "t \<in> set (split_on c s) \<Longrightarrow> c \<notin> set t"
proof (induction s arbitrary: t)
  case (Cons x xs)
  then show ?case
    by (cases "split_on c xs") (auto split: if_splits)
qed simp

lemma set_join_with: "set (join_with c ss) \<subseteq> insert c (\<Union>s \<in> set ss. set s)"
  by (induction c ss rule: join_with.induct) auto

section \<open>Dictionaries and sorted views\<close>

text \<open>\<open>sorted(set(xs))\<close>: the distinct elements in ascending order.\<close>

definition sorted_set :: "'a::linorder list \<Rightarrow> 'a list" where
  "sorted_set xs = sort (remdups xs)"

lemma sorted_set_facts [simp]:
  "set (sorted_set xs) = set xs" "distinct (sorted_set xs)" "sorted (sorted_set xs)"
  by (simp_all add: sorted_set_def)

lemma sorted_set_unique: "set xs = set ys \<Longrightarrow> sorted_set xs = sorted_set ys"
  by (rule sorted_distinct_set_unique) simp_all

text \<open>\<open>dict\<close> built by repeated assignment: \<open>{k: v for ...}\<close>; a later pair wins, in place.\<close>

definition dict_of :: "('k \<times> 'v) list \<Rightarrow> ('k, 'v) dict" where
  "dict_of kvs = fold (\<lambda>(k, v) d. AList.update k v d) kvs []"

abbreviation keys :: "('k, 'v) dict \<Rightarrow> 'k list" where
  "keys d \<equiv> map fst d"

abbreviation vals :: "('k, 'v) dict \<Rightarrow> 'v list" where
  "vals d \<equiv> map snd d"

abbreviation wf_dict :: "('k, 'v) dict \<Rightarrow> bool" where
  "wf_dict d \<equiv> distinct (keys d)"

lemma wf_dict_update [simp]: "wf_dict d \<Longrightarrow> wf_dict (AList.update k v d)"
  by (rule distinct_update)

lemma set_keys_update [simp]: "set (keys (AList.update k v d)) = insert k (set (keys d))"
  by (induction d) auto

lemma set_update_subset: "set (AList.update k v d) \<subseteq> insert (k, v) (set d)"
  by (induction d) auto

lemma dict_of_snoc: "dict_of (kvs @ [(k, v)]) = AList.update k v (dict_of kvs)"
  by (simp add: dict_of_def)

lemma wf_dict_of [simp]: "wf_dict (dict_of kvs)"
proof (induction kvs rule: rev_induct)
  case (snoc x kvs)
  then show ?case by (cases x) (simp add: dict_of_snoc)
qed (simp add: dict_of_def)

lemma map_of_dict_of: "map_of (dict_of kvs) k = map_of (rev kvs) k"
proof (induction kvs rule: rev_induct)
  case (snoc x kvs)
  then show ?case by (cases x) (simp add: dict_of_snoc update_conv')
qed (simp add: dict_of_def)

lemma dict_of_mem: "(k, v) \<in> set (dict_of kvs) \<Longrightarrow> map_of (rev kvs) k = Some v"
  by (metis map_of_dict_of map_of_is_SomeI wf_dict_of)

lemma keys_dict_of: "set (keys (dict_of kvs)) = set (keys kvs)"
  using arg_cong [OF ext [of "map_of (dict_of kvs)" "map_of (rev kvs)", OF map_of_dict_of], of dom]
  by (simp add: dom_map_of_conv_image_fst)

end
