(* ===== verification/Effects.thy ===== *)
theory Effects
  imports Prelude
begin

text \<open>
  Operations with a state and exceptions, and the reasoning rules for them.

  An operation takes the state and returns a result or an exception together with the state it
  leaves behind: as in Python, the effects before a raise are kept.  \<open>valid P m Q E\<close> is the
  Hoare triple with two postconditions (normal return and exception).  The locale
  \<open>inv_system\<close> is the contract of a component whose steps keep an invariant; the clients of
  the step relations get reachability from it.
\<close>

type_synonym ('s, 'a) op = "'s \<Rightarrow> 'a result \<times> 's"

definition ret :: "'a \<Rightarrow> ('s, 'a) op" where
  "ret x s = (Inr x, s)"

definition raise :: "exn \<Rightarrow> ('s, 'a) op" where
  "raise e s = (Inl e, s)"

definition lift :: "'a result \<Rightarrow> ('s, 'a) op" where
  "lift r s = (r, s)"

definition sbind :: "('s, 'a) op \<Rightarrow> ('a \<Rightarrow> ('s, 'b) op) \<Rightarrow> ('s, 'b) op" where
  "sbind m f s = (case m s of (Inl e, s') \<Rightarrow> (Inl e, s') | (Inr x, s') \<Rightarrow> f x s')"

text \<open>\<open>try: m except: h\<close>; the handler decides whether to raise again.\<close>

definition catch :: "('s, 'a) op \<Rightarrow> (exn \<Rightarrow> ('s, 'a) op) \<Rightarrow> ('s, 'a) op" where
  "catch m h s = (case m s of (Inl e, s') \<Rightarrow> h e s' | (Inr x, s') \<Rightarrow> (Inr x, s'))"

text \<open>\<open>with suppress(Exception): m\<close>.\<close>

definition suppress :: "('s, 'a) op \<Rightarrow> ('s, unit) op" where
  "suppress m s = (Inr (), snd (m s))"

fun sfor :: "('a \<Rightarrow> ('s, unit) op) \<Rightarrow> 'a list \<Rightarrow> ('s, unit) op" where
  "sfor f [] = ret ()"
| "sfor f (x # xs) = sbind (f x) (\<lambda>_. sfor f xs)"

definition valid :: "('s \<Rightarrow> bool) \<Rightarrow> ('s, 'a) op \<Rightarrow> ('a \<Rightarrow> 's \<Rightarrow> bool) \<Rightarrow> (exn \<Rightarrow> 's \<Rightarrow> bool) \<Rightarrow> bool"
where
  "valid P m Q E \<longleftrightarrow>
     (\<forall>s. P s \<longrightarrow> (case m s of (Inl e, s') \<Rightarrow> E e s' | (Inr x, s') \<Rightarrow> Q x s'))"

lemma validI [intro?]:
  assumes "\<And>s x s'. P s \<Longrightarrow> m s = (Inr x, s') \<Longrightarrow> Q x s'"
    and "\<And>s e s'. P s \<Longrightarrow> m s = (Inl e, s') \<Longrightarrow> E e s'"
  shows "valid P m Q E"
  using assms by (fastforce simp: valid_def split: prod.splits sum.splits)

lemma valid_Inr: "valid P m Q E \<Longrightarrow> P s \<Longrightarrow> m s = (Inr x, s') \<Longrightarrow> Q x s'"
  by (auto simp: valid_def)

lemma valid_Inl: "valid P m Q E \<Longrightarrow> P s \<Longrightarrow> m s = (Inl e, s') \<Longrightarrow> E e s'"
  by (auto simp: valid_def)

lemma valid_ret [valid_intros]: "(\<And>s. P s \<Longrightarrow> Q x s) \<Longrightarrow> valid P (ret x) Q E"
  by (auto simp: valid_def ret_def)

lemma valid_raise [valid_intros]: "(\<And>s. P s \<Longrightarrow> E e s) \<Longrightarrow> valid P (raise e) Q E"
  by (auto simp: valid_def raise_def)

lemma valid_lift [valid_intros]:
  assumes "\<And>s x. P s \<Longrightarrow> r = Inr x \<Longrightarrow> Q x s" and "\<And>s e. P s \<Longrightarrow> r = Inl e \<Longrightarrow> E e s"
  shows "valid P (lift r) Q E"
  using assms by (auto simp: valid_def lift_def split: sum.splits)

lemma sbind_eqs [result_simps]:
  "sbind m f s = (Inr y, t) \<longleftrightarrow> (\<exists>x s'. m s = (Inr x, s') \<and> f x s' = (Inr y, t))"
  "sbind m f s = (Inl e, t) \<longleftrightarrow>
     m s = (Inl e, t) \<or> (\<exists>x s'. m s = (Inr x, s') \<and> f x s' = (Inl e, t))"
  by (auto simp: sbind_def split: prod.splits sum.splits)

lemma catch_eqs [result_simps]:
  "catch m h s = (Inr y, t) \<longleftrightarrow>
     m s = (Inr y, t) \<or> (\<exists>e s'. m s = (Inl e, s') \<and> h e s' = (Inr y, t))"
  "catch m h s = (Inl e, t) \<longleftrightarrow> (\<exists>e' s'. m s = (Inl e', s') \<and> h e' s' = (Inl e, t))"
  by (auto simp: catch_def split: prod.splits sum.splits)

lemma suppress_eqs [result_simps]:
  "suppress m s = (Inr u, t) \<longleftrightarrow> (\<exists>r. m s = (r, t))"
  "suppress m s = (Inl e, t) \<longleftrightarrow> False"
  by (auto simp: suppress_def split: prod.splits) (metis prod.collapse)

lemma valid_sbind [valid_intros]:
  assumes "valid P m R E" and "\<And>x. valid (R x) (f x) Q E"
  shows "valid P (sbind m f) Q E"
proof (rule validI)
  fix s y t assume "P s" "sbind m f s = (Inr y, t)"
  then show "Q y t"
    by (auto simp: sbind_eqs dest: valid_Inr [OF assms(1)] valid_Inr [OF assms(2)])
next
  fix s e t assume "P s" "sbind m f s = (Inl e, t)"
  then show "E e t"
    by (auto simp: sbind_eqs dest: valid_Inl [OF assms(1)] valid_Inr [OF assms(1)]
        valid_Inl [OF assms(2)])
qed

lemma valid_catch [valid_intros]:
  assumes "valid P m Q F" and "\<And>e. valid (F e) (h e) Q E"
  shows "valid P (catch m h) Q E"
proof (rule validI)
  fix s y t assume "P s" "catch m h s = (Inr y, t)"
  then show "Q y t"
    by (auto simp: catch_eqs dest: valid_Inr [OF assms(1)] valid_Inl [OF assms(1)]
        valid_Inr [OF assms(2)])
next
  fix s e t assume "P s" "catch m h s = (Inl e, t)"
  then show "E e t"
    by (auto simp: catch_eqs dest: valid_Inl [OF assms(1)] valid_Inl [OF assms(2)])
qed

lemma valid_suppress [valid_intros]:
  assumes "valid P m (\<lambda>_. R) (\<lambda>_. R)" and "\<And>s. R s \<Longrightarrow> Q () s"
  shows "valid P (suppress m) Q E"
proof (rule validI)
  fix s x t assume s: "P s" "suppress m s = (Inr x, t)"
  then obtain r where r: "m s = (r, t)" by (auto simp: suppress_eqs)
  with s(1) have "R t"
    by (cases r) (auto dest: valid_Inr [OF assms(1)] valid_Inl [OF assms(1)])
  then show "Q x t" by (simp add: assms(2))
qed (simp add: suppress_eqs)

lemma valid_if [valid_intros]:
  assumes "b \<Longrightarrow> valid P m Q E" and "\<not> b \<Longrightarrow> valid P n Q E"
  shows "valid P (if b then m else n) Q E"
  using assms by simp

lemma valid_weaken:
  assumes "valid P m Q E" and "\<And>s. P' s \<Longrightarrow> P s" and "\<And>x s. Q x s \<Longrightarrow> Q' x s"
    and "\<And>e s. E e s \<Longrightarrow> E' e s"
  shows "valid P' m Q' E'"
  by (rule validI)
    (auto intro: assms(3,4) dest!: assms(2) dest: valid_Inr [OF assms(1)] valid_Inl [OF assms(1)])

lemma valid_sfor:
  assumes "\<And>x. x \<in> set xs \<Longrightarrow> valid P (f x) (\<lambda>_. P) (\<lambda>_. P)"
  shows "valid P (sfor f xs) (\<lambda>_. P) (\<lambda>_. P)"
  using assms
proof (induction xs)
  case (Cons x xs)
  have "valid P (sfor f xs) (\<lambda>_. P) (\<lambda>_. P)" by (rule Cons.IH) (simp add: Cons.prems)
  with Cons.prems [of x] show ?case by (auto intro: valid_sbind)
qed (auto intro: valid_ret)

section \<open>Step systems with an invariant\<close>

locale inv_system =
  fixes init :: "'s \<Rightarrow> bool" and step :: "'s \<Rightarrow> 's \<Rightarrow> bool" and inv :: "'s \<Rightarrow> bool"
  assumes init_inv: "init s \<Longrightarrow> inv s"
    and step_inv: "inv s \<Longrightarrow> step s t \<Longrightarrow> inv t"
begin

lemma steps_inv: "step\<^sup>*\<^sup>* s t \<Longrightarrow> inv s \<Longrightarrow> inv t"
  by (induction rule: rtranclp_induct) (auto intro: step_inv)

lemma reach_inv: "init s \<Longrightarrow> step\<^sup>*\<^sup>* s t \<Longrightarrow> inv t"
  by (blast intro: init_inv steps_inv)

end

end
