(* ===== verification/Bounded.thy ===== *)
theory Bounded
  imports Effects
begin

text \<open>
  \<open>cardrag_worker/bounded.py\<close>: \<open>bounded_ordered_map\<close>, which runs an operation on every item with a
  bounded number of workers, at most \<open>per_group\<close> at a time within a group, and returns the results
  in input order.

  The event loop interleaves the workers at their \<open>await\<close>s; every stretch of code between two of
  them is one step of \<open>bstep\<close>.  The operation is not part of the module: \<open>outcome x slot r\<close> says
  that it may end with \<open>r\<close> on item \<open>x\<close> in worker \<open>slot\<close>.  A worker that finds nothing to admit while
  work is pending waits on the condition; it takes no step until it can.  A cancellation of the
  whole call by its owner is not modelled: then the call does not return.
\<close>

datatype 'a worker = Looking | Running string nat 'a | Returned | WorkerFailed | WorkerCancelled

record ('a, 'r) sched =
  pending :: "string \<Rightarrow> (nat \<times> 'a) list"
  groups :: "string list"
  active :: "string \<Rightarrow> int"
  results :: "'r option list"
  failures :: "exn list"
  workers :: "'a worker list"

definition check_bounds :: "int \<Rightarrow> int option \<Rightarrow> int result" where
  "check_bounds concurrency per_group =
     rbind (raise_if (concurrency < 1) (ValueError ''concurrency must be a positive integer'')) (\<lambda>_.
     let pg = (case per_group of None \<Rightarrow> concurrency | Some n \<Rightarrow> n) in
     rbind (raise_if (pg < 1) (ValueError ''per-group concurrency must be a positive integer'')) (\<lambda>_.
     Inr pg))"

text \<open>\<open>pending.setdefault(key, deque()).append((index, item))\<close> for every item.\<close>

definition enqueue ::
  "('a \<Rightarrow> string) \<Rightarrow> nat \<times> 'a \<Rightarrow> string list \<times> (string \<Rightarrow> (nat \<times> 'a) list)
   \<Rightarrow> string list \<times> (string \<Rightarrow> (nat \<times> 'a) list)"
where
  "enqueue group_key x = (\<lambda>(gs, p). let key = group_key (snd x) in
     (if key \<in> set gs then gs else gs @ [key], p(key := p key @ [x])))"

definition start :: "'a list \<Rightarrow> ('a \<Rightarrow> string) \<Rightarrow> nat \<Rightarrow> ('a, 'r) sched" where
  "start items group_key concurrency =
     (let (gs, p) = fold (enqueue group_key) (enumerate 0 items) ([], \<lambda>_. []) in
      \<lparr>pending = p, groups = gs, active = (\<lambda>_. 0), results = replicate (length items) None,
       failures = [], workers = replicate (min concurrency (length items)) Looking\<rparr>)"

text \<open>
  The admission scan: at most \<open>n\<close> rotations of the group queue, stopping at the first group with
  pending work and a free place.
\<close>

fun scan :: "int \<Rightarrow> nat \<Rightarrow> ('a, 'r) sched \<Rightarrow> (string \<times> nat \<times> 'a) option \<times> ('a, 'r) sched" where
  "scan per_group 0 s = (None, s)"
| "scan per_group (Suc n) s =
     (let key = hd (groups s); s' = s\<lparr>groups := tl (groups s) @ [key]\<rparr> in
      case pending s key of
        (index, item) # rest \<Rightarrow>
          if active s key < per_group
          then (Some (key, index, item),
            s'\<lparr>pending := (pending s)(key := rest), active := (active s)(key := active s key + 1)\<rparr>)
          else scan per_group n s'
      | [] \<Rightarrow> scan per_group n s')"

definition release :: "string \<Rightarrow> nat \<Rightarrow> 'a worker \<Rightarrow> ('a, 'r) sched \<Rightarrow> ('a, 'r) sched" where
  "release key slot w s = s\<lparr>active := (active s)(key := active s key - 1), workers := (workers s)[slot := w]\<rparr>"

definition drained :: "('a, 'r) sched \<Rightarrow> bool" where
  "drained s \<longleftrightarrow> (\<forall>k \<in> set (groups s). pending s k = [])"

inductive bstep :: "('a \<Rightarrow> nat \<Rightarrow> 'r result \<Rightarrow> bool) \<Rightarrow> int \<Rightarrow> ('a, 'r) sched \<Rightarrow> ('a, 'r) sched \<Rightarrow> bool"
  for outcome per_group
where
  stop: "\<lbrakk>slot < length (workers s); workers s ! slot = Looking; failures s \<noteq> []\<rbrakk>
     \<Longrightarrow> bstep outcome per_group s (s\<lparr>workers := (workers s)[slot := Returned]\<rparr>)"
| admit: "\<lbrakk>slot < length (workers s); workers s ! slot = Looking; failures s = [];
     scan per_group (length (groups s)) s = (Some (key, index, item), s')\<rbrakk>
     \<Longrightarrow> bstep outcome per_group s (s'\<lparr>workers := (workers s)[slot := Running key index item]\<rparr>)"
| exhausted: "\<lbrakk>slot < length (workers s); workers s ! slot = Looking; failures s = [];
     scan per_group (length (groups s)) s = (None, s'); drained s\<rbrakk>
     \<Longrightarrow> bstep outcome per_group s (s\<lparr>workers := (workers s)[slot := Returned]\<rparr>)"
| complete: "\<lbrakk>slot < length (workers s); workers s ! slot = Running key index item; outcome item slot (Inr r)\<rbrakk>
     \<Longrightarrow> bstep outcome per_group s (release key slot Looking (s\<lparr>results := (results s)[index := Some r]\<rparr>))"
| fail: "\<lbrakk>slot < length (workers s); workers s ! slot = Running key index item; outcome item slot (Inl e);
     e = CancelledError \<longrightarrow> failures s = []\<rbrakk>
     \<Longrightarrow> bstep outcome per_group s (release key slot WorkerFailed (s\<lparr>failures := failures s @ [e]\<rparr>))"
| cancel_running: "\<lbrakk>slot < length (workers s); workers s ! slot = Running key index item; failures s \<noteq> []\<rbrakk>
     \<Longrightarrow> bstep outcome per_group s (release key slot WorkerCancelled s)"
| cancel_waiting: "\<lbrakk>slot < length (workers s); workers s ! slot = Looking; failures s \<noteq> []\<rbrakk>
     \<Longrightarrow> bstep outcome per_group s (s\<lparr>workers := (workers s)[slot := WorkerCancelled]\<rparr>)"

inductive_cases bstepE: "bstep outcome per_group s t"

text \<open>After the task group: the first failure, the completeness check, the tuple of results.\<close>

definition ended :: "'a worker \<Rightarrow> bool" where
  "ended w = (case w of Looking \<Rightarrow> False | Running _ _ _ \<Rightarrow> False | _ \<Rightarrow> True)"

definition finished :: "('a, 'r) sched \<Rightarrow> bool" where
  "finished s \<longleftrightarrow> list_all ended (workers s)"

definition sched_result :: "('a, 'r) sched \<Rightarrow> 'r list result" where
  "sched_result s =
     (case failures s of
        e # _ \<Rightarrow> Inl e
      | [] \<Rightarrow> if list_ex (\<lambda>r. r = None) (results s)
              then Inl (RuntimeError ''bounded work completed without every input result'')
              else Inr (map the (results s)))"

text \<open>With one worker the items are simply processed in order.\<close>

fun sequential :: "('a \<Rightarrow> nat \<Rightarrow> 'r result) \<Rightarrow> 'a list \<Rightarrow> 'r list result" where
  "sequential op items = rmap (\<lambda>item. op item 0) items"

section \<open>The admission scan\<close>

lemma scan_None:
  assumes "scan pg n s = (None, s')" "n \<le> length (groups s)"
  shows "s' = s\<lparr>groups := drop n (groups s) @ take n (groups s)\<rparr>
    \<and> (\<forall>k \<in> set (take n (groups s)). pending s k = [] \<or> pg \<le> active s k)"
  using assms
proof (induction n arbitrary: s)
  case (Suc n)
  then obtain k ks where ks: "groups s = k # ks" by (cases "groups s") auto
  let ?s = "s\<lparr>groups := ks @ [k]\<rparr>"
  have n: "n \<le> length ks" using Suc.prems(2) ks by simp
  have blocked: "pending s k = [] \<or> pg \<le> active s k" and rest: "scan pg n ?s = (None, s')"
    using Suc.prems(1) ks by (auto simp: Let_def split: list.splits if_splits)
  from Suc.IH [OF rest] n blocked ks show ?case by auto
qed simp

lemma scan_Some:
  assumes "scan pg n s = (Some (key, index, item), s')" "n \<le> length (groups s)"
  shows "\<exists>i < n. key = groups s ! i \<and> active s key < pg \<and>
    (\<exists>rest. pending s key = (index, item) # rest \<and>
      s' = s\<lparr>groups := drop (Suc i) (groups s) @ take (Suc i) (groups s),
        pending := (pending s)(key := rest), active := (active s)(key := active s key + 1)\<rparr>)"
  using assms
proof (induction n arbitrary: s)
  case (Suc n)
  then obtain k ks where ks: "groups s = k # ks" by (cases "groups s") auto
  let ?s = "s\<lparr>groups := ks @ [k]\<rparr>"
  have n: "n \<le> length ks" using Suc.prems(2) ks by simp
  show ?case
  proof (cases "\<exists>x rest. pending s k = x # rest \<and> active s k < pg")
    case True
    with Suc.prems(1) ks show ?thesis by (intro exI [of _ 0]) (auto simp: Let_def fun_upd_def)
  next
    case False
    then have rest: "scan pg n ?s = (Some (key, index, item), s')"
      using Suc.prems(1) ks by (auto simp: Let_def split: list.splits if_splits)
    from Suc.IH [OF rest] n obtain i r where "i < n" "key = (ks @ [k]) ! i" "active s key < pg"
      "pending s key = (index, item) # r"
      "s' = s\<lparr>groups := drop (Suc i) (ks @ [k]) @ take (Suc i) (ks @ [k]),
          pending := (pending s)(key := r), active := (active s)(key := active s key + 1)\<rparr>" by (auto simp: fun_upd_def)
    with n ks show ?thesis by (intro exI [of _ "Suc i"]) (auto simp: nth_append fun_upd_def)
  qed
qed simp

section \<open>The invariant\<close>

text \<open>
  \<open>active\<close> counts the running workers of a group and respects the limit; every queued or running
  entry is an unprocessed item filed under its own group, never twice; every stored result is an
  outcome of the operation on that item; and as long as nothing has failed, every item is queued,
  running or done, and a worker has returned only if the queues are empty.
\<close>

definition running_in :: "string \<Rightarrow> 'a worker \<Rightarrow> bool" where
  "running_in k w = (case w of Running k' _ _ \<Rightarrow> k' = k | _ \<Rightarrow> False)"

definition active_ok :: "int \<Rightarrow> ('a, 'r) sched \<Rightarrow> bool" where
  "active_ok per_group s \<longleftrightarrow>
     (\<forall>k. active s k = int (length (filter (running_in k) (workers s))) \<and> active s k \<le> per_group)"

definition filed :: "'a list \<Rightarrow> ('a \<Rightarrow> string) \<Rightarrow> ('a, 'r) sched \<Rightarrow> string \<Rightarrow> nat \<Rightarrow> 'a \<Rightarrow> bool" where
  "filed items group_key s k i x \<longleftrightarrow>
     i < length items \<and> x = items ! i \<and> k = group_key x \<and> results s ! i = None"

definition works :: "('a, 'r) sched \<Rightarrow> nat \<Rightarrow> string \<Rightarrow> nat \<Rightarrow> 'a \<Rightarrow> bool" where
  "works s w k i x \<longleftrightarrow> w < length (workers s) \<and> workers s ! w = Running k i x"

definition queue_ok :: "'a list \<Rightarrow> ('a \<Rightarrow> string) \<Rightarrow> ('a, 'r) sched \<Rightarrow> bool" where
  "queue_ok items group_key s \<longleftrightarrow> length (results s) = length items
     \<and> (\<forall>k. distinct (map fst (pending s k)) \<and> (k \<notin> set (groups s) \<longrightarrow> pending s k = []))
     \<and> (\<forall>k i x. (i, x) \<in> set (pending s k) \<longrightarrow> filed items group_key s k i x)
     \<and> (\<forall>w k i x. works s w k i x \<longrightarrow> filed items group_key s k i x \<and> i \<notin> fst ` set (pending s k))
     \<and> (\<forall>w w' k k' i x x'. works s w k i x \<longrightarrow> works s w' k' i x' \<longrightarrow> w' = w)"

definition results_ok :: "('a \<Rightarrow> nat \<Rightarrow> 'r result \<Rightarrow> bool) \<Rightarrow> 'a list \<Rightarrow> ('a, 'r) sched \<Rightarrow> bool" where
  "results_ok outcome items s \<longleftrightarrow> (\<forall>i r. i < length items \<longrightarrow> results s ! i = Some r \<longrightarrow>
     (\<exists>slot. outcome (items ! i) slot (Inr r)))
     \<and> (\<forall>e \<in> set (failures s). \<exists>i < length items. \<exists>slot. outcome (items ! i) slot (Inl e))"

definition accounted :: "'a list \<Rightarrow> ('a, 'r) sched \<Rightarrow> bool" where
  "accounted items s \<longleftrightarrow> failures s = [] \<longrightarrow>
     (\<forall>i < length items. results s ! i \<noteq> None \<or> (\<exists>k x. (i, x) \<in> set (pending s k))
        \<or> (\<exists>w k x. works s w k i x))
     \<and> (\<forall>w \<in> set (workers s). w \<noteq> WorkerFailed \<and> w \<noteq> WorkerCancelled \<and> (w = Returned \<longrightarrow> (\<forall>k. pending s k = [])))"

definition sched_inv :: "('a \<Rightarrow> nat \<Rightarrow> 'r result \<Rightarrow> bool) \<Rightarrow> int \<Rightarrow> 'a list \<Rightarrow> ('a \<Rightarrow> string) \<Rightarrow> nat \<Rightarrow> ('a, 'r) sched \<Rightarrow> bool"
where
  "sched_inv outcome per_group items group_key concurrency s \<longleftrightarrow>
     length (workers s) = min concurrency (length items) \<and> active_ok per_group s \<and>
     queue_ok items group_key s \<and> results_ok outcome items s \<and> accounted items s"

lemma filter_update_length:
  "i < length ws \<Longrightarrow> int (length (filter P (ws[i := w])))
     = int (length (filter P ws)) - (if P (ws ! i) then 1 else 0) + (if P w then 1 else 0)"
proof (induction ws arbitrary: i)
  case (Cons a ws)
  show ?case
  proof (cases i)
    case (Suc j)
    with Cons.IH [of j] Cons.prems show ?thesis by (auto split: if_splits)
  qed simp
qed simp

lemma active_ok_update:
  assumes "active_ok pg s" "slot < length (workers s)"
    and "\<And>k. act k = active s k - (if running_in k (workers s ! slot) then 1 else 0) + (if running_in k w then 1 else 0)"
    and "\<And>k. running_in k w \<Longrightarrow> active s k < pg"
    and "workers t = (workers s)[slot := w]" "active t = act"
  shows "active_ok pg t"
  unfolding active_ok_def assms(5,6)
proof (intro allI conjI)
  fix k
  have a: "active s k = int (length (filter (running_in k) (workers s)))" "active s k \<le> pg"
    using assms(1) unfolding active_ok_def by blast+
  show "act k = int (length (filter (running_in k) ((workers s)[slot := w])))"
    by (simp only: filter_update_length [OF assms(2)] assms(3) a(1))
  show "act k \<le> pg"
    using a(2) assms(4) [of k] by (auto simp: assms(3))
qed

lemma running_in_simps [simp]:
  "running_in k (Running k' i x) \<longleftrightarrow> k' = k" "\<not> running_in k Looking" "\<not> running_in k Returned"
  "\<not> running_in k WorkerFailed" "\<not> running_in k WorkerCancelled"
  by (auto simp: running_in_def)

lemma bstep_active_ok:
  assumes "bstep outcome pg s t" "active_ok pg s"
  shows "active_ok pg t"
  using assms(1)
proof cases
  case (admit slot key index item s')
  from scan_Some [OF admit(5)] obtain i r where
    "key = groups s ! i" "active s key < pg" and s': "workers s' = workers s" "active s' = (active s)(key := active s key + 1)"
    by auto
  with admit show ?thesis
    by (intro active_ok_update [OF assms(2) admit(2), where w = "Running key index item" and act = "active s'"]) auto
next
  case (complete slot key index item r)
  then show ?thesis
    by (intro active_ok_update [OF assms(2), of slot "active t" Looking]) (auto simp: release_def)
next
  case (fail slot key index item e)
  then show ?thesis
    by (intro active_ok_update [OF assms(2), of slot "active t" WorkerFailed]) (auto simp: release_def)
next
  case (cancel_running slot key index item)
  then show ?thesis
    by (intro active_ok_update [OF assms(2), of slot "active t" WorkerCancelled]) (auto simp: release_def)
next
  case (stop slot)
  then show ?thesis
    by (intro active_ok_update [OF assms(2), of slot "active t" Returned]) auto
next
  case (exhausted slot s')
  then show ?thesis
    by (intro active_ok_update [OF assms(2), of slot "active t" Returned]) auto
next
  case (cancel_waiting slot)
  then show ?thesis
    by (intro active_ok_update [OF assms(2), of slot "active t" WorkerCancelled]) auto
qed

text \<open>A worker that stops working on its item (or had none) leaves the queues in order.\<close>

lemma works_update:
  "workers t = (workers s)[slot := v] \<Longrightarrow> slot < length (workers s) \<Longrightarrow>
     works t w k i x \<longleftrightarrow> (w \<noteq> slot \<and> works s w k i x) \<or> (w = slot \<and> v = Running k i x)"
  by (auto simp: works_def nth_list_update)

lemma filed_cong: "results t = results s \<Longrightarrow> filed items gk t k i x = filed items gk s k i x"
  by (simp add: filed_def)

lemma queue_okD:
  assumes "queue_ok items gk s"
  shows "length (results s) = length items" "distinct (map fst (pending s k))"
    "k \<notin> set (groups s) \<Longrightarrow> pending s k = []"
    "(i, x) \<in> set (pending s k) \<Longrightarrow> filed items gk s k i x"
    "works s w k i x \<Longrightarrow> filed items gk s k i x" "works s w k i x \<Longrightarrow> i \<notin> fst ` set (pending s k)"
    "works s w k i x \<Longrightarrow> works s w' k' i x' \<Longrightarrow> w' = w"
  using assms unfolding queue_ok_def by simp_all (blast+)?

lemma queue_okI:
  assumes "length (results s) = length items" "\<And>k. distinct (map fst (pending s k))"
    "\<And>k. k \<notin> set (groups s) \<Longrightarrow> pending s k = []"
    "\<And>k i x. (i, x) \<in> set (pending s k) \<Longrightarrow> filed items gk s k i x"
    "\<And>w k i x. works s w k i x \<Longrightarrow> filed items gk s k i x"
    "\<And>w k i x. works s w k i x \<Longrightarrow> i \<notin> fst ` set (pending s k)"
    "\<And>w w' k k' i x x'. works s w k i x \<Longrightarrow> works s w' k' i x' \<Longrightarrow> w' = w"
  shows "queue_ok items gk s"
  using assms unfolding queue_ok_def by (intro conjI allI impI) auto

lemma queue_ok_rest:
  assumes q: "queue_ok items gk s" and eq: "groups t = groups s" "pending t = pending s" "results t = results s"
    and t: "workers t = (workers s)[slot := v]" "slot < length (workers s)" "\<And>k i x. v \<noteq> Running k i x"
  shows "queue_ok items gk t"
proof -
  have run: "works s w k i x" if "works t w k i x" for w k i x
    using that t(3) by (simp add: works_update [OF t(1,2)])
  show ?thesis
  proof (rule queue_okI, unfold filed_cong [OF eq(3)] eq, goal_cases)
    case (7 w w' k k' i x x')
    from queue_okD(7) [OF q run [OF 7(1)] run [OF 7(2)]] show ?case .
  qed (use queue_okD(1-4) [OF q] queue_okD(5,6) [OF q run] in blast)+
qed

lemma queue_owner:
  assumes q: "queue_ok items gk s" and w: "works s slot key index item" and "(i, x) \<in> set (pending s k)"
  shows "i \<noteq> index"
proof
  assume i: "i = index"
  have "k = key" using queue_okD(4) [OF q assms(3)] queue_okD(5) [OF q w] i by (simp add: filed_def)
  with assms(3) i queue_okD(6) [OF q w] show False by force
qed

lemma queue_ok_complete:
  assumes q: "queue_ok items gk s" and w: "works s slot key index item"
  shows "queue_ok items gk (release key slot Looking (s\<lparr>results := (results s)[index := Some r]\<rparr>))"
    (is "queue_ok _ _ ?t")
proof -
  have slot: "slot < length (workers s)" using w by (simp add: works_def)
  have keep: "filed items gk ?t k i x" if "filed items gk s k i x" "i \<noteq> index" for k i x
    using that by (simp add: filed_def release_def)
  have run: "works s v k i x \<and> v \<noteq> slot" if "works ?t v k i x" for v k i x
    using that works_update [of ?t s slot Looking] slot by (simp add: release_def)
  have diff: "works s v k i x \<and> i \<noteq> index" if "works ?t v k i x" for v k i x
    using run [OF that] queue_okD(7) [OF q w, of v k x] by auto
  have eq: "pending ?t = pending s" "groups ?t = groups s" by (simp_all add: release_def)
  show ?thesis
  proof (rule queue_okI, goal_cases)
    case 1
    show ?case using queue_okD(1) [OF q] by (simp add: release_def)
  next
    case (5 v k i x)
    with diff queue_okD(5) [OF q] keep show ?case by blast
  next
    case (6 v k i x)
    with diff have "works s v k i x" by blast
    from queue_okD(6) [OF q this] show ?case unfolding eq .
  next
    case (7 v v' k k' i x x')
    with run queue_okD(7) [OF q] show ?case by blast
  qed (use queue_okD(2,3) [OF q] queue_okD(4) [OF q] queue_owner [OF q w] keep eq in auto)
qed

lemma queue_ok_admit:
  assumes q: "queue_ok items gk s" and p: "pending s key = (index, item) # rest"
    and t: "pending t = (pending s)(key := rest)" "set (groups t) = set (groups s)" "results t = results s"
      "workers t = (workers s)[slot := Running key index item]" and slot: "slot < length (workers s)"
  shows "queue_ok items gk t"
proof -
  have sub: "set (pending t k) \<subseteq> set (pending s k)" for k
    using p by (auto simp: t(1) split: if_splits)
  have head: "filed items gk s key index item" "index \<notin> fst ` set rest"
    using queue_okD(4) [OF q, of index item key] queue_okD(2) [OF q, of key] p by simp_all
  have gone: "\<not> works s w k index x" for w k x
    using queue_owner [OF q, of w k index x index item key] p by auto
  have run: "works t w k i x \<longleftrightarrow> (w \<noteq> slot \<and> works s w k i x) \<or> (w = slot \<and> k = key \<and> i = index \<and> x = item)"
    for w k i x using works_update [OF t(4) slot] by auto
  show ?thesis
  proof (rule queue_okI, unfold filed_cong [OF t(3)], goal_cases)
    case (2 k)
    show ?case using queue_okD(2) [OF q, of k] queue_okD(2) [OF q, of key] p by (simp add: t(1))
  next
    case (3 k)
    then show ?case using queue_okD(3) [OF q, of k] p t(2) by (auto simp: t(1))
  next
    case (5 w k i x)
    with run queue_okD(5) [OF q] head show ?case by blast
  next
    case (6 w k i x)
    then consider "works s w k i x" | "k = key" "i = index" using run by blast
    then show ?case
    proof cases
      case 1
      with queue_okD(6) [OF q] sub show ?thesis by blast
    qed (use head in \<open>simp add: t(1)\<close>)
  next
    case (7 w w' k k' i x x')
    with run gone queue_okD(7) [OF q] show ?case by metis
  next
    case (4 k i x)
    with sub have "(i, x) \<in> set (pending s k)" by blast
    then show ?case by (rule queue_okD(4) [OF q])
  qed (use queue_okD(1) [OF q] t(3) in simp)
qed

lemma scan_groups: "scan pg (length (groups s)) s = (Some x, s') \<Longrightarrow> set (groups s') = set (groups s) \<and> results s' = results s \<and> failures s' = failures s"
  using scan_Some [of pg "length (groups s)" s "fst x" "fst (snd x)" "snd (snd x)" s']
  by (auto simp: set_append [symmetric] simp del: set_append) (metis append_take_drop_id set_append sup_commute)+

lemma results_ok_step:
  assumes "bstep outcome pg s t" "results_ok outcome items s" "queue_ok items gk s"
  shows "results_ok outcome items t"
  using assms(1)
proof cases
  case (admit slot key index item s')
  with scan_groups [OF admit(5)] assms(2) show ?thesis by (simp add: results_ok_def)
next
  case (complete slot key index item r)
  then have "works s slot key index item" by (simp add: works_def)
  from queue_okD(5) [OF assms(3) this] have "item = items ! index" "index < length items"
    by (simp_all add: filed_def)
  with complete assms(2) queue_okD(1) [OF assms(3)] show ?thesis
    by (auto simp: results_ok_def release_def nth_list_update split: if_splits)
next
  case (fail slot key index item e)
  then have "works s slot key index item" by (simp add: works_def)
  from queue_okD(5) [OF assms(3) this] have "item = items ! index" "index < length items"
    by (simp_all add: filed_def)
  with fail assms(2) show ?thesis by (auto simp: results_ok_def release_def)
qed (use assms(2) in \<open>simp_all add: results_ok_def release_def\<close>)

lemma queue_ok_step:
  assumes "bstep outcome pg s t" "queue_ok items gk s"
  shows "queue_ok items gk t"
  using assms(1)
proof cases
  case (admit slot key index item s')
  from scan_Some [OF admit(5)] obtain rest where
    "pending s key = (index, item) # rest" "pending s' = (pending s)(key := rest)" by auto
  with admit scan_groups [OF admit(5)] show ?thesis
    by (intro queue_ok_admit [OF assms(2), where t = t and slot = slot]) auto
next
  case (complete slot key index item r)
  then show ?thesis using queue_ok_complete [OF assms(2)] by (simp add: works_def)
next
  case (fail slot key index item e)
  then show ?thesis
    by (intro queue_ok_rest [OF assms(2), where slot = slot and v = WorkerFailed]) (auto simp: release_def)
next
  case (cancel_running slot key index item)
  then show ?thesis
    by (intro queue_ok_rest [OF assms(2), where slot = slot and v = WorkerCancelled]) (auto simp: release_def)
next
  case (stop slot)
  then show ?thesis by (intro queue_ok_rest [OF assms(2), where slot = slot and v = Returned]) auto
next
  case (exhausted slot s')
  then show ?thesis by (intro queue_ok_rest [OF assms(2), where slot = slot and v = Returned]) auto
next
  case (cancel_waiting slot)
  then show ?thesis by (intro queue_ok_rest [OF assms(2), where slot = slot and v = WorkerCancelled]) auto
qed

text \<open>A step that records or follows a failure needs no accounting.\<close>

lemma accounted_failed: "failures s \<noteq> [] \<Longrightarrow> accounted items s"
  by (simp add: accounted_def)

lemma accountedD:
  assumes "accounted items s" "failures s = []"
  shows "i < length items \<Longrightarrow> results s ! i \<noteq> None \<or> (\<exists>k x. (i, x) \<in> set (pending s k)) \<or> (\<exists>w k x. works s w k i x)"
    "w \<in> set (workers s) \<Longrightarrow> w \<noteq> WorkerFailed \<and> w \<noteq> WorkerCancelled"
    "Returned \<in> set (workers s) \<Longrightarrow> pending s k = []"
  using assms by (auto simp: accounted_def)

lemma accountedI:
  assumes "\<And>i. failures s = [] \<Longrightarrow> i < length items \<Longrightarrow>
      results s ! i \<noteq> None \<or> (\<exists>k x. (i, x) \<in> set (pending s k)) \<or> (\<exists>w k x. works s w k i x)"
    "\<And>w. failures s = [] \<Longrightarrow> w \<in> set (workers s) \<Longrightarrow> w \<noteq> WorkerFailed \<and> w \<noteq> WorkerCancelled"
    "\<And>k. failures s = [] \<Longrightarrow> Returned \<in> set (workers s) \<Longrightarrow> pending s k = []"
  shows "accounted items s"
  using assms by (auto simp: accounted_def)

lemma set_workers: "workers t = (workers s)[slot := v] \<Longrightarrow> w \<in> set (workers t) \<Longrightarrow> w = v \<or> w \<in> set (workers s)"
  using set_update_subset_insert [of "workers s" slot v] by auto

lemma accounted_step:
  assumes "bstep outcome pg s t" "accounted items s" "queue_ok items gk s"
  shows "accounted items t"
  using assms(1)
proof cases
  case (admit slot key index item s')
  note run = works_update [of t s slot "Running key index item"]
  from scan_Some [OF admit(5)] obtain i rest where pk: "pending s key = (index, item) # rest"
    and s': "s' = s\<lparr>groups := drop (Suc i) (groups s) @ take (Suc i) (groups s),
        pending := (pending s)(key := rest), active := (active s)(key := active s key + 1)\<rparr>" by blast
  have p: "pending s key = (index, item) # rest"
    "pending t = (pending s)(key := rest)" "results t = results s" "failures t = failures s"
    "workers t = (workers s)[slot := Running key index item]" unfolding admit(1) s' by (simp_all add: pk)
  show ?thesis
  proof (rule accountedI, goal_cases)
    case (1 i)
    from accountedD(1) [OF assms(2) admit(4) 1(2)] consider "results s ! i \<noteq> None"
      | k x where "(i, x) \<in> set (pending s k)" | w k x where "works s w k i x" by blast
    then show ?case
    proof cases
      case (2 k x)
      have here: "works t slot key index item" using run [OF p(5) admit(2)] by blast
      show ?thesis
      proof (cases "k = key \<and> i = index")
        case False
        with 2 p(1,2) have "(i, x) \<in> set (pending t k)" by auto
        then show ?thesis by blast
      qed (use here in blast)
    next
      case (3 w k x)
      with admit(3) have "w \<noteq> slot" by (auto simp: works_def)
      with 3 run [OF p(5) admit(2)] show ?thesis by blast
    qed (simp add: p)
  next
    case (2 w)
    with set_workers [OF p(5)] accountedD(2) [OF assms(2) admit(4)] show ?case by blast
  next
    case (3 k)
    with set_workers [OF p(5)] have "Returned \<in> set (workers s)" by blast
    from accountedD(3) [OF assms(2) admit(4) this, of key] p(1) show ?case by simp
  qed
next
  case (complete slot key index item r)
  note run = works_update [of t s slot Looking]
  have t: "workers t = (workers s)[slot := Looking]" "pending t = pending s" "failures t = failures s"
    "results t = (results s)[index := Some r]" using complete(1) by (simp_all add: release_def)
  have len: "length (results s) = length items" by (rule queue_okD(1) [OF assms(3)])
  show ?thesis
  proof (rule accountedI, unfold t(3), goal_cases)
    case (1 i)
    show ?case
    proof (cases "i = index")
      case True
      with 1 len t show ?thesis by simp
    next
      case False
      from accountedD(1) [OF assms(2) 1(1,2)] consider "results s ! i \<noteq> None"
        | k x where "(i, x) \<in> set (pending s k)" | w k x where "works s w k i x" by blast
      then show ?thesis
      proof cases
        case (3 w k x)
        with complete(3) False have "w \<noteq> slot" by (auto simp: works_def)
        with 3 run [OF t(1) complete(2)] show ?thesis by blast
      qed (use t False in auto)
    qed
  next
    case (2 w)
    with set_workers [OF t(1)] accountedD(2) [OF assms(2)] show ?case by blast
  next
    case (3 k)
    with set_workers [OF t(1)] have "Returned \<in> set (workers s)" by blast
    from accountedD(3) [OF assms(2) 3(1) this] show ?case by (simp add: t)
  qed
next
  case (exhausted slot s')
  note run = works_update [of t s slot Returned]
  have t: "workers t = (workers s)[slot := Returned]" "pending t = pending s" "results t = results s"
    using exhausted(1) by simp_all
  have empty: "pending s k = []" for k
    using exhausted(6) queue_okD(3) [OF assms(3), of k] unfolding drained_def by blast
  show ?thesis
  proof (rule accountedI, goal_cases)
    case (1 i)
    from accountedD(1) [OF assms(2) exhausted(4) 1(2)] empty consider "results s ! i \<noteq> None"
      | w k x where "works s w k i x" by auto
    then show ?case
    proof cases
      case (2 w k x)
      with exhausted(3) have "w \<noteq> slot" by (auto simp: works_def)
      with 2 run [OF t(1) exhausted(2)] show ?thesis by blast
    qed (simp add: t)
  next
    case (2 w)
    with set_workers [OF t(1)] accountedD(2) [OF assms(2) exhausted(4)] show ?case by blast
  qed (simp add: t empty)
qed (auto simp: release_def intro: accounted_failed)

lemma bstep_inv:
  assumes "sched_inv outcome pg items gk n s" "bstep outcome pg s t"
  shows "sched_inv outcome pg items gk n t"
proof -
  have "length (workers t) = length (workers s)"
    using assms(2) by cases (auto simp: release_def)
  with assms bstep_active_ok queue_ok_step results_ok_step accounted_step show ?thesis
    unfolding sched_inv_def by metis
qed

section \<open>The initial state\<close>

definition queued_ok :: "'a list \<Rightarrow> ('a \<Rightarrow> string) \<Rightarrow> nat \<Rightarrow> string list \<times> (string \<Rightarrow> (nat \<times> 'a) list) \<Rightarrow> bool" where
  "queued_ok items gk n gp \<longleftrightarrow>
     (\<forall>k. snd gp k = map (\<lambda>i. (i, items ! i)) (filter (\<lambda>i. gk (items ! i) = k) [0..<n]))
     \<and> set (fst gp) = (\<lambda>i. gk (items ! i)) ` {0..<n}"

lemma enqueue_ok:
  assumes "queued_ok items gk n gp"
  shows "queued_ok items gk (Suc n) (enqueue gk (n, items ! n) gp)"
  using assms by (cases gp) (auto simp: queued_ok_def enqueue_def Let_def atLeast0_lessThan_Suc)

lemma enqueue_all:
  "n \<le> length items \<Longrightarrow> queued_ok items gk n (fold (enqueue gk) (enumerate 0 (take n items)) ([], \<lambda>_. []))"
proof (induction n)
  case 0
  then show ?case by (simp add: queued_ok_def)
next
  case (Suc n)
  let ?gp = "fold (enqueue gk) (enumerate 0 (take n items)) ([], \<lambda>_. [])"
  have "take (Suc n) items = take n items @ [items ! n]" using Suc.prems by (simp add: take_Suc_conv_app_nth)
  then have "fold (enqueue gk) (enumerate 0 (take (Suc n) items)) ([], \<lambda>_. []) = enqueue gk (n, items ! n) ?gp"
    using Suc.prems by (simp add: enumerate_append_eq)
  moreover have "queued_ok items gk n ?gp" using Suc by simp
  ultimately show ?case by (simp only: enqueue_ok)
qed

lemma start_inv:
  assumes "0 \<le> pg"
  shows "sched_inv outcome pg items gk n (start items gk n)"
proof -
  obtain gs p where gp: "fold (enqueue gk) (enumerate 0 items) ([], \<lambda>_. []) = (gs, p)" by (cases "fold (enqueue gk) (enumerate 0 items) ([], \<lambda>_. [])")
  with enqueue_all [of "length items" items gk] have q: "queued_ok items gk (length items) (gs, p)" by simp
  let ?s = "start items gk n :: ('a, 'b) sched"
  have s: "?s = \<lparr>pending = p, groups = gs, active = (\<lambda>_. 0), results = replicate (length items) None,
       failures = [], workers = replicate (min n (length items)) Looking\<rparr>" by (simp add: start_def gp)
  have w: "\<not> works ?s v k i x" for v k i x by (auto simp: works_def s)
  have "queue_ok items gk ?s"
    using q w by (intro queue_okI) (auto simp: s queued_ok_def filed_def comp_def filter_empty_conv)
  moreover have "accounted items ?s"
  proof (rule accountedI, goal_cases)
    case (1 i)
    then have "(i, items ! i) \<in> set (p (gk (items ! i)))" using q by (simp add: queued_ok_def)
    then show ?case by (auto simp: s)
  qed (auto simp: s)
  ultimately show ?thesis
    using assms by (auto simp: sched_inv_def s active_ok_def results_ok_def)
qed

section \<open>Termination and progress\<close>

definition worker_weight :: "'a worker \<Rightarrow> nat" where
  "worker_weight w = (case w of Looking \<Rightarrow> 1 | Running _ _ _ \<Rightarrow> 2 | _ \<Rightarrow> 0)"

definition weight :: "('a, 'r) sched \<Rightarrow> nat" where
  "weight s = 2 * sum_list (map (\<lambda>k. length (pending s k)) (groups s)) + sum_list (map worker_weight (workers s))"

lemma sum_list_update_nat:
  "i < length xs \<Longrightarrow> sum_list (map f (xs[i := x])) + f (xs ! i) = sum_list (map f xs) + (f x :: nat)"
proof (induction xs arbitrary: i)
  case (Cons a xs)
  then show ?case by (cases i) auto
qed simp

lemma sum_list_pop:
  fixes p :: "'k \<Rightarrow> 'x list"
  assumes "p k = x # r" "k \<in> set ks"
  shows "sum_list (map (\<lambda>j. length ((p(k := r)) j)) ks) < sum_list (map (\<lambda>j. length (p j)) ks)"
  using assms(2)
proof (induction ks)
  case (Cons j ks)
  have le: "sum_list (map (\<lambda>j. length ((p(k := r)) j)) ks) \<le> sum_list (map (\<lambda>j. length (p j)) ks)"
    using assms(1) by (intro sum_list_mono) auto
  show ?case
  proof (cases "j = k")
    case True
    with le assms(1) show ?thesis by simp
  next
    case False
    with Cons show ?thesis by simp
  qed
qed simp

lemma sum_list_rotate: "sum_list (map f (drop i xs @ take i xs)) = (sum_list (map f xs) :: nat)"
proof -
  have "sum_list (map f xs) = sum_list (map f (take i xs @ drop i xs))" by simp
  then show ?thesis by (simp only: map_append sum_list_append add.commute)
qed

lemma bstep_weight:
  assumes "bstep outcome pg s t"
  shows "weight t < weight s"
proof -
  note upd = sum_list_update_nat [of _ "workers s" worker_weight]
  have idle: "weight u < weight s"
    if "groups u = groups s" "pending u = pending s" "workers u = (workers s)[slot := v]"
      "slot < length (workers s)" "worker_weight v < worker_weight (workers s ! slot)" for slot v u
    using that upd [of slot v] by (simp add: weight_def)
  from assms show ?thesis
  proof cases
    case (admit slot key index item s')
    from scan_Some [OF admit(5)] obtain i rest where i: "i < length (groups s)" "key = groups s ! i"
      and p: "pending s key = (index, item) # rest"
      and s': "s' = s\<lparr>groups := drop (Suc i) (groups s) @ take (Suc i) (groups s),
          pending := (pending s)(key := rest), active := (active s)(key := active s key + 1)\<rparr>" by blast
    have "sum_list (map (\<lambda>j. length (((pending s)(key := rest)) j)) (groups s)) < sum_list (map (\<lambda>j. length (pending s j)) (groups s))"
      using i by (intro sum_list_pop [where p = "pending s", OF p]) simp
    moreover have "sum_list (map worker_weight ((workers s)[slot := Running key index item])) \<le> Suc (sum_list (map worker_weight (workers s)))"
      using upd [of slot "Running key index item"] admit by (simp add: worker_weight_def)
    ultimately show ?thesis
      unfolding admit(1) s' weight_def by (simp add: sum_list_rotate del: map_append drop_append take_append fun_upd_apply)
  next
    case (complete slot key index item r)
    then show ?thesis by (intro idle [of t slot Looking]) (simp_all add: release_def worker_weight_def)
  next
    case (fail slot key index item e)
    then show ?thesis by (intro idle [of t slot WorkerFailed]) (simp_all add: release_def worker_weight_def)
  next
    case (cancel_running slot key index item)
    then show ?thesis by (intro idle [of t slot WorkerCancelled]) (simp_all add: release_def worker_weight_def)
  next
    case (stop slot)
    then show ?thesis by (intro idle [of t slot Returned]) (simp_all add: worker_weight_def)
  next
    case (exhausted slot s')
    then show ?thesis by (intro idle [of t slot Returned]) (simp_all add: worker_weight_def)
  next
    case (cancel_waiting slot)
    then show ?thesis by (intro idle [of t slot WorkerCancelled]) (simp_all add: worker_weight_def)
  qed
qed

lemma not_ended: "\<not> ended w \<longleftrightarrow> w = Looking \<or> (\<exists>k i x. w = Running k i x)"
  by (cases w) (auto simp: ended_def)

lemma ended_Returned: "ended w \<Longrightarrow> w \<noteq> WorkerFailed \<Longrightarrow> w \<noteq> WorkerCancelled \<Longrightarrow> w = Returned"
  by (cases w) (auto simp: ended_def)

lemma scan_admits:
  assumes "k \<in> set (groups s)" "pending s k \<noteq> []" "active s k < pg"
  shows "\<exists>x s'. scan pg (length (groups s)) s = (Some x, s')"
proof (rule ccontr)
  assume "\<not> ?thesis"
  then obtain s' where "scan pg (length (groups s)) s = (None, s')"
    by (metis not_Some_eq surj_pair)
  from scan_None [OF this] assms show False by auto
qed

lemma admit_any:
  assumes "slot < length (workers s)" "workers s ! slot = Looking" "failures s = []"
    and "scan pg (length (groups s)) s = (Some y, s')"
  shows "\<exists>t. bstep outcome pg s t"
proof -
  obtain key index item where "y = (key, index, item)" by (cases y)
  with bstep.admit [OF assms(1-3), of pg key index item s' outcome] assms(4) show ?thesis by blast
qed

text \<open>No deadlock: as long as a worker is looking for work or working, some step is possible.\<close>

lemma bstep_progress:
  assumes "sched_inv outcome pg items gk n s" "1 \<le> pg" "\<not> finished s"
    and "\<And>x slot. \<exists>r. outcome x slot r"
  shows "\<exists>t. bstep outcome pg s t"
proof -
  from assms(3) obtain slot where slot: "slot < length (workers s)"
    "workers s ! slot = Looking \<or> (\<exists>k i x. workers s ! slot = Running k i x)"
    unfolding finished_def list_all_length using not_ended by blast
  show ?thesis
  proof (cases "\<exists>slot k i x. works s slot k i x")
    case True
    then obtain v k i x where v: "v < length (workers s)" "workers s ! v = Running k i x" by (auto simp: works_def)
    obtain r where r: "outcome x v r" using assms(4) by blast
    show ?thesis
    proof (cases r)
      case (Inr y)
      from bstep.complete [where outcome = outcome, OF v r [unfolded Inr]] show ?thesis by blast
    next
      case (Inl e)
      show ?thesis
      proof (cases "failures s = []")
        case True
        with bstep.fail [where outcome = outcome, OF v r [unfolded Inl]] show ?thesis by blast
      next
        case False
        with bstep.cancel_running [OF v] show ?thesis by blast
      qed
    qed
  next
    case False
    with slot have look: "workers s ! slot = Looking" by (auto simp: works_def)
    show ?thesis
    proof (cases "failures s = []")
      case fine: True
      show ?thesis
      proof (cases "drained s")
        case True
        obtain a s' where "scan pg (length (groups s)) s = (a, s')" by (cases "scan pg (length (groups s)) s")
        with bstep.exhausted [OF slot(1) look fine _ True] admit_any [OF slot(1) look fine] show ?thesis
          by (cases a) blast+
      next
        case False
        then obtain k where k: "k \<in> set (groups s)" "pending s k \<noteq> []" by (auto simp: drained_def)
        have "filter (running_in k) (workers s) = []"
          using \<open>\<not> (\<exists>slot k i x. works s slot k i x)\<close>
          by (auto simp: filter_empty_conv works_def in_set_conv_nth running_in_def split: worker.splits)
        then have "active s k = 0" using assms(1) by (simp add: sched_inv_def active_ok_def)
        with scan_admits [OF k, of pg] assms(2) admit_any [OF slot(1) look fine] show ?thesis by auto
      qed
    next
      case False
      with bstep.stop [OF slot(1) look] show ?thesis by blast
    qed
  qed
qed

interpretation bounded: inv_system "\<lambda>s. s = start items gk n \<and> 0 \<le> pg" "bstep outcome pg"
  "sched_inv outcome pg items gk n" for items gk n pg outcome
  by unfold_locales (auto intro: start_inv bstep_inv)

section \<open>Properties\<close>

text \<open>
  C25.  Admission is safe in every interleaving: at most \<open>concurrency\<close> workers exist, at most
  \<open>per_group\<close> of them work on one group at a time, no item is worked on twice at once or again
  after it has a result, and every stored result is an outcome of the operation on its own item.
\<close>

theorem bounded_admission_safe:
  assumes "0 \<le> pg" and "(bstep outcome pg)\<^sup>*\<^sup>* (start items gk n) s"
  shows "length (workers s) \<le> n \<and> (\<forall>k. int (length (filter (running_in k) (workers s))) \<le> pg)
    \<and> (\<forall>w w' k k' i x x'. works s w k i x \<longrightarrow> works s w' k' i x' \<longrightarrow> w = w')
    \<and> (\<forall>w k i x. works s w k i x \<longrightarrow> x = items ! i \<and> results s ! i = None)
    \<and> (\<forall>i < length items. \<forall>r. results s ! i = Some r \<longrightarrow> (\<exists>slot. outcome (items ! i) slot (Inr r)))"
proof -
  have inv: "sched_inv outcome pg items gk n s" by (rule bounded.reach_inv [OF _ assms(2)]) (simp add: assms(1))
  then have q: "queue_ok items gk s" by (simp add: sched_inv_def)
  have "int (length (filter (running_in k) (workers s))) \<le> pg" for k
    using inv unfolding sched_inv_def active_ok_def by metis
  moreover have "w = w'" if "works s w k i x" "works s w' k' i x'" for w w' k k' i x x'
    using queue_okD(7) [OF q that] by simp
  moreover have "x = items ! i \<and> results s ! i = None" if "works s w k i x" for w k i x
    using queue_okD(5) [OF q that] by (simp add: filed_def)
  ultimately show ?thesis using inv unfolding sched_inv_def results_ok_def by auto
qed

lemma bounded_reaches_end:
  assumes "sched_inv outcome pg items gk n s" "1 \<le> pg" "\<And>x slot. \<exists>r. outcome x slot r"
  shows "\<exists>t. (bstep outcome pg)\<^sup>*\<^sup>* s t \<and> finished t"
  using assms(1)
proof (induction "weight s" arbitrary: s rule: less_induct)
  case less
  show ?case
  proof (cases "finished s")
    case False
    from bstep_progress [OF less.prems assms(2) False assms(3)] obtain u where u: "bstep outcome pg s u" by blast
    from less.hyps [OF bstep_weight [OF u] bstep_inv [OF less.prems u]] u show ?thesis
      by (blast intro: converse_rtranclp_into_rtranclp)
  qed blast
qed

definition demo_outcome :: "string \<Rightarrow> nat \<Rightarrow> nat result \<Rightarrow> bool" where
  "demo_outcome x slot r \<longleftrightarrow> r = Inr (length x)"

abbreviation demo_start :: "(string, nat) sched" where
  "demo_start \<equiv> start [''ab'', ''c'', ''d''] (\<lambda>x. take 1 x) 2"

lemma demo_end:
  obtains s where "(bstep demo_outcome 1)\<^sup>*\<^sup>* demo_start s" "finished s" "failures s = []"
proof -
  have inv: "sched_inv demo_outcome 1 [''ab'', ''c'', ''d''] (\<lambda>x. take 1 x) 2 demo_start" by (rule start_inv) simp
  have "\<exists>r. demo_outcome x slot r" for x slot by (simp add: demo_outcome_def)
  from bounded_reaches_end [OF inv _ this] obtain s where s: "(bstep demo_outcome 1)\<^sup>*\<^sup>* demo_start s" "finished s"
    by auto
  from bounded.steps_inv [OF s(1) inv] have "failures s = []"
    by (auto simp: sched_inv_def results_ok_def demo_outcome_def)
  with s that show thesis by blast
qed

theorem bounded_admission_safe_witness:
  "\<exists>s. (bstep demo_outcome 1)\<^sup>*\<^sup>* demo_start s \<and> finished s \<and> length (workers s) \<le> 2
     \<and> (\<forall>i < 3. \<forall>r. results s ! i = Some r \<longrightarrow> r = length ([''ab'', ''c'', ''d''] ! i))"
proof -
  obtain s where s: "(bstep demo_outcome 1)\<^sup>*\<^sup>* demo_start s" "finished s" by (rule demo_end)
  have "0 \<le> (1 :: int)" by simp
  from bounded_admission_safe [OF this s(1)] s show ?thesis by (auto simp: demo_outcome_def)
qed





end
