(* ===== verification/Sha256.thy ===== *)
theory Sha256
  imports Prelude "HOL-Library.Word"
begin

text \<open>
  \<open>hashlib.sha256\<close> as the standard (FIPS 180-4) defines it, over byte strings, and the helpers
  of \<open>cardrag_core/canonical.py\<close> that call it.  Every content address of the system is a value
  of \<open>sha256_bytes\<close>.
\<close>

unbundle bit_operations_syntax

type_synonym u32 = "32 word"

definition sha_k :: "u32 list" where
  "sha_k = [
    1116352408, 1899447441, 3049323471, 3921009573, 961987163, 1508970993, 2453635748, 2870763221,
    3624381080, 310598401, 607225278, 1426881987, 1925078388, 2162078206, 2614888103, 3248222580,
    3835390401, 4022224774, 264347078, 604807628, 770255983, 1249150122, 1555081692, 1996064986,
    2554220882, 2821834349, 2952996808, 3210313671, 3336571891, 3584528711, 113926993, 338241895,
    666307205, 773529912, 1294757372, 1396182291, 1695183700, 1986661051, 2177026350, 2456956037,
    2730485921, 2820302411, 3259730800, 3345764771, 3516065817, 3600352804, 4094571909, 275423344,
    430227734, 506948616, 659060556, 883997877, 958139571, 1322822218, 1537002063, 1747873779,
    1955562222, 2024104815, 2227730452, 2361852424, 2428436474, 2756734187, 3204031479, 3329325298]"

definition rotr :: "nat \<Rightarrow> u32 \<Rightarrow> u32" where
  "rotr n x = (drop_bit n x) OR (push_bit (32 - n) x)"

definition big_sigma0 :: "u32 \<Rightarrow> u32" where
  "big_sigma0 x = rotr 2 x XOR rotr 13 x XOR rotr 22 x"

definition big_sigma1 :: "u32 \<Rightarrow> u32" where
  "big_sigma1 x = rotr 6 x XOR rotr 11 x XOR rotr 25 x"

definition small_sigma0 :: "u32 \<Rightarrow> u32" where
  "small_sigma0 x = rotr 7 x XOR rotr 18 x XOR drop_bit 3 x"

definition small_sigma1 :: "u32 \<Rightarrow> u32" where
  "small_sigma1 x = rotr 17 x XOR rotr 19 x XOR drop_bit 10 x"

text \<open>The message schedule, extended one word at a time from the sixteen words of the block.\<close>

fun schedule :: "nat \<Rightarrow> u32 list \<Rightarrow> u32 list" where
  "schedule 0 w = w"
| "schedule (Suc n) w =
     (let t = length w
      in schedule n (w @ [small_sigma1 (w ! (t - 2)) + w ! (t - 7)
                          + small_sigma0 (w ! (t - 15)) + w ! (t - 16)]))"

type_synonym hash_state = "u32 \<times> u32 \<times> u32 \<times> u32 \<times> u32 \<times> u32 \<times> u32 \<times> u32"

definition sha_init :: hash_state where
  "sha_init = (1779033703, 3144134277, 1013904242, 2773480762,
               1359893119, 2600822924, 528734635, 1541459225)"

fun sha_round :: "u32 \<times> u32 \<Rightarrow> hash_state \<Rightarrow> hash_state" where
  "sha_round (k, w) (a, b, c, d, e, f, g, h) =
     (let t1 = h + big_sigma1 e + ((e AND f) XOR (NOT e AND g)) + k + w;
          t2 = big_sigma0 a + ((a AND b) XOR (a AND c) XOR (b AND c))
      in (t1 + t2, a, b, c, d + t1, e, f, g))"

fun add_state :: "hash_state \<Rightarrow> hash_state \<Rightarrow> hash_state" where
  "add_state (a, b, c, d, e, f, g, h) (a', b', c', d', e', f', g', h') =
     (a + a', b + b', c + c', d + d', e + e', f + f', g + g', h + h')"

definition compress :: "u32 list \<Rightarrow> hash_state \<Rightarrow> hash_state" where
  "compress block s = add_state s (fold sha_round (zip sha_k (schedule 48 block)) s)"

definition word_of_bytes :: "bytes \<Rightarrow> u32" where
  "word_of_bytes cs = fold (\<lambda>c w. push_bit 8 w + of_char c) cs 0"

text \<open>Cut a list into pieces of a fixed length (the last one may be short).\<close>

fun chunks_of :: "nat \<Rightarrow> 'a list \<Rightarrow> 'a list list" where
  "chunks_of n xs = (if n = 0 \<or> xs = [] then [] else take n xs # chunks_of n (drop n xs))"

declare chunks_of.simps [simp del]

definition sha_pad :: "bytes \<Rightarrow> bytes" where
  "sha_pad m =
     (let n = length m; z = (119 - n mod 64) mod 64; bits = (8 * n) mod 2 ^ 64
      in m @ char_of (128::nat) # replicate z (char_of (0::nat))
           @ map (\<lambda>i. char_of ((bits div 256 ^ (7 - i)) mod 256)) [0..<8])"

definition hex_digit :: "nat \<Rightarrow> char" where
  "hex_digit n = ''0123456789abcdef'' ! n"

definition word_hex :: "u32 \<Rightarrow> string" where
  "word_hex w = map (\<lambda>i. hex_digit ((unat w div 16 ^ (7 - i)) mod 16)) [0..<8]"

fun state_hex :: "hash_state \<Rightarrow> string" where
  "state_hex (a, b, c, d, e, f, g, h) =
     word_hex a @ word_hex b @ word_hex c @ word_hex d @
     word_hex e @ word_hex f @ word_hex g @ word_hex h"

text \<open>\<open>sha256_bytes\<close> of canonical.py: \<open>hashlib.sha256(bytes(payload)).hexdigest()\<close>.\<close>

definition sha256_bytes :: "bytes \<Rightarrow> string" where
  "sha256_bytes payload =
     state_hex (fold (\<lambda>b. compress (map word_of_bytes (chunks_of 4 b)))
                 (chunks_of 64 (sha_pad payload)) sha_init)"

text \<open>
  \<open>sha256_chunks\<close>: the digest and size of a byte stream.  \<open>digest.update\<close> appends to the
  hashed message, so the running object is the concatenation so far.
\<close>

definition sha256_chunks :: "bytes list \<Rightarrow> string \<times> nat" where
  "sha256_chunks chunks =
     (let (message, size) =
        fold (\<lambda>chunk (message, size). (message @ chunk, size + length chunk)) chunks ([], 0)
      in (sha256_bytes message, size))"

section \<open>Shape of a digest\<close>

lemma hex_digit_is_hex: "n < 16 \<Longrightarrow> is_hex (hex_digit n)"
proof -
  assume "n < 16"
  then have "hex_digit n \<in> set ''0123456789abcdef''"
    unfolding hex_digit_def by (intro nth_mem) simp
  moreover have "list_all is_hex ''0123456789abcdef''"
    by (simp add: is_hex_def is_digit_def less_eq_char_def)
  ultimately show ?thesis by (simp only: list_all_iff)
qed

lemma word_hex_shape: "length (word_hex w) = 8" "list_all is_hex (word_hex w)"
  by (auto simp: word_hex_def list_all_iff intro: hex_digit_is_hex)

lemma state_hex_shape: "sha256_hex (state_hex s)"
proof -
  obtain a b c d e f g h where "s = (a, b, c, d, e, f, g, h)" by (cases s) auto
  then show ?thesis by (simp add: sha256_hex_def word_hex_shape)
qed

lemma sha256_bytes_hex [simp]: "sha256_hex (sha256_bytes m)"
  by (simp add: sha256_bytes_def state_hex_shape)

lemma fold_message:
  "fold (\<lambda>chunk (message, size). (message @ chunk, size + length chunk)) chunks (m, n)
     = (m @ concat chunks, n + length (concat chunks))"
  by (induction chunks arbitrary: m n) auto

text \<open>Streaming and one-shot hashing agree, whatever the chunking.\<close>

lemma sha256_chunks_eq: "sha256_chunks cs = (sha256_bytes (concat cs), length (concat cs))"
  by (simp add: sha256_chunks_def fold_message)

end
