(* ===== verification/Json.thy ===== *)
theory Json
  imports Sha256
begin

text \<open>
  The part of Python's \<open>json\<close> module the system uses.  \<open>dumps sort_keys\<close>
  is \<open>json.dumps(value, ensure_ascii=False, sort_keys=sort_keys, separators=(",", ":"))\<close> on finite values
  and \<open>loads\<close> is \<open>json.loads\<close>.  The main fact is that \<open>loads\<close> reads back what \<open>dumps\<close> wrote,
  up to the order of object keys; canonical bytes are therefore unambiguous.

  A float is represented by its \<open>repr\<close>, which determines it.  The parser recurses on a depth
  bound, the length of the input: every nested value consumes at least one character, so the
  bound is never reached on the text of a value (\<open>loads_dumps\<close>).
\<close>

datatype json =
    JNull
  | JBool bool
  | JInt int
  | JFloat string
  | JStr string
  | JArr "json list"
  | JObj "(string \<times> json) list"

section \<open>Printing\<close>

fun nat_digits :: "nat \<Rightarrow> string" where
  "nat_digits n = (if n < 10 then [hex_digit n] else nat_digits (n div 10) @ [hex_digit (n mod 10)])"

declare nat_digits.simps [simp del]

definition string_of_int :: "int \<Rightarrow> string" where
  "string_of_int i = (if i < 0 then CHR ''-'' # nat_digits (nat (- i)) else nat_digits (nat i))"

definition escape_char :: "char \<Rightarrow> string" where
  "escape_char c =
     (if c = CHR 0x22 then [CHR 0x5C, CHR 0x22]
      else if c = CHR 0x5C then [CHR 0x5C, CHR 0x5C]
      else if c = CHR 0x08 then [CHR 0x5C, CHR ''b'']
      else if c = CHR 0x0C then [CHR 0x5C, CHR ''f'']
      else if c = CHR 0x0A then [CHR 0x5C, CHR ''n'']
      else if c = CHR 0x0D then [CHR 0x5C, CHR ''r'']
      else if c = CHR 0x09 then [CHR 0x5C, CHR ''t'']
      else if (of_char c :: nat) < 32
      then [CHR 0x5C, CHR ''u'', CHR ''0'', CHR ''0'', hex_digit (of_char c div 16),
            hex_digit (of_char c mod 16)]
      else [c])"

definition json_quote :: "string \<Rightarrow> string" where
  "json_quote s = CHR 0x22 # concat (map escape_char s) @ [CHR 0x22]"

text \<open>\<open>sort_keys\<close> orders the items by key; keys of a dict are distinct.\<close>

definition key_order :: "bool \<Rightarrow> (string \<times> 'a) list \<Rightarrow> (string \<times> 'a) list" where
  "key_order sk kvs = (if sk then sort_key fst kvs else kvs)"

fun dumps :: "bool \<Rightarrow> json \<Rightarrow> string" where
  "dumps sk JNull = ''null''"
| "dumps sk (JBool b) = (if b then ''true'' else ''false'')"
| "dumps sk (JInt i) = string_of_int i"
| "dumps sk (JFloat r) = r"
| "dumps sk (JStr s) = json_quote s"
| "dumps sk (JArr vs) = ''['' @ join_with (CHR '','') (map (dumps sk) vs) @ '']''"
| "dumps sk (JObj kvs) =
     ''{'' @ join_with (CHR '','')
       (map (\<lambda>(k, t). json_quote k @ '':'' @ t)
         (key_order sk (map (\<lambda>(k, v). (k, dumps sk v)) kvs))) @ ''}''"

section \<open>Parsing\<close>

definition is_ws :: "char \<Rightarrow> bool" where
  "is_ws c \<longleftrightarrow> c = CHR '' '' \<or> c = CHR 0x09 \<or> c = CHR 0x0A \<or> c = CHR 0x0D"

abbreviation skip_ws :: "string \<Rightarrow> string" where
  "skip_ws \<equiv> dropWhile is_ws"

definition hex_val :: "char \<Rightarrow> nat option" where
  "hex_val c =
     (let n = of_char c in
      if 48 \<le> n \<and> n \<le> 57 then Some (n - 48)
      else if 97 \<le> n \<and> n \<le> 102 then Some (n - 87)
      else if 65 \<le> n \<and> n \<le> 70 then Some (n - 55)
      else None)"

fun hex4 :: "string \<Rightarrow> (nat \<times> string) option" where
  "hex4 (a # b # c # d # r) =
     (case (hex_val a, hex_val b, hex_val c, hex_val d) of
        (Some x, Some y, Some z, Some w) \<Rightarrow> Some (4096 * x + 256 * y + 16 * z + w, r)
      | _ \<Rightarrow> None)"
| "hex4 _ = None"

definition utf8 :: "nat \<Rightarrow> string" where
  "utf8 n =
     (if n < 128 then [char_of n]
      else if n < 2048 then [char_of (192 + n div 64), char_of (128 + n mod 64)]
      else if n < 65536
      then [char_of (224 + n div 4096), char_of (128 + n div 64 mod 64), char_of (128 + n mod 64)]
      else [char_of (240 + n div 262144), char_of (128 + n div 4096 mod 64),
            char_of (128 + n div 64 mod 64), char_of (128 + n mod 64)])"

text \<open>
  The escape after a \<open>\u\<close>; a high surrogate takes a following low surrogate with it.  A lone
  surrogate has no UTF-8 text and is refused.
\<close>

definition unicode_escape :: "string \<Rightarrow> (string \<times> string) option" where
  "unicode_escape s = (case hex4 s of None \<Rightarrow> None
     | Some (n, r) \<Rightarrow>
        if 55296 \<le> n \<and> n < 56320 then
          (case r of CHR 0x5C # CHR ''u'' # r' \<Rightarrow>
             (case hex4 r' of None \<Rightarrow> None
              | Some (m, r'') \<Rightarrow> if 56320 \<le> m \<and> m < 57344
                  then Some (utf8 (65536 + 1024 * (n - 55296) + (m - 56320)), r'') else None)
           | _ \<Rightarrow> None)
        else if 56320 \<le> n \<and> n < 57344 then None
        else Some (utf8 n, r))"

definition simple_escape :: "char \<Rightarrow> char option" where
  "simple_escape c = map_of
     [(CHR 0x22, CHR 0x22), (CHR 0x5C, CHR 0x5C), (CHR ''/'', CHR ''/''), (CHR ''b'', CHR 0x08),
      (CHR ''f'', CHR 0x0C), (CHR ''n'', CHR 0x0A), (CHR ''r'', CHR 0x0D), (CHR ''t'', CHR 0x09)] c"

text \<open>The body of a string literal, from after the opening quote to after the closing one.\<close>

fun parse_string :: "nat \<Rightarrow> string \<Rightarrow> (string \<times> string) option" where
  "parse_string 0 s = None"
| "parse_string (Suc n) [] = None"
| "parse_string (Suc n) (c # s) =
     (if c = CHR 0x22 then Some ([], s)
      else if c = CHR 0x5C then
        (case s of [] \<Rightarrow> None
         | e # r \<Rightarrow>
            if e = CHR ''u'' then
              (case unicode_escape r of None \<Rightarrow> None
               | Some (t, r') \<Rightarrow> map_option (\<lambda>(x, y). (t @ x, y)) (parse_string n r'))
            else (case simple_escape e of None \<Rightarrow> None
               | Some d \<Rightarrow> map_option (\<lambda>(x, y). (d # x, y)) (parse_string n r)))
      else if (of_char c :: nat) < 32 then None
      else map_option (\<lambda>(x, y). (c # x, y)) (parse_string n s))"

definition nat_of_digits :: "string \<Rightarrow> nat" where
  "nat_of_digits s = foldl (\<lambda>n c. 10 * n + (of_char c - 48)) 0 s"

text \<open>
  \<open>NUMBER_RE\<close>: \<open>-?(0|[1-9][0-9]*)\<close>, then an optional fraction and an optional exponent; the
  parts as read and the rest of the input.
\<close>

definition lex_int :: "string \<Rightarrow> (string \<times> string) option" where
  "lex_int s = (case s of [] \<Rightarrow> None
     | c # r \<Rightarrow> if c = CHR ''0'' then Some ([c], r)
         else if is_digit c then Some (takeWhile is_digit s, dropWhile is_digit s) else None)"

definition lex_frac :: "string \<Rightarrow> string \<times> string" where
  "lex_frac s = (case s of [] \<Rightarrow> ([], s)
     | c # r \<Rightarrow> if c = CHR ''.'' \<and> takeWhile is_digit r \<noteq> []
         then (c # takeWhile is_digit r, dropWhile is_digit r) else ([], s))"

definition lex_exp :: "string \<Rightarrow> string \<times> string" where
  "lex_exp s = (case s of [] \<Rightarrow> ([], s)
     | c # r \<Rightarrow>
        if c = CHR ''e'' \<or> c = CHR ''E'' then
          (let (sg, d) = (case r of x # r' \<Rightarrow> if x = CHR ''+'' \<or> x = CHR ''-'' then ([x], r') else ([], r)
                          | [] \<Rightarrow> ([], r))
           in if takeWhile is_digit d \<noteq> []
              then (c # sg @ takeWhile is_digit d, dropWhile is_digit d) else ([], s))
        else ([], s))"

definition parse_number :: "string \<Rightarrow> (json \<times> string) option" where
  "parse_number s =
     (let (sg, u) = (case s of c # r \<Rightarrow> if c = CHR ''-'' then ([c], r) else ([], s) | [] \<Rightarrow> ([], s))
      in case lex_int u of None \<Rightarrow> None
         | Some (ip, r1) \<Rightarrow>
            (let (fp, r2) = lex_frac r1; (ep, r3) = lex_exp r2
             in if fp = [] \<and> ep = []
                then Some (JInt (if sg = [] then int (nat_of_digits ip) else - int (nat_of_digits ip)), r3)
                else Some (JFloat (sg @ ip @ fp @ ep), r3)))"

fun strip_prefix :: "string \<Rightarrow> string \<Rightarrow> string option" where
  "strip_prefix [] s = Some s"
| "strip_prefix (p # ps) [] = None"
| "strip_prefix (p # ps) (c # s) = (if p = c then strip_prefix ps s else None)"

definition parse_literal :: "string \<Rightarrow> (json \<times> string) option" where
  "parse_literal s =
     (case strip_prefix ''null'' s of Some r \<Rightarrow> Some (JNull, r) | None \<Rightarrow>
     (case strip_prefix ''true'' s of Some r \<Rightarrow> Some (JBool True, r) | None \<Rightarrow>
     (case strip_prefix ''false'' s of Some r \<Rightarrow> Some (JBool False, r) | None \<Rightarrow>
     (case strip_prefix ''NaN'' s of Some r \<Rightarrow> Some (JFloat ''nan'', r) | None \<Rightarrow>
     (case strip_prefix ''Infinity'' s of Some r \<Rightarrow> Some (JFloat ''inf'', r) | None \<Rightarrow>
     (case strip_prefix ''-Infinity'' s of Some r \<Rightarrow> Some (JFloat ''-inf'', r) | None \<Rightarrow>
      parse_number s))))))"

text \<open>
  A value, the elements of an array after its first bracket or comma, and the members of an
  object likewise.  A later member replaces an earlier one with the same key, in its place.
\<close>

fun parse_value :: "nat \<Rightarrow> string \<Rightarrow> (json \<times> string) option"
  and parse_elems :: "nat \<Rightarrow> string \<Rightarrow> (json list \<times> string) option"
  and parse_members :: "nat \<Rightarrow> string \<Rightarrow> ((string \<times> json) list \<times> string) option"
where
  "parse_value 0 s = None"
| "parse_value (Suc n) [] = None"
| "parse_value (Suc n) (c # s) =
     (if c = CHR 0x22 then map_option (\<lambda>(x, r). (JStr x, r)) (parse_string (Suc (length s)) s)
      else if c = CHR ''['' then
        (case skip_ws s of [] \<Rightarrow> None
         | d # r \<Rightarrow> if d = CHR '']'' then Some (JArr [], r)
             else map_option (\<lambda>(vs, r'). (JArr vs, r')) (parse_elems n (d # r)))
      else if c = CHR ''{'' then
        (case skip_ws s of [] \<Rightarrow> None
         | d # r \<Rightarrow> if d = CHR ''}'' then Some (JObj [], r)
             else map_option (\<lambda>(kvs, r'). (JObj (dict_of kvs), r')) (parse_members n (d # r)))
      else parse_literal (c # s))"
| "parse_elems 0 s = None"
| "parse_elems (Suc n) s =
     (case parse_value n s of None \<Rightarrow> None
      | Some (v, r) \<Rightarrow>
         (case skip_ws r of [] \<Rightarrow> None
          | d # r' \<Rightarrow> if d = CHR '']'' then Some ([v], r')
              else if d = CHR '','' then
                map_option (\<lambda>(vs, q). (v # vs, q)) (parse_elems n (skip_ws r'))
              else None))"
| "parse_members 0 s = None"
| "parse_members (Suc n) s =
     (case s of [] \<Rightarrow> None
      | q # s' \<Rightarrow> if q \<noteq> CHR 0x22 then None else
         (case parse_string (Suc (length s')) s' of None \<Rightarrow> None
          | Some (k, r) \<Rightarrow>
            (case skip_ws r of [] \<Rightarrow> None
             | c # r1 \<Rightarrow> if c \<noteq> CHR '':'' then None else
               (case parse_value n (skip_ws r1) of None \<Rightarrow> None
                | Some (v, r2) \<Rightarrow>
                  (case skip_ws r2 of [] \<Rightarrow> None
                   | d # r3 \<Rightarrow> if d = CHR ''}'' then Some ([(k, v)], r3)
                       else if d = CHR '','' then
                         map_option (\<lambda>(kvs, z). ((k, v) # kvs, z)) (parse_members n (skip_ws r3))
                       else None)))))"

definition loads :: "string \<Rightarrow> json result" where
  "loads s =
     (case parse_value (2 * length s + 2) (skip_ws s) of
        Some (v, r) \<Rightarrow> if skip_ws r = [] then Inr v else Inl (ValueError ''Extra data'')
      | None \<Rightarrow> Inl (ValueError ''JSONDecodeError''))"

section \<open>Reading back what was written\<close>

text \<open>The value with the keys of every object in order, as \<open>dumps\<close> writes them.\<close>

fun norm_json :: "bool \<Rightarrow> json \<Rightarrow> json" where
  "norm_json sk (JArr vs) = JArr (map (norm_json sk) vs)"
| "norm_json sk (JObj kvs) = JObj (key_order sk (map (\<lambda>(k, v). (k, norm_json sk v)) kvs))"
| "norm_json sk v = v"

text \<open>
  Values a Python program can hand to \<open>dumps\<close>: dict keys are distinct, and the text of a float
  is a JSON number with a fraction or an exponent, as \<open>float.__repr__\<close> of a finite float is.
\<close>

fun wf_json :: "json \<Rightarrow> bool" where
  "wf_json (JArr vs) = list_all wf_json vs"
| "wf_json (JObj kvs) = (wf_dict kvs \<and> list_all (\<lambda>(k, v). wf_json v) kvs)"
| "wf_json (JFloat r) = (parse_number r = Some (JFloat r, []))"
| "wf_json v = True"

definition stop :: "string \<Rightarrow> bool" where
  "stop s \<longleftrightarrow> s = [] \<or> hd s = CHR '','' \<or> hd s = CHR '']'' \<or> hd s = CHR ''}'' \<or> hd s = CHR 0x0A"

fun fuel :: "json \<Rightarrow> nat" where
  "fuel (JArr vs) = 1 + sum_list (map (\<lambda>v. 1 + fuel v) vs)"
| "fuel (JObj kvs) = 1 + sum_list (map (\<lambda>(k, v). 1 + fuel v) kvs)"
| "fuel v = 1"

subsection \<open>Strings\<close>

lemma hex_val_digit: "n < 16 \<Longrightarrow> hex_val (hex_digit n) = Some n"
proof -
  have "list_all (\<lambda>k. hex_val (hex_digit k) = Some k) [0..<16]" by code_simp
  then show "n < 16 \<Longrightarrow> hex_val (hex_digit n) = Some n" by (simp add: list_all_iff)
qed

lemma control_escape:
  assumes "(of_char c :: nat) < 32"
  shows "unicode_escape (CHR ''0'' # CHR ''0'' # hex_digit (of_char c div 16)
           # hex_digit (of_char c mod 16) # r) = Some ([c], r)"
proof -
  have "hex_val (CHR ''0'') = Some 0" by (simp add: hex_val_def)
  moreover have "(of_char c :: nat) div 16 < 16" "(of_char c :: nat) mod 16 < 16"
    using assms by auto
  moreover have "16 * ((of_char c :: nat) div 16) + of_char c mod 16 = of_char c"
    by (rule mult_div_mod_eq)
  ultimately show ?thesis
    using assms by (simp add: unicode_escape_def hex_val_digit utf8_def)
qed

lemma parse_string_escape:
  "parse_string (Suc n) (escape_char c @ s) = map_option (\<lambda>(x, y). (c # x, y)) (parse_string n s)"
  by (auto simp: escape_char_def simple_escape_def control_escape)

lemma parse_string_quote:
  "length s < n \<Longrightarrow> parse_string n (concat (map escape_char s) @ CHR 0x22 # r) = Some (s, r)"
proof (induction s arbitrary: n)
  case Nil
  then show ?case by (cases n) auto
next
  case (Cons c s)
  then obtain m where "n = Suc m" "length s < m" by (cases n) auto
  with Cons.IH [of m] show ?case by (simp add: parse_string_escape)
qed

lemma escape_char_nonempty: "1 \<le> length (escape_char c)"
  by (simp add: escape_char_def)

lemma escaped_length: "length s \<le> length (concat (map escape_char s))"
proof (induction s)
  case (Cons c s)
  with escape_char_nonempty [of c] show ?case by simp
qed simp

lemma parse_string_rest:
  "parse_string (Suc (length (concat (map escape_char s) @ CHR 0x22 # r)))
     (concat (map escape_char s) @ CHR 0x22 # r) = Some (s, r)"
  using escaped_length [of s] by (intro parse_string_quote) (simp add: less_Suc_eq_le)

subsection \<open>Numbers\<close>

lemma is_digit_nat: "is_digit c \<longleftrightarrow> 48 \<le> (of_char c :: nat) \<and> (of_char c :: nat) \<le> 57"
  by (simp add: is_digit_def less_eq_char_def)

lemma digit_char: "n < 10 \<Longrightarrow> is_digit (hex_digit n) \<and> of_char (hex_digit n) = 48 + n"
proof -
  assume "n < 10"
  then have "n \<in> {0, 1, 2, 3, 4, 5, 6, 7, 8, 9}" by auto
  then show ?thesis by (auto simp: hex_digit_def is_digit_nat)
qed

lemma nat_digits_digits: "c \<in> set (nat_digits n) \<Longrightarrow> is_digit c"
proof (induction n arbitrary: c rule: nat_digits.induct)
  case (1 n)
  from "1.prems" show ?case
    by (subst (asm) nat_digits.simps) (auto simp: digit_char "1.IH" split: if_splits)
qed

lemma nat_digits_nonempty [simp]: "nat_digits n \<noteq> []"
  by (subst nat_digits.simps) simp

lemma nat_of_digits_snoc: "nat_of_digits (s @ [c]) = 10 * nat_of_digits s + (of_char c - 48)"
  by (simp add: nat_of_digits_def)

lemma nat_of_nat_digits: "nat_of_digits (nat_digits n) = n"
proof (induction n rule: nat_digits.induct)
  case (1 n)
  show ?case
  proof (cases "n < 10")
    case True
    then show ?thesis
      by (subst nat_digits.simps) (simp add: nat_of_digits_def digit_char)
  next
    case False
    then have "nat_digits n = nat_digits (n div 10) @ [hex_digit (n mod 10)]"
      by (subst nat_digits.simps) simp
    with "1.IH" False show ?thesis by (simp add: nat_of_digits_snoc digit_char)
  qed
qed

lemma nat_digits_head: "hd (nat_digits n) = CHR ''0'' \<Longrightarrow> nat_digits n = ''0''"
proof (induction n rule: nat_digits.induct)
  case (1 n)
  show ?case
  proof (cases "n < 10")
    case True
    then have eq: "nat_digits n = [hex_digit n]" by (subst nat_digits.simps) simp
    with "1.prems" show ?thesis by simp
  next
    case False
    then have eq: "nat_digits n = nat_digits (n div 10) @ [hex_digit (n mod 10)]"
      by (subst nat_digits.simps) simp
    with "1.prems" have "hd (nat_digits (n div 10)) = CHR ''0''" by simp
    with "1.IH" False have "nat_digits (n div 10) = ''0''" by simp
    then have "nat_of_digits (nat_digits (n div 10)) = 0" by (simp add: nat_of_digits_def)
    with False show ?thesis by (simp add: nat_of_nat_digits)
  qed
qed

lemma stop_not_digit: "stop s \<Longrightarrow> takeWhile is_digit s = [] \<and> dropWhile is_digit s = s"
  by (cases s) (auto simp: stop_def is_digit_nat)

lemma takeWhile_stop:
  assumes "stop s"
  shows "takeWhile is_digit (u @ s) = takeWhile is_digit u"
    "dropWhile is_digit (u @ s) = dropWhile is_digit u @ s"
  using stop_not_digit [OF assms] by (induction u) auto

lemma lex_frac_stop: "stop s \<Longrightarrow> lex_frac (u @ s) = (fst (lex_frac u), snd (lex_frac u) @ s)"
  by (cases u; cases s)
    (auto simp: lex_frac_def stop_def takeWhile_stop [unfolded stop_def])

lemma lex_exp_stop: "stop s \<Longrightarrow> lex_exp (u @ s) = (fst (lex_exp u), snd (lex_exp u) @ s)"
proof (cases u)
  case Nil
  then show "stop s \<Longrightarrow> ?thesis" by (cases s) (auto simp: lex_exp_def stop_def)
next
  case (Cons c r)
  assume "stop s"
  show ?thesis
  proof (cases r)
    case Nil
    with Cons \<open>stop s\<close> show ?thesis
      by (cases s) (auto simp: lex_exp_def stop_def is_digit_nat)
  next
    case (Cons x r')
    with \<open>u = c # r\<close> takeWhile_stop [OF \<open>stop s\<close>, of r] takeWhile_stop [OF \<open>stop s\<close>, of r']
    show ?thesis by (auto simp: lex_exp_def Let_def)
  qed
qed

lemma lex_int_stop:
  "stop s \<Longrightarrow> u \<noteq> [] \<Longrightarrow> lex_int (u @ s) = map_option (\<lambda>(a, b). (a, b @ s)) (lex_int u)"
  by (cases u) (auto simp: lex_int_def takeWhile_stop)

lemma parse_number_stop:
  assumes "parse_number u = Some (v, r)" and "stop s"
  shows "parse_number (u @ s) = Some (v, r @ s)"
proof (cases u)
  case Nil
  with assms show ?thesis by (simp add: parse_number_def lex_int_def)
next
  case (Cons c u')
  show ?thesis
  proof (cases "c = CHR ''-''")
    case True
    with Cons assms(1) have "u' \<noteq> []" by (auto simp: parse_number_def lex_int_def)
    with Cons True assms show ?thesis
      by (auto simp: parse_number_def lex_int_stop lex_frac_stop lex_exp_stop Let_def
          split: option.splits prod.splits if_splits)
  next
    case False
    with Cons assms have "lex_int (u @ s) = map_option (\<lambda>(a, b). (a, b @ s)) (lex_int u)"
      by (intro lex_int_stop) auto
    with Cons False assms show ?thesis
      by (auto simp: parse_number_def lex_frac_stop lex_exp_stop Let_def
          split: option.splits prod.splits if_splits)
  qed
qed

lemma lex_int_digits: "lex_int (nat_digits n) = Some (nat_digits n, [])"
proof -
  have all: "takeWhile is_digit (nat_digits n) = nat_digits n" "dropWhile is_digit (nat_digits n) = []"
    using nat_digits_digits by (auto simp: takeWhile_eq_all_conv dropWhile_eq_Nil_conv)
  show ?thesis
  proof (cases "hd (nat_digits n) = CHR ''0''")
    case True
    then show ?thesis using nat_digits_head [OF True] by (simp add: lex_int_def)
  next
    case False
    then obtain c r where "nat_digits n = c # r" "c \<noteq> CHR ''0''" "is_digit c"
      using nat_digits_digits [of _ n] by (cases "nat_digits n") auto
    with all show ?thesis by (simp add: lex_int_def)
  qed
qed

lemma parse_number_int: "parse_number (string_of_int i) = Some (JInt i, [])"
proof -
  have "hd (nat_digits (nat i)) \<noteq> CHR ''-''"
    using nat_digits_digits [of "hd (nat_digits (nat i))" "nat i"] by (auto simp: is_digit_nat)
  moreover obtain c r where "nat_digits (nat i) = c # r" by (cases "nat_digits (nat i)") auto
  ultimately show ?thesis
    using lex_int_digits [of "nat i"] lex_int_digits [of "nat (- i)"]
      nat_of_nat_digits [of "nat i"] nat_of_nat_digits [of "nat (- i)"]
    by (auto simp: parse_number_def string_of_int_def Let_def lex_frac_def lex_exp_def)
qed

subsection \<open>Values\<close>

lemma sort_key_map_snd:
  "key_order sk (map (\<lambda>(k, v). (k, f v)) kvs) = map (\<lambda>(k, v). (k, f v)) (key_order sk kvs)"
proof -
  have ins: "insort_key fst (k, f v) (map (\<lambda>(k, v). (k, f v)) xs)
      = map (\<lambda>(k, v). (k, f v)) (insort_key fst (k, v) xs)" for k v xs
    by (induction xs) auto
  have "sort_key fst (map (\<lambda>(k, v). (k, f v)) kvs) = map (\<lambda>(k, v). (k, f v)) (sort_key fst kvs)"
    by (induction kvs) (auto simp: ins)
  then show ?thesis by (simp add: key_order_def)
qed

lemma key_order_facts [simp]:
  "key_order sk [] = []" "key_order sk kvs = [] \<longleftrightarrow> kvs = []" "set (key_order sk kvs) = set kvs"
  "length (key_order sk kvs) = length kvs" "mset (key_order sk kvs) = mset kvs"
  by (auto simp: key_order_def)
    (metis length_0_conv length_sort)

lemma update_fresh: "k \<notin> set (keys d) \<Longrightarrow> AList.update k v d = d @ [(k, v)]"
  by (induction d) auto

lemma dict_of_distinct: "wf_dict kvs \<Longrightarrow> dict_of kvs = kvs"
proof -
  have "wf_dict (acc @ kvs) \<Longrightarrow> fold (\<lambda>(k, v) d. AList.update k v d) kvs acc = acc @ kvs" for acc
    by (induction kvs arbitrary: acc) (auto simp: update_fresh)
  from this [of "[]"] show "wf_dict kvs \<Longrightarrow> ?thesis" by (simp add: dict_of_def)
qed

lemma number_head:
  assumes "parse_number u = Some (v, r)"
  obtains c s where "u = c # s" "is_digit c \<or> (c = CHR ''-'' \<and> s \<noteq> [] \<and> is_digit (hd s))"
  using assms
  by (cases u; cases "tl u")
    (auto simp: parse_number_def lex_int_def is_digit_nat split: option.splits if_splits)

lemma digit_neq:
  assumes "is_digit c"
  shows "c \<noteq> CHR ''n''" "c \<noteq> CHR ''t''" "c \<noteq> CHR ''f''" "c \<noteq> CHR ''N''" "c \<noteq> CHR ''I''"
    "c \<noteq> CHR ''-''" "c \<noteq> CHR 0x22" "c \<noteq> CHR ''[''" "c \<noteq> CHR ''{''" "c \<noteq> CHR '']''"
    "c \<noteq> CHR ''}''" "\<not> is_ws c"
  using assms by (auto simp: is_digit_nat is_ws_def)

lemma literal_number:
  assumes "parse_number u = Some (v, r)"
  shows "parse_literal (u @ s) = parse_number (u @ s)"
    "u @ s \<noteq> []" "\<not> is_ws (hd (u @ s))" "hd (u @ s) \<notin> {CHR 0x22, CHR ''['', CHR ''{'', CHR '']'', CHR ''}''}"
proof -
  from number_head [OF assms] obtain c w where
    u: "u = c # w" "is_digit c \<or> (c = CHR ''-'' \<and> w \<noteq> [] \<and> is_digit (hd w))" .
  show "parse_literal (u @ s) = parse_number (u @ s)"
  proof (cases "is_digit c")
    case True
    then show ?thesis using u(1) digit_neq(1-11) [OF True, symmetric] by (simp add: parse_literal_def)
  next
    case False
    then obtain d w' where "c = CHR ''-''" "w = d # w'" "is_digit d" using u(2) by (cases w) auto
    then show ?thesis using u(1) digit_neq(1-11) [of d, symmetric] by (simp add: parse_literal_def)
  qed
  show "u @ s \<noteq> []" "\<not> is_ws (hd (u @ s))"
    "hd (u @ s) \<notin> {CHR 0x22, CHR ''['', CHR ''{'', CHR '']'', CHR ''}''}"
    using u digit_neq [of c] by (cases "is_digit c"; simp add: is_ws_def)+
qed

lemma dumps_head:
  assumes "wf_json v"
  shows "dumps sk v \<noteq> []" "\<not> is_ws (hd (dumps sk v))" "hd (dumps sk v) \<noteq> CHR '']''" "hd (dumps sk v) \<noteq> CHR ''}''"
  using assms literal_number [OF parse_number_int, of "case v of JInt i \<Rightarrow> i | _ \<Rightarrow> 0" "[]"]
    literal_number [of "case v of JFloat r \<Rightarrow> r | _ \<Rightarrow> []" v "[]" "[]"]
  by (cases v; simp add: is_ws_def json_quote_def)+

lemma skip_ws_dumps: "wf_json v \<Longrightarrow> skip_ws (dumps sk v @ s) = dumps sk v @ s"
  using dumps_head [of v sk] by (cases "dumps sk v") auto

definition reads :: "bool \<Rightarrow> json \<Rightarrow> bool" where
  "reads sk v \<longleftrightarrow> (\<forall>n s. fuel v \<le> n \<longrightarrow> stop s \<longrightarrow> parse_value n (dumps sk v @ s) = Some (norm_json sk v, s))"

lemma readsD: "reads sk v \<Longrightarrow> fuel v \<le> n \<Longrightarrow> stop s \<Longrightarrow> parse_value n (dumps sk v @ s) = Some (norm_json sk v, s)"
  by (simp add: reads_def)

lemma reads_number:
  assumes "parse_number u = Some (v, [])" and "stop s" and "1 \<le> n"
  shows "parse_value n (u @ s) = Some (v, s)"
proof -
  obtain m where "n = Suc m" using assms(3) by (cases n) auto
  moreover obtain c w where "u @ s = c # w" using literal_number(2) [OF assms(1)] by (cases "u @ s") auto
  ultimately show ?thesis
    using literal_number [OF assms(1), of s] parse_number_stop [OF assms(1,2)] by simp
qed

lemma parse_elems_join:
  assumes "vs \<noteq> []" "list_all (reads sk) vs" "list_all wf_json vs"
    "sum_list (map (\<lambda>v. 1 + fuel v) vs) \<le> n"
  shows "parse_elems n (join_with (CHR '','') (map (dumps sk) vs) @ CHR '']'' # s) = Some (map (norm_json sk) vs, s)"
  using assms
proof (induction vs arbitrary: n)
  case (Cons v vs)
  then obtain m where m: "n = Suc m" "fuel v \<le> m" "sum_list (map (\<lambda>v. 1 + fuel v) vs) \<le> m"
    by (cases n) auto
  have v: "parse_value m (dumps sk v @ t) = Some (norm_json sk v, t)" if "stop t" for t
    using Cons.prems m that by (intro readsD) auto
  show ?case
  proof (cases vs)
    case Nil
    then show ?thesis using m(1) v [of "CHR '']'' # s"] by (simp add: stop_def is_ws_def)
  next
    case (Cons w ws)
    let ?rest = "join_with (CHR '','') (map (dumps sk) vs) @ CHR '']'' # s"
    have "skip_ws ?rest = ?rest"
      using Cons \<open>list_all wf_json (v # vs)\<close>
      by (cases ws) (simp_all add: skip_ws_dumps)
    moreover have "parse_elems m ?rest = Some (map (norm_json sk) vs, s)"
      using Cons Cons.IH [of m] Cons.prems m(3) by simp
    moreover have "join_with (CHR '','') (map (dumps sk) (v # vs)) @ CHR '']'' # s
        = dumps sk v @ CHR '','' # ?rest"
      using Cons by (simp add: join_with_Cons del: join_with.simps)
    ultimately have "parse_elems n (join_with (CHR '','') (map (dumps sk) (v # vs)) @ CHR '']'' # s)
        = Some (norm_json sk v # map (norm_json sk) vs, s)"
      using m(1) v [of "CHR '','' # ?rest"] by (simp add: stop_def is_ws_def del: list.map join_with.simps)
    then show ?thesis by simp
  qed
qed simp

abbreviation member_text :: "bool \<Rightarrow> string \<times> json \<Rightarrow> string" where
  "member_text sk kv \<equiv> (case kv of (k, v) \<Rightarrow> json_quote k @ '':'' @ dumps sk v)"

lemma parse_member:
  assumes "reads sk v" "wf_json v" "fuel v \<le> m" "stop t"
  shows "parse_members (Suc m) (member_text sk (k, v) @ t) =
     (case skip_ws t of [] \<Rightarrow> None
      | d # r3 \<Rightarrow> if d = CHR ''}'' then Some ([(k, norm_json sk v)], r3)
          else if d = CHR '','' then
            map_option (\<lambda>(kvs, z). ((k, norm_json sk v) # kvs, z)) (parse_members m (skip_ws r3))
          else None)"
proof -
  have "parse_string (Suc (length (concat (map escape_char k) @ CHR 0x22 # CHR '':'' # dumps sk v @ t)))
      (concat (map escape_char k) @ CHR 0x22 # CHR '':'' # dumps sk v @ t)
      = Some (k, CHR '':'' # dumps sk v @ t)"
    by (rule parse_string_rest)
  moreover have "parse_value m (dumps sk v @ t) = Some (norm_json sk v, t)"
    using assms by (intro readsD)
  ultimately show ?thesis
    using skip_ws_dumps [OF assms(2), of sk t] by (simp add: json_quote_def is_ws_def)
qed

lemma parse_members_join:
  assumes "kvs \<noteq> []" "list_all (\<lambda>(k, v). reads sk v \<and> wf_json v) kvs"
    "sum_list (map (\<lambda>(k, v). 1 + fuel v) kvs) \<le> n"
  shows "parse_members n (join_with (CHR '','') (map (member_text sk) kvs) @ CHR ''}'' # s)
     = Some (map (\<lambda>(k, v). (k, norm_json sk v)) kvs, s)"
  using assms
proof (induction kvs arbitrary: n)
  case (Cons kv kvs)
  obtain k v where kv: "kv = (k, v)" by (cases kv)
  with Cons.prems obtain m where m: "n = Suc m" "fuel v \<le> m"
    "sum_list (map (\<lambda>(k, v). 1 + fuel v) kvs) \<le> m" "reads sk v" "wf_json v"
    by (cases n) auto
  show ?case
  proof (cases "kvs = []")
    case True
    then show ?thesis
      using m(1) kv parse_member [OF m(4,5,2), of "CHR ''}'' # s" k]
      by (simp add: stop_def is_ws_def del: parse_members.simps)
  next
    case False
    let ?rest = "join_with (CHR '','') (map (member_text sk) kvs) @ CHR ''}'' # s"
    have "skip_ws ?rest = ?rest"
      using False by (cases kvs; cases "tl kvs") (auto simp: json_quote_def is_ws_def)
    moreover have "parse_members m ?rest = Some (map (\<lambda>(k, v). (k, norm_json sk v)) kvs, s)"
      using False Cons.IH [of m] Cons.prems m(3) by simp
    moreover have "join_with (CHR '','') (map (member_text sk) (kv # kvs)) @ CHR ''}'' # s
        = member_text sk (k, v) @ CHR '','' # ?rest"
      using False kv by (simp add: join_with_Cons del: join_with.simps)
    ultimately show ?thesis
      using m(1) kv parse_member [OF m(4,5,2), of "CHR '','' # ?rest" k]
      by (simp add: stop_def is_ws_def del: parse_members.simps join_with.simps)
  qed
qed simp

lemma dumps_obj:
  "dumps sk (JObj kvs) = CHR ''{'' # join_with (CHR '','') (map (member_text sk) (key_order sk kvs)) @ ''}''"
proof -
  have "map (\<lambda>(k, t). json_quote k @ '':'' @ t) (map (\<lambda>(k, v). (k, dumps sk v)) xs) = map (member_text sk) xs"
    for xs by auto
  then show ?thesis by (simp only: dumps.simps sort_key_map_snd) simp
qed

lemma sum_list_sort_key:
  "sum_list (map f (key_order sk xs)) = (sum_list (map f xs) :: nat)"
proof -
  have "mset (map f (key_order sk xs)) = mset (map f xs)" by simp
  then show ?thesis by (metis sum_mset_sum_list)
qed

lemma wf_dict_sort: "wf_dict kvs \<Longrightarrow> distinct (map fst (key_order sk kvs))"
  by (metis key_order_facts(5) mset_eq_imp_distinct_iff mset_map)

lemma reads_obj:
  assumes "wf_dict kvs" "list_all (\<lambda>(k, v). reads sk v \<and> wf_json v) kvs"
  shows "reads sk (JObj kvs)"
  unfolding reads_def
proof (intro allI impI)
  fix n s assume n: "fuel (JObj kvs) \<le> n" and "stop s"
  then obtain m where m: "n = Suc m" "sum_list (map (\<lambda>(k, v). 1 + fuel v) (key_order sk kvs)) \<le> m"
    by (cases n) (auto simp: sum_list_sort_key)
  have norm: "norm_json sk (JObj kvs) = JObj (map (\<lambda>(k, v). (k, norm_json sk v)) (key_order sk kvs))"
    by (simp add: sort_key_map_snd)
  show "parse_value n (dumps sk (JObj kvs) @ s) = Some (norm_json sk (JObj kvs), s)"
  proof (cases "kvs = []")
    case True
    with m show ?thesis by (simp add: is_ws_def)
  next
    case False
    let ?text = "join_with (CHR '','') (map (member_text sk) (key_order sk kvs)) @ CHR ''}'' # s"
    obtain k v kvs' where ko: "key_order sk kvs = (k, v) # kvs'"
      using False by (metis key_order_facts(2) neq_Nil_conv surj_pair)
    obtain r where r: "?text = CHR 0x22 # r"
      by (cases kvs') (simp_all add: ko json_quote_def)
    have "parse_members m ?text = Some (map (\<lambda>(k, v). (k, norm_json sk v)) (key_order sk kvs), s)"
    proof (rule parse_members_join)
      show "list_all (\<lambda>(k, v). reads sk v \<and> wf_json v) (key_order sk kvs)"
        using assms(2) unfolding list_all_iff by simp
    qed (use ko m(2) in auto)
    moreover have "wf_dict (map (\<lambda>(k, v). (k, norm_json sk v)) (key_order sk kvs))"
      using assms(1) by (simp add: comp_def case_prod_unfold wf_dict_sort)
    ultimately show ?thesis
      using r m(1) by (simp add: dumps_obj norm dict_of_distinct is_ws_def
          del: dumps.simps norm_json.simps parse_members.simps)
  qed
qed

lemma reads_arr:
  assumes "list_all (reads sk) vs" "list_all wf_json vs"
  shows "reads sk (JArr vs)"
  unfolding reads_def
proof (intro allI impI)
  fix n s assume n: "fuel (JArr vs) \<le> n" and "stop s"
  then obtain m where m: "n = Suc m" "sum_list (map (\<lambda>v. 1 + fuel v) vs) \<le> m"
    by (cases n) auto
  show "parse_value n (dumps sk (JArr vs) @ s) = Some (norm_json sk (JArr vs), s)"
  proof (cases vs)
    case Nil
    with m show ?thesis by (simp add: is_ws_def)
  next
    case (Cons v vs')
    let ?text = "join_with (CHR '','') (map (dumps sk) vs) @ CHR '']'' # s"
    have v: "wf_json v" using Cons assms(2) by simp
    then obtain c r where "?text = c # r" "\<not> is_ws c" "c \<noteq> CHR '']''"
      using Cons dumps_head [OF v, of sk] by (cases vs'; cases "dumps sk v") auto
    moreover have "parse_elems m ?text = Some (map (norm_json sk) vs, s)"
      using m(2) assms Cons by (intro parse_elems_join) auto
    ultimately show ?thesis using m(1) by (simp del: parse_elems.simps)
  qed
qed

lemma reads_atom:
  "reads sk JNull" "reads sk (JBool b)" "reads sk (JInt i)" "reads sk (JStr x)"
  "wf_json (JFloat r) \<Longrightarrow> reads sk (JFloat r)"
proof -
  have literal: "parse_value n (''null'' @ s) = Some (JNull, s)"
    "parse_value n (''true'' @ s) = Some (JBool True, s)"
    "parse_value n (''false'' @ s) = Some (JBool False, s)" if "1 \<le> n" for n s
    using that by (cases n; simp add: parse_literal_def)+
  from literal show "reads sk JNull" "reads sk (JBool b)" by (auto simp: reads_def)
  show "reads sk (JInt i)" by (simp add: reads_def reads_number [OF parse_number_int])
  show "reads sk (JStr x)"
    unfolding reads_def
  proof (intro allI impI)
    fix n s assume "fuel (JStr x) \<le> n" "stop s"
    then show "parse_value n (dumps sk (JStr x) @ s) = Some (norm_json sk (JStr x), s)"
      using parse_string_rest [of x s] by (cases n) (simp_all add: json_quote_def)
  qed
  show "reads sk (JFloat r)" if "wf_json (JFloat r)"
    using that by (auto simp: reads_def intro: reads_number)
qed

lemma reads_all: "wf_json v \<Longrightarrow> reads sk v"
proof (induction v)
  case (JArr vs)
  then show ?case by (intro reads_arr) (auto simp: list_all_iff)
next
  case (JObj kvs)
  have "reads sk v" if "(k, v) \<in> set kvs" for k v
    using JObj.IH [of "(k, v)" v] JObj.prems that by (auto simp: list_all_iff)
  with JObj.prems show ?case by (intro reads_obj) (auto simp: list_all_iff)
qed (auto intro: reads_atom)

lemma join_length:
  "ts \<noteq> [] \<Longrightarrow> Suc (length (join_with c ts)) = sum_list (map (\<lambda>t. Suc (length t)) ts)"
  by (induction c ts rule: join_with.induct) auto

lemma fuel_sum:
  assumes "\<And>x. x \<in> set xs \<Longrightarrow> f x \<le> 2 * length (t x :: string)"
  shows "sum_list (map (\<lambda>x. 1 + f x) xs) \<le> 2 * length (join_with c (map t xs)) + 2"
proof -
  have "sum_list (map (\<lambda>x. 1 + f x) xs) \<le> sum_list (map (\<lambda>x. 2 * Suc (length (t x))) xs)"
    using assms by (intro sum_list_mono) fastforce
  also have "\<dots> = 2 * sum_list (map (\<lambda>x. Suc (length (t x))) xs)"
    by (induction xs) auto
  also have "\<dots> \<le> 2 * Suc (length (join_with c (map t xs)))"
    using join_length [of "map t xs" c] by (cases "xs = []") (auto simp: comp_def)
  finally show ?thesis by simp
qed

lemma fuel_dumps: "wf_json v \<Longrightarrow> fuel v \<le> 2 * length (dumps sk v)"
proof (induction v)
  case (JArr vs)
  then have "fuel v \<le> 2 * length (dumps sk v)" if "v \<in> set vs" for v
    using that by (auto simp: list_all_iff)
  then have "sum_list (map (\<lambda>v. 1 + fuel v) vs)
      \<le> 2 * length (join_with (CHR '','') (map (dumps sk) vs)) + 2"
    by (rule fuel_sum)
  then show ?case by simp
next
  case (JObj kvs)
  have "fuel (snd kv) \<le> 2 * length (member_text sk kv)" if "kv \<in> set kvs" for kv
    using JObj.IH [of kv "snd kv"] JObj.prems that by (cases kv) (fastforce simp: list_all_iff)
  then have "sum_list (map (\<lambda>kv. 1 + fuel (snd kv)) (key_order sk kvs))
      \<le> 2 * length (join_with (CHR '','') (map (member_text sk) (key_order sk kvs))) + 2"
    by (intro fuel_sum) simp
  then show ?case by (simp add: dumps_obj sum_list_sort_key case_prod_unfold del: dumps.simps)
next
  case (JInt i)
  then show ?case using dumps_head(1) [of "JInt i" sk] by (cases "dumps sk (JInt i)") auto
next
  case (JFloat r)
  then show ?case using dumps_head(1) [OF JFloat] by (cases r) auto
qed (auto simp: json_quote_def)

lemma loads_dumps_eq: "wf_json v \<Longrightarrow> loads (dumps sk v) = Inr (norm_json sk v)"
proof -
  assume v: "wf_json v"
  have "skip_ws (dumps sk v) = dumps sk v" using skip_ws_dumps [OF v, of sk "[]"] by simp
  moreover have "parse_value (2 * length (dumps sk v) + 2) (dumps sk v) = Some (norm_json sk v, [])"
    using readsD [OF reads_all [OF v], of _ "[]" sk] fuel_dumps [OF v, of sk] by (simp add: stop_def)
  ultimately show ?thesis by (simp add: loads_def)
qed

lemma loads_dumps_line: "wf_json v \<Longrightarrow> loads (dumps sk v @ [CHR 0x0A]) = Inr (norm_json sk v)"
proof -
  assume v: "wf_json v"
  have "parse_value (2 * length (dumps sk v @ [CHR 0x0A]) + 2) (dumps sk v @ [CHR 0x0A]) = Some (norm_json sk v, [CHR 0x0A])"
    using readsD [OF reads_all [OF v], of _ "[CHR 0x0A]" sk] fuel_dumps [OF v, of sk] by (simp add: stop_def)
  moreover have "is_ws (CHR 0x0A)" by (simp add: is_ws_def)
  ultimately show ?thesis using skip_ws_dumps [OF v, of sk "[CHR 0x0A]"] by (simp add: loads_def)
qed

lemma norm_json_id: "norm_json False v = v"
proof (induction v)
  case (JArr vs)
  then show ?case by (simp add: map_idI)
next
  case (JObj kvs)
  then have "map (\<lambda>(k, v). (k, norm_json False v)) kvs = kvs" by (intro map_idI) fastforce
  then show ?case by (simp add: key_order_def)
qed simp_all

end
