(* ===== verification/MetadataCache.thy ===== *)
theory MetadataCache
  imports Json Effects
begin

text \<open>
  \<open>cardrag_mcp/metadata_cache.py\<close>: the LRU of serialized metadata with a byte and an entry limit.

  The \<open>OrderedDict\<close> is the list of its items, least recently used first.  Every method body runs
  under the lock, so a method is one step.  Python's \<open>None\<close> is the JSON value \<open>JNull\<close>.  The
  contract of a cache is the locale \<open>cache\<close>; its client lemma says which value a hit may return.
\<close>

type_synonym cache_key = "string list"

record MetadataCache =
  max_bytes :: int
  max_entries :: int
  entries :: "(cache_key, bytes) dict"
  cbytes :: int
  hits :: nat
  misses :: nat
  evictions :: nat

definition cache_init :: "int \<Rightarrow> int \<Rightarrow> MetadataCache result" where
  "cache_init mb me =
     rbind (raise_if (mb < 1 \<or> me < 1) (ValueError ''cache limits must be positive'')) (\<lambda>_.
     Inr \<lparr>max_bytes = mb, max_entries = me, entries = [], cbytes = 0, hits = 0, misses = 0, evictions = 0\<rparr>)"

definition key_bytes :: "cache_key \<Rightarrow> int" where
  "key_bytes k = sum_list (map (\<lambda>part. int (length part)) k)"

definition entry_bytes :: "cache_key \<times> bytes \<Rightarrow> int" where
  "entry_bytes e = int (length (snd e)) + key_bytes (fst e)"

definition cache_get :: "cache_key \<Rightarrow> MetadataCache \<Rightarrow> json result \<times> MetadataCache" where
  "cache_get key c =
     (case map_of (entries c) key of
        None \<Rightarrow> (Inr JNull, c\<lparr>misses := Suc (misses c)\<rparr>)
      | Some value \<Rightarrow>
          (loads value, c\<lparr>entries := AList.delete key (entries c) @ [(key, value)], hits := Suc (hits c)\<rparr>))"

text \<open>The eviction loop: \<open>popitem(last=False)\<close> raises on an empty dict.\<close>

fun evict :: "int \<Rightarrow> int \<Rightarrow> (cache_key, bytes) dict \<Rightarrow> int \<Rightarrow> nat \<Rightarrow> ((cache_key, bytes) dict \<times> int \<times> nat) result" where
  "evict mb me es b n =
     (if b > mb \<or> int (length es) > me
      then (case es of [] \<Rightarrow> Inl (KeyError ''dictionary is empty'')
            | e # r \<Rightarrow> evict mb me r (b - entry_bytes e) (Suc n))
      else Inr (es, b, n))"

declare evict.simps [simp del]

definition cache_set :: "cache_key \<Rightarrow> json \<Rightarrow> MetadataCache \<Rightarrow> MetadataCache result" where
  "cache_set key v c =
     (let encoded = dumps False v; sz = int (length encoded) + key_bytes key in
      if sz > max_bytes c then Inr c
      else
        let b = (case map_of (entries c) key of None \<Rightarrow> cbytes c
                 | Some prior \<Rightarrow> cbytes c - (int (length prior) + key_bytes key));
            es = AList.delete key (entries c) @ [(key, encoded)]
        in rbind (evict (max_bytes c) (max_entries c) es (b + sz) (evictions c)) (\<lambda>(es', b', n).
           Inr (c\<lparr>entries := es', cbytes := b', evictions := n\<rparr>)))"

definition snapshot :: "MetadataCache \<Rightarrow> (string, int) dict" where
  "snapshot c = [(''hits'', int (hits c)), (''misses'', int (misses c)), (''evictions'', int (evictions c)),
     (''entries'', int (length (entries c))), (''bytes'', cbytes c), (''max_entries'', max_entries c),
     (''max_bytes'', max_bytes c)]"

section \<open>The invariant\<close>

definition total :: "(cache_key, bytes) dict \<Rightarrow> int" where
  "total es = sum_list (map entry_bytes es)"

text \<open>The counter is exact, both limits hold, keys are distinct and every value is a JSON text.\<close>

definition cache_ok :: "MetadataCache \<Rightarrow> bool" where
  "cache_ok c \<longleftrightarrow> 1 \<le> max_bytes c \<and> 1 \<le> max_entries c \<and> wf_dict (entries c)
     \<and> cbytes c = total (entries c) \<and> total (entries c) \<le> max_bytes c
     \<and> int (length (entries c)) \<le> max_entries c"

lemma entry_bytes_nonneg [simp]: "0 \<le> entry_bytes e"
  by (auto simp: entry_bytes_def key_bytes_def intro!: add_nonneg_nonneg sum_list_nonneg)

lemma total_simps [simp]:
  "total [] = 0" "total (e # es) = entry_bytes e + total es" "total (es @ fs) = total es + total fs"
  by (simp_all add: total_def)

lemma total_nonneg [simp]: "0 \<le> total es"
  by (induction es) auto

lemma total_delete: "wf_dict es \<Longrightarrow>
  total (AList.delete k es) = total es - (case map_of es k of None \<Rightarrow> 0 | Some v \<Rightarrow> int (length v) + key_bytes k)"
proof (induction es)
  case (Cons e es)
  show ?case
  proof (cases "fst e = k")
    case True
    with Cons.prems have "map_of es k = None" by (auto simp: map_of_eq_None_iff)
    with Cons True show ?thesis by (cases e) (auto simp: entry_bytes_def)
  next
    case False
    with Cons show ?thesis by (cases e) auto
  qed
qed simp

lemma delete_length: "length (AList.delete k es) \<le> length es"
  by (simp add: AList.delete_eq)

lemma delete_keys [simp]: "fst ` set (AList.delete k es) = fst ` set es - {k}"
  by (auto simp: AList.delete_eq)

lemma wf_dict_delete [simp]: "wf_dict es \<Longrightarrow> wf_dict (AList.delete k es)"
  by (rule distinct_delete)

text \<open>
  Eviction drops the shortest prefix after which both limits hold; it never reaches the newest
  entry when that entry fits on its own.
\<close>

lemma evict_spec:
  assumes "b = total (es @ [x])" "entry_bytes x \<le> mb" "1 \<le> me"
  shows "\<exists>i \<le> length es. evict mb me (es @ [x]) b n = Inr (drop i es @ [x], total (drop i es @ [x]), n + i)
    \<and> total (drop i es @ [x]) \<le> mb \<and> int (length (drop i es @ [x])) \<le> me
    \<and> (\<forall>j < i. \<not> (total (drop j es @ [x]) \<le> mb \<and> int (length (drop j es @ [x])) \<le> me))"
  using assms
proof (induction es arbitrary: b n)
  case Nil
  then show ?case by (subst evict.simps) auto
next
  case (Cons e es)
  show ?case
  proof (cases "b > mb \<or> int (length (e # es @ [x])) > me")
    case True
    from Cons.IH [of "b - entry_bytes e" "Suc n"] Cons.prems obtain i where i: "i \<le> length es"
      "evict mb me (es @ [x]) (b - entry_bytes e) (Suc n) = Inr (drop i es @ [x], total (drop i es @ [x]), Suc n + i)"
      "total (drop i es @ [x]) \<le> mb" "int (length (drop i es @ [x])) \<le> me"
      "\<forall>j < i. \<not> (total (drop j es @ [x]) \<le> mb \<and> int (length (drop j es @ [x])) \<le> me)" by auto
    have "evict mb me ((e # es) @ [x]) b n = evict mb me (es @ [x]) (b - entry_bytes e) (Suc n)"
      using True by (subst evict.simps) simp
    moreover have "\<not> (total (drop j (e # es) @ [x]) \<le> mb \<and> int (length (drop j (e # es) @ [x])) \<le> me)"
      if "j < Suc i" for j
      using that True i(5) Cons.prems(1) by (cases j) auto
    ultimately show ?thesis using i by (intro exI [of _ "Suc i"]) simp
  next
    case False
    then have "evict mb me ((e # es) @ [x]) b n = Inr ((e # es) @ [x], b, n)" by (subst evict.simps) simp
    with False Cons.prems show ?thesis by (intro exI [of _ 0]) simp
  qed
qed

definition fits :: "MetadataCache \<Rightarrow> cache_key \<Rightarrow> json \<Rightarrow> bool" where
  "fits c k v \<longleftrightarrow> int (length (dumps False v)) + key_bytes k \<le> max_bytes c"

lemma cache_set_spec:
  assumes "cache_ok c" "fits c k v"
  shows "\<exists>i \<le> length (AList.delete k (entries c)).
    cache_set k v c = Inr (c\<lparr>entries := drop i (AList.delete k (entries c)) @ [(k, dumps False v)],
      cbytes := total (drop i (AList.delete k (entries c)) @ [(k, dumps False v)]), evictions := evictions c + i\<rparr>)
    \<and> total (drop i (AList.delete k (entries c)) @ [(k, dumps False v)]) \<le> max_bytes c
    \<and> int (length (drop i (AList.delete k (entries c)) @ [(k, dumps False v)])) \<le> max_entries c
    \<and> (\<forall>j < i. \<not> (total (drop j (AList.delete k (entries c)) @ [(k, dumps False v)]) \<le> max_bytes c
        \<and> int (length (drop j (AList.delete k (entries c)) @ [(k, dumps False v)])) \<le> max_entries c))"
proof -
  let ?es = "AList.delete k (entries c)" and ?x = "(k, dumps False v)"
  let ?b = "case map_of (entries c) k of None \<Rightarrow> cbytes c | Some prior \<Rightarrow> cbytes c - (int (length prior) + key_bytes k)"
  have "?b + entry_bytes ?x = total (?es @ [?x])"
    using assms(1) by (auto simp: cache_ok_def total_delete split: option.splits)
  from evict_spec [OF this, of "max_bytes c" "max_entries c" "evictions c"] assms show ?thesis
    by (auto simp: cache_set_def fits_def cache_ok_def entry_bytes_def Let_def)
qed

lemma cache_set_too_big: "\<not> fits c k v \<Longrightarrow> cache_set k v c = Inr c"
  by (simp add: cache_set_def fits_def)

lemma distinct_drop_keys: "wf_dict es \<Longrightarrow> k \<notin> set (keys es) \<Longrightarrow> wf_dict (drop i es @ [(k, v)])"
  by (auto simp: drop_map [symmetric] dest: in_set_dropD)

lemma cache_set_ok:
  assumes "cache_ok c" "cache_set k v c = Inr c'"
  shows "cache_ok c'"
proof (cases "fits c k v")
  case True
  from cache_set_spec [OF assms(1) this] assms(2) obtain i where
    "c' = c\<lparr>entries := drop i (AList.delete k (entries c)) @ [(k, dumps False v)],
      cbytes := total (drop i (AList.delete k (entries c)) @ [(k, dumps False v)]), evictions := evictions c + i\<rparr>"
    "total (drop i (AList.delete k (entries c)) @ [(k, dumps False v)]) \<le> max_bytes c"
    "int (length (drop i (AList.delete k (entries c)) @ [(k, dumps False v)])) \<le> max_entries c" by auto
  with assms(1) show ?thesis
    using distinct_drop_keys [of "AList.delete k (entries c)" k i "dumps False v"]
    by (simp add: cache_ok_def del: total_simps)
qed (use assms cache_set_too_big in auto)

lemma total_move: "wf_dict es \<Longrightarrow> map_of es k = Some v \<Longrightarrow> total (AList.delete k es @ [(k, v)]) = total es"
  by (simp add: total_delete entry_bytes_def)

lemma length_move: "wf_dict es \<Longrightarrow> map_of es k = Some v \<Longrightarrow> length (AList.delete k es @ [(k, v)]) = length es"
proof (induction es)
  case (Cons e es)
  show ?case
  proof (cases "fst e = k")
    case True
    with Cons.prems have "k \<notin> set (keys es)" by auto
    then have "AList.delete k es = es" by (induction es) auto
    with True show ?thesis by (cases e) simp
  next
    case False
    with Cons show ?thesis by (cases e) auto
  qed
qed simp

lemma cache_get_ok:
  assumes "cache_ok c" "cache_get k c = (r, c')"
  shows "cache_ok c'"
  using assms total_move [of "entries c" k] length_move [of "entries c" k]
  by (auto simp: cache_get_def cache_ok_def split: option.splits)

section \<open>The contract of a cache\<close>

text \<open>
  A client sees a cache through lookups: \<open>touch\<close> (a read) changes no lookup, \<open>store\<close> makes the new
  value visible if it is accepted and otherwise changes nothing, and other keys are at most
  forgotten.  A hit can then only return the last accepted value.
\<close>

locale cache =
  fixes lookup :: "'c \<Rightarrow> 'k \<Rightarrow> 'e option"
    and enc :: "'v \<Rightarrow> 'e"
    and store :: "'k \<Rightarrow> 'v \<Rightarrow> 'c \<Rightarrow> 'c"
    and touch :: "'k \<Rightarrow> 'c \<Rightarrow> 'c"
    and accepts :: "'k \<Rightarrow> 'v \<Rightarrow> bool"
    and ok :: "'c \<Rightarrow> bool"
  assumes store_ok: "ok c \<Longrightarrow> ok (store k v c)"
    and touch_ok: "ok c \<Longrightarrow> ok (touch k c)"
    and touch_lookup: "ok c \<Longrightarrow> lookup (touch k c) k' = lookup c k'"
    and store_accepted: "ok c \<Longrightarrow> accepts k v \<Longrightarrow> lookup (store k v c) k = Some (enc v)"
    and store_refused: "ok c \<Longrightarrow> \<not> accepts k v \<Longrightarrow> store k v c = c"
    and store_other: "ok c \<Longrightarrow> k' \<noteq> k \<Longrightarrow> lookup (store k v c) k' = None \<or> lookup (store k v c) k' = lookup c k'"
begin

definition run :: "('k \<times> 'v option) list \<Rightarrow> 'c \<Rightarrow> 'c" where
  "run ops c = fold (\<lambda>(k, w) d. case w of None \<Rightarrow> touch k d | Some v \<Rightarrow> store k v d) ops c"

definition last_accepted :: "('k \<times> 'v option) list \<Rightarrow> 'k \<Rightarrow> 'v option" where
  "last_accepted ops k = fold (\<lambda>(k', w) old. case w of None \<Rightarrow> old
     | Some v \<Rightarrow> if k' = k \<and> accepts k v then Some v else old) ops None"

lemma run_snoc: "run (ops @ [(k, w)]) c = (case w of None \<Rightarrow> touch k (run ops c) | Some v \<Rightarrow> store k v (run ops c))"
  by (simp add: run_def split: option.split)

lemma run_ok: "ok c \<Longrightarrow> ok (run ops c)"
proof (induction ops rule: rev_induct)
  case (snoc op ops)
  then show ?case by (cases op) (auto simp: run_snoc store_ok touch_ok split: option.splits)
qed (simp add: run_def)

lemma hit_is_last_accepted:
  assumes "ok c" "\<And>k. lookup c k = None" "lookup (run ops c) k = Some e"
  shows "\<exists>v. last_accepted ops k = Some v \<and> e = enc v"
  using assms(3)
proof (induction ops rule: rev_induct)
  case Nil
  then show ?case using assms(2) by (simp add: run_def)
next
  case (snoc op ops)
  obtain k' w where op: "op = (k', w)" by (cases op)
  note inv = run_ok [OF assms(1), of ops]
  show ?case
  proof (cases w)
    case None
    with snoc op inv touch_lookup show ?thesis by (simp add: run_snoc last_accepted_def)
  next
    case (Some x)
    have step: "lookup (store k' x (run ops c)) k = Some e" using snoc.prems op Some by (simp add: run_snoc)
    show ?thesis
    proof (cases "accepts k' x")
      case True
      with step inv store_accepted [OF inv True] store_other [OF inv, of k k' x] snoc.IH op Some show ?thesis
        by (cases "k = k'") (auto simp: last_accepted_def)
    next
      case False
      with step inv store_refused [OF inv False] snoc.IH op Some show ?thesis
        by (auto simp: last_accepted_def)
    qed
  qed
qed

end

section \<open>The cache satisfies the contract\<close>

definition cached :: "MetadataCache \<Rightarrow> cache_key \<Rightarrow> bytes option" where
  "cached c k = map_of (entries c) k"

definition do_set :: "cache_key \<Rightarrow> json \<Rightarrow> MetadataCache \<Rightarrow> MetadataCache" where
  "do_set k v c = (case cache_set k v c of Inr c' \<Rightarrow> c' | Inl _ \<Rightarrow> c)"

definition do_get :: "cache_key \<Rightarrow> MetadataCache \<Rightarrow> MetadataCache" where
  "do_get k c = snd (cache_get k c)"

lemma map_of_drop_subset:
  assumes "wf_dict es" "map_of (drop i es) k = Some v"
  shows "map_of es k = Some v"
  using assms by (metis in_set_dropD map_of_SomeD map_of_eq_Some_iff)

lemma map_of_move:
  assumes "wf_dict es" "map_of es k = Some v"
  shows "map_of (AList.delete k es @ [(k, v)]) k' = map_of es k'"
  using assms by (auto simp: map_add_def delete_conv' split: option.splits)

lemma set_lookup_same:
  assumes "cache_ok c" "fits c k v"
  shows "map_of (entries (do_set k v c)) k = Some (dumps False v)"
proof -
  from cache_set_spec [OF assms] obtain i where
    "entries (do_set k v c) = drop i (AList.delete k (entries c)) @ [(k, dumps False v)]"
    by (auto simp: do_set_def)
  moreover have "map_of (drop i (AList.delete k (entries c))) k = None"
    unfolding map_of_eq_None_iff
    by (metis Diff_iff delete_keys image_mono in_mono set_drop_subset singletonI)
  ultimately show ?thesis by (simp add: map_add_def)
qed

lemma set_lookup_other:
  assumes "cache_ok c" "k' \<noteq> k"
  shows "map_of (entries (do_set k v c)) k' = None \<or> map_of (entries (do_set k v c)) k' = map_of (entries c) k'"
proof (cases "fits c k v")
  case True
  from cache_set_spec [OF assms(1) this] obtain i where
    "entries (do_set k v c) = drop i (AList.delete k (entries c)) @ [(k, dumps False v)]"
    by (auto simp: do_set_def)
  moreover have "wf_dict (AList.delete k (entries c))" using assms(1) by (simp add: cache_ok_def)
  ultimately show ?thesis
    using assms(2) map_of_drop_subset [of "AList.delete k (entries c)" i k']
    by (auto simp: map_add_def delete_conv' split: option.splits)
qed (simp add: do_set_def cache_set_too_big)

lemma do_set_ok: "cache_ok c \<Longrightarrow> cache_ok (do_set k v c) \<and> max_bytes (do_set k v c) = max_bytes c"
  using cache_set_ok [of c k v] cache_set_spec [of c k v] cache_set_too_big [of c k v]
  by (cases "fits c k v") (auto simp: do_set_def)

lemma do_get_ok: "cache_ok c \<Longrightarrow> cache_ok (do_get k c) \<and> max_bytes (do_get k c) = max_bytes c"
  using cache_get_ok [of c k] by (cases "cache_get k c") (auto simp: do_get_def cache_get_def split: option.splits)

interpretation lru: cache cached "dumps False" do_set do_get
  "\<lambda>k v. int (length (dumps False v)) + key_bytes k \<le> limit"
  "\<lambda>c. cache_ok c \<and> max_bytes c = limit" for limit
proof unfold_locales
  fix c k k' assume c: "cache_ok c \<and> max_bytes c = limit"
  then have "wf_dict (entries c)" by (simp add: cache_ok_def)
  with map_of_move [of "entries c" k] show "cached (do_get k c) k' = cached c k'"
    by (auto simp: cached_def do_get_def cache_get_def split: option.splits)
next
  fix c k v assume "cache_ok c \<and> max_bytes c = limit" "\<not> int (length (dumps False v)) + key_bytes k \<le> limit"
  then show "do_set k v c = c" by (simp add: do_set_def cache_set_too_big fits_def)
next
  fix c and k k' :: cache_key and v assume "cache_ok c \<and> max_bytes c = limit" "k' \<noteq> k"
  then show "cached (do_set k v c) k' = None \<or> cached (do_set k v c) k' = cached c k'"
    unfolding cached_def by (intro set_lookup_other) simp_all
qed (auto simp: do_set_ok do_get_ok cached_def fits_def intro: set_lookup_same)

section \<open>Properties\<close>

text \<open>
  C34.  The cache never exceeds its limits: after any sequence of gets and sets on a fresh cache, the
  byte counter is exactly the size of the stored entries, which is at most \<open>max_bytes\<close>, and there
  are at most \<open>max_entries\<close> entries, with distinct keys.
\<close>

theorem cache_within_limits:
  assumes "cache_init mb me = Inr c"
  shows "cache_ok (lru.run ops c)"
proof -
  have "cache_ok c \<and> max_bytes c = mb" using assms by (auto simp: cache_init_def cache_ok_def)
  with lru.run_ok [of c mb ops] show ?thesis by simp
qed

theorem cache_within_limits_witness:
  "\<exists>c. cache_init 9 1 = Inr c \<and> cache_ok (lru.run [([''a''], Some (JInt 1)), ([''b''], Some (JInt 2)), ([''b''], None)] c)"
proof -
  have "cache_init 9 1 = Inr \<lparr>max_bytes = 9, max_entries = 1, entries = [], cbytes = 0, hits = 0, misses = 0, evictions = 0\<rparr>"
    by (simp add: cache_init_def)
  from cache_within_limits [OF this] this show ?thesis by blast
qed

text \<open>
  Reading back: storing a value that fits never fails, keeps it, and the next \<open>get\<close> returns
  exactly that value.
\<close>

lemma cache_get_after_set:
  assumes "cache_ok c" and "fits c k v" and "wf_json v"
  shows "\<exists>c'. cache_set k v c = Inr c' \<and> fst (cache_get k c') = Inr v"
proof -
  obtain c' where c': "cache_set k v c = Inr c'" using cache_set_spec [OF assms(1,2)] by blast
  with set_lookup_same [OF assms(1,2)] have "map_of (entries c') k = Some (dumps False v)"
    by (simp add: do_set_def)
  with c' loads_dumps_eq [OF assms(3), of False] show ?thesis
    by (simp add: cache_get_def norm_json_id)
qed

lemma cache_get_after_set_witness:
  "\<exists>c'. cache_set [''a''] (JInt 7) \<lparr>max_bytes = 9, max_entries = 1, entries = [([''b''], ''1'')], cbytes = 2,
     hits = 0, misses = 0, evictions = 0\<rparr> = Inr c' \<and> fst (cache_get [''a''] c') = Inr (JInt 7)"
proof (rule cache_get_after_set)
  show "fits \<lparr>max_bytes = 9, max_entries = 1, entries = [([''b''], ''1'')], cbytes = 2,
     hits = 0, misses = 0, evictions = 0\<rparr> [''a''] (JInt 7)" by code_simp
qed (simp_all add: cache_ok_def entry_bytes_def key_bytes_def)

text \<open>
  Eviction is least-recently-used and minimal: a set that fits keeps the new entry last and drops
  the first \<open>i\<close> of the other entries in recency order, where \<open>i\<close> is the least number for which both
  limits hold; nothing else changes.
\<close>

lemma cache_evicts_lru:
  assumes "cache_ok c" and "fits c k v"
  shows "\<exists>i. cache_set k v c = Inr (c\<lparr>entries := drop i (AList.delete k (entries c)) @ [(k, dumps False v)],
      cbytes := total (drop i (AList.delete k (entries c)) @ [(k, dumps False v)]), evictions := evictions c + i\<rparr>)
    \<and> i = (LEAST j. total (drop j (AList.delete k (entries c)) @ [(k, dumps False v)]) \<le> max_bytes c
        \<and> int (length (drop j (AList.delete k (entries c)) @ [(k, dumps False v)])) \<le> max_entries c)"
proof -
  let ?P = "\<lambda>j. total (drop j (AList.delete k (entries c)) @ [(k, dumps False v)]) \<le> max_bytes c
        \<and> int (length (drop j (AList.delete k (entries c)) @ [(k, dumps False v)])) \<le> max_entries c"
  from cache_set_spec [OF assms] obtain i where
    i: "cache_set k v c = Inr (c\<lparr>entries := drop i (AList.delete k (entries c)) @ [(k, dumps False v)],
      cbytes := total (drop i (AList.delete k (entries c)) @ [(k, dumps False v)]), evictions := evictions c + i\<rparr>)"
    "?P i" "\<forall>j < i. \<not> ?P j" by blast
  then have "(LEAST j. ?P j) = i" by (intro Least_equality) (auto simp: not_less [symmetric] simp del: total_simps length_append)
  with i(1) show ?thesis by metis
qed

lemma cache_evicts_lru_witness:
  "\<exists>i. cache_set [''a''] (JInt 7) \<lparr>max_bytes = 9, max_entries = 1, entries = [([''b''], ''1'')], cbytes = 2,
     hits = 0, misses = 0, evictions = 0\<rparr> = Inr (\<lparr>max_bytes = 9, max_entries = 1, entries = drop i [([''b''], ''1'')] @ [([''a''], ''7'')],
     cbytes = total (drop i [([''b''], ''1'')] @ [([''a''], ''7'')]), hits = 0, misses = 0, evictions = i\<rparr>)"
proof -
  let ?c = "\<lparr>max_bytes = 9, max_entries = 1, entries = [([''b''], ''1'')], cbytes = 2, hits = 0, misses = 0, evictions = 0\<rparr>"
  have ok: "cache_ok ?c" by (simp add: cache_ok_def entry_bytes_def key_bytes_def)
  have fits: "fits ?c [''a''] (JInt 7)" by code_simp
  have d: "dumps False (JInt 7) = ''7''" by code_simp
  from cache_evicts_lru [OF ok fits] d show ?thesis by (auto simp del: dumps.simps)
qed



end
