(* ===== verification/Paths.thy ===== *)
theory Paths
  imports Sha256
begin

text \<open>
  \<open>cardrag_core/paths.py\<close> and \<open>cardrag_core/domain.py\<close>: the traversal-safe artifact
  namespace and the hash-bound references into it.  A \<open>PurePosixPath\<close> is the list of its
  parts.  The main facts: validation accepts exactly the texts of non-empty lists of plain
  segments (so it is its own inverse), every path constructor yields such a list, and the
  constructors are injective with pairwise disjoint ranges.
\<close>

type_synonym path = "string list"

definition as_posix :: "path \<Rightarrow> string" where
  "as_posix p = (if p = [] then ''.'' else join_with (CHR ''/'') p)"

section \<open>paths.py\<close>

definition validate_sha256 :: "string \<Rightarrow> string result" where
  "validate_sha256 value =
     (if \<not> sha256_hex value
      then Inl (ValueError ''SHA-256 values must be 64 lowercase hexadecimal characters'')
      else Inr value)"

definition safe_tail :: "char \<Rightarrow> bool" where
  "safe_tail c \<longleftrightarrow> is_alnum c \<or> c = CHR ''.'' \<or> c = CHR ''_'' \<or> c = CHR ''-''"

text \<open>\<open>_SAFE_ID\<close>: \<open>[A-Za-z0-9][A-Za-z0-9._-]{0,127}\<close>.\<close>

definition safe_id :: "string \<Rightarrow> bool" where
  "safe_id v = (case v of [] \<Rightarrow> False
     | c # cs \<Rightarrow> is_alnum c \<and> length cs \<le> 127 \<and> list_all safe_tail cs)"

text \<open>\<open>_SAFE_SEGMENT\<close>: \<open>[A-Za-z0-9.][A-Za-z0-9._-]{0,254}\<close>.\<close>

definition safe_segment :: "string \<Rightarrow> bool" where
  "safe_segment v = (case v of [] \<Rightarrow> False
     | c # cs \<Rightarrow> (is_alnum c \<or> c = CHR ''.'') \<and> length cs \<le> 254 \<and> list_all safe_tail cs)"

definition validate_identifier :: "string \<Rightarrow> string \<Rightarrow> string result" where
  "validate_identifier value label =
     (if \<not> safe_id value \<or> value = ''.'' \<or> value = ''..''
      then Inl (ValueError (label @ '' is not a safe portable identifier''))
      else Inr value)"

definition channel_pointer_path :: "string \<Rightarrow> path result" where
  "channel_pointer_path channel =
     rbind (validate_identifier channel ''channel'')
       (\<lambda>value. Inr [''v1'', ''channels'', value @ ''.json''])"

definition is_control :: "char \<Rightarrow> bool" where
  "is_control c \<longleftrightarrow> (of_char c :: nat) < 32 \<or> (of_char c :: nat) = 127"

definition validate_relative_path :: "string \<Rightarrow> path result" where
  "validate_relative_path raw =
     (if raw = [] \<or> hd raw = CHR ''/'' \<or> CHR 0x5C \<in> set raw \<or> CHR ''%'' \<in> set raw
         \<or> CHR 0x00 \<in> set raw
      then Inl (ValueError ''artifact paths must be non-empty, unencoded POSIX-relative paths'')
      else if list_ex is_control raw
      then Inl (ValueError ''artifact paths must not contain control characters'')
      else let segments = split_on (CHR ''/'') raw in
        if list_ex (\<lambda>s. s = [] \<or> s = ''.'' \<or> s = ''..'' \<or> \<not> safe_segment s) segments
        then Inl (ValueError ''artifact path contains an unsafe segment'')
        else Inr segments)"

text \<open>The overload on \<open>PurePosixPath\<close> validates the text of the path.\<close>

definition validate_path :: "path \<Rightarrow> path result" where
  "validate_path p = validate_relative_path (as_posix p)"

definition object_path :: "string \<Rightarrow> path result" where
  "object_path digest =
     rbind (validate_sha256 digest)
       (\<lambda>value. Inr [''v1'', ''objects'', ''sha256'', take 2 value, value])"

definition ocr_cache_root_path :: "string \<Rightarrow> string \<Rightarrow> path result" where
  "ocr_cache_root_path reuse_key kind =
     rbind (validate_sha256 reuse_key) (\<lambda>value.
     rbind (raise_if (kind \<notin> {''native'', ''adopted'', ''content''})
       (ValueError ''OCR cache kind must be native, adopted, or content'')) (\<lambda>_.
     Inr [''v1'', ''ocr-cache'', kind, take 2 value, value]))"

definition ocr_manifest_path :: "string \<Rightarrow> string \<Rightarrow> path result" where
  "ocr_manifest_path reuse_key kind =
     rbind (ocr_cache_root_path reuse_key kind) (\<lambda>r. Inr (r @ [''manifest.json'']))"

definition ocr_ready_path :: "string \<Rightarrow> string \<Rightarrow> path result" where
  "ocr_ready_path reuse_key kind =
     rbind (ocr_cache_root_path reuse_key kind) (\<lambda>r. Inr (r @ [''READY.json'']))"

definition content_ocr_variant_root_path :: "string \<Rightarrow> string \<Rightarrow> path result" where
  "content_ocr_variant_root_path reuse_key variant_label =
     rbind (validate_identifier variant_label ''OCR variant'') (\<lambda>label.
     rbind (ocr_cache_root_path reuse_key ''content'') (\<lambda>r. Inr (r @ [''variants'', label])))"

definition ocr_variant_root_path :: "string \<Rightarrow> string \<Rightarrow> string \<Rightarrow> path result" where
  "ocr_variant_root_path reuse_key variant_token kind =
     rbind (validate_identifier variant_token ''variant_token'') (\<lambda>label.
     rbind (ocr_cache_root_path reuse_key kind) (\<lambda>r. Inr (r @ [''variants'', label])))"

definition ocr_variant_manifest_path :: "string \<Rightarrow> string \<Rightarrow> string \<Rightarrow> path result" where
  "ocr_variant_manifest_path reuse_key variant_token kind =
     rbind (ocr_variant_root_path reuse_key variant_token kind) (\<lambda>r. Inr (r @ [''manifest.json'']))"

definition ocr_variant_ready_path :: "string \<Rightarrow> string \<Rightarrow> string \<Rightarrow> path result" where
  "ocr_variant_ready_path reuse_key variant_token kind =
     rbind (ocr_variant_root_path reuse_key variant_token kind) (\<lambda>r. Inr (r @ [''READY.json'']))"

definition generation_root_path :: "string \<Rightarrow> path result" where
  "generation_root_path generation_id =
     rbind (validate_identifier generation_id ''generation_id'')
       (\<lambda>g. Inr [''v1'', ''generations'', g])"

definition generation_manifest_path :: "string \<Rightarrow> path result" where
  "generation_manifest_path generation_id =
     rbind (generation_root_path generation_id) (\<lambda>r. Inr (r @ [''manifest.json'']))"

definition generation_ready_path :: "string \<Rightarrow> path result" where
  "generation_ready_path generation_id =
     rbind (generation_root_path generation_id) (\<lambda>r. Inr (r @ [''READY.json'']))"

definition generation_database_path :: "string \<Rightarrow> path result" where
  "generation_database_path generation_id =
     rbind (generation_root_path generation_id) (\<lambda>r. Inr (r @ [''index.sqlite3'']))"

definition generation_vectors_path :: "string \<Rightarrow> path result" where
  "generation_vectors_path generation_id =
     rbind (generation_root_path generation_id) (\<lambda>r. Inr (r @ [''vectors.f32'']))"

text \<open>\<open>fresh\<close> is the value \<open>uuid.uuid4().hex\<close> would have; an empty token is falsy.\<close>

definition temporary_object_path :: "string \<Rightarrow> string \<Rightarrow> string option \<Rightarrow> path result" where
  "temporary_object_path fresh digest token =
     rbind (validate_sha256 digest) (\<lambda>value.
     let suffix = (case token of None \<Rightarrow> fresh | Some t \<Rightarrow> if t = [] then fresh else t) in
     rbind (validate_identifier suffix ''temporary token'') (\<lambda>_.
     Inr [''v1'', ''.incoming'', ''objects'', take 2 value,
          value @ ''.'' @ suffix @ ''.tmp'']))"

record GenerationPaths =
  gp_generation_id :: string
  gp_root :: path
  gp_manifest :: path
  gp_ready :: path
  gp_serving_database :: path

definition gp_vectors :: "GenerationPaths \<Rightarrow> path" where
  "gp_vectors g = gp_root g @ [''vectors.f32'']"

definition for_generation :: "string \<Rightarrow> GenerationPaths result" where
  "for_generation generation_id =
     rbind (generation_root_path generation_id) (\<lambda>root.
     rbind (validate_identifier generation_id ''generation_id'') (\<lambda>g.
     Inr \<lparr>gp_generation_id = g, gp_root = root,
          gp_manifest = root @ [''manifest.json''], gp_ready = root @ [''READY.json''],
          gp_serving_database = root @ [''index.sqlite3'']\<rparr>))"

section \<open>domain.py\<close>

text \<open>
  The models strip surrounding white space from every string field before the field is checked
  (\<open>str_strip_whitespace\<close>).  White space is the Unicode property, given by its UTF-8 bytes.
\<close>

definition utf8_spaces :: "string list" where
  "utf8_spaces =
     [[CHR 0x09], [CHR 0x0A], [CHR 0x0B], [CHR 0x0C], [CHR 0x0D], [CHR 0x20],
      [CHR 0xC2, CHR 0x85], [CHR 0xC2, CHR 0xA0], [CHR 0xE1, CHR 0x9A, CHR 0x80],
      [CHR 0xE2, CHR 0x80, CHR 0x80], [CHR 0xE2, CHR 0x80, CHR 0x81],
      [CHR 0xE2, CHR 0x80, CHR 0x82], [CHR 0xE2, CHR 0x80, CHR 0x83],
      [CHR 0xE2, CHR 0x80, CHR 0x84], [CHR 0xE2, CHR 0x80, CHR 0x85],
      [CHR 0xE2, CHR 0x80, CHR 0x86], [CHR 0xE2, CHR 0x80, CHR 0x87],
      [CHR 0xE2, CHR 0x80, CHR 0x88], [CHR 0xE2, CHR 0x80, CHR 0x89],
      [CHR 0xE2, CHR 0x80, CHR 0x8A], [CHR 0xE2, CHR 0x80, CHR 0xA8],
      [CHR 0xE2, CHR 0x80, CHR 0xA9], [CHR 0xE2, CHR 0x80, CHR 0xAF],
      [CHR 0xE2, CHR 0x81, CHR 0x9F], [CHR 0xE3, CHR 0x80, CHR 0x80]]"

function lstrip :: "string list \<Rightarrow> string \<Rightarrow> string" where
  "lstrip sp s = (case find (\<lambda>p. p \<noteq> [] \<and> take (length p) s = p) sp of
       None \<Rightarrow> s | Some p \<Rightarrow> lstrip sp (drop (length p) s))"
  by pat_completeness auto
termination
proof (relation "measure (\<lambda>(sp, s). length s)")
  fix sp s p assume "find (\<lambda>p. p \<noteq> [] \<and> take (length p) s = p) sp = Some p"
  then have "p \<noteq> []" "take (length p) s = p" by (auto simp: find_Some_iff)
  then have "s \<noteq> []" "p \<noteq> []" by auto
  then show "((sp, drop (length p) s), (sp, s)) \<in> measure (\<lambda>(sp, s). length s)" by simp
qed simp

declare lstrip.simps [simp del]

definition strip :: "string \<Rightarrow> string" where
  "strip s = rev (lstrip (map rev utf8_spaces) (rev (lstrip utf8_spaces s)))"

text \<open>\<open>[a-z][a-z0-9_-]{1,31}\<close>.\<close>

definition issuer_code :: "string \<Rightarrow> string result" where
  "issuer_code value =
     (if (case value of [] \<Rightarrow> False
          | c # cs \<Rightarrow> is_lower c \<and> 1 \<le> length cs \<and> length cs \<le> 31
              \<and> list_all (\<lambda>d. is_lower d \<or> is_digit d \<or> d = CHR ''_'' \<or> d = CHR ''-'') cs)
      then Inr value
      else Inl (ValueError ''issuer code must be a safe lowercase identifier''))"

record ArtifactRef =
  ar_sha256 :: string
  ar_size_bytes :: int
  ar_media_type :: string
  ar_path :: string

text \<open>
  The constructor with its field constraints, the \<open>path\<close> field validator and the model
  validator that binds a CAS path to the digest.  A failed constraint is pydantic's
  \<open>ValidationError\<close>, a subclass of \<open>ValueError\<close>.
\<close>

definition artifact_ref :: "string \<Rightarrow> int \<Rightarrow> string \<Rightarrow> string \<Rightarrow> ArtifactRef result" where
  "artifact_ref sha256 size_bytes media_type path =
     (let sha = strip sha256; media = strip media_type in
     rbind (raise_if (\<not> sha256_hex sha) (ValueError ''sha256'')) (\<lambda>_.
     rbind (raise_if (size_bytes < 0) (ValueError ''size_bytes'')) (\<lambda>_.
     rbind (raise_if (media = []) (ValueError ''media_type'')) (\<lambda>_.
     rbind (validate_relative_path (strip path)) (\<lambda>p.
     rbind (object_path sha) (\<lambda>expected.
     rbind (raise_if (take 3 p = [''v1'', ''objects'', ''sha256''] \<and> p \<noteq> expected)
       (ValueError ''CAS artifact path does not match its SHA-256'')) (\<lambda>_.
     Inr \<lparr>ar_sha256 = sha, ar_size_bytes = size_bytes, ar_media_type = media,
          ar_path = as_posix p\<rparr>)))))))"

definition mime_type :: "ArtifactRef \<Rightarrow> string" where
  "mime_type r = ar_media_type r"

definition for_cas :: "string \<Rightarrow> int \<Rightarrow> string \<Rightarrow> ArtifactRef result" where
  "for_cas sha256 size_bytes media_type =
     rbind (object_path sha256) (\<lambda>p. artifact_ref sha256 size_bytes media_type (as_posix p))"

record VerifiedArtifact =
  va_path :: path
  va_sha256 :: string
  va_size_bytes :: int

definition verified_artifact :: "path \<Rightarrow> string \<Rightarrow> int \<Rightarrow> VerifiedArtifact result" where
  "verified_artifact path sha256 size_bytes =
     rbind (validate_path path) (\<lambda>_.
     rbind (raise_if (length sha256 \<noteq> 64 \<or> list_ex (\<lambda>c. c \<notin> set ''0123456789abcdef'') sha256)
       (ValueError ''verified artifact SHA-256 is invalid'')) (\<lambda>_.
     rbind (raise_if (size_bytes < 0) (ValueError ''verified artifact size cannot be negative'')) (\<lambda>_.
     Inr \<lparr>va_path = path, va_sha256 = sha256, va_size_bytes = size_bytes\<rparr>)))"

section \<open>Validation accepts exactly the plain paths\<close>

definition plain_segment :: "string \<Rightarrow> bool" where
  "plain_segment s \<longleftrightarrow> safe_segment s \<and> s \<noteq> ''.'' \<and> s \<noteq> ''..''"

definition plain_path :: "path \<Rightarrow> bool" where
  "plain_path p \<longleftrightarrow> p \<noteq> [] \<and> list_all plain_segment p"

lemma alnum_bounds:
  "is_alnum c \<Longrightarrow> 48 \<le> (of_char c :: nat) \<and> (of_char c :: nat) \<le> 122"
  by (auto simp: is_alnum_def is_lower_def is_upper_def is_digit_def less_eq_char_def)

lemmas char_class_defs =
  safe_tail_def is_alnum_def is_lower_def is_upper_def is_digit_def is_hex_def less_eq_char_def

lemma not_safe_tail [simp]:
  "\<not> safe_tail (CHR ''/'')" "\<not> safe_tail (CHR 0x5C)" "\<not> safe_tail (CHR ''%'')"
  "\<not> safe_tail (CHR 0x00)"
  by (simp_all add: char_class_defs)

lemma safe_tail_not_control: "safe_tail c \<Longrightarrow> \<not> is_control c"
  using alnum_bounds [of c] by (auto simp: safe_tail_def is_control_def)

lemma safe_segment_head: "safe_segment (c # cs) \<Longrightarrow> safe_tail c"
  by (auto simp: safe_segment_def safe_tail_def)

lemma safe_segment_chars: "safe_segment s \<Longrightarrow> c \<in> set s \<Longrightarrow> safe_tail c"
  by (auto simp: safe_segment_def safe_tail_def list_all_iff split: list.splits)

lemma plain_segment_chars: "plain_segment s \<Longrightarrow> c \<in> set s \<Longrightarrow> safe_tail c"
  by (auto simp: plain_segment_def intro: safe_segment_chars)

lemma plain_path_chars:
  assumes "plain_path p" "c \<in> set (as_posix p)"
  shows "c = CHR ''/'' \<or> safe_tail c"
proof -
  from assms have "c \<in> insert (CHR ''/'') (\<Union>s \<in> set p. set s)"
    using set_join_with [of "CHR ''/''" p] by (auto simp: as_posix_def plain_path_def)
  with assms(1) show ?thesis
    by (auto simp: plain_path_def list_all_iff intro: plain_segment_chars)
qed

lemma plain_path_split: "plain_path p \<Longrightarrow> split_on (CHR ''/'') (as_posix p) = p"
proof -
  assume p: "plain_path p"
  then have "p \<noteq> []" by (simp add: plain_path_def)
  moreover have "\<forall>s \<in> set p. CHR ''/'' \<notin> set s"
    using p plain_segment_chars [of _ "CHR ''/''"] by (auto simp: plain_path_def list_all_iff)
  ultimately show ?thesis by (simp add: as_posix_def split_join_on)
qed

lemma plain_path_head: "plain_path p \<Longrightarrow> as_posix p \<noteq> [] \<and> hd (as_posix p) \<noteq> CHR ''/''"
proof -
  assume p: "plain_path p"
  then obtain s ss where ss: "p = s # ss" "plain_segment s"
    by (cases p) (auto simp: plain_path_def)
  then obtain c cs where c: "s = c # cs"
    by (cases s) (auto simp: plain_segment_def safe_segment_def)
  with ss have "c \<noteq> CHR ''/''"
    using safe_segment_head [of c cs] by (auto simp: plain_segment_def)
  with ss c show ?thesis by (cases ss) (auto simp: as_posix_def)
qed

lemma plain_path_clean:
  assumes "plain_path p"
  shows "CHR 0x5C \<notin> set (as_posix p)" "CHR ''%'' \<notin> set (as_posix p)"
    "CHR 0x00 \<notin> set (as_posix p)" "\<not> list_ex is_control (as_posix p)"
proof -
  have "\<not> is_control (CHR ''/'')" by (simp add: is_control_def)
  then have "\<not> is_control c" if "c \<in> set (as_posix p)" for c
    using plain_path_chars [OF assms that] safe_tail_not_control [of c] by auto
  then show "\<not> list_ex is_control (as_posix p)" by (auto simp: list_ex_iff)
qed (use plain_path_chars [OF assms, of "CHR 0x5C"] plain_path_chars [OF assms, of "CHR ''%''"]
    plain_path_chars [OF assms, of "CHR 0x00"] in auto)

lemma validate_relative_path_iff [path_simps]:
  "validate_relative_path raw = Inr p \<longleftrightarrow> plain_path p \<and> raw = as_posix p"
proof
  assume v: "validate_relative_path raw = Inr p"
  then have p: "p = split_on (CHR ''/'') raw" and seg: "list_all plain_segment p"
    by (auto simp: validate_relative_path_def Let_def list_ex_iff list_all_iff plain_segment_def
        split: if_splits)
  from p have "p \<noteq> []" "join_with (CHR ''/'') p = raw" by simp_all
  with seg show "plain_path p \<and> raw = as_posix p" by (simp add: plain_path_def as_posix_def)
next
  assume p: "plain_path p \<and> raw = as_posix p"
  then have "CHR 0x5C \<notin> set raw" "CHR ''%'' \<notin> set raw" "CHR 0x00 \<notin> set raw"
    and "\<not> list_ex is_control raw"
    using plain_path_clean [of p] by simp_all
  moreover have "split_on (CHR ''/'') raw = p" using p plain_path_split by simp
  moreover have "\<not> list_ex (\<lambda>s. s = [] \<or> s = ''.'' \<or> s = ''..'' \<or> \<not> safe_segment s) p"
    using p by (auto simp: plain_path_def plain_segment_def list_all_iff list_ex_iff
        safe_segment_def)
  ultimately show "validate_relative_path raw = Inr p"
    using p plain_path_head [of p] by (simp add: validate_relative_path_def Let_def)
qed

lemma validate_path_plain [simp, path_simps]: "plain_path p \<Longrightarrow> validate_path p = Inr p"
  by (simp add: validate_path_def validate_relative_path_iff)

lemma validate_path_Inr: "validate_path p = Inr q \<Longrightarrow> plain_path q \<and> as_posix q = as_posix p"
  by (simp add: validate_path_def validate_relative_path_iff)

section \<open>The path constructors\<close>

lemma sha256_hex_segment: "sha256_hex v \<Longrightarrow> plain_segment v"
proof -
  assume "sha256_hex v"
  then have len: "length v = 64" and hex: "list_all is_hex v" by (simp_all add: sha256_hex_def)
  from len obtain c cs where "v = c # cs" "length cs = 63" by (cases v) auto
  with hex len show ?thesis
    by (auto simp: plain_segment_def safe_segment_def safe_tail_def list_all_iff is_hex_alnum)
qed

lemma sha256_prefix_segment: "sha256_hex v \<Longrightarrow> plain_segment (take 2 v)"
proof -
  assume v: "sha256_hex v"
  then obtain c d cs where "v = c # d # cs"
    by (cases v; cases "tl v") (auto simp: sha256_hex_def)
  moreover with v have "is_alnum c" "is_alnum d"
    by (auto simp: sha256_hex_def is_hex_alnum)
  ultimately show ?thesis
    by (auto simp: plain_segment_def safe_segment_def safe_tail_def char_class_defs)
qed

lemma safe_id_append: "safe_id g \<Longrightarrow> list_all safe_tail t \<Longrightarrow> length t \<le> 127 \<Longrightarrow> plain_segment (g @ t)"
  by (cases g) (auto simp: safe_id_def plain_segment_def safe_segment_def char_class_defs)

lemma safe_id_segment: "safe_id g \<Longrightarrow> plain_segment g"
  using safe_id_append [of g "[]"] by simp

lemma validate_identifier_Inr [simp, path_simps]:
  "validate_identifier v l = Inr w \<longleftrightarrow> safe_id v \<and> w = v"
  by (auto simp: validate_identifier_def safe_id_def char_class_defs)

lemma validate_sha256_Inr [simp, path_simps]: "validate_sha256 v = Inr w \<longleftrightarrow> sha256_hex v \<and> w = v"
  by (auto simp: validate_sha256_def)

lemma temporary_segment:
  "sha256_hex v \<Longrightarrow> safe_id t \<Longrightarrow> plain_segment (v @ ''.'' @ t @ ''.tmp'')"
proof -
  assume v: "sha256_hex v" and t: "safe_id t"
  then obtain c cs where c: "v = c # cs" "length cs = 63" "is_alnum c" "list_all safe_tail cs"
    by (cases v) (auto simp: sha256_hex_def list_all_iff safe_tail_def is_hex_alnum)
  moreover have "length t \<le> 128" "list_all safe_tail t"
    using t by (auto simp: safe_id_def safe_tail_def split: list.splits)
  ultimately show ?thesis
    by (auto simp: plain_segment_def safe_segment_def char_class_defs)
qed

lemma literal_segments [simp]:
  "plain_segment ''v1''" "plain_segment ''channels''" "plain_segment ''objects''"
  "plain_segment ''sha256''" "plain_segment ''ocr-cache''" "plain_segment ''native''"
  "plain_segment ''adopted''" "plain_segment ''content''" "plain_segment ''manifest.json''"
  "plain_segment ''READY.json''" "plain_segment ''variants''" "plain_segment ''generations''"
  "plain_segment ''index.sqlite3''" "plain_segment ''vectors.f32''" "plain_segment ''.incoming''"
  "plain_segment ''publish''"
  by (simp_all add: plain_segment_def safe_segment_def char_class_defs)

lemmas path_constructor_defs =
  channel_pointer_path_def object_path_def ocr_manifest_path_def ocr_ready_path_def
  ocr_cache_root_path_def content_ocr_variant_root_path_def ocr_variant_root_path_def
  ocr_variant_manifest_path_def ocr_variant_ready_path_def generation_root_path_def
  generation_manifest_path_def generation_ready_path_def generation_database_path_def
  generation_vectors_path_def temporary_object_path_def

lemma object_path_Inr [path_simps]:
  "object_path d = Inr p \<longleftrightarrow> sha256_hex d \<and> p = [''v1'', ''objects'', ''sha256'', take 2 d, d]"
  by (auto simp: object_path_def)

lemma generation_root_path_Inr [path_simps]:
  "generation_root_path g = Inr p \<longleftrightarrow> safe_id g \<and> p = [''v1'', ''generations'', g]"
  by (auto simp: generation_root_path_def)

lemma json_suffix: "safe_id c \<Longrightarrow> plain_segment (c @ ''.json'')"
  by (rule safe_id_append) (simp_all add: char_class_defs)

section \<open>References\<close>

definition printable :: "char \<Rightarrow> bool" where
  "printable c \<longleftrightarrow> 33 \<le> (of_char c :: nat) \<and> (of_char c :: nat) < 127"

lemma lstrip_id:
  assumes "\<And>p c cs. p \<in> set sp \<Longrightarrow> p = c # cs \<Longrightarrow> c \<notin> set s"
  shows "lstrip sp s = s"
proof -
  have "find (\<lambda>p. p \<noteq> [] \<and> take (length p) s = p) sp = None"
  proof (rule ccontr)
    assume "find (\<lambda>p. p \<noteq> [] \<and> take (length p) s = p) sp \<noteq> None"
    then obtain p where p: "p \<in> set sp" "p \<noteq> []" "take (length p) s = p"
      by (auto simp: find_None_iff)
    then have "hd p \<in> set s" by (metis in_set_takeD list.set_sel(1))
    with p assms [of p "hd p" "tl p"] show False by simp
  qed
  then show ?thesis by (subst lstrip.simps) simp
qed

lemma lstrip_printable:
  assumes "list_all printable s"
  shows "lstrip utf8_spaces s = s" "lstrip (map rev utf8_spaces) (rev s) = rev s"
  by (rule lstrip_id, use assms in \<open>auto simp: utf8_spaces_def list_all_iff printable_def\<close>)+

lemma strip_printable: "list_all printable s \<Longrightarrow> strip s = s"
  by (simp add: strip_def lstrip_printable)

lemma safe_tail_printable: "safe_tail c \<Longrightarrow> printable c"
  using alnum_bounds [of c] by (auto simp: safe_tail_def printable_def)

lemma sha256_printable: "sha256_hex v \<Longrightarrow> list_all printable v"
  by (auto simp: sha256_hex_def list_all_iff safe_tail_def intro!: safe_tail_printable is_hex_alnum)

lemma strip_sha256 [simp]: "sha256_hex v \<Longrightarrow> strip v = v"
  by (rule strip_printable [OF sha256_printable])

lemma strip_posix [simp]: "plain_path p \<Longrightarrow> strip (as_posix p) = as_posix p"
  by (rule strip_printable)
    (auto simp: list_all_iff printable_def [of "CHR ''/''"] dest: plain_path_chars intro: safe_tail_printable)

lemma artifact_ref_fields:
  assumes "artifact_ref d n mt (as_posix p) = Inr r" "sha256_hex d" "plain_path p"
  shows "ar_sha256 r = d" "ar_size_bytes r = n" "ar_media_type r = strip mt" "ar_path r = as_posix p"
  using assms by (auto simp: artifact_ref_def Let_def validate_relative_path_iff)

text \<open>
  Every path constructor of the namespace, as one function of a tag, and the segments it yields.
\<close>

datatype path_request =
    ChannelPointer string
  | ObjectFile string
  | OcrManifest string string
  | OcrReady string string
  | OcrVariantManifest string string string
  | OcrVariantReady string string string
  | GenerationManifestFile string
  | GenerationReadyFile string
  | GenerationDatabaseFile string
  | GenerationVectorsFile string
  | TemporaryObject string string

fun path_for :: "path_request \<Rightarrow> path result" where
  "path_for (ChannelPointer c) = channel_pointer_path c"
| "path_for (ObjectFile d) = object_path d"
| "path_for (OcrManifest k kind) = ocr_manifest_path k kind"
| "path_for (OcrReady k kind) = ocr_ready_path k kind"
| "path_for (OcrVariantManifest k v kind) = ocr_variant_manifest_path k v kind"
| "path_for (OcrVariantReady k v kind) = ocr_variant_ready_path k v kind"
| "path_for (GenerationManifestFile g) = generation_manifest_path g"
| "path_for (GenerationReadyFile g) = generation_ready_path g"
| "path_for (GenerationDatabaseFile g) = generation_database_path g"
| "path_for (GenerationVectorsFile g) = generation_vectors_path g"
| "path_for (TemporaryObject d t) = temporary_object_path [] d (Some t)"

lemma path_for_plain: "path_for r = Inr p \<Longrightarrow> plain_path p"
  by (cases r)
    (auto simp: path_constructor_defs plain_path_def Let_def json_suffix sha256_hex_segment
      sha256_prefix_segment safe_id_segment temporary_segment [simplified] split: if_splits)

text \<open>
  C40.  Validation of an artifact path accepts a text exactly when it is the text of a non-empty
  list of plain segments (1 to 255 characters from \<open>[A-Za-z0-9._-]\<close>, none of them \<open>.\<close> or
  \<open>..\<close>), and then returns that list: no accepted path can name anything outside the root, and
  validating the text of an accepted path gives the same path back.
\<close>

theorem relative_path_validation_exact:
  "validate_relative_path raw = Inr p \<longleftrightarrow> plain_path p \<and> raw = as_posix p"
  by (rule validate_relative_path_iff)

lemma temporary_name_eq:
  assumes "v @ CHR ''.'' # t = v' @ CHR ''.'' # t'" "sha256_hex v" "sha256_hex v'"
  shows "v = v' \<and> t = t'"
  using assms by (auto simp: sha256_hex_def)

text \<open>
  The remote namespace is unambiguous: two requests (a channel pointer, a CAS object, an OCR
  cache or variant file, a generation member, a temporary object) that both succeed have different
  paths unless they are the same request, so no publication can alias another artifact's file.
\<close>

lemma path_namespace_injective: "inj_on path_for {r. \<not> isl (path_for r)}"
proof (rule inj_onI)
  fix r r' assume "r \<in> {r. \<not> isl (path_for r)}" "path_for r = path_for r'"
  then obtain p where "path_for r = Inr p" "path_for r' = Inr p"
    by (metis mem_Collect_eq sum.collapse(2))
  then show "r = r'"
    by (cases r; cases r')
      (auto simp: path_constructor_defs Let_def dest: temporary_name_eq split: if_splits)
qed

end
