(* ===== verification/Webdav.thy ===== *)
theory Webdav
  imports Paths Effects Json
begin

text \<open>
  \<open>cardrag_core/webdav.py\<close>: the synchronous WebDAV client.

  The HTTP transport and the server behind it are not part of the repository: they are the
  parameter \<open>http\<close>, any function from a request and the world to a result and the next world.
  A result is a transport failure (\<open>httpx.HTTPError\<close>) or a response with its status, headers,
  the chunks of its body, and whether the body broke off with a transport failure.  Header names
  are lower case, values are ASCII.  \<open>dav_log\<close> is a ghost field: the exchanges so far; no
  operation reads it.  \<open>local_files\<close> holds the regular files \<open>download\<close> creates.  The transfer
  counters of \<open>performance_snapshot\<close> (telemetry) are not modelled.
\<close>

type_synonym headers = "(string \<times> string) list"

record http_request =
  rq_method :: string
  rq_url :: string
  rq_headers :: headers
  rq_content :: "bytes option"

datatype http_result = HttpError | HttpResponse int headers "bytes list" bool

type_synonym 'w http = "http_request \<Rightarrow> 'w \<Rightarrow> http_result \<times> 'w"

record 'w dav =
  dav_world :: 'w
  dav_log :: "(http_request \<times> http_result) list"
  local_files :: "string \<Rightarrow> bytes option"

type_synonym ('w, 'a) dav_op = "('w dav, 'a) op"

record base_url =
  bu_scheme :: string
  bu_netloc :: string
  bu_path :: string

record WebDAVObjectStat =
  st_path :: path
  st_status_code :: int
  st_size_bytes :: "int option"
  st_etag :: "string option"
  st_last_modified :: "string option"

record WebDAVResponse =
  rs_path :: path
  rs_status_code :: int
  rs_headers :: headers
  rs_content :: bytes

record VerifiedRemoteObject =
  vr_artifact :: VerifiedArtifact
  vr_etag :: "string option"

section \<open>Texts of the standard library\<close>

definition rstrip_slash :: "string \<Rightarrow> string" where
  "rstrip_slash s = rev (dropWhile (\<lambda>c. c = CHR ''/'') (rev s))"

text \<open>\<open>quote(segment, safe="-._~")\<close>.\<close>

definition upper_hex :: "nat \<Rightarrow> char" where
  "upper_hex n = ''0123456789ABCDEF'' ! n"

definition quote :: "string \<Rightarrow> string" where
  "quote s = concat (map (\<lambda>c.
     if is_alnum c \<or> c = CHR ''_'' \<or> c = CHR ''.'' \<or> c = CHR ''-'' \<or> c = CHR ''~'' then [c]
     else [CHR ''%'', upper_hex (of_char c div 16), upper_hex (of_char c mod 16)]) s)"

definition isdigit :: "string \<Rightarrow> bool" where
  "isdigit s \<longleftrightarrow> s \<noteq> [] \<and> list_all is_digit s"

text \<open>\<open>int(text)\<close>: surrounding white space, a sign, digits with single underscores between them.\<close>

fun int_body :: "bool \<Rightarrow> string \<Rightarrow> bool" where
  "int_body prev [] = prev"
| "int_body prev (c # s) =
     (if is_digit c then int_body True s else if c = CHR ''_'' then prev \<and> s \<noteq> [] \<and> int_body False s
      else False)"

definition py_int :: "string \<Rightarrow> int option" where
  "py_int text =
     (let s = rev (dropWhile is_ws (rev (dropWhile is_ws text)));
          (neg, body) = (case s of [] \<Rightarrow> (False, s)
             | c # r \<Rightarrow> if c = CHR ''-'' then (True, r) else if c = CHR ''+'' then (False, r) else (False, s));
          n = int (nat_of_digits (filter is_digit body))
      in if int_body False body then Some (if neg then - n else n) else None)"

section \<open>webdav.py\<close>

definition url :: "base_url \<Rightarrow> path \<Rightarrow> string result" where
  "url base path =
     rbind (validate_path path) (\<lambda>relative.
     Inr (bu_scheme base @ ''://'' @ bu_netloc base @ rstrip_slash (bu_path base) @ ''/''
          @ join_with (CHR ''/'') (map quote relative)))"

definition exchange :: "'w http \<Rightarrow> http_request \<Rightarrow> ('w, http_result) dav_op" where
  "exchange http rq s =
     (let (r, w) = http rq (dav_world s)
      in (Inr r, s\<lparr>dav_world := w, dav_log := dav_log s @ [(rq, r)]\<rparr>))"

definition request ::
  "'w http \<Rightarrow> base_url \<Rightarrow> string \<Rightarrow> path \<Rightarrow> int list \<Rightarrow> headers \<Rightarrow> bytes option
   \<Rightarrow> ('w, int \<times> headers \<times> bytes) dav_op"
where
  "request http base method path expected_statuses hdrs content =
     sbind (lift (validate_path path)) (\<lambda>relative.
     sbind (lift (url base relative)) (\<lambda>u.
     sbind (exchange http \<lparr>rq_method = method, rq_url = u, rq_headers = hdrs, rq_content = content\<rparr>)
       (\<lambda>r. case r of
          HttpError \<Rightarrow> raise (WebDAVError (''WebDAV '' @ method @ '' '' @ as_posix relative @ '' failed''))
        | HttpResponse status rh chunks broken \<Rightarrow>
            if broken then raise (WebDAVError (''WebDAV '' @ method @ '' '' @ as_posix relative @ '' failed''))
            else if status \<notin> set expected_statuses then raise (WebDAVHTTPError method relative status)
            else ret (status, rh, concat chunks))))"

definition head :: "'w http \<Rightarrow> base_url \<Rightarrow> path \<Rightarrow> ('w, WebDAVObjectStat) dav_op" where
  "head http base path =
     sbind (lift (validate_path path)) (\<lambda>relative.
     sbind (request http base ''HEAD'' relative [200, 204] [] None) (\<lambda>(status, rh, _).
     ret \<lparr>st_path = relative, st_status_code = status,
          st_size_bytes = (case map_of rh ''content-length'' of None \<Rightarrow> None | Some raw \<Rightarrow> py_int raw),
          st_etag = map_of rh ''etag'', st_last_modified = map_of rh ''last-modified''\<rparr>))"

definition exists :: "'w http \<Rightarrow> base_url \<Rightarrow> path \<Rightarrow> ('w, bool) dav_op" where
  "exists http base path =
     catch (sbind (head http base path) (\<lambda>_. ret True))
       (\<lambda>e. case e of WebDAVHTTPError _ _ status \<Rightarrow> if status = 404 then ret False else raise e
            | _ \<Rightarrow> raise e)"

text \<open>
  A streamed \<open>GET\<close>: the declared length is checked first, then the running size after every
  chunk; the stream may break off after the chunks it delivered.  The error of an oversized body
  is the caller's.
\<close>

fun read_chunks :: "int option \<Rightarrow> bytes \<Rightarrow> bytes list \<Rightarrow> bytes option" where
  "read_chunks cap body [] = Some body"
| "read_chunks cap body (c # cs) =
     (let body' = body @ c in
      case cap of Some n \<Rightarrow> if int (length body') > n then None else read_chunks cap body' cs
      | None \<Rightarrow> read_chunks cap body' cs)"

definition stream_get ::
  "'w http \<Rightarrow> base_url \<Rightarrow> path \<Rightarrow> int option \<Rightarrow> exn \<Rightarrow> ('w, headers \<times> bytes) dav_op"
where
  "stream_get http base relative cap too_big =
     sbind (lift (url base relative)) (\<lambda>u.
     sbind (exchange http \<lparr>rq_method = ''GET'', rq_url = u, rq_headers = [], rq_content = None\<rparr>)
       (\<lambda>r. case r of
          HttpError \<Rightarrow> raise (WebDAVError (''WebDAV GET '' @ as_posix relative @ '' failed''))
        | HttpResponse status rh chunks broken \<Rightarrow>
            if status \<noteq> 200 then raise (WebDAVHTTPError ''GET'' relative status)
            else if (case (cap, map_of rh ''content-length'') of
                       (Some n, Some raw) \<Rightarrow> isdigit raw \<and> int (nat_of_digits raw) > n
                     | _ \<Rightarrow> False)
            then raise too_big
            else (case read_chunks cap [] chunks of
                    None \<Rightarrow> raise too_big
                  | Some body \<Rightarrow>
                      if broken
                      then raise (WebDAVError (''WebDAV GET '' @ as_posix relative @ '' failed''))
                      else ret (rh, body))))"

definition dav_get :: "'w http \<Rightarrow> base_url \<Rightarrow> path \<Rightarrow> int option \<Rightarrow> ('w, WebDAVResponse) dav_op" where
  "dav_get http base path max_bytes =
     sbind (lift (validate_path path)) (\<lambda>relative.
     sbind (lift (raise_if (case max_bytes of Some n \<Rightarrow> n < 0 | None \<Rightarrow> False)
       (ValueError ''max_bytes cannot be negative''))) (\<lambda>_.
     sbind (stream_get http base relative max_bytes
       (WebDAVIntegrityError (''WebDAV object '' @ as_posix relative @ '' exceeds the read limit'')))
       (\<lambda>(rh, body). ret \<lparr>rs_path = relative, rs_status_code = 200, rs_headers = rh, rs_content = body\<rparr>)))"

definition verify_with_metadata ::
  "'w http \<Rightarrow> base_url \<Rightarrow> path \<Rightarrow> string \<Rightarrow> int \<Rightarrow> int option \<Rightarrow> ('w, VerifiedRemoteObject) dav_op"
where
  "verify_with_metadata http base path expected_sha256 expected_size_bytes max_bytes =
     sbind (lift (validate_path path)) (\<lambda>relative.
     sbind (lift (validate_sha256 expected_sha256)) (\<lambda>trusted_digest.
     sbind (lift (raise_if (expected_size_bytes < 0)
       (ValueError ''expected byte size must be a non-negative integer''))) (\<lambda>_.
     sbind (lift (raise_if (case max_bytes of Some n \<Rightarrow> n < 0 | None \<Rightarrow> False)
       (ValueError ''max_bytes must be a non-negative integer''))) (\<lambda>_.
     let hard_cap = (case max_bytes of None \<Rightarrow> expected_size_bytes | Some n \<Rightarrow> min expected_size_bytes n) in
     sbind (stream_get http base relative (Some hard_cap)
       (WebDAVReadbackIntegrityError ''remote object exceeds the allowed byte size'')) (\<lambda>(rh, body).
     sbind (lift (raise_if (int (length body) \<noteq> expected_size_bytes)
       (WebDAVReadbackIntegrityError ''remote byte size does not match the sealed identity''))) (\<lambda>_.
     sbind (lift (raise_if (sha256_bytes body \<noteq> trusted_digest)
       (WebDAVReadbackIntegrityError ''remote SHA-256 does not match the sealed identity''))) (\<lambda>_.
     sbind (lift (verified_artifact relative trusted_digest (int (length body)))) (\<lambda>a.
     ret \<lparr>vr_artifact = a, vr_etag = map_of rh ''etag''\<rparr>))))))))"

definition verify ::
  "'w http \<Rightarrow> base_url \<Rightarrow> path \<Rightarrow> string \<Rightarrow> int \<Rightarrow> int option \<Rightarrow> ('w, VerifiedArtifact) dav_op"
where
  "verify http base path expected_sha256 expected_size_bytes max_bytes =
     sbind (verify_with_metadata http base path expected_sha256 expected_size_bytes max_bytes)
       (\<lambda>v. ret (vr_artifact v))"

definition propfind_body :: bytes where
  "propfind_body =
     ''<?xml version='' @ [CHR 0x22] @ ''1.0'' @ [CHR 0x22] @ '' encoding='' @ [CHR 0x22] @ ''utf-8''
     @ [CHR 0x22] @ ''?><d:propfind xmlns:d='' @ [CHR 0x22] @ ''DAV:'' @ [CHR 0x22]
     @ ''><d:allprop/></d:propfind>''"

definition propfind :: "'w http \<Rightarrow> base_url \<Rightarrow> path \<Rightarrow> string \<Rightarrow> bytes \<Rightarrow> ('w, WebDAVResponse) dav_op" where
  "propfind http base path depth body =
     sbind (lift (validate_path path)) (\<lambda>relative.
     sbind (request http base ''PROPFIND'' relative [207]
       [(''Depth'', depth), (''Content-Type'', ''application/xml; charset=utf-8'')] (Some body))
       (\<lambda>(status, rh, content). ret \<lparr>rs_path = relative, rs_status_code = status, rs_headers = rh,
          rs_content = content\<rparr>))"

definition mkcol :: "'w http \<Rightarrow> base_url \<Rightarrow> path \<Rightarrow> bool \<Rightarrow> ('w, WebDAVObjectStat) dav_op" where
  "mkcol http base path exist_ok =
     sbind (lift (validate_path path)) (\<lambda>relative.
     sbind (request http base ''MKCOL'' relative (if exist_ok then [201, 405] else [201]) [] None)
       (\<lambda>(status, _, _). ret \<lparr>st_path = relative, st_status_code = status, st_size_bytes = Some 0,
          st_etag = None, st_last_modified = None\<rparr>))"

definition ensure_collection :: "'w http \<Rightarrow> base_url \<Rightarrow> path \<Rightarrow> ('w, unit) dav_op" where
  "ensure_collection http base path =
     sbind (lift (validate_path path)) (\<lambda>relative.
     sfor (\<lambda>i. sbind (mkcol http base (take (Suc i) relative) True) (\<lambda>_. ret ()))
       [0..<length relative])"

definition put ::
  "'w http \<Rightarrow> base_url \<Rightarrow> path \<Rightarrow> ('w, bytes) dav_op \<Rightarrow> string \<Rightarrow> bool \<Rightarrow> ('w, WebDAVObjectStat) dav_op"
where
  "put http base path content content_type if_none_match =
     sbind (lift (validate_path path)) (\<lambda>relative.
     let hdrs = (''Content-Type'', content_type) # (if if_none_match then [(''If-None-Match'', ''*'')] else []) in
     sbind content (\<lambda>payload.
     sbind (request http base ''PUT'' relative [200, 201, 204] hdrs (Some payload)) (\<lambda>(status, rh, _).
     ret \<lparr>st_path = relative, st_status_code = status,
          st_size_bytes = (case map_of rh ''content-length'' of None \<Rightarrow> None
             | Some raw \<Rightarrow> if isdigit raw then Some (int (nat_of_digits raw)) else None),
          st_etag = map_of rh ''etag'', st_last_modified = map_of rh ''last-modified''\<rparr>)))"

definition move :: "'w http \<Rightarrow> base_url \<Rightarrow> path \<Rightarrow> path \<Rightarrow> bool \<Rightarrow> ('w, WebDAVObjectStat) dav_op" where
  "move http base source destination overwrite =
     sbind (lift (validate_path source)) (\<lambda>source_path.
     sbind (lift (validate_path destination)) (\<lambda>destination_path.
     sbind (lift (url base destination_path)) (\<lambda>u.
     sbind (request http base ''MOVE'' source_path [201, 204]
       [(''Destination'', u), (''Overwrite'', if overwrite then ''T'' else ''F'')] None)
       (\<lambda>(status, _, _). ret \<lparr>st_path = destination_path, st_status_code = status,
          st_size_bytes = None, st_etag = None, st_last_modified = None\<rparr>))))"

definition delete :: "'w http \<Rightarrow> base_url \<Rightarrow> path \<Rightarrow> bool \<Rightarrow> ('w, unit) dav_op" where
  "delete http base path missing_ok =
     sbind (lift (validate_path path)) (\<lambda>relative.
     sbind (request http base ''DELETE'' relative
       (if missing_ok then [200, 202, 204, 404] else [200, 202, 204]) [] None) (\<lambda>_. ret ()))"

text \<open>
  \<open>download\<close> streams into a temporary file beside the target and renames it over the target at
  the end; the temporary file never survives.  The local target is its path with what the path
  checks find (\<open>is_absolute\<close>, \<open>is_symlink\<close>, whether the parent resolves).
\<close>

record local_target =
  lt_path :: string
  lt_absolute :: bool
  lt_symlink :: bool
  lt_parent_exists :: bool

definition download ::
  "'w http \<Rightarrow> base_url \<Rightarrow> path \<Rightarrow> local_target \<Rightarrow> string option \<Rightarrow> int option \<Rightarrow> int option
   \<Rightarrow> ('w, VerifiedArtifact) dav_op"
where
  "download http base path target expected_sha256 expected_size_bytes max_bytes =
     sbind (lift (validate_path path)) (\<lambda>relative.
     sbind (lift (raise_if (case expected_size_bytes of Some n \<Rightarrow> n < 0 | None \<Rightarrow> False)
       (ValueError ''expected_size_bytes cannot be negative''))) (\<lambda>_.
     sbind (lift (raise_if (case max_bytes of Some n \<Rightarrow> n < 0 | None \<Rightarrow> False)
       (ValueError ''max_bytes cannot be negative''))) (\<lambda>_.
     let hard_cap = (case (expected_size_bytes, max_bytes) of
           (Some a, Some b) \<Rightarrow> Some (min a b) | (Some a, None) \<Rightarrow> Some a | (None, b) \<Rightarrow> b) in
     sbind (lift (raise_if (\<not> lt_absolute target)
       (ValueError ''download destination must be an absolute path''))) (\<lambda>_.
     sbind (lift (raise_if (lt_symlink target)
       (ValueError ''download destination must not be a symlink''))) (\<lambda>_.
     sbind (lift (raise_if (\<not> lt_parent_exists target) (OSError ''FileNotFoundError''))) (\<lambda>_.
     sbind (stream_get http base relative hard_cap
       (WebDAVIntegrityError ''downloaded object exceeds the allowed byte size'')) (\<lambda>(rh, body).
     let actual_sha256 = sha256_bytes body in
     sbind (lift (raise_if (case expected_size_bytes of Some n \<Rightarrow> int (length body) \<noteq> n | None \<Rightarrow> False)
       (WebDAVIntegrityError ''downloaded byte size does not match the manifest''))) (\<lambda>_.
     sbind (lift (raise_if (case expected_sha256 of Some d \<Rightarrow> actual_sha256 \<noteq> d | None \<Rightarrow> False)
       (WebDAVIntegrityError ''downloaded SHA-256 does not match the manifest''))) (\<lambda>_.
     sbind (\<lambda>s. (Inr (), s\<lparr>local_files := (local_files s)(lt_path target := Some body)\<rparr>)) (\<lambda>_.
     lift (verified_artifact relative actual_sha256 (int (length body)))))))))))))"

section \<open>What an operation may put on the wire\<close>

text \<open>
  \<open>does A m R\<close>: whatever the transport answers and whether \<open>m\<close> returns or raises, it appends
  only exchanges satisfying \<open>A\<close> to the log; and when it returns \<open>x\<close> after the exchanges \<open>l\<close>,
  \<open>R x l\<close> holds.
\<close>

type_synonym exchanges = "(http_request \<times> http_result) list"

definition does ::
  "(http_request \<times> http_result \<Rightarrow> bool) \<Rightarrow> ('w, 'a) dav_op \<Rightarrow> ('a \<Rightarrow> exchanges \<Rightarrow> bool) \<Rightarrow> bool"
where
  "does A m R \<longleftrightarrow> (\<forall>L. valid (\<lambda>s. dav_log s = L) m
     (\<lambda>x s. \<exists>l. dav_log s = L @ l \<and> list_all A l \<and> R x l)
     (\<lambda>_ s. \<exists>l. dav_log s = L @ l \<and> list_all A l))"

named_theorems does_intros \<open>rules for the exchanges of an operation\<close>

lemma doesD:
  assumes "does A m R" "m s = (Inr x, s')"
  obtains l where "dav_log s' = dav_log s @ l" "list_all A l" "R x l"
  using assms valid_Inr [of "\<lambda>t. dav_log t = dav_log s" m _ _ s x s'] unfolding does_def by blast

lemma doesD_log:
  assumes "does A m R" "m s = (r, s')"
  obtains l where "dav_log s' = dav_log s @ l" "list_all A l"
proof (cases r)
  case (Inl e)
  with assms that show ?thesis
    using valid_Inl [of "\<lambda>t. dav_log t = dav_log s" m _ _ s e s'] unfolding does_def by blast
next
  case (Inr x)
  with assms that show ?thesis by (auto elim: doesD)
qed

lemma does_ret [does_intros]: "R x [] \<Longrightarrow> does A (ret x) R"
  by (auto simp: does_def intro!: valid_ret)

lemma does_raise [does_intros]: "does A (raise e) R"
  by (auto simp: does_def intro!: valid_raise)

lemma does_lift [does_intros]: "(\<And>x. r = Inr x \<Longrightarrow> R x []) \<Longrightarrow> does A (lift r) R"
  by (auto simp: does_def intro!: valid_lift)

lemma does_sbind:
  assumes "does A m P" "\<And>x. does A (f x) (Q x)"
    and "\<And>x y l1 l2. P x l1 \<Longrightarrow> Q x y l2 \<Longrightarrow> R y (l1 @ l2)"
  shows "does A (sbind m f) R"
  unfolding does_def
proof (intro allI validI)
  fix L s y t assume s: "dav_log s = L" "sbind m f s = (Inr y, t)"
  then obtain x s1 where x: "m s = (Inr x, s1)" "f x s1 = (Inr y, t)" by (auto simp: sbind_eqs)
  from doesD [OF assms(1) x(1)] obtain l1 where l1: "dav_log s1 = dav_log s @ l1" "list_all A l1" "P x l1" .
  from doesD [OF assms(2) x(2)] obtain l2 where "dav_log t = dav_log s1 @ l2" "list_all A l2" "Q x y l2" .
  with l1 s(1) assms(3) [of x l1 y l2]
  show "\<exists>l. dav_log t = L @ l \<and> list_all A l \<and> R y l" by (intro exI [of _ "l1 @ l2"]) simp
next
  fix L s e t assume s: "dav_log s = L" "sbind m f s = (Inl e, t)"
  then consider "m s = (Inl e, t)" | x s1 where "m s = (Inr x, s1)" "f x s1 = (Inl e, t)"
    by (auto simp: sbind_eqs)
  then show "\<exists>l. dav_log t = L @ l \<and> list_all A l"
  proof cases
    case 1
    with s(1) show ?thesis by (auto elim: doesD_log [OF assms(1)])
  next
    case 2
    from doesD_log [OF assms(1) 2(1)] obtain l1 where "dav_log s1 = dav_log s @ l1" "list_all A l1" .
    moreover from doesD_log [OF assms(2) 2(2)] obtain l2 where "dav_log t = dav_log s1 @ l2" "list_all A l2" .
    ultimately show ?thesis using s(1) by (intro exI [of _ "l1 @ l2"]) simp
  qed
qed

lemma does_sbind_lift [does_intros]:
  assumes "\<And>x. r = Inr x \<Longrightarrow> does A (f x) R"
  shows "does A (sbind (lift r) f) R"
  using assms
  by (cases r) (auto simp: does_def valid_def sbind_def lift_def)

lemma does_catch:
  assumes "does A m R" "\<And>e. does A (h e) R'" and "\<And>x l0 l. R' x l \<Longrightarrow> R x (l0 @ l)"
  shows "does A (catch m h) R"
  unfolding does_def
proof (intro allI validI)
  fix L s y t assume s: "dav_log s = L" "catch m h s = (Inr y, t)"
  then consider "m s = (Inr y, t)" | e s1 where "m s = (Inl e, s1)" "h e s1 = (Inr y, t)"
    by (auto simp: catch_eqs)
  then show "\<exists>l. dav_log t = L @ l \<and> list_all A l \<and> R y l"
  proof cases
    case 1
    with s(1) show ?thesis by (auto elim: doesD [OF assms(1)])
  next
    case 2
    from doesD_log [OF assms(1) 2(1)] obtain l1 where "dav_log s1 = dav_log s @ l1" "list_all A l1" .
    moreover from doesD [OF assms(2) 2(2)] obtain l2 where "dav_log t = dav_log s1 @ l2" "list_all A l2" "R' y l2" .
    ultimately show ?thesis using s(1) assms(3) [of y l2 l1] by (intro exI [of _ "l1 @ l2"]) simp
  qed
next
  fix L s e t assume s: "dav_log s = L" "catch m h s = (Inl e, t)"
  then obtain e1 s1 where e1: "m s = (Inl e1, s1)" "h e1 s1 = (Inl e, t)" by (auto simp: catch_eqs)
  from doesD_log [OF assms(1) e1(1)] obtain l1 where "dav_log s1 = dav_log s @ l1" "list_all A l1" .
  moreover from doesD_log [OF assms(2) e1(2)] obtain l2 where "dav_log t = dav_log s1 @ l2" "list_all A l2" .
  ultimately show "\<exists>l. dav_log t = L @ l \<and> list_all A l"
    using s(1) by (intro exI [of _ "l1 @ l2"]) simp
qed

lemma does_suppress: "does A m (\<lambda>_ _. True) \<Longrightarrow> does A (suppress m) (\<lambda>_ l. list_all A l)"
  unfolding does_def by (auto intro!: valid_suppress elim: valid_weaken)

lemma does_weaken: "does A m R \<Longrightarrow> (\<And>x l. R x l \<Longrightarrow> R' x l) \<Longrightarrow> does A m R'"
  unfolding does_def by (blast intro: valid_weaken)

lemma does_seq:
  assumes "does A m (\<lambda>_ _. True)" "\<And>x. does A (f x) (\<lambda>_ _. True)"
  shows "does A (sbind m f) (\<lambda>_ _. True)"
  using assms by (rule does_sbind) simp

lemma does_sfor:
  "(\<And>x. x \<in> set xs \<Longrightarrow> does A (f x) (\<lambda>_ _. True)) \<Longrightarrow> does A (sfor f xs) (\<lambda>_ _. True)"
proof (induction xs)
  case (Cons x xs)
  have "does A (f x) (\<lambda>_ _. True)" by (rule Cons.prems) simp
  moreover have "does A (sfor f xs) (\<lambda>_ _. True)" by (rule Cons.IH) (simp add: Cons.prems)
  ultimately show ?case by (auto intro: does_seq)
qed (auto intro: does_ret)

lemma does_exchange:
  "(\<And>r. A (rq, r)) \<Longrightarrow> does A (exchange http rq) (\<lambda>r l. l = [(rq, r)])"
  by (auto simp: does_def valid_def exchange_def split: prod.splits)

lemma does_trivial: "does A m R \<Longrightarrow> does A m (\<lambda>_ _. True)"
  by (rule does_weaken) auto

subsection \<open>The client's operations\<close>

abbreviation get_rq :: "string \<Rightarrow> http_request" where
  "get_rq u \<equiv> \<lparr>rq_method = ''GET'', rq_url = u, rq_headers = [], rq_content = None\<rparr>"

lemma read_chunks_concat: "read_chunks cap b cs = Some b' \<Longrightarrow> b' = b @ concat cs"
  by (induction cap b cs rule: read_chunks.induct) (auto simp: Let_def split: option.splits if_splits)

lemma read_chunks_cap: "read_chunks (Some n) b cs = Some b' \<Longrightarrow> int (length b) \<le> n \<Longrightarrow> int (length b') \<le> n"
  by (induction "Some n" b cs rule: read_chunks.induct) (auto simp: Let_def split: if_splits)

lemma read_chunks_fits: "int (length (b @ concat cs)) \<le> n \<Longrightarrow> read_chunks (Some n) b cs = Some (b @ concat cs)"
  by (induction "Some n" b cs rule: read_chunks.induct) (auto simp: Let_def)

lemma does_request:
  assumes "plain_path path"
    and "\<And>u r. url base path = Inr u \<Longrightarrow>
      A (\<lparr>rq_method = method, rq_url = u, rq_headers = hdrs, rq_content = content\<rparr>, r)"
  shows "does A (request http base method path expected hdrs content)
     (\<lambda>_ l. \<exists>u r. url base path = Inr u \<and>
        l = [(\<lparr>rq_method = method, rq_url = u, rq_headers = hdrs, rq_content = content\<rparr>, r)])"
  unfolding request_def
proof (rule does_sbind_lift, rule does_sbind_lift)
  fix relative u assume "validate_path path = Inr relative" "url base relative = Inr u"
  with assms(1) have u: "url base path = Inr u" by simp
  let ?rq = "\<lparr>rq_method = method, rq_url = u, rq_headers = hdrs, rq_content = content\<rparr>"
  show "does A (sbind (exchange http ?rq) (\<lambda>r. case r of
          HttpError \<Rightarrow> raise (WebDAVError (''WebDAV '' @ method @ '' '' @ as_posix relative @ '' failed''))
        | HttpResponse status rh chunks broken \<Rightarrow>
            if broken then raise (WebDAVError (''WebDAV '' @ method @ '' '' @ as_posix relative @ '' failed''))
            else if status \<notin> set expected then raise (WebDAVHTTPError method relative status)
            else ret (status, rh, concat chunks)))
     (\<lambda>_ l. \<exists>u r. url base path = Inr u \<and>
        l = [(\<lparr>rq_method = method, rq_url = u, rq_headers = hdrs, rq_content = content\<rparr>, r)])"
    by (rule does_sbind [where Q = "\<lambda>_ _ l. l = []", OF does_exchange])
      (use assms(2) u in \<open>auto intro!: does_raise does_ret split: http_result.splits\<close>)
qed

lemma does_stream_get:
  assumes "\<And>u r. url base path = Inr u \<Longrightarrow> A (get_rq u, r)"
  shows "does A (stream_get http base path cap e)
     (\<lambda>(rh, body) l. \<exists>u chunks. url base path = Inr u \<and> concat chunks = body \<and>
        l = [(get_rq u, HttpResponse 200 rh chunks False)])"
  unfolding stream_get_def
proof (rule does_sbind_lift)
  fix u assume u: "url base path = Inr u"
  show "does A (sbind (exchange http (get_rq u)) (\<lambda>r. case r of
          HttpError \<Rightarrow> raise (WebDAVError (''WebDAV GET '' @ as_posix path @ '' failed''))
        | HttpResponse status rh chunks broken \<Rightarrow>
            if status \<noteq> 200 then raise (WebDAVHTTPError ''GET'' path status)
            else if (case (cap, map_of rh ''content-length'') of
                       (Some n, Some raw) \<Rightarrow> isdigit raw \<and> int (nat_of_digits raw) > n
                     | _ \<Rightarrow> False)
            then raise e
            else (case read_chunks cap [] chunks of
                    None \<Rightarrow> raise e
                  | Some body \<Rightarrow>
                      if broken
                      then raise (WebDAVError (''WebDAV GET '' @ as_posix path @ '' failed''))
                      else ret (rh, body))))
     (\<lambda>(rh, body) l. \<exists>u chunks. url base path = Inr u \<and> concat chunks = body \<and>
        l = [(get_rq u, HttpResponse 200 rh chunks False)])"
    by (rule does_sbind [where Q = "\<lambda>r (rh, body) l. l = [] \<and>
          (\<exists>chunks. r = HttpResponse 200 rh chunks False \<and> concat chunks = body)", OF does_exchange])
      (use assms u in \<open>auto intro!: does_raise does_ret dest: read_chunks_concat
        split: http_result.splits option.splits\<close>)
qed

text \<open>A readback: one \<open>GET\<close> of the path that delivered exactly the expected bytes.\<close>

definition readback :: "base_url \<Rightarrow> path \<Rightarrow> string \<Rightarrow> int \<Rightarrow> http_request \<times> http_result \<Rightarrow> bool" where
  "readback base path digest sz x \<longleftrightarrow> (\<exists>u rh chunks.
     url base path = Inr u \<and> x = (get_rq u, HttpResponse 200 rh chunks False) \<and>
     sha256_bytes (concat chunks) = digest \<and> int (length (concat chunks)) = sz)"

lemma does_verify:
  assumes "plain_path path" "\<And>u r. url base path = Inr u \<Longrightarrow> A (get_rq u, r)"
  shows "does A (verify http base path digest sz None)
     (\<lambda>a l. \<exists>x. l = [x] \<and> readback base path digest sz x)"
proof -
  have "does A (verify_with_metadata http base path digest sz None)
     (\<lambda>a l. \<exists>x. l = [x] \<and> readback base path digest sz x)"
    unfolding verify_with_metadata_def Let_def
  proof ((rule does_sbind_lift)+, goal_cases)
    case (1 relative trusted u1 u2)
    then have eqs: "relative = path" "trusted = digest" using assms(1) by auto
    show ?case unfolding eqs
      by (rule does_sbind [where Q = "\<lambda>(rh, body) _ l. l = [] \<and>
            sha256_bytes body = digest \<and> int (length body) = sz", OF does_stream_get])
        (use assms(2) in \<open>auto intro!: does_sbind_lift does_ret simp: readback_def\<close>)
  qed
  then show ?thesis
    unfolding verify_def by (rule does_sbind [where Q = "\<lambda>_ _ l. l = []"]) (auto intro: does_ret)
qed

lemma does_op:
  assumes "plain_path path"
    and "\<And>u r. url base path = Inr u \<Longrightarrow>
      A (\<lparr>rq_method = method, rq_url = u, rq_headers = hdrs, rq_content = content\<rparr>, r)"
    and "\<And>x. does A (f path x) (\<lambda>_ _. True)"
  shows "does A (sbind (lift (validate_path path))
     (\<lambda>relative. sbind (request http base method relative expected hdrs content) (f relative))) (\<lambda>_ _. True)"
proof (rule does_sbind_lift)
  fix relative assume "validate_path path = Inr relative"
  then have "relative = path" using assms(1) by simp
  moreover have "does A (request http base method path expected hdrs content) (\<lambda>_ _. True)"
    by (rule does_trivial, rule does_request) (use assms in auto)
  ultimately show "does A (sbind (request http base method relative expected hdrs content) (f relative)) (\<lambda>_ _. True)"
    using assms(3) by (auto intro: does_seq)
qed

lemma hex_digits: "\<forall>c. is_hex c \<longrightarrow> c \<in> set ''0123456789abcdef''"
  by code_simp

lemma verified_artifact_ok:
  assumes "plain_path p"
  shows "\<exists>va. verified_artifact p (sha256_bytes c) (int n) = Inr va"
proof -
  have "sha256_hex (sha256_bytes c)" by simp
  then have "length (sha256_bytes c) = 64" "\<not> list_ex (\<lambda>c. c \<notin> set ''0123456789abcdef'') (sha256_bytes c)"
    using hex_digits by (auto simp: sha256_hex_def list_all_iff list_ex_iff simp del: sha256_bytes_hex list.set)
  with assms show ?thesis by (simp add: verified_artifact_def)
qed

subsection \<open>Downloads\<close>

lemma valid_sbind_lift:
  assumes "\<And>x. r = Inr x \<Longrightarrow> valid P (f x) Q E" "\<And>e s. r = Inl e \<Longrightarrow> P s \<Longrightarrow> E e s"
  shows "valid P (sbind (lift r) f) Q E"
  using assms by (cases r) (auto simp: valid_def sbind_def lift_def)

lemma stream_get_files:
  "valid (\<lambda>s. local_files s = F) (stream_get http base path cap e)
     (\<lambda>(rh, body) s. local_files s = F \<and> (\<forall>c. cap = Some c \<longrightarrow> 0 \<le> c \<longrightarrow> int (length body) \<le> c))
     (\<lambda>_ s. local_files s = F)"
  unfolding stream_get_def
proof (rule valid_sbind_lift)
  fix u
  have ex: "valid (\<lambda>s. local_files s = F) (exchange http (get_rq u)) (\<lambda>_ s. local_files s = F) (\<lambda>_ s. local_files s = F)"
    by (auto simp: valid_def exchange_def split: prod.splits)
  show "valid (\<lambda>s. local_files s = F) (sbind (exchange http (get_rq u)) (\<lambda>r. case r of
          HttpError \<Rightarrow> raise (WebDAVError (''WebDAV GET '' @ as_posix path @ '' failed''))
        | HttpResponse status rh chunks broken \<Rightarrow>
            if status \<noteq> 200 then raise (WebDAVHTTPError ''GET'' path status)
            else if (case (cap, map_of rh ''content-length'') of
                       (Some n, Some raw) \<Rightarrow> isdigit raw \<and> int (nat_of_digits raw) > n
                     | _ \<Rightarrow> False)
            then raise e
            else (case read_chunks cap [] chunks of
                    None \<Rightarrow> raise e
                  | Some body \<Rightarrow>
                      if broken
                      then raise (WebDAVError (''WebDAV GET '' @ as_posix path @ '' failed''))
                      else ret (rh, body))))
     (\<lambda>(rh, body) s. local_files s = F \<and> (\<forall>c. cap = Some c \<longrightarrow> 0 \<le> c \<longrightarrow> int (length body) \<le> c))
     (\<lambda>_ s. local_files s = F)"
    by (rule valid_sbind [OF ex])
      (auto simp: valid_def raise_def ret_def dest: read_chunks_cap split: http_result.splits option.splits)
qed simp


end
