(* ===== verification/Canonical.thy ===== *)
theory Canonical
  imports Json
begin

text \<open>
  \<open>cardrag_core/canonical.py\<close>: the one canonical JSON form and its SHA-256.  \<open>pyval\<close> has one
  constructor per kind of value \<open>_json_ready\<close> distinguishes, in the order of its tests.  A
  pydantic model is represented by the value its \<open>model_dump(mode="json")\<close> returns, a datetime
  by its wall clock in microseconds since 1970 and its UTC offset in microseconds (\<open>None\<close> for
  a naive one), a float by its \<open>repr\<close>.
\<close>

datatype pyval =
    PModel pyval
  | PDataclass "(string \<times> pyval) list"
  | PEnum pyval
  | PDatetime int "int option"
  | PDate int int int
  | PDict "(pyval \<times> pyval) list"
  | PTuple "pyval list"
  | PList "pyval list"
  | PNone
  | PStr string
  | PBool bool
  | PInt int
  | PFloat string
  | POther string

section \<open>Dates\<close>

definition pad :: "nat \<Rightarrow> int \<Rightarrow> string" where
  "pad w i = (let s = string_of_int i in replicate (w - length s) (CHR ''0'') @ s)"

text \<open>The proleptic Gregorian date of a day number (0 is 1970-01-01).\<close>

definition civil_from_days :: "int \<Rightarrow> int \<times> int \<times> int" where
  "civil_from_days z0 =
     (let z = z0 + 719468; era = z div 146097; doe = z mod 146097;
          yoe = (doe - doe div 1460 + doe div 36524 - doe div 146096) div 365;
          doy = doe - (365 * yoe + yoe div 4 - yoe div 100);
          mp = (5 * doy + 2) div 153;
          d = doy - (153 * mp + 2) div 5 + 1;
          m = (if mp < 10 then mp + 3 else mp - 9)
      in (yoe + era * 400 + (if m \<le> 2 then 1 else 0), m, d))"

definition iso_date :: "int \<times> int \<times> int \<Rightarrow> string" where
  "iso_date ymd = (case ymd of (y, m, d) \<Rightarrow> pad 4 y @ ''-'' @ pad 2 m @ ''-'' @ pad 2 d)"

text \<open>
  \<open>value.astimezone(UTC).isoformat(timespec="microseconds").replace("+00:00", "Z")\<close>.
\<close>

definition iso_utc :: "int \<Rightarrow> string" where
  "iso_utc micros =
     (let day = micros div 86400000000; t = micros mod 86400000000;
          h = t div 3600000000; mi = t div 60000000 mod 60; se = t div 1000000 mod 60; us = t mod 1000000
      in iso_date (civil_from_days day) @ ''T'' @ pad 2 h @ '':'' @ pad 2 mi @ '':'' @ pad 2 se
         @ ''.'' @ pad 6 us @ ''Z'')"

section \<open>canonical.py\<close>

definition non_finite :: "string \<Rightarrow> bool" where
  "non_finite r \<longleftrightarrow> r = ''nan'' \<or> r = ''inf'' \<or> r = ''-inf''"

lemma rmap_cong [fundef_cong]:
  "xs = ys \<Longrightarrow> (\<And>x. x \<in> set ys \<Longrightarrow> f x = g x) \<Longrightarrow> rmap f xs = rmap g ys"
  by (induction ys arbitrary: xs) auto

fun json_ready :: "pyval \<Rightarrow> json result" where
  "json_ready (PModel dump) = json_ready dump"
| "json_ready (PDataclass fields) =
     rbind (rmap (\<lambda>(name, v). rbind (json_ready v) (\<lambda>j. Inr (name, j))) fields) (\<lambda>kvs. Inr (JObj kvs))"
| "json_ready (PEnum v) = json_ready v"
| "json_ready (PDatetime wall offset) =
     (case offset of None \<Rightarrow> Inl (ValueError ''canonical datetimes must be timezone-aware'')
      | Some off \<Rightarrow> Inr (JStr (iso_utc (wall - off))))"
| "json_ready (PDate y m d) = Inr (JStr (iso_date (y, m, d)))"
| "json_ready (PDict items) =
     rbind (rmap (\<lambda>(k, v). case k of
         PStr name \<Rightarrow> rbind (json_ready v) (\<lambda>j. Inr (name, j))
       | _ \<Rightarrow> Inl (TypeError ''canonical JSON object keys must be strings'')) items)
       (\<lambda>kvs. Inr (JObj kvs))"
| "json_ready (PTuple vs) = rbind (rmap json_ready vs) (\<lambda>js. Inr (JArr js))"
| "json_ready (PList vs) = rbind (rmap json_ready vs) (\<lambda>js. Inr (JArr js))"
| "json_ready PNone = Inr JNull"
| "json_ready (PStr s) = Inr (JStr s)"
| "json_ready (PBool b) = Inr (JBool b)"
| "json_ready (PInt i) = Inr (JInt i)"
| "json_ready (PFloat r) =
     (if non_finite r then Inl (ValueError ''canonical JSON does not allow non-finite floats'')
      else Inr (JFloat r))"
| "json_ready (POther name) = Inl (TypeError (''unsupported canonical JSON value: '' @ name))"

definition canonical_json_bytes :: "pyval \<Rightarrow> bytes result" where
  "canonical_json_bytes v = rbind (json_ready v) (\<lambda>j. Inr (dumps True j))"

definition canonical_sha256 :: "pyval \<Rightarrow> string result" where
  "canonical_sha256 v = rbind (canonical_json_bytes v) (\<lambda>b. Inr (sha256_bytes b))"

section \<open>Canonical bytes determine the value\<close>

text \<open>
  Values Python can build: the keys of a dict and the fields of a dataclass are distinct, and the
  text of a finite float is a JSON number with a fraction or an exponent.
\<close>

fun wf_pyval :: "pyval \<Rightarrow> bool" where
  "wf_pyval (PModel d) = wf_pyval d"
| "wf_pyval (PDataclass fs) = (wf_dict fs \<and> list_all (\<lambda>(n, v). wf_pyval v) fs)"
| "wf_pyval (PEnum v) = wf_pyval v"
| "wf_pyval (PDict kvs) = (wf_dict kvs \<and> list_all (\<lambda>(k, v). wf_pyval v) kvs)"
| "wf_pyval (PTuple vs) = list_all wf_pyval vs"
| "wf_pyval (PList vs) = list_all wf_pyval vs"
| "wf_pyval (PFloat r) = (non_finite r \<or> wf_json (JFloat r))"
| "wf_pyval _ = True"

lemma rmap_list_all:
  assumes "rmap f xs = Inr ys" and "\<And>x y. x \<in> set xs \<Longrightarrow> f x = Inr y \<Longrightarrow> P y"
  shows "list_all P ys"
  unfolding list_all_length
proof (intro allI impI)
  fix n assume "n < length ys"
  with assms(1) show "P (ys ! n)"
    by (intro assms(2) [of "xs ! n"]) (auto simp: rmap_Inr_iff list_all2_conv_all_nth)
qed

lemma rmap_keys:
  assumes "rmap f xs = Inr ys" and "\<And>x y. x \<in> set xs \<Longrightarrow> f x = Inr y \<Longrightarrow> g y = h x"
  shows "map g ys = map h xs"
  using assms by (intro nth_equalityI) (auto simp: rmap_Inr_iff list_all2_conv_all_nth)

lemma json_ready_dict:
  assumes "json_ready (PDict items) = Inr j" "wf_dict items"
    and ready: "\<And>k v j. (k, v) \<in> set items \<Longrightarrow> json_ready v = Inr j \<Longrightarrow> wf_json j"
  shows "wf_json j"
proof -
  let ?f = "\<lambda>(k, v). case k of PStr name \<Rightarrow> rbind (json_ready v) (\<lambda>j. Inr (name, j))
       | _ \<Rightarrow> Inl (TypeError ''canonical JSON object keys must be strings'')"
  from assms(1) obtain kvs where kvs: "rmap ?f items = Inr kvs" "j = JObj kvs" by auto
  have "map (PStr o fst) kvs = map fst items"
    by (rule rmap_keys [OF kvs(1)]) (auto split: pyval.splits)
  then have "distinct (map PStr (map fst kvs))" using assms(2) by simp
  then have "wf_dict kvs" unfolding distinct_map [of PStr] by blast
  moreover have "list_all (\<lambda>(k, v). wf_json v) kvs"
    by (rule rmap_list_all [OF kvs(1)]) (auto dest: ready split: pyval.splits)
  ultimately show ?thesis using kvs(2) by simp
qed

lemma json_ready_wf: "wf_pyval v \<Longrightarrow> json_ready v = Inr j \<Longrightarrow> wf_json j"
proof (induction v arbitrary: j)
  case (PDataclass fs)
  then obtain kvs where kvs: "j = JObj kvs"
    "rmap (\<lambda>(name, v). rbind (json_ready v) (\<lambda>j. Inr (name, j))) fs = Inr kvs" by auto
  have "map fst kvs = map fst fs" by (rule rmap_keys [OF kvs(2)]) auto
  then have "wf_dict kvs" using PDataclass.prems(1) by simp
  moreover have "list_all (\<lambda>(k, v). wf_json v) kvs"
  proof (rule rmap_list_all [OF kvs(2)])
    fix x y assume x: "x \<in> set fs" "(case x of (name, v) \<Rightarrow> rbind (json_ready v) (\<lambda>j. Inr (name, j))) = Inr y"
    obtain n v where "x = (n, v)" by (cases x)
    with x PDataclass.IH [of x v] PDataclass.prems(1) show "case y of (k, v) \<Rightarrow> wf_json v"
      by (auto simp: list_all_iff)
  qed
  ultimately show ?case using kvs(1) by simp
next
  case (PDict kvs)
  show ?case
  proof (rule json_ready_dict [OF PDict.prems(2)])
    show "wf_dict kvs" using PDict.prems(1) by simp
    fix k v j assume "(k, v) \<in> set kvs" "json_ready v = Inr j"
    then show "wf_json j" using PDict.IH(2) [of "(k, v)" v] PDict.prems(1) by (auto simp: list_all_iff)
  qed
next
  case (PTuple vs)
  then obtain js where js: "rmap json_ready vs = Inr js" "j = JArr js" by auto
  have "list_all wf_json js"
    by (rule rmap_list_all [OF js(1)]) (use PTuple in \<open>auto simp: list_all_iff\<close>)
  with js show ?case by simp
next
  case (PList vs)
  then obtain js where js: "rmap json_ready vs = Inr js" "j = JArr js" by auto
  have "list_all wf_json js"
    by (rule rmap_list_all [OF js(1)]) (use PList in \<open>auto simp: list_all_iff\<close>)
  with js show ?case by simp
qed (auto split: option.splits if_splits)



end
