(* ===== verification/Cas.thy ===== *)
theory Cas
  imports Webdav Canonical
begin

text \<open>
  \<open>cardrag_core/cas.py\<close>: create-once publication of artifacts and the atomic replacement of a
  channel pointer, both verified by reading the bytes back.

  \<open>fresh\<close> is the value of \<open>uuid.uuid4().hex\<close>.  The body of an upload is an operation (a file is
  read while it is sent); it is produced before the request is issued.  The local operating
  system seen by \<open>_publish_file\<close> is the parameter \<open>os_env\<close>: what \<open>open\<close>, \<open>fstat\<close>,
  \<open>stat(follow_symlinks=False)\<close> and reading the descriptor to its end return, each of which may
  also change the world (another process may write the file at any time).  The two hooks
  \<open>_before_upload\<close> and \<open>_move_completed\<close> do nothing in these classes.
\<close>

record file_stat =
  fs_regular :: bool
  fs_dev :: int
  fs_ino :: int
  fs_size :: int
  fs_mtime_ns :: int
  fs_ctime_ns :: int

record 'w os_env =
  os_open :: "string \<Rightarrow> 'w \<Rightarrow> bool \<times> 'w"
  os_fstat :: "'w \<Rightarrow> file_stat option \<times> 'w"
  os_stat :: "string \<Rightarrow> 'w \<Rightarrow> file_stat option \<times> 'w"
  os_read_all :: "nat \<Rightarrow> 'w \<Rightarrow> bytes list option \<times> 'w"

definition on_world :: "('w \<Rightarrow> 'a \<times> 'w) \<Rightarrow> ('w, 'a) dav_op" where
  "on_world f s = (let (x, w) = f (dav_world s) in (Inr x, s\<lparr>dav_world := w\<rparr>))"

definition file_identity :: "file_stat \<Rightarrow> int \<times> int \<times> int \<times> int \<times> int" where
  "file_identity m = (fs_dev m, fs_ino m, fs_size m, fs_mtime_ns m, fs_ctime_ns m)"

definition validate_expected_size :: "int option \<Rightarrow> int option result" where
  "validate_expected_size value =
     (if (case value of Some n \<Rightarrow> n < 0 | None \<Rightarrow> False)
      then Inl (ValueError ''expected publication size must be a non-negative integer'')
      else Inr value)"

record publisher =
  pb_base :: base_url
  pb_chunk :: nat
  pb_final_only :: bool

text \<open>
  \<open>ImmutablePublisher\<close> and its subclass \<open>GenerationFilePublisher\<close> (\<open>pb_final_only\<close>), which
  skips the readback of the temporary object and is restricted to generation data members.
\<close>

definition make_publisher :: "base_url \<Rightarrow> int \<Rightarrow> bool \<Rightarrow> publisher result" where
  "make_publisher base chunk final_only =
     (if \<not> (1 \<le> chunk \<and> chunk \<le> 16 * 1024 * 1024)
      then Inl (ValueError ''upload chunk size must be an integer between 1 and 16777216 bytes'')
      else Inr \<lparr>pb_base = base, pb_chunk = nat chunk, pb_final_only = final_only\<rparr>)"

definition verify_remote :: "'w http \<Rightarrow> publisher \<Rightarrow> path \<Rightarrow> string \<Rightarrow> int \<Rightarrow> ('w, VerifiedArtifact) dav_op" where
  "verify_remote http pb path digest sz = verify http (pb_base pb) path digest sz None"

definition verify_temporary :: "'w http \<Rightarrow> publisher \<Rightarrow> path \<Rightarrow> string \<Rightarrow> int \<Rightarrow> ('w, unit) dav_op" where
  "verify_temporary http pb path digest sz =
     (if pb_final_only pb then ret ()
      else sbind (verify_remote http pb path digest sz) (\<lambda>_. ret ()))"

definition generation_member :: "path \<Rightarrow> unit result" where
  "generation_member destination =
     rbind (raise_if (length destination \<noteq> 4 \<or> take 2 destination \<noteq> [''v1'', ''generations'']
         \<or> last destination \<notin> {''index.sqlite3'', ''vectors.f32''})
       (ValueError ''final-only publication is restricted to generation data members'')) (\<lambda>_.
     rbind (validate_identifier (destination ! 2) ''generation_id'') (\<lambda>_. Inr ()))"

definition incoming_path :: "string \<Rightarrow> string \<Rightarrow> path" where
  "incoming_path area fresh = [''v1'', ''.incoming'', area, fresh @ ''.tmp'']"

text \<open>The MOVE and its collision rule: 409 or 412 counts as a race only if the destination exists.\<close>

definition commit_move :: "'w http \<Rightarrow> publisher \<Rightarrow> path \<Rightarrow> path \<Rightarrow> ('w, bool) dav_op" where
  "commit_move http pb temporary destination =
     catch (sbind (move http (pb_base pb) temporary destination False) (\<lambda>_. ret False))
       (\<lambda>e. case e of
          WebDAVHTTPError _ _ status \<Rightarrow>
            if status \<notin> {409, 412} then raise e
            else sbind (exists http (pb_base pb) destination)
              (\<lambda>there. if there then ret True else raise e)
        | _ \<Rightarrow> raise e)"

definition publish_new ::
  "'w http \<Rightarrow> publisher \<Rightarrow> string \<Rightarrow> path \<Rightarrow> string \<Rightarrow> int \<Rightarrow> string \<Rightarrow> ('w, bytes) dav_op
   \<Rightarrow> ('w, unit) dav_op \<Rightarrow> ('w, unit) dav_op"
where
  "publish_new http pb fresh destination digest sz media_type content_factory pre_commit =
     (let temporary = incoming_path ''publish'' fresh in
     sbind (ensure_collection http (pb_base pb) (butlast destination)) (\<lambda>_.
     sbind (ensure_collection http (pb_base pb) (butlast temporary)) (\<lambda>_.
     sbind (catch
       (sbind (put http (pb_base pb) temporary content_factory media_type True) (\<lambda>_.
        sbind (verify_temporary http pb temporary digest sz) (\<lambda>_.
        sbind pre_commit (\<lambda>_.
        sbind (commit_move http pb temporary destination) (\<lambda>_.
        sbind (verify_remote http pb destination digest sz) (\<lambda>_. ret ()))))))
       (\<lambda>e. sbind (suppress (delete http (pb_base pb) temporary True)) (\<lambda>_. raise e)))
     (\<lambda>_. suppress (delete http (pb_base pb) temporary True)))))"

definition publish ::
  "'w http \<Rightarrow> publisher \<Rightarrow> string \<Rightarrow> path \<Rightarrow> string \<Rightarrow> int \<Rightarrow> string \<Rightarrow> ('w, bytes) dav_op
   \<Rightarrow> ('w, unit) dav_op \<Rightarrow> ('w, ArtifactRef) dav_op"
where
  "publish http pb fresh dest digest sz media_type content_factory pre_commit =
     sbind (lift (validate_path dest)) (\<lambda>destination.
     sbind (lift (if pb_final_only pb then generation_member destination else Inr ())) (\<lambda>_.
     sbind (exists http (pb_base pb) destination) (\<lambda>there.
     sbind (if there then sbind (verify_remote http pb destination digest sz) (\<lambda>_. ret ())
            else publish_new http pb fresh destination digest sz media_type content_factory pre_commit) (\<lambda>_.
     lift (artifact_ref digest sz media_type (as_posix destination))))))"

definition publish_bytes ::
  "'w http \<Rightarrow> publisher \<Rightarrow> string \<Rightarrow> path \<Rightarrow> bytes \<Rightarrow> string \<Rightarrow> ('w, ArtifactRef) dav_op"
where
  "publish_bytes http pb fresh destination payload media_type =
     sbind (lift (validate_path destination)) (\<lambda>relative.
     publish http pb fresh relative (sha256_bytes payload) (int (length payload)) media_type
       (ret payload) (ret ()))"

text \<open>
  \<open>verify_source_identity\<close>: the open descriptor and the path still name the regular file that
  was hashed.
\<close>

definition verify_source_identity ::
  "'w os_env \<Rightarrow> string \<Rightarrow> int \<times> int \<times> int \<times> int \<times> int \<Rightarrow> ('w, unit) dav_op"
where
  "verify_source_identity os source initial_identity =
     sbind (on_world (os_fstat os)) (\<lambda>d.
     sbind (case d of None \<Rightarrow> ret None | Some _ \<Rightarrow> on_world (os_stat os source)) (\<lambda>p.
     case (d, p) of
       (Some dm, Some pm) \<Rightarrow>
         if \<not> fs_regular dm \<or> \<not> fs_regular pm \<or> file_identity dm \<noteq> initial_identity
            \<or> file_identity pm \<noteq> initial_identity
         then raise (WebDAVIntegrityError ''publication source identity changed'') else ret ()
     | _ \<Rightarrow> raise (WebDAVIntegrityError ''publication source identity changed'')))"

definition publish_file_via ::
  "'w http \<Rightarrow> 'w os_env \<Rightarrow> publisher \<Rightarrow> string \<Rightarrow> string \<Rightarrow> (string \<Rightarrow> path result) \<Rightarrow> string
   \<Rightarrow> string option \<Rightarrow> int option \<Rightarrow> ('w, ArtifactRef) dav_op"
where
  "publish_file_via http os pb fresh source destination_factory media_type expected_sha256 expected_size_bytes =
     sbind (lift (case expected_sha256 of None \<Rightarrow> Inr None
       | Some d \<Rightarrow> rbind (validate_sha256 d) (\<lambda>t. Inr (Some t)))) (\<lambda>trusted_digest.
     sbind (lift (validate_expected_size expected_size_bytes)) (\<lambda>trusted_size.
     sbind (on_world (os_open os source)) (\<lambda>opened.
     sbind (lift (raise_if (\<not> opened) (WebDAVIntegrityError ''publication source is missing or unsafe''))) (\<lambda>_.
     sbind (on_world (os_fstat os)) (\<lambda>m.
     case m of
       None \<Rightarrow> raise (WebDAVIntegrityError ''publication source identity could not be verified'')
     | Some initial \<Rightarrow>
       sbind (lift (raise_if (\<not> fs_regular initial)
         (WebDAVIntegrityError ''publication source must be a regular file''))) (\<lambda>_.
       sbind (on_world (os_read_all os (pb_chunk pb))) (\<lambda>read.
       case read of
         None \<Rightarrow> raise (WebDAVIntegrityError ''publication source could not be read safely'')
       | Some chunks \<Rightarrow>
         let (digest, hashed_size) = sha256_chunks chunks;
             check = verify_source_identity os source (file_identity initial) in
         sbind check (\<lambda>_.
         sbind (lift (raise_if (int hashed_size \<noteq> fs_size initial)
           (WebDAVIntegrityError ''publication source size changed while hashing''))) (\<lambda>_.
         sbind (lift (raise_if (case trusted_digest of Some d \<Rightarrow> digest \<noteq> d | None \<Rightarrow> False)
           (WebDAVIntegrityError ''publication source SHA-256 differs from its sealed identity''))) (\<lambda>_.
         sbind (lift (raise_if (case trusted_size of Some n \<Rightarrow> int hashed_size \<noteq> n | None \<Rightarrow> False)
           (WebDAVIntegrityError ''publication source size differs from its sealed identity''))) (\<lambda>_.
         sbind (lift (rbind (destination_factory digest) validate_path)) (\<lambda>destination.
         sbind (publish http pb fresh destination digest (int hashed_size) media_type
           (sbind check (\<lambda>_. sbind (on_world (os_read_all os (pb_chunk pb))) (\<lambda>again.
              case again of None \<Rightarrow> raise (WebDAVIntegrityError ''publication source could not be read safely'')
              | Some cs \<Rightarrow> ret (concat cs))))
           check) (\<lambda>reference.
         sbind check (\<lambda>_. ret reference))))))))))))))"

definition publish_file ::
  "'w http \<Rightarrow> 'w os_env \<Rightarrow> publisher \<Rightarrow> string \<Rightarrow> path \<Rightarrow> string \<Rightarrow> string \<Rightarrow> string option \<Rightarrow> int option
   \<Rightarrow> ('w, ArtifactRef) dav_op"
where
  "publish_file http os pb fresh destination source media_type expected_sha256 expected_size_bytes =
     sbind (lift (validate_path destination)) (\<lambda>relative.
     publish_file_via http os pb fresh source (\<lambda>_. Inr relative) media_type expected_sha256
       expected_size_bytes)"

text \<open>\<open>CASPublisher\<close>: the destination is the object path of the content.\<close>

definition cas_publish_bytes ::
  "'w http \<Rightarrow> publisher \<Rightarrow> string \<Rightarrow> bytes \<Rightarrow> string \<Rightarrow> ('w, ArtifactRef) dav_op"
where
  "cas_publish_bytes http pb fresh payload media_type =
     sbind (lift (object_path (sha256_bytes payload))) (\<lambda>p.
     publish_bytes http pb fresh p payload media_type)"

definition cas_publish_file ::
  "'w http \<Rightarrow> 'w os_env \<Rightarrow> publisher \<Rightarrow> string \<Rightarrow> string \<Rightarrow> string \<Rightarrow> string option \<Rightarrow> int option
   \<Rightarrow> ('w, ArtifactRef) dav_op"
where
  "cas_publish_file http os pb fresh source media_type expected_sha256 expected_size_bytes =
     publish_file_via http os pb fresh source object_path media_type expected_sha256 expected_size_bytes"

text \<open>\<open>StablePointerPublisher.atomic_replace_bytes\<close>.\<close>

definition atomic_replace_bytes ::
  "'w http \<Rightarrow> publisher \<Rightarrow> string \<Rightarrow> string \<Rightarrow> bytes \<Rightarrow> string \<Rightarrow> ('w, ArtifactRef) dav_op"
where
  "atomic_replace_bytes http pb fresh channel payload media_type =
     sbind (lift (channel_pointer_path channel)) (\<lambda>destination.
     let digest = sha256_bytes payload; sz = int (length payload);
         temporary = incoming_path ''channels'' fresh in
     sbind (ensure_collection http (pb_base pb) (butlast destination)) (\<lambda>_.
     sbind (ensure_collection http (pb_base pb) (butlast temporary)) (\<lambda>_.
     sbind (catch
       (sbind (put http (pb_base pb) temporary (ret payload) media_type True) (\<lambda>_.
        sbind (verify_remote http pb temporary digest sz) (\<lambda>_.
        sbind (move http (pb_base pb) temporary destination True) (\<lambda>_.
        sbind (verify_remote http pb destination digest sz) (\<lambda>_. ret ())))))
       (\<lambda>e. sbind (suppress (delete http (pb_base pb) temporary True)) (\<lambda>_. raise e))) (\<lambda>_.
     sbind (suppress (delete http (pb_base pb) temporary True)) (\<lambda>_.
     lift (artifact_ref digest sz media_type (as_posix destination)))))))"

definition atomic_replace_json ::
  "'w http \<Rightarrow> publisher \<Rightarrow> string \<Rightarrow> string \<Rightarrow> pyval \<Rightarrow> ('w, ArtifactRef) dav_op"
where
  "atomic_replace_json http pb fresh channel v =
     sbind (lift (canonical_json_bytes v)) (\<lambda>payload.
     atomic_replace_bytes http pb fresh channel payload ''application/json'')"


section \<open>Exchanges of the publishers\<close>

text \<open>
  \<open>wire m R F\<close> refines \<open>does\<close>: \<open>R x l\<close> describes the exchanges of a return, \<open>F l\<close> those of a raise.
\<close>

definition wire :: "('w, 'a) dav_op \<Rightarrow> ('a \<Rightarrow> exchanges \<Rightarrow> bool) \<Rightarrow> (exchanges \<Rightarrow> bool) \<Rightarrow> bool" where
  "wire m R F \<longleftrightarrow> (\<forall>L. valid (\<lambda>s. dav_log s = L) m
     (\<lambda>x s. \<exists>l. dav_log s = L @ l \<and> R x l) (\<lambda>_ s. \<exists>l. dav_log s = L @ l \<and> F l))"

lemma wire_Inr:
  assumes "wire m R F" "m s = (Inr x, s')"
  obtains l where "dav_log s' = dav_log s @ l" "R x l"
  using assms valid_Inr [of "\<lambda>t. dav_log t = dav_log s" m _ _ s x s'] unfolding wire_def by blast

lemma wire_Inl:
  assumes "wire m R F" "m s = (Inl e, s')"
  obtains l where "dav_log s' = dav_log s @ l" "F l"
  using assms valid_Inl [of "\<lambda>t. dav_log t = dav_log s" m _ _ s e s'] unfolding wire_def by blast

lemma does_wire: "does A m R \<Longrightarrow> wire m (\<lambda>x l. list_all A l \<and> R x l) (list_all A)"
  by (simp add: does_def wire_def)

lemma wire_weaken:
  "wire m R F \<Longrightarrow> (\<And>x l. R x l \<Longrightarrow> R' x l) \<Longrightarrow> (\<And>l. F l \<Longrightarrow> F' l) \<Longrightarrow> wire m R' F'"
  unfolding wire_def by (blast intro: valid_weaken)

lemma wire_sbind:
  assumes "wire m P G" "\<And>x. wire (f x) (Q x) (H x)"
    and "\<And>x y l1 l2. P x l1 \<Longrightarrow> Q x y l2 \<Longrightarrow> R y (l1 @ l2)"
    and "\<And>l. G l \<Longrightarrow> F l" "\<And>x l1 l2. P x l1 \<Longrightarrow> H x l2 \<Longrightarrow> F (l1 @ l2)"
  shows "wire (sbind m f) R F"
  unfolding wire_def
proof (intro allI validI)
  fix L s y t assume s: "dav_log s = L" "sbind m f s = (Inr y, t)"
  then obtain x s1 where x: "m s = (Inr x, s1)" "f x s1 = (Inr y, t)" by (auto simp: sbind_eqs)
  from wire_Inr [OF assms(1) x(1)] obtain l1 where "dav_log s1 = dav_log s @ l1" "P x l1" .
  moreover from wire_Inr [OF assms(2) x(2)] obtain l2 where "dav_log t = dav_log s1 @ l2" "Q x y l2" .
  ultimately show "\<exists>l. dav_log t = L @ l \<and> R y l"
    using s(1) assms(3) by (intro exI [of _ "l1 @ l2"]) simp
next
  fix L s e t assume s: "dav_log s = L" "sbind m f s = (Inl e, t)"
  then consider "m s = (Inl e, t)" | x s1 where "m s = (Inr x, s1)" "f x s1 = (Inl e, t)"
    by (auto simp: sbind_eqs)
  then show "\<exists>l. dav_log t = L @ l \<and> F l"
  proof cases
    case 1
    with s(1) show ?thesis by (auto elim!: wire_Inl [OF assms(1)] intro: assms(4))
  next
    case 2
    from wire_Inr [OF assms(1) 2(1)] obtain l1 where "dav_log s1 = dav_log s @ l1" "P x l1" .
    moreover from wire_Inl [OF assms(2) 2(2)] obtain l2 where "dav_log t = dav_log s1 @ l2" "H x l2" .
    ultimately show ?thesis using s(1) assms(5) by (intro exI [of _ "l1 @ l2"]) simp
  qed
qed

lemma wire_cleanup:
  assumes "wire m R F" "does A c (\<lambda>_ _. True)" "\<And>l1 l2. F l1 \<Longrightarrow> list_all A l2 \<Longrightarrow> F (l1 @ l2)"
  shows "wire (catch m (\<lambda>e. sbind (suppress c) (\<lambda>_. raise e))) R F"
  unfolding wire_def
proof (intro allI validI)
  fix L s y t assume "dav_log s = L" "catch m (\<lambda>e. sbind (suppress c) (\<lambda>_. raise e)) s = (Inr y, t)"
  then show "\<exists>l. dav_log t = L @ l \<and> R y l"
    by (auto simp: catch_eqs sbind_eqs raise_def elim: wire_Inr [OF assms(1)])
next
  fix L s e t assume s: "dav_log s = L" "catch m (\<lambda>e. sbind (suppress c) (\<lambda>_. raise e)) s = (Inl e, t)"
  then obtain e1 s1 r where e1: "m s = (Inl e1, s1)" "c s1 = (r, t)"
    by (auto simp: catch_eqs sbind_eqs suppress_eqs raise_def)
  from wire_Inl [OF assms(1) e1(1)] obtain l1 where "dav_log s1 = dav_log s @ l1" "F l1" .
  moreover from doesD_log [OF assms(2) e1(2)] obtain l2 where "dav_log t = dav_log s1 @ l2" "list_all A l2" .
  ultimately show "\<exists>l. dav_log t = L @ l \<and> F l"
    using s(1) assms(3) by (intro exI [of _ "l1 @ l2"]) simp
qed

abbreviation method_of :: "http_request \<times> http_result \<Rightarrow> string" where
  "method_of x \<equiv> rq_method (fst x)"

abbreviation url_of :: "http_request \<times> http_result \<Rightarrow> string" where
  "url_of x \<equiv> rq_url (fst x)"

lemma does_exists:
  assumes "plain_path p" "\<And>u r. url base p = Inr u \<Longrightarrow>
    A (\<lparr>rq_method = ''HEAD'', rq_url = u, rq_headers = [], rq_content = None\<rparr>, r)"
  shows "does A (exists http base p) (\<lambda>_ _. True)"
proof -
  have "does A (head http base p) (\<lambda>_ _. True)"
    unfolding head_def by (rule does_op) (use assms in \<open>auto intro: does_ret\<close>)
  then have "does A (sbind (head http base p) (\<lambda>_. ret True)) (\<lambda>_ _. True)"
    by (rule does_seq) (rule does_ret, simp)
  then show ?thesis
    unfolding exists_def
    by (rule does_catch) (auto split: exn.splits intro: does_ret does_raise)
qed

lemma does_ensure_collection:
  assumes "plain_path p" "\<And>i u r. url base (take (Suc i) p) = Inr u \<Longrightarrow>
    A (\<lparr>rq_method = ''MKCOL'', rq_url = u, rq_headers = [], rq_content = None\<rparr>, r)"
  shows "does A (ensure_collection http base p) (\<lambda>_ _. True)"
  unfolding ensure_collection_def
proof (rule does_sbind_lift, rule does_sfor)
  fix relative i assume "validate_path p = Inr relative" "i \<in> set [0..<length relative]"
  then have r: "relative = p" "i < length p" using assms(1) by auto
  then have "plain_path (take (Suc i) p)"
    using assms(1) by (auto simp: plain_path_def list_all_iff dest: in_set_takeD)
  then have "does A (mkcol http base (take (Suc i) p) True) (\<lambda>_ _. True)"
    unfolding mkcol_def by (rule does_op) (use assms(2) in \<open>auto intro: does_ret\<close>)
  then show "does A (sbind (mkcol http base (take (Suc i) relative) True) (\<lambda>_. ret ())) (\<lambda>_ _. True)"
    unfolding r(1) by (rule does_seq) (rule does_ret, simp)
qed

lemma does_ensure_parent:
  assumes "plain_path p" "\<And>i u r. url base (take (Suc i) (butlast p)) = Inr u \<Longrightarrow>
    A (\<lparr>rq_method = ''MKCOL'', rq_url = u, rq_headers = [], rq_content = None\<rparr>, r)"
  shows "does A (ensure_collection http base (butlast p)) (\<lambda>_ _. True)"
proof (cases "butlast p = []")
  case True
  then show ?thesis
    by (auto simp: ensure_collection_def validate_path_def validate_relative_path_def as_posix_def Let_def
        raise_def lift_def sbind_def does_def valid_def is_control_def)
next
  case False
  with assms(1) have "plain_path (butlast p)"
    by (auto simp: plain_path_def list_all_iff dest: in_set_butlastD)
  then show ?thesis by (rule does_ensure_collection) (use assms(2) in auto)
qed

lemma does_put:
  assumes "plain_path p" "does A content (\<lambda>_ _. True)"
    and "\<And>u b r. url base p = Inr u \<Longrightarrow> A (\<lparr>rq_method = ''PUT'', rq_url = u,
      rq_headers = [(''Content-Type'', mt), (''If-None-Match'', ''*'')], rq_content = Some b\<rparr>, r)"
  shows "does A (put http base p content mt True) (\<lambda>_ _. True)"
  unfolding put_def Let_def
proof (rule does_sbind_lift, rule does_seq [OF assms(2)])
  fix relative payload assume "validate_path p = Inr relative"
  then have "relative = p" using assms(1) by simp
  moreover have "does A (request http base ''PUT'' p [200, 201, 204]
      [(''Content-Type'', mt), (''If-None-Match'', ''*'')] (Some payload)) (\<lambda>_ _. True)"
    by (rule does_trivial, rule does_request) (use assms in auto)
  ultimately show "does A (sbind (request http base ''PUT'' relative [200, 201, 204]
      ((''Content-Type'', mt) # (if True then [(''If-None-Match'', ''*'')] else [])) (Some payload))
      (\<lambda>(status, rh, _). ret \<lparr>st_path = relative, st_status_code = status,
          st_size_bytes = (case map_of rh ''content-length'' of None \<Rightarrow> None
             | Some raw \<Rightarrow> if isdigit raw then Some (int (nat_of_digits raw)) else None),
          st_etag = map_of rh ''etag'', st_last_modified = map_of rh ''last-modified''\<rparr>)) (\<lambda>_ _. True)"
    by (auto intro!: does_seq does_ret)
qed

lemma does_move:
  assumes "plain_path p" "plain_path q"
    and "\<And>u v r. url base p = Inr u \<Longrightarrow> url base q = Inr v \<Longrightarrow>
      A (\<lparr>rq_method = ''MOVE'', rq_url = u, rq_headers = [(''Destination'', v), (''Overwrite'', if ov then ''T'' else ''F'')],
        rq_content = None\<rparr>, r)"
  shows "does A (move http base p q ov) (\<lambda>_ _. True)"
  unfolding move_def
proof ((rule does_sbind_lift)+, goal_cases)
  case (1 src dst v)
  with assms(1,2) have eqs: "src = p" "dst = q" "url base q = Inr v" by auto
  have "does A (request http base ''MOVE'' p [201, 204]
      [(''Destination'', v), (''Overwrite'', if ov then ''T'' else ''F'')] None) (\<lambda>_ _. True)"
    by (rule does_trivial, rule does_request) (use assms eqs in auto)
  with eqs show ?case by (auto intro!: does_seq does_ret)
qed

lemma does_delete:
  assumes "plain_path p" "\<And>u r. url base p = Inr u \<Longrightarrow>
    A (\<lparr>rq_method = ''DELETE'', rq_url = u, rq_headers = [], rq_content = None\<rparr>, r)"
  shows "does A (delete http base p ok) (\<lambda>_ _. True)"
  unfolding delete_def by (rule does_op) (use assms in \<open>auto intro: does_ret\<close>)

lemma incoming_plain: "safe_id fresh \<Longrightarrow> area \<in> {''publish'', ''channels''} \<Longrightarrow> plain_path (incoming_path area fresh)"
  proof -
  assume f: "safe_id fresh" and a: "area \<in> {''publish'', ''channels''}"
  have "plain_segment ''.incoming''" "plain_segment ''publish''"
    by (simp_all add: plain_segment_def safe_segment_def char_class_defs)
  moreover have "plain_segment (fresh @ ''.tmp'')"
    using f by (rule safe_id_append) (simp_all add: char_class_defs)
  ultimately show ?thesis using a by (auto simp: incoming_path_def plain_path_def)
qed

text \<open>
  The requests a create-once publication may issue: it looks at the destination and at its own
  temporary object, creates collections on the way to either, uploads only its temporary object
  and only if that does not exist, moves it only onto the destination and only without
  overwriting, and deletes only the temporary object.
\<close>

definition publish_request :: "base_url \<Rightarrow> path \<Rightarrow> path \<Rightarrow> http_request \<Rightarrow> bool" where
  "publish_request base temporary destination rq \<longleftrightarrow>
     (rq_method rq = ''HEAD'' \<and> url base destination = Inr (rq_url rq)) \<or>
     (rq_method rq = ''GET'' \<and> (url base destination = Inr (rq_url rq) \<or> url base temporary = Inr (rq_url rq))) \<or>
     (rq_method rq = ''MKCOL'' \<and> (\<exists>i. url base (take (Suc i) (butlast destination)) = Inr (rq_url rq)
        \<or> url base (take (Suc i) (butlast temporary)) = Inr (rq_url rq))) \<or>
     (rq_method rq = ''PUT'' \<and> url base temporary = Inr (rq_url rq)
        \<and> map_of (rq_headers rq) ''If-None-Match'' = Some ''*'') \<or>
     (rq_method rq = ''MOVE'' \<and> url base temporary = Inr (rq_url rq) \<and>
        rmap (url base) [destination] = Inr [the (map_of (rq_headers rq) ''Destination'')]
        \<and> map_of (rq_headers rq) ''Overwrite'' = Some ''F'') \<or>
     (rq_method rq = ''DELETE'' \<and> url base temporary = Inr (rq_url rq))"

abbreviation is_delete_of :: "base_url \<Rightarrow> path \<Rightarrow> http_request \<times> http_result \<Rightarrow> bool" where
  "is_delete_of base p x \<equiv> method_of x = ''DELETE'' \<and> url base p = Inr (url_of x)"

text \<open>The log of a verified commit: a readback of the destination, then only cleanup of the temporary.\<close>

definition committed :: "base_url \<Rightarrow> path \<Rightarrow> path \<Rightarrow> string \<Rightarrow> int \<Rightarrow> exchanges \<Rightarrow> bool" where
  "committed base temporary destination digest sz l \<longleftrightarrow>
     (\<exists>a x b. l = a @ x # b \<and> readback base destination digest sz x \<and>
        list_all (is_delete_of base temporary) b)"

lemma committed_prepend: "committed base t d g n l2 \<Longrightarrow> committed base t d g n (l1 @ l2)"
proof -
  assume "committed base t d g n l2"
  then obtain a x b where "l2 = a @ x # b" "readback base d g n x" "list_all (is_delete_of base t) b"
    unfolding committed_def by blast
  then show ?thesis unfolding committed_def by (intro exI [of _ "l1 @ a"] exI) auto
qed

lemma committed_append:
  assumes "committed base t d g n l1" "list_all (is_delete_of base t) l2"
  shows "committed base t d g n (l1 @ l2)"
proof -
  from assms(1) obtain a x b where "l1 = a @ x # b" "readback base d g n x" "list_all (is_delete_of base t) b"
    unfolding committed_def by blast
  with assms(2) show ?thesis unfolding committed_def by (intro exI [of _ a] exI) auto
qed

lemma readback_committed: "readback base d g n x \<Longrightarrow> committed base t d g n [x]"
  unfolding committed_def by (intro exI [of _ "[]"] exI [of _ x]) simp

lemma does_on_world: "does A (on_world f) (\<lambda>_ _. True)"
  by (auto simp: does_def valid_def on_world_def split: prod.splits)

lemma does_check: "does A (verify_source_identity os source i) (\<lambda>_ _. True)"
  unfolding verify_source_identity_def
  by (rule does_seq [OF does_on_world], rule does_seq)
    (auto split: option.splits prod.splits intro!: does_on_world intro: does_ret does_raise)

text \<open>The temporary object is removed by the publisher whatever happens before.\<close>

lemma does_drop:
  assumes "plain_path t"
  shows "does (is_delete_of base t) (suppress (delete http base t ok)) (\<lambda>_ l. list_all (is_delete_of base t) l)"
  by (rule does_suppress, rule does_delete [OF assms]) simp

lemma does_mono: "does A m R \<Longrightarrow> (\<And>x. A x \<Longrightarrow> B x) \<Longrightarrow> does B m R"
  unfolding does_def by (rule allI, erule allE, erule valid_weaken) (auto simp: list_all_iff)

lemma does_commit_move:
  assumes "plain_path t" "plain_path d"
  shows "does (\<lambda>x. publish_request (pb_base pb) t d (fst x)) (commit_move http pb t d) (\<lambda>_ _. True)"
proof -
  let ?A = "\<lambda>x :: http_request \<times> http_result. publish_request (pb_base pb) t d (fst x)"
  have m: "does ?A (sbind (move http (pb_base pb) t d False) (\<lambda>_. ret False)) (\<lambda>_ _. True)"
    by (rule does_seq, rule does_move [OF assms]) (auto simp: publish_request_def intro: does_ret)
  have e: "does ?A (sbind (exists http (pb_base pb) d)
      (\<lambda>there. if there then ret True else raise e)) (\<lambda>_ _. True)" for e
    by (rule does_seq, rule does_exists [OF assms(2)])
      (auto simp: publish_request_def intro: does_ret does_raise)
  show ?thesis
    unfolding commit_move_def by (rule does_catch [OF m]) (auto split: exn.splits intro: e does_raise)
qed

lemma does_verify_remote:
  assumes "plain_path p" "url (pb_base pb) p = url (pb_base pb) t \<or> url (pb_base pb) p = url (pb_base pb) d"
  shows "does (\<lambda>x. publish_request (pb_base pb) t d (fst x)) (verify_remote http pb p digest sz)
     (\<lambda>_ l. \<exists>x. l = [x] \<and> readback (pb_base pb) p digest sz x)"
  unfolding verify_remote_def
  by (rule does_verify [OF assms(1)]) (use assms(2) in \<open>auto simp: publish_request_def\<close>)

lemma does_sbind_post:
  assumes "does A m (\<lambda>_ _. True)" "\<And>x. does A (f x) (\<lambda>_. R)" "\<And>l1 l2. R l2 \<Longrightarrow> R (l1 @ l2)"
  shows "does A (sbind m f) (\<lambda>_. R)"
  by (rule does_sbind [OF assms(1,2)]) (rule assms(3))

lemma does_verified_ret:
  assumes "plain_path d"
  shows "does (\<lambda>x. publish_request (pb_base pb) t d (fst x))
     (sbind (verify_remote http pb d digest sz) (\<lambda>_. ret ())) (\<lambda>_. committed (pb_base pb) t d digest sz)"
  by (rule does_sbind [OF does_verify_remote [OF assms], where Q = "\<lambda>_ _ l. l = []"])
    (auto intro: does_ret readback_committed)

lemma does_with_cleanup:
  assumes "does A body (\<lambda>_. R)" "does A dropt (\<lambda>_. D)" "does A c (\<lambda>_ _. True)"
    and "\<And>l1 l2. R l1 \<Longrightarrow> D l2 \<Longrightarrow> R (l1 @ l2)"
  shows "does A (sbind (catch body (\<lambda>e. sbind (suppress c) (\<lambda>_. raise e))) (\<lambda>_. dropt)) (\<lambda>_. R)"
proof -
  have "does A (sbind (suppress c) (\<lambda>_. raise e)) (\<lambda>_ _. False)" for e
    by (rule does_sbind [OF does_suppress [OF assms(3)], where Q = "\<lambda>_ _ _. False"])
      (auto intro: does_raise)
  then have "does A (catch body (\<lambda>e. sbind (suppress c) (\<lambda>_. raise e))) (\<lambda>_. R)"
    by (rule does_catch [OF assms(1)]) simp
  then show ?thesis by (rule does_sbind [where Q = "\<lambda>_ _. D"]) (auto intro: assms)
qed

lemma does_publish_new:
  fixes http :: "'w http" and pb :: publisher and fresh :: string
  defines "t \<equiv> incoming_path ''publish'' fresh"
  assumes t: "safe_id fresh" and d: "plain_path d"
    and content: "\<And>A :: http_request \<times> http_result \<Rightarrow> bool. does A content (\<lambda>_ _. True)"
    and pre: "\<And>A :: http_request \<times> http_result \<Rightarrow> bool. does A pre_commit (\<lambda>_ _. True)"
  shows "does (\<lambda>x. publish_request (pb_base pb) t d (fst x))
     (publish_new http pb fresh d digest sz mt content pre_commit)
     (\<lambda>_. committed (pb_base pb) t d digest sz)"
proof -
  let ?A = "\<lambda>x :: http_request \<times> http_result. publish_request (pb_base pb) t d (fst x)"
  let ?C = "\<lambda>_ :: unit. committed (pb_base pb) t d digest sz"
  have tp: "plain_path t" unfolding t_def by (rule incoming_plain [OF t]) simp
  have ens: "does ?A (ensure_collection http (pb_base pb) (butlast d)) (\<lambda>_ _. True)"
    "does ?A (ensure_collection http (pb_base pb) (butlast t)) (\<lambda>_ _. True)"
    by (rule does_ensure_parent [OF d] does_ensure_parent [OF tp]; auto simp: publish_request_def)+
  have put: "does ?A (put http (pb_base pb) t content mt True) (\<lambda>_ _. True)"
    by (rule does_put [OF tp content]) (auto simp: publish_request_def)
  have vt: "does ?A (verify_temporary http pb t digest sz) (\<lambda>_ _. True)"
    unfolding verify_temporary_def
    by (auto intro!: does_ret does_seq does_trivial [OF does_verify_remote [OF tp]])
  have drop: "does ?A (suppress (delete http (pb_base pb) t True)) (\<lambda>_. list_all (is_delete_of (pb_base pb) t))"
    by (rule does_mono [OF does_drop [OF tp]]) (simp add: publish_request_def)
  have body: "does ?A (sbind (put http (pb_base pb) t content mt True) (\<lambda>_.
        sbind (verify_temporary http pb t digest sz) (\<lambda>_.
        sbind pre_commit (\<lambda>_.
        sbind (commit_move http pb t d) (\<lambda>_.
        sbind (verify_remote http pb d digest sz) (\<lambda>_. ret ())))))) ?C"
    by (intro does_sbind_post put vt pre does_commit_move tp d does_verified_ret committed_prepend)
  have del: "does ?A (delete http (pb_base pb) t True) (\<lambda>_ _. True)"
    by (rule does_delete [OF tp]) (simp add: publish_request_def)
  show ?thesis
    unfolding publish_new_def Let_def t_def [symmetric]
    by (intro does_sbind_post ens does_with_cleanup [OF body drop del])
      (auto intro: committed_append committed_prepend)
qed

lemma does_publish:
  fixes http :: "'w http" and pb :: publisher and fresh :: string
  defines "t \<equiv> incoming_path ''publish'' fresh"
  assumes t: "safe_id fresh" and d: "plain_path d"
    and content: "\<And>A :: http_request \<times> http_result \<Rightarrow> bool. does A content (\<lambda>_ _. True)"
    and pre: "\<And>A :: http_request \<times> http_result \<Rightarrow> bool. does A pre_commit (\<lambda>_ _. True)"
  shows "does (\<lambda>x. publish_request (pb_base pb) t d (fst x))
     (publish http pb fresh d digest sz mt content pre_commit)
     (\<lambda>r l. artifact_ref digest sz mt (as_posix d) = Inr r \<and> committed (pb_base pb) t d digest sz l)"
  unfolding publish_def
proof ((rule does_sbind_lift)+, goal_cases)
  case (1 destination u)
  then have eq: "destination = d" using d by simp
  let ?A = "\<lambda>x :: http_request \<times> http_result. publish_request (pb_base pb) t d (fst x)"
  have ex: "does ?A (exists http (pb_base pb) d) (\<lambda>_ _. True)"
    by (rule does_exists [OF d]) (simp add: publish_request_def)
  have br: "does ?A (if there then sbind (verify_remote http pb d digest sz) (\<lambda>_. ret ())
      else publish_new http pb fresh d digest sz mt content pre_commit)
      (\<lambda>_. committed (pb_base pb) t d digest sz)" for there
    using does_publish_new [OF t d content pre] by (auto simp: t_def intro: does_verified_ret [OF d])
  have tail: "does ?A (sbind (if there then sbind (verify_remote http pb d digest sz) (\<lambda>_. ret ())
      else publish_new http pb fresh d digest sz mt content pre_commit)
      (\<lambda>_. lift (artifact_ref digest sz mt (as_posix d))))
      (\<lambda>r l. artifact_ref digest sz mt (as_posix d) = Inr r \<and> committed (pb_base pb) t d digest sz l)" for there
    by (rule does_sbind [OF br, where Q = "\<lambda>_ r l. l = [] \<and> artifact_ref digest sz mt (as_posix d) = Inr r"])
      (auto intro: does_lift)
  show ?case
    unfolding eq by (rule does_sbind [OF ex tail]) (auto intro: committed_prepend)
qed

lemma publish_bytes_does:
  assumes "safe_id fresh" "validate_path dest = Inr d"
  shows "does (\<lambda>x. publish_request (pb_base pb) (incoming_path ''publish'' fresh) d (fst x))
     (publish_bytes http pb fresh dest payload mt)
     (\<lambda>r l. artifact_ref (sha256_bytes payload) (int (length payload)) mt (as_posix d) = Inr r \<and>
        committed (pb_base pb) (incoming_path ''publish'' fresh) d (sha256_bytes payload) (int (length payload)) l)"
  unfolding publish_bytes_def
proof (rule does_sbind_lift)
  fix relative assume "validate_path dest = Inr relative"
  then have eq: "relative = d" and d: "plain_path d" using assms(2) validate_path_Inr by auto
  show "does (\<lambda>x. publish_request (pb_base pb) (incoming_path ''publish'' fresh) d (fst x))
     (publish http pb fresh relative (sha256_bytes payload) (int (length payload)) mt (ret payload) (ret ()))
     (\<lambda>r l. artifact_ref (sha256_bytes payload) (int (length payload)) mt (as_posix d) = Inr r \<and>
        committed (pb_base pb) (incoming_path ''publish'' fresh) d (sha256_bytes payload) (int (length payload)) l)"
    unfolding eq by (rule does_publish [OF assms(1) d]) (rule does_ret, simp)+
qed

section \<open>A concrete store\<close>

text \<open>
  An in-memory WebDAV server, for evaluating the publishers on concrete inputs: a map from URL
  to content.
\<close>

definition mem_http :: "(string \<Rightarrow> bytes option) http" where
  "mem_http rq w =
     (let u = rq_url rq; m = rq_method rq in
      if m = ''HEAD'' then (HttpResponse (if w u = None then 404 else 200) [] [] False, w)
      else if m = ''GET'' then (case w u of None \<Rightarrow> (HttpResponse 404 [] [] False, w)
             | Some b \<Rightarrow> (HttpResponse 200 [] [b] False, w))
      else if m = ''PUT'' then
        (if map_of (rq_headers rq) ''If-None-Match'' = Some ''*'' \<and> w u \<noteq> None
         then (HttpResponse 412 [] [] False, w) else (HttpResponse 201 [] [] False, w(u := rq_content rq)))
      else if m = ''MOVE'' then
        (let d = the (map_of (rq_headers rq) ''Destination'') in
         if w u = None then (HttpResponse 404 [] [] False, w)
         else if map_of (rq_headers rq) ''Overwrite'' = Some ''F'' \<and> w d \<noteq> None
         then (HttpResponse 412 [] [] False, w)
         else (HttpResponse 201 [] [] False, w(d := w u, u := None)))
      else if m = ''DELETE'' then (HttpResponse 204 [] [] False, w(u := None))
      else (HttpResponse 201 [] [] False, w))"

text \<open>\<open>runs m w r w'\<close>: from a state whose store is \<open>w\<close>, \<open>m\<close> ends with \<open>r\<close> and the store \<open>w'\<close>.\<close>

definition runs :: "('w, 'a) dav_op \<Rightarrow> 'w \<Rightarrow> 'a result \<Rightarrow> 'w \<Rightarrow> bool" where
  "runs m w r w' \<longleftrightarrow> (\<forall>s. dav_world s = w \<longrightarrow> (\<exists>s'. m s = (r, s') \<and> dav_world s' = w'))"

lemma runsD: "runs m w r w' \<Longrightarrow> dav_world s = w \<Longrightarrow> \<exists>s'. m s = (r, s')"
  unfolding runs_def by blast

lemma runs_ret: "runs (ret x) w (Inr x) w"
  by (simp add: runs_def ret_def)

lemma runs_raise: "runs (raise e) w (Inl e) w"
  by (simp add: runs_def raise_def)

lemma runs_sbind: "runs m w (Inr x) w1 \<Longrightarrow> runs (f x) w1 r w2 \<Longrightarrow> runs (sbind m f) w r w2"
  by (fastforce simp: runs_def sbind_def)

lemma runs_sbind_Inl: "runs m w (Inl e) w1 \<Longrightarrow> runs (sbind m f) w (Inl e) w1"
  by (fastforce simp: runs_def sbind_def)

lemma runs_sbind_lift: "r0 = Inr x \<Longrightarrow> runs (f x) w r w' \<Longrightarrow> runs (sbind (lift r0) f) w r w'"
  by (simp add: runs_def sbind_def lift_def)

lemma runs_catch: "runs m w (Inr x) w' \<Longrightarrow> runs (catch m h) w (Inr x) w'"
  by (fastforce simp: runs_def catch_def)

lemma runs_catch_Inl: "runs m w (Inl e) w1 \<Longrightarrow> runs (h e) w1 r w' \<Longrightarrow> runs (catch m h) w r w'"
  by (fastforce simp: runs_def catch_def)

lemma runs_suppress: "runs m w r w' \<Longrightarrow> runs (suppress m) w (Inr ()) w'"
  by (fastforce simp: runs_def suppress_def)

lemma runs_sfor: "(\<And>x. x \<in> set xs \<Longrightarrow> runs (f x) w (Inr ()) w) \<Longrightarrow> runs (sfor f xs) w (Inr ()) w"
  by (induction xs) (auto intro: runs_ret runs_sbind)

lemma safe_tail_quote: "list_all safe_tail s \<Longrightarrow> quote s = s"
  by (induction s) (auto simp: quote_def safe_tail_def)

text \<open>The URL of a plain path; the client reaches every object by it.\<close>

definition address :: "base_url \<Rightarrow> path \<Rightarrow> string" where
  "address base p = bu_scheme base @ ''://'' @ bu_netloc base @ rstrip_slash (bu_path base) @ ''/'' @ as_posix p"

lemma url_plain [simp]:
  assumes "plain_path p"
  shows "url base p = Inr (address base p)"
proof -
  have "map quote p = p"
    using assms by (auto simp: plain_path_def list_all_iff intro!: map_idI safe_tail_quote plain_segment_chars)
  with assms show ?thesis by (auto simp: url_def as_posix_def plain_path_def address_def)
qed

lemma address_inj:
  assumes "plain_path p" "plain_path q" "address base p = address base q"
  shows "p = q"
proof -
  from assms(3) have "as_posix p = as_posix q" unfolding address_def by simp
  then have "split_on (CHR ''/'') (as_posix p) = split_on (CHR ''/'') (as_posix q)" by (simp only:)
  then show ?thesis unfolding plain_path_split [OF assms(1)] plain_path_split [OF assms(2)] .
qed

lemma runs_request:
  assumes "plain_path p"
    and "mem_http \<lparr>rq_method = m, rq_url = address base p, rq_headers = hdrs, rq_content = c\<rparr> w
       = (HttpResponse status rh chunks False, w')"
  shows "runs (request mem_http base m p expected hdrs c) w
     (if status \<in> set expected then Inr (status, rh, concat chunks) else Inl (WebDAVHTTPError m p status)) w'"
  using assms by (auto simp: runs_def request_def sbind_def lift_def exchange_def ret_def raise_def)

lemma runs_validated:
  assumes "plain_path p" "runs (f p) w r w'"
  shows "runs (sbind (lift (validate_path p)) f) w r w'"
  using assms by (auto intro: runs_sbind_lift)

lemma mem_answers:
  "mem_http \<lparr>rq_method = ''HEAD'', rq_url = u, rq_headers = h, rq_content = c\<rparr> w
     = (HttpResponse (if w u = None then 404 else 200) [] [] False, w)"
  "mem_http \<lparr>rq_method = ''GET'', rq_url = u, rq_headers = h, rq_content = c\<rparr> w
     = (case w u of None \<Rightarrow> (HttpResponse 404 [] [] False, w) | Some b \<Rightarrow> (HttpResponse 200 [] [b] False, w))"
  "mem_http \<lparr>rq_method = ''MKCOL'', rq_url = u, rq_headers = h, rq_content = c\<rparr> w
     = (HttpResponse 201 [] [] False, w)"
  "mem_http \<lparr>rq_method = ''DELETE'', rq_url = u, rq_headers = h, rq_content = c\<rparr> w
     = (HttpResponse 204 [] [] False, w(u := None))"
  "w u = None \<Longrightarrow> mem_http \<lparr>rq_method = ''PUT'', rq_url = u, rq_headers = h, rq_content = c\<rparr> w
     = (HttpResponse 201 [] [] False, w(u := c))"
  "w u \<noteq> None \<Longrightarrow> w d = None \<or> ov = ''T'' \<Longrightarrow> mem_http \<lparr>rq_method = ''MOVE'', rq_url = u,
      rq_headers = [(''Destination'', d), (''Overwrite'', ov)], rq_content = c\<rparr> w
     = (HttpResponse 201 [] [] False, w(d := w u, u := None))"
  by (auto simp: mem_http_def split: option.split)

lemma runs_exists:
  assumes "plain_path p"
  shows "runs (exists mem_http base p) w (Inr (w (address base p) \<noteq> None)) w"
proof -
  note rq = runs_request [OF assms, where m = "''HEAD''" and base = base and hdrs = "[]" and c = None
    and w = w and expected = "[200, 204]", OF mem_answers(1)]
  show ?thesis
  proof (cases "w (address base p) = None")
    case True
    with rq have "runs (request mem_http base ''HEAD'' p [200, 204] [] None) w
      (Inl (WebDAVHTTPError ''HEAD'' p 404)) w" by simp
    then have "runs (head mem_http base p) w (Inl (WebDAVHTTPError ''HEAD'' p 404)) w"
      unfolding head_def by (intro runs_validated [OF assms] runs_sbind_Inl)
    then have "runs (sbind (head mem_http base p) (\<lambda>_. ret True)) w (Inl (WebDAVHTTPError ''HEAD'' p 404)) w"
      by (rule runs_sbind_Inl)
    from runs_catch_Inl [OF this] True show ?thesis
      unfolding exists_def by (simp add: runs_ret)
  next
    case False
    with rq have "runs (request mem_http base ''HEAD'' p [200, 204] [] None) w (Inr (200, [], [])) w"
      by simp
    then have "\<exists>st. runs (head mem_http base p) w (Inr st) w"
      unfolding head_def by (auto intro!: exI runs_validated [OF assms] runs_sbind runs_ret)
    then show ?thesis
      unfolding exists_def using False by (auto intro!: runs_catch runs_sbind runs_ret)
  qed
qed

lemma runs_ensure_parent:
  assumes "plain_path p" "2 \<le> length p"
  shows "runs (ensure_collection mem_http base (butlast p)) w (Inr ()) w"
proof -
  let ?q = "butlast p"
  have q: "plain_path ?q"
    using assms by (cases p rule: rev_cases) (auto simp: plain_path_def)
  show ?thesis
    unfolding ensure_collection_def
  proof (rule runs_validated [OF q], rule runs_sfor)
    fix i assume "i \<in> set [0..<length ?q]"
    then have t: "plain_path (take (Suc i) ?q)"
      using q by (auto simp: plain_path_def list_all_iff dest: in_set_takeD)
    note runs_request [OF t, where m = "''MKCOL''" and hdrs = "[]" and c = None and base = base
      and w = w and expected = "[201, 405]", OF mem_answers(3)]
    then have "\<exists>st. runs (mkcol mem_http base (take (Suc i) ?q) True) w (Inr st) w"
      unfolding mkcol_def by (auto intro!: exI runs_validated [OF t] runs_sbind runs_ret)
    then show "runs (sbind (mkcol mem_http base (take (Suc i) ?q) True) (\<lambda>_. ret ())) w (Inr ()) w"
      by (auto intro!: runs_sbind runs_ret)
  qed
qed

lemma runs_put:
  assumes "plain_path p" "w (address base p) = None" "\<And>w. runs content w (Inr b) w"
  shows "\<exists>st. runs (put mem_http base p content mt True) w (Inr st) (w(address base p := Some b))"
proof -
  note runs_request [OF assms(1), where m = "''PUT''" and c = "Some b"
    and hdrs = "[(''Content-Type'', mt), (''If-None-Match'', ''*'')]" and expected = "[200, 201, 204]",
    OF mem_answers(5) [where w = w, OF assms(2)]]
  then show ?thesis
    unfolding put_def by (auto intro!: exI runs_validated [OF assms(1)] runs_sbind [OF assms(3)] runs_sbind runs_ret)
qed

lemma runs_move:
  assumes "plain_path p" "plain_path q" "w (address base q) = None \<or> ov" "w (address base p) \<noteq> None"
  shows "\<exists>st. runs (move mem_http base p q ov) w (Inr st) (w(address base q := w (address base p), address base p := None))"
proof -
  have "w (address base q) = None \<or> (if ov then ''T'' else ''F'') = ''T''" using assms(3) by auto
  from runs_request [OF assms(1), where m = "''MOVE''" and c = None and base = base
    and hdrs = "[(''Destination'', address base q), (''Overwrite'', if ov then ''T'' else ''F'')]"
    and expected = "[201, 204]", OF mem_answers(6) [where w = w, OF assms(4) this]]
  have rq: "runs (request mem_http base ''MOVE'' p [201, 204]
      [(''Destination'', address base q), (''Overwrite'', if ov then ''T'' else ''F'')] None) w
      (Inr (201, [], [])) (w(address base q := w (address base p), address base p := None))" by simp
  show ?thesis
    unfolding move_def
    by (intro exI, intro runs_validated [OF assms(1)] runs_validated [OF assms(2)],
        intro runs_sbind_lift [OF url_plain [OF assms(2)]], rule runs_sbind [OF rq])
      (simp only: prod.case, rule runs_ret)
qed

lemma runs_delete:
  assumes "plain_path p"
  shows "runs (delete mem_http base p True) w (Inr ()) (w(address base p := None))"
proof -
  note runs_request [OF assms, where m = "''DELETE''" and hdrs = "[]" and c = None
    and expected = "[200, 202, 204, 404]", OF mem_answers(4)]
  then show ?thesis
    unfolding delete_def by (auto intro!: runs_validated [OF assms] runs_sbind runs_ret)
qed

lemma runs_stream_get:
  assumes "plain_path p" "w (address base p) = Some b" "int (length b) \<le> n"
  shows "runs (stream_get mem_http base p (Some n) e) w (Inr ([], b)) w"
  using assms by (auto simp: runs_def stream_get_def sbind_def lift_def exchange_def ret_def mem_answers)

lemma runs_verify_ok:
  assumes "plain_path p" "w (address base p) = Some b"
  shows "\<exists>va. runs (verify mem_http base p (sha256_bytes b) (int (length b)) None) w (Inr va) w"
proof -
  obtain va where va: "verified_artifact p (sha256_bytes b) (int (length b)) = Inr va"
    using verified_artifact_ok [OF assms(1)] by blast
  have "runs (verify_with_metadata mem_http base p (sha256_bytes b) (int (length b)) None) w
      (Inr \<lparr>vr_artifact = va, vr_etag = None\<rparr>) w"
    unfolding verify_with_metadata_def Let_def
    by (rule runs_validated [OF assms(1)], (rule runs_sbind_lift, simp)+,
        rule runs_sbind [OF runs_stream_get [OF assms(1), where w = w, OF assms(2)]])
      (auto intro!: runs_sbind_lift runs_ret simp: va)
  then show ?thesis unfolding verify_def by (auto intro!: exI runs_sbind runs_ret)
qed

text \<open>Different content of a different length or digest is refused.\<close>

lemma runs_verify_differs:
  assumes "plain_path p" "w (address base p) = Some b" "length b \<noteq> length c \<or> sha256_bytes b \<noteq> sha256_bytes c"
  shows "\<exists>m. runs (verify mem_http base p (sha256_bytes c) (int (length c)) None) w
     (Inl (WebDAVReadbackIntegrityError m)) w"
proof -
  have "\<exists>m. \<forall>f :: headers \<Rightarrow> bytes \<Rightarrow> unit \<Rightarrow> (string \<Rightarrow> bytes option, VerifiedRemoteObject) dav_op.
     runs (sbind (stream_get mem_http base p (Some (int (length c)))
       (WebDAVReadbackIntegrityError ''remote object exceeds the allowed byte size'')) (\<lambda>(rh, body).
     sbind (lift (raise_if (int (length body) \<noteq> int (length c))
       (WebDAVReadbackIntegrityError ''remote byte size does not match the sealed identity''))) (\<lambda>_.
     sbind (lift (raise_if (sha256_bytes body \<noteq> sha256_bytes c)
       (WebDAVReadbackIntegrityError ''remote SHA-256 does not match the sealed identity''))) (f rh body))))
     w (Inl (WebDAVReadbackIntegrityError m)) w"
  proof (cases "length b \<le> length c")
    case True
    then have g: "runs (stream_get mem_http base p (Some (int (length c))) e) w (Inr ([], b)) w" for e
      by (intro runs_stream_get [OF assms(1), where w = w, OF assms(2)]) simp
    show ?thesis
    proof (cases "length b = length c")
      case True
      with assms(3) have "sha256_bytes b \<noteq> sha256_bytes c" by simp
      with True show ?thesis
        by (intro exI [of _ "''remote SHA-256 does not match the sealed identity''"] allI runs_sbind [OF g])
          (simp add: runs_def sbind_def lift_def raise_if_def)
    next
      case False
      then show ?thesis
        by (intro exI [of _ "''remote byte size does not match the sealed identity''"] allI runs_sbind [OF g])
          (simp add: runs_def sbind_def lift_def raise_if_def)
    qed
  next
    case False
    then have "runs (stream_get mem_http base p (Some (int (length c))) e) w (Inl e) w" for e
      using assms(1,2)
      by (auto simp: runs_def stream_get_def sbind_def lift_def exchange_def ret_def raise_def mem_answers)
    then show ?thesis by (auto intro!: exI runs_sbind_Inl)
  qed
  then obtain m where get: "\<And>f :: headers \<Rightarrow> bytes \<Rightarrow> unit \<Rightarrow> (string \<Rightarrow> bytes option, VerifiedRemoteObject) dav_op.
     runs (sbind (stream_get mem_http base p (Some (int (length c)))
       (WebDAVReadbackIntegrityError ''remote object exceeds the allowed byte size'')) (\<lambda>(rh, body).
     sbind (lift (raise_if (int (length body) \<noteq> int (length c))
       (WebDAVReadbackIntegrityError ''remote byte size does not match the sealed identity''))) (\<lambda>_.
     sbind (lift (raise_if (sha256_bytes body \<noteq> sha256_bytes c)
       (WebDAVReadbackIntegrityError ''remote SHA-256 does not match the sealed identity''))) (f rh body))))
     w (Inl (WebDAVReadbackIntegrityError m)) w" by blast
  have "\<exists>m. runs (verify_with_metadata mem_http base p (sha256_bytes c) (int (length c)) None) w
     (Inl (WebDAVReadbackIntegrityError m)) w"
    unfolding verify_with_metadata_def Let_def option.case
    by (intro exI, rule runs_validated [OF assms(1)], (rule runs_sbind_lift, simp)+, rule get)
  then show ?thesis unfolding verify_def by (blast intro: runs_sbind_Inl)
qed

lemma incoming_differs: "plain_path d \<Longrightarrow> take 2 d \<noteq> [''v1'', ''.incoming''] \<Longrightarrow> d \<noteq> incoming_path area fresh"
  by (auto simp: incoming_path_def)

lemma runs_verify_unit:
  assumes "plain_path p" "w (address (pb_base pb) p) = Some b"
  shows "runs (sbind (verify_remote mem_http pb p (sha256_bytes b) (int (length b))) (\<lambda>_. ret ())) w (Inr ()) w"
  using runs_verify_ok [OF assms(1), where w = w, OF assms(2)]
  unfolding verify_remote_def by (auto intro!: runs_sbind runs_ret)

lemma runs_seq:
  assumes "\<exists>x. runs m w (Inr x) w1" "runs n w1 r w2"
  shows "runs (sbind m (\<lambda>_. n)) w r w2"
  using assms by (auto intro: runs_sbind)

lemma runs_commit:
  assumes "plain_path t" "plain_path d" "t \<noteq> d" "w (address (pb_base pb) d) = None \<or> ov"
    and "mv = (\<lambda>m. if ov then sbind (move mem_http (pb_base pb) t d True) (\<lambda>_. m)
           else sbind (commit_move mem_http pb t d) (\<lambda>_. m))"
    and "w (address (pb_base pb) t) = Some b"
  shows "runs (mv (sbind (verify_remote mem_http pb d (sha256_bytes b) (int (length b))) (\<lambda>_. ret ()))) w
     (Inr ()) (w(address (pb_base pb) d := Some b, address (pb_base pb) t := None))"
proof -
  let ?u = "address (pb_base pb)"
  let ?w' = "w(?u d := Some b, ?u t := None)"
  have ne: "?u t \<noteq> ?u d" using assms(1-3) address_inj by blast
  obtain st where st: "runs (move mem_http (pb_base pb) t d ov) w (Inr st) ?w'"
    using runs_move [OF assms(1,2), of w "pb_base pb" ov] assms(4,6) by auto
  have v: "runs (sbind (verify_remote mem_http pb d (sha256_bytes b) (int (length b))) (\<lambda>_. ret ())) ?w' (Inr ()) ?w'"
    by (rule runs_verify_unit [OF assms(2)]) (use ne in simp)
  show ?thesis
  proof (cases ov)
    case True
    with st v show ?thesis unfolding assms(5) by (auto intro: runs_sbind)
  next
    case False
    with st have "runs (commit_move mem_http pb t d) w (Inr False) ?w'"
      unfolding commit_move_def by (auto intro!: runs_catch runs_sbind runs_ret)
    with False v show ?thesis unfolding assms(5) by (auto intro: runs_sbind)
  qed
qed

lemma runs_publish_new:
  assumes "plain_path d" "2 \<le> length d" "safe_id fresh" "incoming_path ''publish'' fresh \<noteq> d" "\<not> pb_final_only pb"
    and "w (address (pb_base pb) d) = None" "w (address (pb_base pb) (incoming_path ''publish'' fresh)) = None"
    and "\<And>w. runs content w (Inr b) w" "\<And>w. runs pre w (Inr ()) w"
  shows "runs (publish_new mem_http pb fresh d (sha256_bytes b) (int (length b)) mt content pre) w
     (Inr ()) (w(address (pb_base pb) d := Some b))"
proof -
  let ?t = "incoming_path ''publish'' fresh" and ?u = "address (pb_base pb)"
  have t: "plain_path ?t" "2 \<le> length ?t"
    using incoming_plain [OF assms(3)] by (auto simp: incoming_path_def)
  have ne: "?u ?t \<noteq> ?u d" using assms(1,4) t(1) address_inj by blast
  let ?w1 = "w(?u ?t := Some b)" and ?w2 = "w(?u d := Some b, ?u ?t := None)"
  have vt: "runs (verify_temporary mem_http pb ?t (sha256_bytes b) (int (length b))) ?w1 (Inr ()) ?w1"
    unfolding verify_temporary_def using assms(5) by (simp, intro runs_verify_unit t) simp
  have c: "runs (sbind (commit_move mem_http pb ?t d) (\<lambda>_.
        sbind (verify_remote mem_http pb d (sha256_bytes b) (int (length b))) (\<lambda>_. ret ()))) ?w1 (Inr ()) ?w2"
    using runs_commit [OF t(1) assms(1,4), where ov = False and b = b and w = ?w1 and pb = pb, OF _ refl]
      ne assms(6) by (simp add: fun_upd_twist)
  have w2: "?w2(?u ?t := None) = w(?u d := Some b)" using ne assms(7) by auto
  have body: "runs (sbind (put mem_http (pb_base pb) ?t content mt True) (\<lambda>_.
        sbind (verify_temporary mem_http pb ?t (sha256_bytes b) (int (length b))) (\<lambda>_.
        sbind pre (\<lambda>_.
        sbind (commit_move mem_http pb ?t d) (\<lambda>_.
        sbind (verify_remote mem_http pb d (sha256_bytes b) (int (length b))) (\<lambda>_. ret ()))))))
      w (Inr ()) ?w2"
    by (rule runs_seq [OF runs_put [OF t(1), where w = w, OF assms(7,8)]], rule runs_sbind [OF vt],
        rule runs_sbind [OF assms(9)], rule c)
  have drop: "runs (suppress (delete mem_http (pb_base pb) ?t True)) ?w2 (Inr ()) (w(?u d := Some b))"
    using runs_suppress [OF runs_delete [OF t(1), of "pb_base pb" ?w2]] unfolding w2 .
  show ?thesis
    unfolding publish_new_def Let_def
    by (rule runs_sbind [OF runs_ensure_parent [OF assms(1,2)]], rule runs_sbind [OF runs_ensure_parent [OF t]],
        rule runs_sbind [OF runs_catch [OF body]], rule drop)
qed

lemma runs_publish:
  assumes "plain_path d" "2 \<le> length d" "take 2 d \<noteq> [''v1'', ''.incoming'']" "safe_id fresh"
    and "\<not> pb_final_only pb" "artifact_ref (sha256_bytes b) (int (length b)) mt (as_posix d) = Inr ref"
    and "w (address (pb_base pb) d) = None \<or> w (address (pb_base pb) d) = Some b"
    and "w (address (pb_base pb) (incoming_path ''publish'' fresh)) = None"
    and "\<And>w. runs content w (Inr b) w" "\<And>w. runs pre w (Inr ()) w"
  shows "runs (publish mem_http pb fresh d (sha256_bytes b) (int (length b)) mt content pre) w
     (Inr ref) (w(address (pb_base pb) d := Some b))"
proof -
  let ?u = "address (pb_base pb) d"
  have ne: "incoming_path ''publish'' fresh \<noteq> d" using incoming_differs [OF assms(1,3)] by metis
  have step: "runs (if w ?u \<noteq> None then sbind (verify_remote mem_http pb d (sha256_bytes b) (int (length b))) (\<lambda>_. ret ())
      else publish_new mem_http pb fresh d (sha256_bytes b) (int (length b)) mt content pre) w
      (Inr ()) (w(?u := Some b))"
  proof (cases "w ?u")
    case None
    with runs_publish_new [OF assms(1,2,4) ne assms(5) None assms(8-10)] show ?thesis by simp
  next
    case (Some b')
    with assms(7) have b: "w ?u = Some b" by simp
    then have "w(?u := Some b) = w" by (auto simp: fun_upd_idem)
    with runs_verify_unit [OF assms(1), where w = w, OF b] b show ?thesis by simp
  qed
  show ?thesis
    unfolding publish_def using assms(5)
    by (intro runs_validated [OF assms(1)], intro runs_sbind_lift [where x = "()"], simp,
        intro runs_sbind [OF runs_exists [OF assms(1)]] runs_sbind [OF step])
      (simp add: runs_def lift_def assms(6))
qed

lemma runs_publish_bytes:
  assumes "plain_path d" "2 \<le> length d" "take 2 d \<noteq> [''v1'', ''.incoming'']" "safe_id fresh"
    and "\<not> pb_final_only pb" "artifact_ref (sha256_bytes b) (int (length b)) mt (as_posix d) = Inr ref"
    and "w (address (pb_base pb) d) = None \<or> w (address (pb_base pb) d) = Some b"
    and "w (address (pb_base pb) (incoming_path ''publish'' fresh)) = None"
  shows "runs (publish_bytes mem_http pb fresh d b mt) w (Inr ref) (w(address (pb_base pb) d := Some b))"
  unfolding publish_bytes_def
  by (rule runs_validated [OF assms(1)], rule runs_publish [OF assms]) (rule runs_ret)+

lemma runs_publish_bytes_conflict:
  assumes "plain_path d" "\<not> pb_final_only pb" "w (address (pb_base pb) d) = Some b'"
    and "length b' \<noteq> length b \<or> sha256_bytes b' \<noteq> sha256_bytes b"
  shows "\<exists>m. runs (publish_bytes mem_http pb fresh d b mt) w (Inl (WebDAVReadbackIntegrityError m)) w"
proof -
  obtain m where m: "runs (verify mem_http (pb_base pb) d (sha256_bytes b) (int (length b)) None) w
      (Inl (WebDAVReadbackIntegrityError m)) w"
    using runs_verify_differs [OF assms(1), where w = w, OF assms(3,4)] by blast
  have v: "runs (if w (address (pb_base pb) d) \<noteq> None
      then sbind (verify_remote mem_http pb d (sha256_bytes b) (int (length b))) (\<lambda>_. ret ())
      else publish_new mem_http pb fresh d (sha256_bytes b) (int (length b)) mt (ret b) (ret ())) w
      (Inl (WebDAVReadbackIntegrityError m)) w"
    using assms(3) runs_sbind_Inl [OF m] by (simp add: verify_remote_def)
  have "runs (publish mem_http pb fresh d (sha256_bytes b) (int (length b)) mt (ret b) (ret ())) w
      (Inl (WebDAVReadbackIntegrityError m)) w"
    unfolding publish_def using assms(2)
    by (intro runs_validated [OF assms(1)], intro runs_sbind_lift [where x = "()"], simp,
        intro runs_sbind [OF runs_exists [OF assms(1)]] runs_sbind_Inl [OF v])
  then show ?thesis unfolding publish_bytes_def by (blast intro: runs_validated [OF assms(1)])
qed

subsection \<open>A small store\<close>

abbreviation demo_publisher :: publisher where
  "demo_publisher \<equiv> \<lparr>pb_base = \<lparr>bu_scheme = ''http'', bu_netloc = ''h'', bu_path = ''/d/''\<rparr>, pb_chunk = 16,
     pb_final_only = False\<rparr>"

abbreviation demo_state :: "(string \<Rightarrow> bytes option) dav" where
  "demo_state \<equiv> \<lparr>dav_world = Map.empty, dav_log = [], local_files = Map.empty\<rparr>"

definition demo_ref :: "string \<Rightarrow> path \<Rightarrow> ArtifactRef" where
  "demo_ref b p = \<lparr>ar_sha256 = sha256_bytes b, ar_size_bytes = int (length b), ar_media_type = ''text/plain'',
     ar_path = as_posix p\<rparr>"

lemma demo_plain:
  "plain_path [''a'', ''b'']" "safe_id ''f''" "safe_id ''stable''"
  by (simp_all add: plain_path_def plain_segment_def safe_segment_def safe_id_def char_class_defs)

lemma demo_artifact_ref:
  assumes "plain_path p" "take 3 p \<noteq> [''v1'', ''objects'', ''sha256''] \<or> object_path (sha256_bytes b) = Inr p"
  shows "artifact_ref (sha256_bytes b) (int (length b)) ''text/plain'' (as_posix p) = Inr (demo_ref b p)"
proof -
  have "strip ''text/plain'' = ''text/plain''" by code_simp
  moreover have "validate_relative_path (as_posix p) = Inr p"
    using assms(1) by (simp add: validate_relative_path_iff)
  moreover have "object_path (sha256_bytes b) = Inr [''v1'', ''objects'', ''sha256'', take 2 (sha256_bytes b), sha256_bytes b]"
    by (simp add: object_path_Inr)
  ultimately show ?thesis
    using assms by (auto simp: artifact_ref_def demo_ref_def Let_def)
qed

lemma demo_hi: "artifact_ref (sha256_bytes ''hi'') 2 ''text/plain'' (as_posix [''a'', ''b'']) = Inr (demo_ref ''hi'' [''a'', ''b''])"
  using demo_artifact_ref [OF demo_plain(1), of "''hi''"] by simp

lemma demo_run:
  "\<exists>s'. publish_bytes mem_http demo_publisher ''f'' [''a'', ''b''] ''hi'' ''text/plain'' demo_state
     = (Inr (demo_ref ''hi'' [''a'', ''b'']), s')"
proof -
  have "runs (publish_bytes mem_http demo_publisher ''f'' [''a'', ''b''] ''hi'' ''text/plain'') Map.empty
    (Inr (demo_ref ''hi'' [''a'', ''b''])) (Map.empty(address (pb_base demo_publisher) [''a'', ''b''] := Some ''hi''))"
    by (rule runs_publish_bytes [OF demo_plain(1) _ _ demo_plain(2)])
      (simp_all add: demo_hi)
  then show ?thesis by (rule runsD) simp
qed

section \<open>Properties\<close>

text \<open>
  C2.  Whatever the server answers, a publication that returns has read the bytes back from the
  destination: the log ends with a \<open>GET\<close> of the destination that delivered exactly as many
  bytes, with exactly the SHA-256, of the payload, followed only by deletions of the temporary
  object; and the returned reference names that digest, size and path.
\<close>

theorem publish_bytes_verified:
  assumes "safe_id fresh" and "publish_bytes http pb fresh destination payload mt s = (Inr r, s')"
  shows "\<exists>d l. validate_path destination = Inr d \<and> dav_log s' = dav_log s @ l
    \<and> committed (pb_base pb) (incoming_path ''publish'' fresh) d (sha256_bytes payload) (int (length payload)) l
    \<and> ar_sha256 r = sha256_bytes payload \<and> ar_size_bytes r = int (length payload) \<and> ar_path r = as_posix d"
proof -
  from assms(2) obtain d where d: "validate_path destination = Inr d"
    unfolding publish_bytes_def by (auto simp: sbind_eqs lift_def)
  then have p: "plain_path d" by (auto dest: validate_path_Inr)
  show ?thesis
    using doesD [OF publish_bytes_does [OF assms(1) d] assms(2)] d artifact_ref_fields [OF _ sha256_bytes_hex p]
    by metis
qed

theorem publish_bytes_verified_witness:
  "\<exists>s' l. publish_bytes mem_http demo_publisher ''f'' [''a'', ''b''] ''hi'' ''text/plain'' demo_state
      = (Inr (demo_ref ''hi'' [''a'', ''b'']), s') \<and> dav_log s' = l
    \<and> committed (pb_base demo_publisher) (incoming_path ''publish'' ''f'') [''a'', ''b''] (sha256_bytes ''hi'') 2 l"
proof -
  obtain s' where s': "publish_bytes mem_http demo_publisher ''f'' [''a'', ''b''] ''hi'' ''text/plain'' demo_state
    = (Inr (demo_ref ''hi'' [''a'', ''b'']), s')" using demo_run by blast
  from publish_bytes_verified [OF demo_plain(2) s'] s' demo_plain(1) show ?thesis by auto
qed

text \<open>
  C14.  Publication never overwrites.  Whatever the server answers and however the publication
  ends, its uploads go only to its own fresh temporary object (and only if that does not exist),
  its only \<open>MOVE\<close> goes from there to the destination with \<open>Overwrite: F\<close>, it deletes only the
  temporary object, and every other request is read-only or creates a collection.
\<close>

theorem publish_bytes_confined:
  assumes "safe_id fresh" and "plain_path destination"
    and "publish_bytes http pb fresh destination payload mt s = (r, s')"
  shows "\<exists>l. dav_log s' = dav_log s @ l \<and>
     list_all (\<lambda>x. publish_request (pb_base pb) (incoming_path ''publish'' fresh) destination (fst x)) l"
proof -
  have "validate_path destination = Inr destination" using assms(2) by simp
  from doesD_log [OF publish_bytes_does [OF assms(1) this] assms(3)] show ?thesis by blast
qed

theorem publish_bytes_confined_witness:
  "\<exists>l. dav_log (snd (publish_bytes mem_http demo_publisher ''f'' [''a'', ''b''] ''hi'' ''text/plain'' demo_state)) = l
    \<and> list_all (\<lambda>x. publish_request (pb_base demo_publisher) (incoming_path ''publish'' ''f'') [''a'', ''b''] (fst x)) l"
  using publish_bytes_confined [OF demo_plain(2,1), of mem_http demo_publisher "''hi''" "''text/plain''" demo_state]
  by (metis append_Nil dav.select_convs(2) prod.collapse)





lemma list_all_False: "list_all (\<lambda>_. False) l \<Longrightarrow> l = []"
  by (cases l) auto

lemma does_silent: "does (\<lambda>_. False) m (\<lambda>_ _. True) \<Longrightarrow> does A m (\<lambda>_ l. l = [])"
  unfolding does_def by (rule allI, erule allE, erule valid_weaken) (auto dest: list_all_False)

lemma does_sbind_silent:
  assumes "does (\<lambda>_. False) m (\<lambda>_ _. True)" "\<And>x. does A (f x) R"
  shows "does A (sbind m f) R"
  using does_silent [OF assms(1)] assms(2) by (rule does_sbind) simp

definition sealed_as :: "string option \<Rightarrow> int option \<Rightarrow> string \<Rightarrow> int \<Rightarrow> bool" where
  "sealed_as e n d sz \<longleftrightarrow> sha256_hex d \<and> (e = None \<or> e = Some d) \<and> (n = None \<or> n = Some sz)"

lemma does_publish_source:
  assumes "safe_id fresh" "sealed_as e n d sz"
  shows "does (\<lambda>_. True) (sbind (lift (rbind (factory d) validate_path)) (\<lambda>destination.
      sbind (publish http pb fresh destination d sz mt
        (sbind (verify_source_identity os source i) (\<lambda>_. sbind (on_world (os_read_all os (pb_chunk pb))) (\<lambda>again.
           case again of None \<Rightarrow> raise (WebDAVIntegrityError ''publication source could not be read safely'')
           | Some cs \<Rightarrow> ret (concat cs))))
        (verify_source_identity os source i)) (\<lambda>reference.
      sbind (verify_source_identity os source i) (\<lambda>_. ret reference))))
     (\<lambda>r l. \<exists>d sz p. sealed_as e n d sz \<and> rbind (factory d) validate_path = Inr p
        \<and> artifact_ref d sz mt (as_posix p) = Inr r
        \<and> committed (pb_base pb) (incoming_path ''publish'' fresh) p d sz l)"
proof (rule does_sbind_lift)
  fix p assume p: "rbind (factory d) validate_path = Inr p"
  then have pp: "plain_path p" by (auto dest: validate_path_Inr)
  let ?check = "verify_source_identity os source i"
  let ?content = "sbind ?check (\<lambda>_. sbind (on_world (os_read_all os (pb_chunk pb))) (\<lambda>again.
     case again of None \<Rightarrow> raise (WebDAVIntegrityError ''publication source could not be read safely'')
     | Some cs \<Rightarrow> ret (concat cs)))"
  have c: "does A ?content (\<lambda>_ _. True)" for A
    by (auto intro!: does_seq does_check does_on_world split: option.splits intro: does_ret does_raise)
  have tail: "does (\<lambda>_. True) (sbind ?check (\<lambda>_. ret r)) (\<lambda>r' l. r' = r \<and> l = [])" for r
    by (rule does_sbind_silent [OF does_check]) (rule does_ret, simp)
  show "does (\<lambda>_. True) (sbind (publish http pb fresh p d sz mt ?content ?check) (\<lambda>reference.
      sbind ?check (\<lambda>_. ret reference)))
     (\<lambda>r l. \<exists>d sz p. sealed_as e n d sz \<and> rbind (factory d) validate_path = Inr p
        \<and> artifact_ref d sz mt (as_posix p) = Inr r
        \<and> committed (pb_base pb) (incoming_path ''publish'' fresh) p d sz l)"
    by (rule does_sbind [OF does_mono [OF does_publish [OF assms(1) pp c does_check]] tail])
      (use assms(2) p in auto)
qed

lemma does_publish_file_via:
  assumes "safe_id fresh"
  shows "does (\<lambda>_. True) (publish_file_via http os pb fresh source factory mt e n)
     (\<lambda>r l. \<exists>d sz p. sealed_as e n d sz \<and> rbind (factory d) validate_path = Inr p
        \<and> artifact_ref d sz mt (as_posix p) = Inr r
        \<and> committed (pb_base pb) (incoming_path ''publish'' fresh) p d sz l)"
  unfolding publish_file_via_def Let_def
proof (rule does_sbind_lift, rule does_sbind_lift, rule does_sbind_silent [OF does_on_world],
    rule does_sbind_lift, rule does_sbind_silent [OF does_on_world], goal_cases)
  case (1 td ts opened u m)
  have td: "td = e" and ts: "ts = n"
    using 1 by (auto simp: validate_expected_size_def split: option.splits if_splits)
  show ?case
  proof (cases m)
    case (Some initial)
    show ?thesis
      unfolding Some option.case
    proof (rule does_sbind_lift, rule does_sbind_silent [OF does_on_world], goal_cases)
      case (1 u read)
      show ?case
      proof (cases read)
        case (Some chunks)
        show ?thesis
          unfolding Some option.case sha256_chunks_eq prod.case td ts
          by (intro does_sbind_silent [OF does_check] does_sbind_lift does_publish_source [OF assms])
            (auto simp: sealed_as_def split: option.splits)
      qed (auto intro: does_raise)
    qed
  qed (auto intro: does_raise)
qed

text \<open>
  A file published into the content-addressed store lands, verified by readback, at the
  path of the digest of what was read back; and when the caller pins a digest or a size, the
  published object has them.
\<close>

lemma cas_publish_file_addressed:
  assumes "safe_id fresh"
    and "cas_publish_file http os pb fresh source mt expected_sha256 expected_size s = (Inr r, s')"
  shows "\<exists>l. dav_log s' = dav_log s @ l \<and> ar_path r = as_posix [''v1'', ''objects'', ''sha256'', take 2 (ar_sha256 r), ar_sha256 r]
    \<and> committed (pb_base pb) (incoming_path ''publish'' fresh)
        [''v1'', ''objects'', ''sha256'', take 2 (ar_sha256 r), ar_sha256 r] (ar_sha256 r) (ar_size_bytes r) l
    \<and> sealed_as expected_sha256 expected_size (ar_sha256 r) (ar_size_bytes r)"
proof -
  obtain l where l: "dav_log s' = dav_log s @ l" and R: "\<exists>d sz p. sealed_as expected_sha256 expected_size d sz
      \<and> rbind (object_path d) validate_path = Inr p \<and> artifact_ref d sz mt (as_posix p) = Inr r
      \<and> committed (pb_base pb) (incoming_path ''publish'' fresh) p d sz l"
    by (rule doesD [OF does_publish_file_via [OF assms(1)] assms(2) [unfolded cas_publish_file_def]])
  from R obtain d sz p where s: "sealed_as expected_sha256 expected_size d sz"
    and p: "rbind (object_path d) validate_path = Inr p" and r: "artifact_ref d sz mt (as_posix p) = Inr r"
    and c: "committed (pb_base pb) (incoming_path ''publish'' fresh) p d sz l" by (elim exE conjE)
  have d: "sha256_hex d" using s by (simp add: sealed_as_def)
  have "plain_path [''v1'', ''objects'', ''sha256'', take 2 d, d]"
    using d by (simp add: plain_path_def sha256_hex_segment sha256_prefix_segment)
  with p d have p': "p = [''v1'', ''objects'', ''sha256'', take 2 d, d]" "plain_path p"
    by (auto simp: object_path_Inr)
  with artifact_ref_fields [OF r d p'(2)] l s c show ?thesis by auto
qed

text \<open>A local file system holding one unchanging regular file.\<close>

definition demo_os :: "bytes \<Rightarrow> 'w os_env" where
  "demo_os b = (let st = \<lparr>fs_regular = True, fs_dev = 1, fs_ino = 2, fs_size = int (length b), fs_mtime_ns = 3, fs_ctime_ns = 4\<rparr> in
     \<lparr>os_open = (\<lambda>_ w. (True, w)), os_fstat = (\<lambda>w. (Some st, w)), os_stat = (\<lambda>_ w. (Some st, w)),
      os_read_all = (\<lambda>_ w. (Some [b], w))\<rparr>)"

lemma runs_on_world: "f w = (x, w') \<Longrightarrow> runs (on_world f) w (Inr x) w'"
  by (simp add: runs_def on_world_def)

lemma demo_check:
  "runs (verify_source_identity (demo_os b) source (1, 2, int (length b), 3, 4)) w (Inr ()) w"
  unfolding verify_source_identity_def
  by (rule runs_sbind [OF runs_on_world], simp add: demo_os_def Let_def,
      simp only: option.case, rule runs_sbind [OF runs_on_world], simp add: demo_os_def Let_def)
    (simp add: file_identity_def runs_ret)

lemma demo_publish_file:
  "\<exists>r s'. cas_publish_file mem_http (demo_os ''hi'') demo_publisher ''f'' ''/x'' ''text/plain'' None (Some 2) demo_state
     = (Inr r, s')"
proof -
  let ?d = "[''v1'', ''objects'', ''sha256'', take 2 (sha256_bytes ''hi''), sha256_bytes ''hi'']"
  have o: "object_path (sha256_bytes ''hi'') = Inr ?d" by (simp add: object_path_Inr)
  have d: "plain_path ?d" by (simp add: plain_path_def sha256_hex_segment sha256_prefix_segment)
  have ref: "artifact_ref (sha256_bytes ''hi'') (int (length ''hi'')) ''text/plain'' (as_posix ?d) = Inr (demo_ref ''hi'' ?d)"
    by (rule demo_artifact_ref [OF d]) (simp add: o)
  let ?check = "verify_source_identity (demo_os ''hi'') ''/x'' (1, 2, 2, 3, 4)"
  have chk: "runs ?check w (Inr ()) w" for w :: "string \<Rightarrow> bytes option"
    using demo_check [of "''hi''"] by simp
  let ?content = "sbind ?check (\<lambda>_. sbind (on_world (os_read_all (demo_os ''hi'') 16)) (\<lambda>again.
     case again of None \<Rightarrow> raise (WebDAVIntegrityError ''publication source could not be read safely'')
     | Some cs \<Rightarrow> ret (concat cs)))"
  have c: "runs ?content w (Inr ''hi'') w" for w :: "string \<Rightarrow> bytes option"
    by (rule runs_sbind [OF chk], rule runs_sbind [OF runs_on_world], simp add: demo_os_def Let_def)
      (simp add: runs_ret)
  have "runs (publish mem_http demo_publisher ''f'' ?d (sha256_bytes ''hi'') (int (length ''hi'')) ''text/plain''
      ?content ?check) Map.empty (Inr (demo_ref ''hi'' ?d)) (Map.empty(address (pb_base demo_publisher) ?d := Some ''hi''))"
    by (rule runs_publish [OF d _ _ demo_plain(2) _ ref _ _ c chk]) simp_all
  then have p: "runs (sbind (publish mem_http demo_publisher ''f'' ?d (sha256_bytes ''hi'') 2 ''text/plain'' ?content ?check)
      (\<lambda>reference. sbind ?check (\<lambda>_. ret reference))) Map.empty (Inr (demo_ref ''hi'' ?d))
      (Map.empty(address (pb_base demo_publisher) ?d := Some ''hi''))"
    using chk by (auto intro!: runs_sbind runs_ret)
  have "runs (cas_publish_file mem_http (demo_os ''hi'') demo_publisher ''f'' ''/x'' ''text/plain'' None (Some 2))
      Map.empty (Inr (demo_ref ''hi'' ?d)) (Map.empty(address (pb_base demo_publisher) ?d := Some ''hi''))"
    unfolding cas_publish_file_def publish_file_via_def Let_def
    apply (rule runs_sbind_lift, simp, rule runs_sbind_lift, simp add: validate_expected_size_def)
    apply (rule runs_sbind [OF runs_on_world], simp add: demo_os_def Let_def, rule runs_sbind_lift, simp)
    apply (rule runs_sbind [OF runs_on_world], simp add: demo_os_def Let_def, simp only: option.case)
    apply (rule runs_sbind_lift, simp, rule runs_sbind [OF runs_on_world], simp add: demo_os_def Let_def)
    apply (simp only: option.case sha256_chunks_eq prod.case, simp add: file_identity_def)
    apply (rule runs_sbind [OF chk], rule runs_sbind_lift, simp)
    apply (rule runs_sbind_lift [where x = "()"], simp)
    apply (rule runs_sbind_lift [where x = "()"], simp)
    apply (rule runs_sbind_lift [where x = ?d])
    apply (simp only: o rbind_simps validate_path_plain [OF d])
    using p apply simp
    done
  from runsD [OF this, of demo_state] show ?thesis by auto
qed

lemma cas_publish_file_addressed_witness:
  "\<exists>r s' l. cas_publish_file mem_http (demo_os ''hi'') demo_publisher ''f'' ''/x'' ''text/plain'' None (Some 2) demo_state = (Inr r, s')
    \<and> dav_log s' = l \<and> sealed_as None (Some 2) (ar_sha256 r) (ar_size_bytes r)
    \<and> committed (pb_base demo_publisher) (incoming_path ''publish'' ''f'')
        [''v1'', ''objects'', ''sha256'', take 2 (ar_sha256 r), ar_sha256 r] (ar_sha256 r) (ar_size_bytes r) l"
proof -
  obtain r s' where s': "cas_publish_file mem_http (demo_os ''hi'') demo_publisher ''f'' ''/x'' ''text/plain'' None (Some 2) demo_state
    = (Inr r, s')" using demo_publish_file by blast
  from cas_publish_file_addressed [OF demo_plain(2) s'] s' show ?thesis by auto
qed

text \<open>
  The order of a pointer replacement: no \<open>MOVE\<close> before a verified readback of the temporary object.
\<close>

definition moves_after_readback :: "base_url \<Rightarrow> path \<Rightarrow> string \<Rightarrow> int \<Rightarrow> exchanges \<Rightarrow> bool" where
  "moves_after_readback base temporary digest sz l \<longleftrightarrow>
     list_all (\<lambda>x. method_of x \<noteq> ''MOVE'') l \<or>
     (\<exists>a x b. l = a @ x # b \<and> readback base temporary digest sz x \<and> list_all (\<lambda>y. method_of y \<noteq> ''MOVE'') a)"

abbreviation quiet :: "http_request \<times> http_result \<Rightarrow> bool" where
  "quiet x \<equiv> method_of x \<noteq> ''MOVE''"

lemma quiet_moves: "list_all quiet l \<Longrightarrow> moves_after_readback base t g n l"
  by (simp add: moves_after_readback_def)

lemma moves_after_readback_prepend:
  assumes "list_all quiet l1" "moves_after_readback base t g n l2"
  shows "moves_after_readback base t g n (l1 @ l2)"
  using assms(2) unfolding moves_after_readback_def
proof (elim disjE exE conjE, goal_cases)
  case (2 a x b)
  then show ?case using assms(1) by (intro disjI2 exI [of _ "l1 @ a"] exI [of _ x] exI [of _ b]) simp
qed (use assms(1) in simp)

lemma moves_after_readback_append:
  assumes "moves_after_readback base t g n l1" "list_all quiet l2"
  shows "moves_after_readback base t g n (l1 @ l2)"
  using assms unfolding moves_after_readback_def
proof (elim disjE exE conjE, goal_cases)
  case (2 a x b)
  then show ?case by (intro disjI2 exI [of _ a] exI [of _ x] exI [of _ "b @ l2"]) simp
qed simp

lemma readback_moves: "readback base t g n x \<Longrightarrow> moves_after_readback base t g n (x # l)"
  unfolding moves_after_readback_def by (intro disjI2 exI [of _ "[]"]) simp

lemma wire_quiet:
  assumes "does quiet m P" "\<And>x. wire (f x) R (moves_after_readback base t g n)"
    and "\<And>y l1 l2. list_all quiet l1 \<Longrightarrow> R y l2 \<Longrightarrow> R y (l1 @ l2)"
  shows "wire (sbind m f) R (moves_after_readback base t g n)"
  by (rule wire_sbind [OF does_wire [OF assms(1)] assms(2)])
    (auto intro: assms(3) moves_after_readback_prepend quiet_moves)

text \<open>Once the temporary object is read back, the rest is free to move.\<close>

lemma wire_after_readback:
  assumes "does quiet m (\<lambda>_ l. \<exists>x. l = [x] \<and> readback base t g n x)"
    and "does (\<lambda>_. True) k (\<lambda>_. C)" "\<And>l1 l2. C l2 \<Longrightarrow> C (l1 @ l2)"
  shows "wire (sbind m (\<lambda>_. k)) (\<lambda>_ l. moves_after_readback base t g n l \<and> C l) (moves_after_readback base t g n)"
proof (rule wire_sbind [OF does_wire [OF assms(1)] does_wire [OF assms(2)]], goal_cases)
  case (1 x y l1 l2)
  then show ?case by (auto intro: assms(3) readback_moves)
next
  case (3 x l1 l2)
  then show ?case by (auto intro: readback_moves)
qed (rule quiet_moves)

lemma wire_lift: "(\<And>x. r = Inr x \<Longrightarrow> wire (f x) R F) \<Longrightarrow> F [] \<Longrightarrow> wire (sbind (lift r) f) R F"
  by (cases r) (auto simp: wire_def valid_def sbind_def lift_def)

lemma wire_replace:
  fixes pb :: publisher
  defines "base \<equiv> pb_base pb"
  assumes t: "plain_path t" and d: "plain_path d"
  shows "wire (sbind (put http base t (ret b) mt True) (\<lambda>_.
        sbind (verify_remote http pb t g n) (\<lambda>_.
        sbind (move http base t d True) (\<lambda>_.
        sbind (verify_remote http pb d g n) (\<lambda>_. ret ())))))
     (\<lambda>_ l. moves_after_readback base t g n l \<and> committed base t d g n l) (moves_after_readback base t g n)"
proof (rule wire_quiet)
  show "does quiet (put http base t (ret b) mt True) (\<lambda>_ _. True)"
    by (rule does_put [OF t]) (auto intro: does_ret)
  have v: "does A (verify_remote http pb p g n) (\<lambda>_ l. \<exists>x. l = [x] \<and> readback base p g n x)"
    if "plain_path p" "\<And>u r. A (get_rq u, r)" for p A
    unfolding verify_remote_def base_def by (rule does_verify) (use that in auto)
  have k: "does (\<lambda>_. True) (sbind (verify_remote http pb d g n) (\<lambda>_. ret ())) (\<lambda>_. committed base t d g n)"
    by (rule does_sbind [OF v [OF d], where Q = "\<lambda>_ _ l. l = []"]) (auto intro: does_ret readback_committed)
  show "wire (sbind (verify_remote http pb t g n) (\<lambda>_.
        sbind (move http base t d True) (\<lambda>_.
        sbind (verify_remote http pb d g n) (\<lambda>_. ret ()))))
     (\<lambda>_ l. moves_after_readback base t g n l \<and> committed base t d g n l) (moves_after_readback base t g n)" for x
    by (rule wire_after_readback [OF v [OF t]])
      (auto intro!: does_sbind_post [OF does_move [OF t d] k] intro: committed_prepend)
qed (auto intro: moves_after_readback_prepend committed_prepend)

lemma wire_atomic_replace:
  fixes pb :: publisher
  defines "base \<equiv> pb_base pb"
  assumes f: "safe_id fresh" and c: "channel_pointer_path channel = Inr d"
  shows "wire (atomic_replace_bytes http pb fresh channel b mt)
     (\<lambda>r l. (moves_after_readback base (incoming_path ''channels'' fresh) (sha256_bytes b) (int (length b)) l
        \<and> committed base (incoming_path ''channels'' fresh) d (sha256_bytes b) (int (length b)) l)
        \<and> artifact_ref (sha256_bytes b) (int (length b)) mt (as_posix d) = Inr r)
     (moves_after_readback base (incoming_path ''channels'' fresh) (sha256_bytes b) (int (length b)))"
proof -
  let ?t = "incoming_path ''channels'' fresh" and ?g = "sha256_bytes b" and ?n = "int (length b)"
  let ?C = "\<lambda>l. moves_after_readback base ?t ?g ?n l \<and> committed base ?t d ?g ?n l"
  have t: "plain_path ?t" by (rule incoming_plain [OF f]) simp
  have d: "plain_path d" using c by (auto simp: channel_pointer_path_def plain_path_def json_suffix)
  have del: "does quiet (delete http base ?t True) (\<lambda>_ _. True)" by (rule does_delete [OF t]) simp
  have drop: "does quiet (suppress (delete http base ?t True)) (\<lambda>_. list_all (is_delete_of base ?t))"
    by (rule does_mono [OF does_drop [OF t]]) simp
  have ens: "does quiet (ensure_collection http base (butlast p)) (\<lambda>_ _. True)" if "plain_path p" for p
    by (rule does_ensure_parent [OF that]) simp
  have fin: "wire (sbind (suppress (delete http base ?t True)) (\<lambda>_. lift (artifact_ref ?g ?n mt (as_posix d))))
      (\<lambda>r l. (list_all quiet l \<and> list_all (is_delete_of base ?t) l) \<and> artifact_ref ?g ?n mt (as_posix d) = Inr r)
      (list_all quiet)"
    by (rule wire_weaken [OF does_wire [OF does_sbind [OF drop, where
          Q = "\<lambda>_ r l. l = [] \<and> artifact_ref ?g ?n mt (as_posix d) = Inr r" and
          R = "\<lambda>r l. list_all (is_delete_of base ?t) l \<and> artifact_ref ?g ?n mt (as_posix d) = Inr r"]]])
      (auto intro: does_lift)
  note body = wire_cleanup [OF wire_replace [OF t d, of http pb b mt ?g ?n, folded base_def] del]
  show ?thesis
    unfolding atomic_replace_bytes_def Let_def c base_def [symmetric]
    by (rule wire_lift, simp, rule wire_quiet [OF ens [OF d]], rule wire_quiet [OF ens [OF t]],
        rule wire_sbind [OF body fin])
      (auto intro: moves_after_readback_append moves_after_readback_prepend committed_append committed_prepend quiet_moves)
qed

text \<open>
  C15.  Replacing a channel pointer: whatever the server answers and however the call ends, no
  \<open>MOVE\<close> is sent before a readback has proved that the temporary object holds the payload; and
  when the call returns, the pointer itself has been read back with the payload's digest and
  size, after which only the temporary object is deleted.
\<close>

theorem atomic_replace_ordered:
  assumes "safe_id fresh" and "channel_pointer_path channel = Inr d"
    and "atomic_replace_bytes http pb fresh channel b mt s = (r, s')"
  shows "\<exists>l. dav_log s' = dav_log s @ l
    \<and> moves_after_readback (pb_base pb) (incoming_path ''channels'' fresh) (sha256_bytes b) (int (length b)) l
    \<and> (\<forall>ref. r = Inr ref \<longrightarrow> committed (pb_base pb) (incoming_path ''channels'' fresh) d (sha256_bytes b) (int (length b)) l)"
proof (cases r)
  case (Inl e)
  from wire_Inl [OF wire_atomic_replace [OF assms(1,2)] assms(3) [unfolded Inl]] Inl show ?thesis by auto
next
  case (Inr ref)
  from wire_Inr [OF wire_atomic_replace [OF assms(1,2)] assms(3) [unfolded Inr]] Inr show ?thesis by auto
qed

theorem atomic_replace_ordered_witness:
  "\<exists>r s' l. atomic_replace_bytes mem_http demo_publisher ''f'' ''stable'' ''hi'' ''text/plain'' demo_state = (r, s')
    \<and> dav_log s' = l
    \<and> moves_after_readback (pb_base demo_publisher) (incoming_path ''channels'' ''f'') (sha256_bytes ''hi'') 2 l"
proof -
  have c: "channel_pointer_path ''stable'' = Inr [''v1'', ''channels'', ''stable.json'']"
    using demo_plain(3) by (simp add: channel_pointer_path_def)
  obtain r s' where s': "atomic_replace_bytes mem_http demo_publisher ''f'' ''stable'' ''hi'' ''text/plain'' demo_state = (r, s')"
    by (metis prod.collapse)
  from atomic_replace_ordered [OF demo_plain(2) c s'] s' show ?thesis by auto
qed

end
