(* ===== verification/Floats.thy ===== *)
theory Floats
  imports Canonical Complex_Main
begin

text \<open>
  Binary64 floats and ISO dates, as far as the worker's policies use them.

  A float is known by the text of its \<open>repr\<close>; \<open>float_of\<close> is its exact rational value: the decimal
  number rounded to nearest, ties to even, with 53 significant bits (the values used here are far
  from the subnormal and overflow ranges).  \<open>fromisoformat\<close> reads the extended format with
  seconds that \<open>isoformat\<close> writes.
\<close>

section \<open>Floats\<close>

definition round_half_even :: "rat \<Rightarrow> int" where
  "round_half_even x = (let f = \<lfloor>x\<rfloor>; d = x - of_int f in
     if d < 1 / 2 then f else if d > 1 / 2 then f + 1 else if even f then f else f + 1)"

definition pow2 :: "int \<Rightarrow> rat" where
  "pow2 e = (if e \<ge> 0 then 2 ^ nat e else 1 / 2 ^ nat (- e))"

function bit_length :: "int \<Rightarrow> int" where
  "bit_length n = (if n \<le> 0 then 0 else 1 + bit_length (n div 2))"
  by auto
termination by (relation "measure nat") auto

declare bit_length.simps [simp del]

text \<open>The exponent of the leading bit of a positive number.\<close>

definition leading_exponent :: "rat \<Rightarrow> int" where
  "leading_exponent x = (let (p, q) = quotient_of x;
     e = bit_length p - bit_length q in if x < pow2 e then e - 1 else e)"

definition round53 :: "rat \<Rightarrow> rat" where
  "round53 x = (if x = 0 then 0 else let s = pow2 (leading_exponent \<bar>x\<bar> - 52) in of_int (round_half_even (x / s)) * s)"

definition decimal :: "string \<Rightarrow> rat" where
  "decimal s =
     (let (neg, u) = (case s of c # r \<Rightarrow> if c = CHR ''-'' then (True, r) else (False, s) | [] \<Rightarrow> (False, s));
          ip = takeWhile is_digit u; r1 = dropWhile is_digit u;
          (fp, r2) = lex_frac r1; (ep, r3) = lex_exp r2;
          frac = tl fp;
          m = (of_nat (nat_of_digits (ip @ frac)) :: rat) / 10 ^ length frac;
          ex = (case tl ep of [] \<Rightarrow> 0
                | c # d \<Rightarrow> if c = CHR ''-'' then - int (nat_of_digits d)
                    else if c = CHR ''+'' then int (nat_of_digits d) else int (nat_of_digits (c # d)));
          v = (if ex \<ge> 0 then m * 10 ^ nat ex else m / 10 ^ nat (- ex))
      in if neg then - v else v)"

definition float_of :: "string \<Rightarrow> rat" where
  "float_of s = round53 (decimal s)"

text \<open>\<open>int(n * x)\<close> for an \<open>int\<close> and a float: the product is rounded, then truncated.\<close>

definition int_times_float :: "int \<Rightarrow> string \<Rightarrow> int" where
  "int_times_float n x = (let v = round53 (of_int n * float_of x) in if v < 0 then \<lceil>v\<rceil> else \<lfloor>v\<rfloor>)"

section \<open>Dates\<close>

definition days_from_civil :: "int \<Rightarrow> int \<Rightarrow> int \<Rightarrow> int" where
  "days_from_civil y0 m d =
     (let y = (if m \<le> 2 then y0 - 1 else y0); era = y div 400; yoe = y - era * 400;
          doy = (153 * (if m > 2 then m - 3 else m + 9) + 2) div 5 + d - 1;
          doe = yoe * 365 + yoe div 4 - yoe div 100 + doy
      in era * 146097 + doe - 719468)"

definition is_leap :: "int \<Rightarrow> bool" where
  "is_leap y \<longleftrightarrow> y mod 4 = 0 \<and> (y mod 100 \<noteq> 0 \<or> y mod 400 = 0)"

definition days_in_month :: "int \<Rightarrow> int \<Rightarrow> int" where
  "days_in_month y m = (if m = 2 then (if is_leap y then 29 else 28) else if m \<in> {4, 6, 9, 11} then 30 else 31)"

text \<open>\<open>value.astimezone(UTC).isoformat()\<close> of the instant \<open>micros\<close>.\<close>

definition isoformat_utc :: "int \<Rightarrow> string" where
  "isoformat_utc micros =
     (let day = micros div 86400000000; t = micros mod 86400000000;
          h = t div 3600000000; mi = t div 60000000 mod 60; se = t div 1000000 mod 60; us = t mod 1000000
      in iso_date (civil_from_days day) @ ''T'' @ pad 2 h @ '':'' @ pad 2 mi @ '':'' @ pad 2 se
         @ (if us = 0 then '''' else ''.'' @ pad 6 us) @ ''+00:00'')"

definition digits :: "string \<Rightarrow> int option" where
  "digits s = (if s \<noteq> [] \<and> list_all is_digit s then Some (int (nat_of_digits s)) else None)"

text \<open>The offset part: none, \<open>Z\<close>, or a signed \<open>HH:MM\<close>, in microseconds.\<close>

definition parse_offset :: "string \<Rightarrow> int option option" where
  "parse_offset s =
     (if s = [] then Some None
      else if s = ''Z'' then Some (Some 0)
      else if length s = 6 \<and> s ! 3 = CHR '':'' \<and> (s ! 0 = CHR ''+'' \<or> s ! 0 = CHR ''-'') then
        (case (digits (take 2 (drop 1 s)), digits (drop 4 s)) of
           (Some h, Some m) \<Rightarrow>
             if h < 24 \<and> m < 60
             then Some (Some ((if s ! 0 = CHR ''-'' then -1 else 1) * (h * 3600 + m * 60) * 1000000)) else None
         | _ \<Rightarrow> None)
      else None)"

definition fromisoformat :: "string \<Rightarrow> (int \<times> int option) option" where
  "fromisoformat s =
     (if length s < 19 \<or> s ! 4 \<noteq> CHR ''-'' \<or> s ! 7 \<noteq> CHR ''-'' \<or> s ! 13 \<noteq> CHR '':'' \<or> s ! 16 \<noteq> CHR '':'' then None
      else
        let fd = (\<lambda>i n. digits (take n (drop i s))); rest = drop 19 s;
            (us, off) = (case rest of
              c # r \<Rightarrow> if c = CHR ''.'' then (let f = takeWhile is_digit r in
                 (if length f = 6 then digits f else if length f = 3 then map_option (\<lambda>x. x * 1000) (digits f) else None,
                  dropWhile is_digit r)) else (Some 0, rest)
            | [] \<Rightarrow> (Some 0, rest))
        in case (fd 0 4, fd 5 2, fd 8 2, fd 11 2, fd 14 2, fd 17 2, us, parse_offset off) of
             (Some y, Some m, Some d, Some h, Some mi, Some se, Some u, Some o') \<Rightarrow>
               if 1 \<le> y \<and> 1 \<le> m \<and> m \<le> 12 \<and> 1 \<le> d \<and> d \<le> days_in_month y m \<and> h < 24 \<and> mi < 60 \<and> se < 60
               then Some (days_from_civil y m d * 86400000000 + ((h * 60 + mi) * 60 + se) * 1000000 + u, o')
               else None
           | _ \<Rightarrow> None)"

end
