(* ===== verification/Contracts.thy ===== *)
theory Contracts
  imports Floats Paths
begin

text \<open>
  \<open>cardrag_worker/contracts.py\<close>: the immutable records at the worker's boundaries and the identities
  derived from them.  An identity is the SHA-256 of the canonical JSON of a payload.

  A \<open>date\<close> is a triple, \<open>discovered_at\<close> an instant in microseconds and its UTC offset (\<open>None\<close> for a naive
  datetime), a float its \<open>repr\<close>, a metadata mapping a JSON object.  \<open>casefold\<close> only matters for an ASCII
  suffix; no character outside ASCII folds to one of its letters.
\<close>

fun has_non_finite :: "json \<Rightarrow> bool" where
  "has_non_finite (JFloat r) = non_finite r"
| "has_non_finite (JArr vs) = list_ex has_non_finite vs"
| "has_non_finite (JObj kvs) = list_ex (\<lambda>(k, v). has_non_finite v) kvs"
| "has_non_finite v = False"

definition wk_canonical_json_bytes :: "json \<Rightarrow> bytes result" where
  "wk_canonical_json_bytes v =
     (if has_non_finite v then Inl (ValueError ''Out of range float values are not JSON compliant'')
      else Inr (dumps True v))"

definition wk_canonical_sha256 :: "json \<Rightarrow> string result" where
  "wk_canonical_sha256 v = rbind (wk_canonical_json_bytes v) (\<lambda>b. Inr (sha256_bytes b))"

text \<open>\<open>re.compile("^source_[0-9a-f]{64}$").fullmatch\<close>.\<close>

definition source_id_text :: "string \<Rightarrow> bool" where
  "source_id_text s \<longleftrightarrow> take 7 s = ''source_'' \<and> sha256_hex (drop 7 s)"

definition starts_with :: "string \<Rightarrow> string \<Rightarrow> bool" where
  "starts_with s p \<longleftrightarrow> take (length p) s = p"

definition ascii_lower :: "char \<Rightarrow> char" where
  "ascii_lower c = (if is_upper c then char_of ((of_char c :: nat) + 32) else c)"

definition ends_with :: "string \<Rightarrow> string \<Rightarrow> bool" where
  "ends_with s suffix \<longleftrightarrow> length suffix \<le> length s \<and> map ascii_lower (drop (length s - length suffix) s) = suffix"

definition protected_magics :: "string list" where
  "protected_magics = [''SCDSA002'', ''SCDSA004'', ''FASOO_DRMONE'']"

record ProtectedSourceAllowance =
  pa_source_id :: string
  pa_product_code :: string
  pa_source_version :: string
  pa_source_url :: string
  pa_sha256 :: string
  pa_size_bytes :: int
  pa_magic :: string

definition protected_source_allowance :: "ProtectedSourceAllowance \<Rightarrow> ProtectedSourceAllowance result" where
  "protected_source_allowance a =
     (if \<not> source_id_text (pa_source_id a) \<or> pa_product_code a = [] \<or> pa_product_code a \<noteq> strip (pa_product_code a)
         \<or> pa_source_version a = [] \<or> \<not> starts_with (pa_source_url a) ''https://'' \<or> \<not> sha256_hex (pa_sha256 a)
         \<or> pa_size_bytes a < 1 \<or> pa_magic a \<notin> set protected_magics
      then Inl (ValueError ''protected source allowance requires an exact source and byte identity'')
      else Inr a)"

definition contract_payload :: "ProtectedSourceAllowance \<Rightarrow> json" where
  "contract_payload a = JObj
     [(''magic'', JStr (pa_magic a)), (''product_code'', JStr (pa_product_code a)), (''sha256'', JStr (pa_sha256 a)),
      (''size_bytes'', JInt (pa_size_bytes a)), (''source_id'', JStr (pa_source_id a)),
      (''source_url'', JStr (pa_source_url a)), (''source_version'', JStr (pa_source_version a))]"

record IssuerSpec =
  is_code :: string
  is_display_name :: string
  is_sort_order :: int
  is_allowed_hosts :: "string list"
  is_categories :: "string list"
  is_minimum_records :: int
  is_minimum_interval_seconds :: string
  is_retry_base_seconds :: string
  is_maximum_retries :: int
  is_minimum_retention_ratio :: string
  is_protected_source_allowances :: "ProtectedSourceAllowance list"

definition issuer_spec :: "IssuerSpec \<Rightarrow> IssuerSpec result" where
  "issuer_spec s =
     rbind (issuer_code (is_code s)) (\<lambda>_.
     if is_allowed_hosts s = [] \<or> is_minimum_records s < 1 \<or> is_maximum_retries s < 1
        \<or> non_finite (is_minimum_retention_ratio s)
        \<or> \<not> (0 < decimal (is_minimum_retention_ratio s) \<and> decimal (is_minimum_retention_ratio s) \<le> 1)
        \<or> non_finite (is_minimum_interval_seconds s) \<or> decimal (is_minimum_interval_seconds s) < 0
        \<or> non_finite (is_retry_base_seconds s) \<or> decimal (is_retry_base_seconds s) \<le> 0
        \<or> \<not> distinct (map pa_source_id (is_protected_source_allowances s))
     then Inl (ValueError ''issuer spec requires a code, hosts, and a positive minimum'')
     else Inr s)"

record SourceRecord =
  sr_issuer :: string
  sr_product_code :: string
  sr_product_name :: string
  sr_effective_date :: "int \<times> int \<times> int"
  sr_source_version :: string
  sr_source_url :: string
  sr_source_post_id :: string
  sr_file_name :: string
  sr_category :: string
  sr_discovered_at :: "int \<times> int option"
  sr_metadata :: "(string, json) dict"
  sr_document_type :: string

definition is_pdf :: "SourceRecord \<Rightarrow> bool" where
  "is_pdf r = ends_with (sr_file_name r) ''.pdf''"

definition is_zip :: "SourceRecord \<Rightarrow> bool" where
  "is_zip r = ends_with (sr_file_name r) ''.zip''"

definition source_record :: "SourceRecord \<Rightarrow> SourceRecord result" where
  "source_record r =
     rbind (raise_if (sr_issuer r = [] \<or> sr_product_code r = [] \<or> sr_product_name r = [] \<or> sr_source_version r = []
         \<or> sr_source_url r = []) (ValueError ''source record contains an empty identity field'')) (\<lambda>_.
     rbind (raise_if (\<not> is_pdf r \<and> \<not> is_zip r) (ValueError ''source record file_name must end in .pdf or .zip'')) (\<lambda>_.
     rbind (raise_if (snd (sr_discovered_at r) = None) (ValueError ''discovered_at must be timezone-aware'')) (\<lambda>_.
     Inr r)))"

definition discovery_payload :: "SourceRecord \<Rightarrow> json" where
  "discovery_payload r = JObj
     [(''category'', JStr (sr_category r)), (''document_type'', JStr (sr_document_type r)),
      (''effective_date'', JStr (iso_date (sr_effective_date r))), (''file_name'', JStr (sr_file_name r)),
      (''issuer'', JStr (sr_issuer r)), (''metadata'', JObj (sr_metadata r)),
      (''product_code'', JStr (sr_product_code r)), (''product_name'', JStr (sr_product_name r)),
      (''source_post_id'', JStr (sr_source_post_id r)), (''source_url'', JStr (sr_source_url r)),
      (''source_version'', JStr (sr_source_version r))]"

definition source_id :: "SourceRecord \<Rightarrow> string result" where
  "source_id r = rbind (wk_canonical_sha256 (discovery_payload r)) (\<lambda>d. Inr (''source_'' @ d))"

definition document_payload :: "SourceRecord \<Rightarrow> string \<Rightarrow> json" where
  "document_payload r pdf_sha256 = JObj
     [(''document_type'', JStr (sr_document_type r)), (''effective_date'', JStr (iso_date (sr_effective_date r))),
      (''issuer'', JStr (sr_issuer r)), (''pdf_sha256'', JStr pdf_sha256),
      (''product_code'', JStr (sr_product_code r)), (''version'', JStr (sr_source_version r))]"

definition document_id :: "SourceRecord \<Rightarrow> string \<Rightarrow> string result" where
  "document_id r pdf_sha256 =
     rbind (raise_if (\<not> sha256_hex pdf_sha256) (ValueError ''invalid PDF sha256'')) (\<lambda>_.
     rbind (wk_canonical_sha256 (document_payload r pdf_sha256)) (\<lambda>d. Inr (''doc_'' @ d)))"

record UnsupportedProductRecord =
  un_source :: SourceRecord
  un_protected_sha256 :: string
  un_protected_size_bytes :: int
  un_protected_magic :: string
  un_disposition :: string

definition unsupported_product_record :: "UnsupportedProductRecord \<Rightarrow> UnsupportedProductRecord result" where
  "unsupported_product_record u =
     (if \<not> sha256_hex (un_protected_sha256 u) \<or> un_protected_size_bytes u < 1 \<or> un_protected_magic u \<notin> set protected_magics
      then Inl (ValueError ''unsupported product requires an exact protected byte identity'') else Inr u)"

definition unsupported_payload :: "UnsupportedProductRecord \<Rightarrow> json result" where
  "unsupported_payload u = rbind (source_id (un_source u)) (\<lambda>sid. Inr (JObj
     [(''disposition'', JStr (un_disposition u)), (''protected_magic'', JStr (un_protected_magic u)),
      (''protected_sha256'', JStr (un_protected_sha256 u)), (''protected_size_bytes'', JInt (un_protected_size_bytes u)),
      (''source'', discovery_payload (un_source u)), (''source_id'', JStr sid)]))"

definition source_payload_json :: "UnsupportedProductRecord \<Rightarrow> string result" where
  "source_payload_json u = wk_canonical_json_bytes (discovery_payload (un_source u))"

record SourceSnapshot =
  sn_issuer :: string
  sn_source_url :: string
  sn_parser_version :: string
  sn_records :: "SourceRecord list"
  sn_started_at :: int
  sn_finished_at :: int
  sn_warnings :: "string list"

text \<open>\<open>sorted(payloads, key=canonical_json_bytes)\<close>: every key is computed first, and may raise.\<close>

definition snapshot_payload :: "SourceSnapshot \<Rightarrow> json result" where
  "snapshot_payload s =
     rbind (rmap (\<lambda>r. rbind (wk_canonical_json_bytes (discovery_payload r)) (\<lambda>k. Inr (k, discovery_payload r)))
       (sn_records s)) (\<lambda>keyed.
     Inr (JObj
       [(''contract_version'', JStr ''cardrag.source-snapshot.v1''), (''issuer'', JStr (sn_issuer s)),
        (''parser_version'', JStr (sn_parser_version s)), (''records'', JArr (map snd (sort_key fst keyed))),
        (''source_url'', JStr (sn_source_url s))]))"

definition snapshot_id :: "SourceSnapshot \<Rightarrow> string result" where
  "snapshot_id s = rbind (snapshot_payload s) wk_canonical_sha256"

definition text_sha256 :: "string \<Rightarrow> string" where
  "text_sha256 t = sha256_bytes t"

record OCRFailedProductRecord =
  of_document_id :: string
  of_issuer :: string
  of_product_code :: string
  of_product_name :: string
  of_title :: string
  of_pdf_sha256 :: string
  of_pdf_size_bytes :: int
  of_page_count :: int
  of_reason_code :: string
  of_reason :: string
  of_attempts :: int

definition ocr_failed_payload :: "OCRFailedProductRecord \<Rightarrow> json" where
  "ocr_failed_payload r = JObj
     [(''attempts'', JInt (of_attempts r)), (''document_id'', JStr (of_document_id r)), (''issuer'', JStr (of_issuer r)),
      (''page_count'', JInt (of_page_count r)), (''pdf_sha256'', JStr (of_pdf_sha256 r)),
      (''pdf_size_bytes'', JInt (of_pdf_size_bytes r)), (''product_code'', JStr (of_product_code r)),
      (''product_name'', JStr (of_product_name r)), (''reason'', JStr (of_reason r)),
      (''reason_code'', JStr (of_reason_code r)), (''title'', JStr (of_title r))]"

definition snapshot_key :: "SourceRecord \<Rightarrow> string \<times> string \<times> (int \<times> int \<times> int) \<times> string \<times> string" where
  "snapshot_key r = (sr_product_code r, sr_document_type r, sr_effective_date r, sr_source_version r, sr_source_post_id r)"

definition snapshot_from_records ::
  "string \<Rightarrow> string \<Rightarrow> string \<Rightarrow> SourceRecord list \<Rightarrow> int \<Rightarrow> int \<Rightarrow> string list \<Rightarrow> SourceSnapshot"
where
  "snapshot_from_records issuer source_url parser_version records started_at now warnings =
     \<lparr>sn_issuer = issuer, sn_source_url = source_url, sn_parser_version = parser_version,
      sn_records = sort_key (\<lambda>r. (sr_product_code r, sr_effective_date r, sr_source_version r, sr_source_post_id r))
        (vals (dict_of (map (\<lambda>r. (snapshot_key r, r)) records))),
      sn_started_at = started_at, sn_finished_at = now, sn_warnings = warnings\<rparr>"

section \<open>Identities\<close>

lemma wf_document_payload: "wf_json (document_payload r p)"
  by (simp add: document_payload_def)

lemma document_payload_finite [simp]: "\<not> has_non_finite (document_payload r p)"
  by (simp add: document_payload_def)

lemma document_keys_sorted:
  "sorted [''document_type'', ''effective_date'', ''issuer'', ''pdf_sha256'', ''product_code'', ''version'']"
  by code_simp

lemma norm_document_payload: "norm_json True (document_payload r p) = document_payload r p"
  using document_keys_sorted by (simp add: document_payload_def key_order_def sort_key_id_if_sorted)

lemma dumps_document_payload_inj:
  "dumps True (document_payload a p) = dumps True (document_payload b q) \<longleftrightarrow> document_payload a p = document_payload b q"
  using loads_dumps_eq [OF wf_document_payload, of True] norm_document_payload by (metis sum.inject(2))

lemma document_id_eq: "sha256_hex p \<Longrightarrow> document_id r p = Inr (''doc_'' @ sha256_bytes (dumps True (document_payload r p)))"
  by (simp add: document_id_def wk_canonical_sha256_def wk_canonical_json_bytes_def)

text \<open>
  A document id identifies its contract: unless the two canonical payloads collide under SHA-256, two
  ids are equal exactly when document type, effective date, issuer, PDF digest, product code and source
  version all are.  The product name, the URL and the time of discovery do not matter.
\<close>

lemma document_id_identifies:
  assumes "sha256_hex p" "sha256_hex q"
    and "inj_on sha256_bytes {dumps True (document_payload a p), dumps True (document_payload b q)}"
  shows "document_id a p = document_id b q \<longleftrightarrow>
    sr_document_type a = sr_document_type b \<and> iso_date (sr_effective_date a) = iso_date (sr_effective_date b)
    \<and> sr_issuer a = sr_issuer b \<and> p = q \<and> sr_product_code a = sr_product_code b
    \<and> sr_source_version a = sr_source_version b"
proof -
  have "document_id a p = document_id b q \<longleftrightarrow>
      sha256_bytes (dumps True (document_payload a p)) = sha256_bytes (dumps True (document_payload b q))"
    by (simp only: document_id_eq assms(1,2) sum.inject append_same_eq same_append_eq)
  also have "\<dots> \<longleftrightarrow> dumps True (document_payload a p) = dumps True (document_payload b q)"
    by (rule inj_on_eq_iff [OF assms(3)]) (rule insertI1, rule insertI2, rule singletonI)
  also have "\<dots> \<longleftrightarrow> document_payload a p = document_payload b q" by (rule dumps_document_payload_inj)
  finally show ?thesis by (simp add: document_payload_def)
qed

definition demo_source :: "string \<Rightarrow> SourceRecord" where
  "demo_source name = \<lparr>sr_issuer = ''bc'', sr_product_code = ''p1'', sr_product_name = name,
     sr_effective_date = (2025, 1, 31), sr_source_version = ''1'', sr_source_url = ''https://x/a.pdf'',
     sr_source_post_id = ''7'', sr_file_name = ''A.PDF'', sr_category = ''card'', sr_discovered_at = (0, Some 0),
     sr_metadata = [], sr_document_type = ''product_description''\<rparr>"

lemma document_id_identifies_witness:
  "document_id (demo_source ''old name'') (sha256_bytes ''x'') = document_id (demo_source ''new name'') (sha256_bytes ''x'')"
proof -
  have "document_payload (demo_source ''old name'') p = document_payload (demo_source ''new name'') p" for p
    by (simp add: document_payload_def demo_source_def)
  then have "inj_on sha256_bytes {dumps True (document_payload (demo_source ''old name'') (sha256_bytes ''x'')),
      dumps True (document_payload (demo_source ''new name'') (sha256_bytes ''x''))}" by simp
  from document_id_identifies [OF sha256_bytes_hex sha256_bytes_hex this] show ?thesis
    by (simp add: demo_source_def)
qed

section \<open>Snapshots\<close>

definition keyed_payload :: "SourceRecord \<Rightarrow> bytes \<times> json" where
  "keyed_payload r = (dumps True (discovery_payload r), discovery_payload r)"

lemma rmap_keyed:
  "rmap (\<lambda>r. rbind (wk_canonical_json_bytes (discovery_payload r)) (\<lambda>k. Inr (k, discovery_payload r))) rs =
    (if list_ex (\<lambda>r. has_non_finite (discovery_payload r)) rs
     then Inl (ValueError ''Out of range float values are not JSON compliant'') else Inr (map keyed_payload rs))"
  by (induction rs) (auto simp: wk_canonical_json_bytes_def keyed_payload_def)

lemma map_sort_key_self: "map f (sort_key f xs) = sort (map f xs)"
  by (rule properties_for_sort [symmetric]) simp_all

definition snapshot_object :: "SourceSnapshot \<Rightarrow> json list \<Rightarrow> json" where
  "snapshot_object s ps = JObj
       [(''contract_version'', JStr ''cardrag.source-snapshot.v1''), (''issuer'', JStr (sn_issuer s)),
        (''parser_version'', JStr (sn_parser_version s)), (''records'', JArr ps),
        (''source_url'', JStr (sn_source_url s))]"

lemma snapshot_keys_sorted:
  "sorted [''contract_version'', ''issuer'', ''parser_version'', ''records'', ''source_url'']"
  by code_simp

lemma dumps_snapshot_object:
  assumes "map (dumps True) ps = map (dumps True) qs" "sn_issuer s = sn_issuer t"
    "sn_parser_version s = sn_parser_version t" "sn_source_url s = sn_source_url t"
  shows "dumps True (snapshot_object s ps) = dumps True (snapshot_object t qs)"
  using assms unfolding snapshot_object_def by (simp only: dumps.simps list.map prod.case)

lemma snapshot_id_eq:
  "snapshot_id s = (if list_ex (\<lambda>r. has_non_finite (discovery_payload r)) (sn_records s)
     then Inl (ValueError ''Out of range float values are not JSON compliant'')
     else Inr (sha256_bytes (dumps True (snapshot_object s (map snd (sort_key fst (map keyed_payload (sn_records s))))))))"
proof -
  have "\<not> has_non_finite (snapshot_object s (map snd (sort_key fst (map keyed_payload (sn_records s)))))"
    if "\<not> list_ex (\<lambda>r. has_non_finite (discovery_payload r)) (sn_records s)"
    using that by (auto simp: snapshot_object_def list_ex_iff keyed_payload_def)
  then show ?thesis
    by (simp add: snapshot_id_def snapshot_payload_def rmap_keyed snapshot_object_def [symmetric]
        wk_canonical_sha256_def wk_canonical_json_bytes_def [of "snapshot_object _ _"])
qed

text \<open>
  The identity of a snapshot is the identity of its set of records: it does not depend on the order in
  which the issuer listed them, nor on when they were collected.
\<close>

lemma snapshot_id_order_independent:
  assumes "mset (sn_records s) = mset (sn_records t)" "sn_issuer s = sn_issuer t"
    "sn_parser_version s = sn_parser_version t" "sn_source_url s = sn_source_url t"
  shows "snapshot_id s = snapshot_id t"
proof -
  let ?p = "\<lambda>rs. map snd (sort_key fst (map keyed_payload rs))"
  have dump: "map (dumps True) (?p rs) = sort (map (\<lambda>r. dumps True (discovery_payload r)) rs)" for rs
  proof -
    have "map (dumps True) (?p rs) = map fst (sort_key fst (map keyed_payload rs))"
      by (auto simp: keyed_payload_def)
    also have "\<dots> = sort (map (\<lambda>r. dumps True (discovery_payload r)) rs)"
      by (simp add: map_sort_key_self keyed_payload_def comp_def)
    finally show ?thesis .
  qed
  have "mset (map (\<lambda>r. dumps True (discovery_payload r)) (sn_records s)) =
      mset (map (\<lambda>r. dumps True (discovery_payload r)) (sn_records t))" using assms(1) by simp
  then have "map (dumps True) (?p (sn_records s)) = map (dumps True) (?p (sn_records t))"
    unfolding dump by (metis sorted_list_of_multiset_mset)
  from dumps_snapshot_object [OF this assms(2-4)] mset_eq_setD [OF assms(1)] show ?thesis
    by (simp add: snapshot_id_eq list_ex_iff)
qed

lemma snapshot_id_order_independent_witness:
  "snapshot_id (snapshot_from_records ''bc'' ''u'' ''v1'' [] 0 1 []\<lparr>sn_records := [demo_source ''a'', demo_source ''b'']\<rparr>)
   = snapshot_id (snapshot_from_records ''bc'' ''u'' ''v1'' [] 2 3 [''w'']\<lparr>sn_records := [demo_source ''b'', demo_source ''a'']\<rparr>)"
  by (rule snapshot_id_order_independent) (simp_all add: snapshot_from_records_def)

lemma distinct_map_sort_key: "distinct (map g (sort_key f xs)) \<longleftrightarrow> distinct (map g xs)"
  by (rule mset_eq_imp_distinct_iff) simp

text \<open>
  Building a snapshot keeps exactly one record per product, document type, effective date, version and
  post, namely the last one listed, and orders them.
\<close>

lemma snapshot_from_records_last_wins:
  "let rs = sn_records (snapshot_from_records issuer url parser records started now warnings) in
     distinct (map snapshot_key rs) \<and> set (map snapshot_key rs) = set (map snapshot_key records)
     \<and> list_all (\<lambda>r. map_of (rev (map (\<lambda>r. (snapshot_key r, r)) records)) (snapshot_key r) = Some r) rs
     \<and> sorted (map (\<lambda>r. (sr_product_code r, sr_effective_date r, sr_source_version r, sr_source_post_id r)) rs)"
proof -
  let ?d = "dict_of (map (\<lambda>r. (snapshot_key r, r)) records)"
  have last: "map_of (rev (map (\<lambda>r. (snapshot_key r, r)) records)) k = Some r" if "(k, r) \<in> set ?d" for k r
    by (rule dict_of_mem [OF that])
  have key: "snapshot_key r = k" if "(k, r) \<in> set ?d" for k r
    using map_of_SomeD [OF last [OF that]] by auto
  then have keys: "map (snapshot_key \<circ> snd) ?d = keys ?d" by (intro map_cong) auto
  have "distinct (map snapshot_key (vals ?d))" by (simp only: map_map keys wf_dict_of)
  then have "distinct (map snapshot_key (sort_key f (vals ?d)))" for f :: "SourceRecord \<Rightarrow> string \<times> (int \<times> int \<times> int) \<times> string \<times> string"
    by (simp only: distinct_map_sort_key)
  moreover have "snapshot_key ` snd ` set ?d = snapshot_key ` set records"
    using keys_dict_of [of "map (\<lambda>r. (snapshot_key r, r)) records"] arg_cong [OF keys, of set] by (simp add: image_comp)
  moreover have "\<forall>r \<in> snd ` set ?d. map_of (rev (map (\<lambda>r. (snapshot_key r, r)) records)) (snapshot_key r) = Some r"
    using last key by fastforce
  ultimately show ?thesis by (simp add: snapshot_from_records_def Let_def list_all_iff)
qed

end
