(* ===== verification/Retirement.thy ===== *)
theory Retirement
  imports Floats Webdav
begin

text \<open>
  \<open>cardrag_worker/retirement.py\<close>: which documents that left the corpus count as retired, and the
  durable ledger of absences.

  \<open>evaluate_retirements\<close> is the policy pass; \<open>ledger_bytes\<close> and \<open>parse_ledger\<close> are the sealed form.
  Conversions of foreign JSON values by \<open>str\<close>, \<open>int\<close> and \<open>dict\<close> that the sealed form never
  exercises are the parameter \<open>foreign\<close>.  The directory of sealed versions is in \<open>RetirementStore\<close>.
\<close>

datatype status = Candidate | Retired | Reinstated

fun status_text :: "status \<Rightarrow> string" where
  "status_text Candidate = ''candidate''"
| "status_text Retired = ''retired''"
| "status_text Reinstated = ''reinstated''"

type_synonym lineage = "string \<times> string \<times> string"

record RetirementEntry =
  re_document_id :: string
  re_source_id :: string
  re_issuer :: string
  re_product_code :: string
  re_document_type :: string
  re_pdf_sha256 :: string
  re_ocr_sha256 :: "string option"
  re_status :: status
  re_first_absent_run_id :: string
  re_first_absent_at :: string
  re_last_observed_run_id :: string
  re_last_observed_at :: string
  re_last_checked_run_id :: string
  re_consecutive_absences :: int
  re_retired_run_id :: "string option"
  re_retired_at :: "string option"
  re_reinstated_run_id :: "string option"
  re_reinstated_at :: "string option"
  re_decision_inputs :: "(string, json) dict"

definition re_lineage_key :: "RetirementEntry \<Rightarrow> lineage" where
  "re_lineage_key e = (re_issuer e, re_product_code e, re_document_type e)"

record RetirementLedger =
  rl_updated_run_id :: string
  rl_entries :: "RetirementEntry list"
  rl_ledger_sha256 :: string

definition open_by_document :: "RetirementLedger \<Rightarrow> (string, RetirementEntry) dict" where
  "open_by_document l = dict_of (map (\<lambda>e. (re_document_id e, e))
     (filter (\<lambda>e. re_status e \<in> {Candidate, Retired}) (rl_entries l)))"

record AbsentDocument =
  ab_document_id :: string
  ab_source_id :: string
  ab_issuer :: string
  ab_product_code :: string
  ab_document_type :: string
  ab_pdf_sha256 :: string
  ab_ocr_sha256 :: "string option"
  ab_last_observed_run_id :: string
  ab_last_observed_at :: string

definition ab_lineage_key :: "AbsentDocument \<Rightarrow> lineage" where
  "ab_lineage_key d = (ab_issuer d, ab_product_code d, ab_document_type d)"

text \<open>\<open>max_ratio\<close> is a float, known by its \<open>repr\<close>.\<close>

record RetirementPolicy =
  po_grace_runs :: int
  po_grace_days :: int
  po_max_per_run :: int
  po_max_ratio :: string

definition retirement_policy :: "int \<Rightarrow> int \<Rightarrow> int \<Rightarrow> string \<Rightarrow> RetirementPolicy result" where
  "retirement_policy grace_runs grace_days max_per_run max_ratio =
     rbind (raise_if (grace_runs < 2) (RetirementError ''retirement_grace_runs_minimum'')) (\<lambda>_.
     rbind (raise_if (grace_days < 1 \<or> max_per_run < 1 \<or>
        \<not> (0 < float_of max_ratio \<and> float_of max_ratio \<le> float_of ''0.05''))
       (RetirementError ''retirement_policy_invalid'')) (\<lambda>_.
     Inr \<lparr>po_grace_runs = grace_runs, po_grace_days = grace_days, po_max_per_run = max_per_run,
          po_max_ratio = max_ratio\<rparr>))"

record RetirementOutcome =
  ro_retired :: "json list"
  ro_candidates :: "json list"
  ro_unjustified :: "(string, string) dict"
  ro_ledger :: RetirementLedger
  ro_reinstated :: "string list"

section \<open>The sealed form\<close>

definition opt_json :: "string option \<Rightarrow> json" where
  "opt_json x = (case x of None \<Rightarrow> JNull | Some s \<Rightarrow> JStr s)"

definition entry_payload :: "RetirementEntry \<Rightarrow> json" where
  "entry_payload e = JObj
     [(''consecutive_absences'', JInt (re_consecutive_absences e)),
      (''decision_inputs'', JObj (re_decision_inputs e)),
      (''document_id'', JStr (re_document_id e)),
      (''document_type'', JStr (re_document_type e)),
      (''first_absent_at'', JStr (re_first_absent_at e)),
      (''first_absent_run_id'', JStr (re_first_absent_run_id e)),
      (''issuer'', JStr (re_issuer e)),
      (''last_checked_run_id'', JStr (re_last_checked_run_id e)),
      (''last_observed_at'', JStr (re_last_observed_at e)),
      (''last_observed_run_id'', JStr (re_last_observed_run_id e)),
      (''ocr_sha256'', opt_json (re_ocr_sha256 e)),
      (''pdf_sha256'', JStr (re_pdf_sha256 e)),
      (''product_code'', JStr (re_product_code e)),
      (''reinstated_at'', opt_json (re_reinstated_at e)),
      (''reinstated_run_id'', opt_json (re_reinstated_run_id e)),
      (''retired_at'', opt_json (re_retired_at e)),
      (''retired_run_id'', opt_json (re_retired_run_id e)),
      (''source_id'', JStr (re_source_id e)),
      (''status'', JStr (status_text (re_status e)))]"

record foreign =
  fr_str :: "json \<Rightarrow> string"
  fr_int :: "json \<Rightarrow> int result"
  fr_dict :: "json \<Rightarrow> (string, json) dict result"

definition py_str :: "foreign \<Rightarrow> json \<Rightarrow> string" where
  "py_str fr v = (case v of JStr s \<Rightarrow> s | JInt i \<Rightarrow> string_of_int i | JNull \<Rightarrow> ''None''
     | JBool b \<Rightarrow> (if b then ''True'' else ''False'') | _ \<Rightarrow> fr_str fr v)"

definition py_int_of :: "foreign \<Rightarrow> json \<Rightarrow> int result" where
  "py_int_of fr v = (case v of JInt i \<Rightarrow> Inr i | JBool b \<Rightarrow> Inr (if b then 1 else 0)
     | JNull \<Rightarrow> Inl (TypeError ''int()'') | JArr _ \<Rightarrow> Inl (TypeError ''int()'') | JObj _ \<Rightarrow> Inl (TypeError ''int()'')
     | _ \<Rightarrow> fr_int fr v)"

fun truthy :: "json \<Rightarrow> bool" where
  "truthy JNull = False"
| "truthy (JBool b) = b"
| "truthy (JInt i) = (i \<noteq> 0)"
| "truthy (JFloat r) = (decimal r \<noteq> 0)"
| "truthy (JStr s) = (s \<noteq> [])"
| "truthy (JArr vs) = (vs \<noteq> [])"
| "truthy (JObj kvs) = (kvs \<noteq> [])"

definition py_dict_of :: "foreign \<Rightarrow> json \<Rightarrow> (string, json) dict result" where
  "py_dict_of fr v = (if \<not> truthy v then Inr [] else case v of JObj kvs \<Rightarrow> Inr kvs | _ \<Rightarrow> fr_dict fr v)"

definition invalid_ledger :: exn where
  "invalid_ledger = RetirementError ''retirement_ledger_invalid''"

text \<open>\<open>raw[name]\<close>; \<open>raw.get(name)\<close> is \<open>JNull\<close> when the key is absent.\<close>

definition item :: "(string, json) dict \<Rightarrow> string \<Rightarrow> json result" where
  "item raw name = (case map_of raw name of None \<Rightarrow> Inl (KeyError name) | Some v \<Rightarrow> Inr v)"

definition get_item :: "(string, json) dict \<Rightarrow> string \<Rightarrow> json" where
  "get_item raw name = (case map_of raw name of None \<Rightarrow> JNull | Some v \<Rightarrow> v)"

definition str_item :: "foreign \<Rightarrow> (string, json) dict \<Rightarrow> string \<Rightarrow> string result" where
  "str_item fr raw name = rbind (item raw name) (\<lambda>v. Inr (py_str fr v))"

definition opt_item :: "foreign \<Rightarrow> (string, json) dict \<Rightarrow> string \<Rightarrow> string option" where
  "opt_item fr raw name = (case get_item raw name of JNull \<Rightarrow> None | v \<Rightarrow> Some (py_str fr v))"

definition read_status :: "string \<Rightarrow> status option" where
  "read_status s = map_of [(''candidate'', Candidate), (''retired'', Retired), (''reinstated'', Reinstated)] s"

definition entry_fields :: "foreign \<Rightarrow> (string, json) dict \<Rightarrow> RetirementEntry result" where
  "entry_fields fr raw =
     rbind (str_item fr raw ''status'') (\<lambda>st.
     case read_status st of None \<Rightarrow> Inl invalid_ledger
     | Some status \<Rightarrow>
       rbind (str_item fr raw ''document_id'') (\<lambda>document_id.
       rbind (str_item fr raw ''source_id'') (\<lambda>source_id.
       rbind (str_item fr raw ''issuer'') (\<lambda>issuer.
       rbind (str_item fr raw ''product_code'') (\<lambda>product_code.
       rbind (str_item fr raw ''document_type'') (\<lambda>document_type.
       rbind (str_item fr raw ''pdf_sha256'') (\<lambda>pdf_sha256.
       rbind (str_item fr raw ''first_absent_run_id'') (\<lambda>first_absent_run_id.
       rbind (str_item fr raw ''first_absent_at'') (\<lambda>first_absent_at.
       rbind (str_item fr raw ''last_observed_run_id'') (\<lambda>last_observed_run_id.
       rbind (str_item fr raw ''last_observed_at'') (\<lambda>last_observed_at.
       rbind (str_item fr raw ''last_checked_run_id'') (\<lambda>last_checked_run_id.
       rbind (rbind (item raw ''consecutive_absences'') (py_int_of fr)) (\<lambda>consecutive_absences.
       rbind (py_dict_of fr (get_item raw ''decision_inputs'')) (\<lambda>decision_inputs.
       Inr \<lparr>re_document_id = document_id, re_source_id = source_id, re_issuer = issuer,
         re_product_code = product_code, re_document_type = document_type, re_pdf_sha256 = pdf_sha256,
         re_ocr_sha256 = opt_item fr raw ''ocr_sha256'', re_status = status,
         re_first_absent_run_id = first_absent_run_id, re_first_absent_at = first_absent_at,
         re_last_observed_run_id = last_observed_run_id, re_last_observed_at = last_observed_at,
         re_last_checked_run_id = last_checked_run_id, re_consecutive_absences = consecutive_absences,
         re_retired_run_id = opt_item fr raw ''retired_run_id'', re_retired_at = opt_item fr raw ''retired_at'',
         re_reinstated_run_id = opt_item fr raw ''reinstated_run_id'',
         re_reinstated_at = opt_item fr raw ''reinstated_at'', re_decision_inputs = decision_inputs\<rparr>))))))))))))))"

text \<open>\<open>except (KeyError, TypeError, ValueError): raise RetirementError\<close>.\<close>

definition entry_from_payload :: "foreign \<Rightarrow> json \<Rightarrow> RetirementEntry result" where
  "entry_from_payload fr raw = (case raw of
     JObj kvs \<Rightarrow> (case entry_fields fr kvs of
         Inl (KeyError _) \<Rightarrow> Inl invalid_ledger
       | Inl (TypeError _) \<Rightarrow> Inl invalid_ledger
       | Inl (ValueError _) \<Rightarrow> Inl invalid_ledger
       | r \<Rightarrow> r)
   | _ \<Rightarrow> Inl invalid_ledger)"

definition schema_version :: string where
  "schema_version = ''cardrag.retirement-ledger.v1''"

definition ledger_payload :: "RetirementLedger \<Rightarrow> json" where
  "ledger_payload l = JObj
     [(''entries'', JArr (map entry_payload (sort_key re_document_id (rl_entries l)))),
      (''schema_version'', JStr schema_version),
      (''updated_run_id'', JStr (rl_updated_run_id l))]"

fun pyval_of :: "json \<Rightarrow> pyval" where
  "pyval_of JNull = PNone"
| "pyval_of (JBool b) = PBool b"
| "pyval_of (JInt i) = PInt i"
| "pyval_of (JFloat r) = PFloat r"
| "pyval_of (JStr s) = PStr s"
| "pyval_of (JArr vs) = PList (map pyval_of vs)"
| "pyval_of (JObj kvs) = PDict (map (\<lambda>(k, v). (PStr k, pyval_of v)) kvs)"

definition ledger_bytes :: "RetirementLedger \<Rightarrow> bytes result" where
  "ledger_bytes l = canonical_json_bytes (pyval_of (ledger_payload l))"

definition parse_ledger :: "foreign \<Rightarrow> bytes \<Rightarrow> RetirementLedger result" where
  "parse_ledger fr content =
     (case loads content of
        Inr (JObj raw) \<Rightarrow>
          rbind (raise_if (get_item raw ''schema_version'' \<noteq> JStr schema_version) invalid_ledger) (\<lambda>_.
          rbind (let es = get_item raw ''entries'' in
                 if \<not> truthy es then Inr [] else case es of JArr vs \<Rightarrow> rmap (entry_from_payload fr) vs
                 | JObj _ \<Rightarrow> Inl invalid_ledger | JStr _ \<Rightarrow> Inl invalid_ledger
                 | _ \<Rightarrow> Inl (TypeError ''entries are not iterable'')) (\<lambda>entries.
          rbind (raise_if (\<not> distinct (map re_document_id entries)) invalid_ledger) (\<lambda>_.
          rbind (raise_if (list_ex (\<lambda>e. re_status e = Retired \<and> re_decision_inputs e = []) entries) invalid_ledger) (\<lambda>_.
          Inr \<lparr>rl_updated_run_id = (let v = get_item raw ''updated_run_id'' in if truthy v then py_str fr v else ''''),
               rl_entries = entries, rl_ledger_sha256 = ''''\<rparr>))))
      | _ \<Rightarrow> Inl invalid_ledger)"

section \<open>The policy pass\<close>

definition retired_record :: "RetirementEntry \<Rightarrow> bool \<Rightarrow> json" where
  "retired_record e already = JObj
     [(''consecutive_absences'', JInt (re_consecutive_absences e)),
      (''document_id'', JStr (re_document_id e)),
      (''document_type'', JStr (re_document_type e)),
      (''first_absent_run_id'', JStr (re_first_absent_run_id e)),
      (''issuer'', JStr (re_issuer e)),
      (''last_observed_run_id'', JStr (re_last_observed_run_id e)),
      (''ocr_sha256'', opt_json (re_ocr_sha256 e)),
      (''pdf_sha256'', JStr (re_pdf_sha256 e)),
      (''product_code'', JStr (re_product_code e)),
      (''retired_run_id'', opt_json (re_retired_run_id e)),
      (''revalidated'', JBool already),
      (''source_id'', JStr (re_source_id e))]"

definition candidate_record :: "RetirementEntry \<Rightarrow> json" where
  "candidate_record e = JObj
     [(''consecutive_absences'', JInt (re_consecutive_absences e)),
      (''document_id'', JStr (re_document_id e)),
      (''document_type'', JStr (re_document_type e)),
      (''first_absent_run_id'', JStr (re_first_absent_run_id e)),
      (''issuer'', JStr (re_issuer e)),
      (''last_observed_run_id'', JStr (re_last_observed_run_id e)),
      (''pdf_sha256'', JStr (re_pdf_sha256 e)),
      (''product_code'', JStr (re_product_code e)),
      (''source_id'', JStr (re_source_id e))]"

text \<open>The subtraction of a naive from an aware datetime raises \<open>TypeError\<close>; \<open>.days\<close> rounds down.\<close>

definition elapsed_days :: "string \<Rightarrow> string \<Rightarrow> int result" where
  "elapsed_days first_at now_at =
     (case (fromisoformat first_at, fromisoformat now_at) of
        (Some (fw, fo), Some (nw, no)) \<Rightarrow>
          (case (fo, no) of
             (Some a, Some b) \<Rightarrow> Inr (max 0 (((nw - b) - (fw - a)) div 86400000000))
           | (None, None) \<Rightarrow> Inr (max 0 ((nw - fw) div 86400000000))
           | _ \<Rightarrow> Inl (TypeError ''naive and aware datetimes''))
      | _ \<Rightarrow> Inr 0)"

definition effective_cap :: "RetirementPolicy \<Rightarrow> int \<Rightarrow> int" where
  "effective_cap policy baseline_total =
     max 1 (min (po_max_per_run policy)
       (if baseline_total > 0 then int_times_float baseline_total (po_max_ratio policy) else po_max_per_run policy))"

record evaluation =
  ev_updated :: "(string, RetirementEntry) dict"
  ev_retired :: "json list"
  ev_candidates :: "json list"
  ev_unjustified :: "(string, string) dict"
  ev_new_judgements :: int

definition refuse :: "evaluation \<Rightarrow> string \<Rightarrow> string \<Rightarrow> evaluation" where
  "refuse ev document_id reason = ev\<lparr>ev_unjustified := AList.update document_id reason (ev_unjustified ev)\<rparr>"

text \<open>The absences to record: a run that is resumed does not count twice.\<close>

definition next_absences :: "string \<Rightarrow> RetirementEntry option \<Rightarrow> int" where
  "next_absences run_id prior = (case prior of None \<Rightarrow> 1
     | Some p \<Rightarrow> if re_last_checked_run_id p = run_id then re_consecutive_absences p
                 else re_consecutive_absences p + 1)"

definition judge ::
  "string \<Rightarrow> string \<Rightarrow> RetirementPolicy \<Rightarrow> int \<Rightarrow> RetirementEntry option \<Rightarrow> AbsentDocument \<Rightarrow> int \<Rightarrow> RetirementEntry"
where
  "judge run_id run_stamp policy baseline_total prior d days =
     (let absences = next_absences run_id prior;
          meets_grace = absences \<ge> po_grace_runs policy \<and> absences \<ge> 2 in
      \<lparr>re_document_id = ab_document_id d, re_source_id = ab_source_id d, re_issuer = ab_issuer d,
       re_product_code = ab_product_code d, re_document_type = ab_document_type d,
       re_pdf_sha256 = ab_pdf_sha256 d, re_ocr_sha256 = ab_ocr_sha256 d,
       re_status = (if meets_grace then Retired else Candidate),
       re_first_absent_run_id = (case prior of None \<Rightarrow> run_id | Some p \<Rightarrow> re_first_absent_run_id p),
       re_first_absent_at = (case prior of None \<Rightarrow> run_stamp | Some p \<Rightarrow> re_first_absent_at p),
       re_last_observed_run_id = ab_last_observed_run_id d, re_last_observed_at = ab_last_observed_at d,
       re_last_checked_run_id = run_id, re_consecutive_absences = absences,
       re_retired_run_id = (if meets_grace then Some run_id else None),
       re_retired_at = (if meets_grace then Some run_stamp else None),
       re_reinstated_run_id = None, re_reinstated_at = None,
       re_decision_inputs = (if meets_grace then
         [(''baseline_total'', JInt baseline_total), (''consecutive_absences'', JInt absences),
          (''elapsed_days'', JInt days), (''grace_days'', JInt (po_grace_days policy)),
          (''grace_runs'', JInt (po_grace_runs policy)), (''max_per_run'', JInt (po_max_per_run policy)),
          (''max_ratio'', JFloat (po_max_ratio policy))] else [])\<rparr>)"

definition note_judgement :: "evaluation \<Rightarrow> string \<Rightarrow> RetirementEntry \<Rightarrow> evaluation" where
  "note_judgement ev i entry =
     (let ev' = ev\<lparr>ev_new_judgements := ev_new_judgements ev + 1, ev_updated := AList.update i entry (ev_updated ev)\<rparr>
      in if re_status entry = Retired
         then ev'\<lparr>ev_retired := ev_retired ev @ [retired_record entry False]\<rparr>
         else ev'\<lparr>ev_candidates := ev_candidates ev @ [candidate_record entry]\<rparr>)"

definition evaluate_item ::
  "string \<Rightarrow> string \<Rightarrow> RetirementPolicy \<Rightarrow> int \<Rightarrow> (string, RetirementEntry) dict \<Rightarrow> (string, bool) dict
   \<Rightarrow> (string, bool) dict \<Rightarrow> string set \<Rightarrow> evaluation \<Rightarrow> AbsentDocument \<Rightarrow> evaluation result"
where
  "evaluate_item run_id run_stamp policy baseline_total previous durable_ok lineage_absent frozen ev d =
     (let i = ab_document_id d in
      if ab_issuer d \<in> frozen then Inr (refuse ev i ''issuer_collection_unavailable'')
      else
        let prior = (case map_of previous i of
              Some p \<Rightarrow> if re_status p = Reinstated then None else Some p | None \<Rightarrow> None) in
        if map_of durable_ok i \<noteq> Some True \<or> map_of lineage_absent i \<noteq> Some True
        then Inr (refuse ev i ''retirement_evidence_incomplete'')
        else if (case prior of Some p \<Rightarrow> re_status p = Retired | None \<Rightarrow> False)
        then Inr (ev\<lparr>ev_retired := ev_retired ev @ [retired_record (the prior) True]\<rparr>)
        else
          rbind (elapsed_days (case prior of None \<Rightarrow> run_stamp | Some p \<Rightarrow> re_first_absent_at p) run_stamp) (\<lambda>days.
          if ev_new_judgements ev \<ge> effective_cap policy baseline_total
          then Inr (refuse ev i ''retirement_cap_exceeded'')
          else
            Inr (note_judgement ev i (judge run_id run_stamp policy baseline_total prior d days))))"

definition reinstated_entry :: "string \<Rightarrow> string \<Rightarrow> RetirementEntry \<Rightarrow> RetirementEntry" where
  "reinstated_entry run_id run_stamp e = e\<lparr>re_status := Reinstated, re_last_checked_run_id := run_id,
     re_reinstated_run_id := Some run_id, re_reinstated_at := Some run_stamp\<rparr>"

definition reinstate ::
  "string \<Rightarrow> string \<Rightarrow> lineage set \<Rightarrow> string set \<Rightarrow> string \<times> RetirementEntry
   \<Rightarrow> (string, RetirementEntry) dict \<times> string list \<Rightarrow> (string, RetirementEntry) dict \<times> string list"
where
  "reinstate run_id run_stamp discovered frozen x = (\<lambda>(updated, names). case x of (i, e) \<Rightarrow>
     if re_issuer e \<notin> frozen \<and> re_status e \<in> {Candidate, Retired} \<and> re_lineage_key e \<in> discovered
     then (AList.update i (reinstated_entry run_id run_stamp e) updated, names @ [i])
     else (updated, names))"

definition previous_entries :: "RetirementLedger option \<Rightarrow> (string, RetirementEntry) dict" where
  "previous_entries ledger = (case ledger of None \<Rightarrow> []
     | Some l \<Rightarrow> dict_of (map (\<lambda>e. (re_document_id e, e)) (rl_entries l)))"

definition ordered_absent :: "AbsentDocument list \<Rightarrow> AbsentDocument list" where
  "ordered_absent absent = sort_key (\<lambda>d. (ab_issuer d, ab_product_code d, ab_document_id d)) absent"

definition evaluation_pass ::
  "string \<Rightarrow> string \<Rightarrow> RetirementPolicy \<Rightarrow> int \<Rightarrow> (string, RetirementEntry) dict \<Rightarrow> AbsentDocument list
   \<Rightarrow> (string, bool) dict \<Rightarrow> (string, bool) dict \<Rightarrow> string set \<Rightarrow> evaluation result"
where
  "evaluation_pass run_id run_stamp policy baseline_total previous absent durable_ok lineage_absent frozen =
     rfold (evaluate_item run_id run_stamp policy baseline_total previous durable_ok lineage_absent frozen)
       \<lparr>ev_updated = previous, ev_retired = [], ev_candidates = [], ev_unjustified = [], ev_new_judgements = 0\<rparr>
       (ordered_absent absent)"

definition evaluate_retirements ::
  "string \<Rightarrow> int \<Rightarrow> RetirementPolicy \<Rightarrow> int \<Rightarrow> RetirementLedger option \<Rightarrow> AbsentDocument list
   \<Rightarrow> (string, bool) dict \<Rightarrow> (string, bool) dict \<Rightarrow> lineage set \<Rightarrow> string set \<Rightarrow> RetirementOutcome result"
where
  "evaluate_retirements run_id run_started_at policy baseline_total ledger absent durable_ok lineage_absent
     discovered_lineages frozen_issuers =
     (let run_stamp = isoformat_utc run_started_at; previous = previous_entries ledger in
      rbind (evaluation_pass run_id run_stamp policy baseline_total previous absent durable_ok lineage_absent
        frozen_issuers) (\<lambda>ev.
      let final = fold (reinstate run_id run_stamp discovered_lineages frozen_issuers) previous (ev_updated ev, []) in
      Inr \<lparr>ro_retired = ev_retired ev, ro_candidates = ev_candidates ev, ro_unjustified = ev_unjustified ev,
           ro_ledger = \<lparr>rl_updated_run_id = run_id, rl_entries = vals (fst final), rl_ledger_sha256 = ''''\<rparr>,
           ro_reinstated = sort (snd final)\<rparr>))"

section \<open>Classification\<close>

definition record_id :: "json \<Rightarrow> string" where
  "record_id r = (case r of JObj kvs \<Rightarrow> (case map_of kvs ''document_id'' of Some (JStr s) \<Rightarrow> s | _ \<Rightarrow> []) | _ \<Rightarrow> [])"

definition revalidated :: "json \<Rightarrow> bool" where
  "revalidated r = (case r of JObj kvs \<Rightarrow> map_of kvs ''revalidated'' = Some (JBool True) | _ \<Rightarrow> False)"

lemma record_simps [simp]:
  "record_id (retired_record e b) = re_document_id e" "record_id (candidate_record e) = re_document_id e"
  "revalidated (retired_record e b) = b"
  by (simp_all add: record_id_def retired_record_def candidate_record_def revalidated_def)

lemma judge_simps [simp]:
  "re_document_id (judge r st po n p d k) = ab_document_id d"
  "re_consecutive_absences (judge r st po n p d k) = next_absences r p"
  "re_status (judge r st po n p d k) = (if next_absences r p \<ge> po_grace_runs po \<and> next_absences r p \<ge> 2 then Retired else Candidate)"
  "re_last_checked_run_id (judge r st po n p d k) = r"
  "re_lineage_key (judge r st po n p d k) = ab_lineage_key d"
  by (simp_all add: judge_def Let_def re_lineage_key_def ab_lineage_key_def)

text \<open>The ids classified so far, in the three ways.\<close>

definition classified :: "evaluation \<Rightarrow> string list" where
  "classified ev = map record_id (ev_retired ev) @ map record_id (ev_candidates ev) @ keys (ev_unjustified ev)"

definition prior_of :: "(string, RetirementEntry) dict \<Rightarrow> string \<Rightarrow> RetirementEntry option" where
  "prior_of previous i = (case map_of previous i of
     Some p \<Rightarrow> if re_status p = Reinstated then None else Some p | None \<Rightarrow> None)"

lemma evaluate_itemE:
  assumes "evaluate_item run st po n previous dur lin frozen ev d = Inr ev'"
  obtains (refused) reason where "ev' = refuse ev (ab_document_id d) reason"
  | (already) p where "prior_of previous (ab_document_id d) = Some p" "re_status p = Retired"
      "ev' = ev\<lparr>ev_retired := ev_retired ev @ [retired_record p True]\<rparr>"
  | (judged) days entry where
      "ab_issuer d \<notin> frozen" "map_of dur (ab_document_id d) = Some True" "map_of lin (ab_document_id d) = Some True"
      "\<forall>p. prior_of previous (ab_document_id d) = Some p \<longrightarrow> re_status p = Candidate"
      "ev_new_judgements ev < effective_cap po n"
      "entry = judge run st po n (prior_of previous (ab_document_id d)) d days"
      "ev' = note_judgement ev (ab_document_id d) entry"
proof -
  let ?i = "ab_document_id d" and ?prior = "prior_of previous (ab_document_id d)"
  have not_reinstated: "re_status p \<noteq> Reinstated" if "?prior = Some p" for p
    using that by (auto simp: prior_of_def split: option.splits if_splits)
  show thesis
  proof (cases "ab_issuer d \<in> frozen \<or> map_of dur ?i \<noteq> Some True \<or> map_of lin ?i \<noteq> Some True")
    case True
    with assms refused show thesis
      by (auto simp: evaluate_item_def Let_def prior_of_def [symmetric] split: if_splits)
  next
    case evidence: False
    show thesis
    proof (cases "\<exists>p. ?prior = Some p \<and> re_status p = Retired")
      case True
      with assms evidence already show thesis
        by (auto simp: evaluate_item_def Let_def prior_of_def [symmetric])
    next
      case False
      then have open_prior: "\<forall>p. ?prior = Some p \<longrightarrow> re_status p = Candidate"
        using not_reinstated status.exhaust by blast
      then have "\<not> (case ?prior of Some p \<Rightarrow> re_status p = Retired | None \<Rightarrow> False)"
        by (auto split: option.splits)
      with assms evidence have "rbind (elapsed_days (case ?prior of None \<Rightarrow> st | Some p \<Rightarrow> re_first_absent_at p) st) (\<lambda>days.
          if ev_new_judgements ev \<ge> effective_cap po n then Inr (refuse ev ?i ''retirement_cap_exceeded'')
          else Inr (note_judgement ev ?i (judge run st po n ?prior d days))) = Inr ev'"
        unfolding evaluate_item_def prior_of_def [symmetric] Let_def by simp
      then obtain days where days: "(if ev_new_judgements ev \<ge> effective_cap po n
          then Inr (refuse ev ?i ''retirement_cap_exceeded'')
          else Inr (note_judgement ev ?i (judge run st po n ?prior d days))) = (Inr ev' :: evaluation result)"
        unfolding rbind_eq_Inr_iff by blast
      show thesis
      proof (cases "ev_new_judgements ev \<ge> effective_cap po n")
        case True
        with days have "ev' = refuse ev ?i ''retirement_cap_exceeded''" by simp
        then show thesis by (rule refused)
      next
        case False
        with days have "ev' = note_judgement ev ?i (judge run st po n ?prior d days)" by simp
        with judged [OF _ _ _ open_prior _ refl] evidence False show thesis by auto
      qed
    qed
  qed
qed

lemma previous_entries_id: "map_of (previous_entries ledger) i = Some e \<Longrightarrow> re_document_id e = i"
  by (cases ledger) (auto simp: previous_entries_def map_of_dict_of dest: map_of_SomeD)

lemma previous_entries_wf [simp]: "wf_dict (previous_entries ledger)"
  by (cases ledger) (simp_all add: previous_entries_def)

text \<open>Every document is classified in exactly one way, in the order of the pass.\<close>

lemma evaluate_item_classified:
  assumes "evaluate_item run st po n previous dur lin frozen ev d = Inr ev'"
    and "\<And>i e. map_of previous i = Some e \<Longrightarrow> re_document_id e = i"
    and "ab_document_id d \<notin> set (classified ev)"
  shows "mset (classified ev') = add_mset (ab_document_id d) (mset (classified ev))"
  using assms(1)
proof (cases rule: evaluate_itemE)
  case (refused reason)
  then show ?thesis
    using assms(3) by (simp add: classified_def refuse_def update_fresh)
next
  case (already p)
  then have "re_document_id p = ab_document_id d"
    using assms(2) [of "ab_document_id d"] by (auto simp: prior_of_def split: option.splits if_splits)
  with already show ?thesis by (simp add: classified_def)
next
  case (judged days entry)
  then show ?thesis by (simp add: classified_def note_judgement_def Let_def)
qed

definition justified ::
  "string \<Rightarrow> RetirementPolicy \<Rightarrow> (string, RetirementEntry) dict \<Rightarrow> AbsentDocument list \<Rightarrow> (string, bool) dict
   \<Rightarrow> (string, bool) dict \<Rightarrow> string set \<Rightarrow> string \<Rightarrow> bool"
where
  "justified run_id policy previous absent durable_ok lineage_absent frozen i \<longleftrightarrow>
     (\<exists>d \<in> set absent. ab_document_id d = i \<and> ab_issuer d \<notin> frozen)
     \<and> map_of durable_ok i = Some True \<and> map_of lineage_absent i = Some True
     \<and> (\<exists>p. map_of previous i = Some p \<and> re_status p = Candidate
          \<and> 2 \<le> next_absences run_id (Some p) \<and> po_grace_runs policy \<le> next_absences run_id (Some p))"

definition fresh_retired :: "json list \<Rightarrow> json list" where
  "fresh_retired rs = filter (\<lambda>r. \<not> revalidated r) rs"

text \<open>The invariant of the pass over the documents \<open>ys\<close> seen so far.\<close>

definition pass_inv ::
  "string \<Rightarrow> RetirementPolicy \<Rightarrow> int \<Rightarrow> (string, RetirementEntry) dict \<Rightarrow> (string, bool) dict
   \<Rightarrow> (string, bool) dict \<Rightarrow> string set \<Rightarrow> AbsentDocument list \<Rightarrow> evaluation \<Rightarrow> bool"
where
  "pass_inv run po n previous dur lin frozen ys ev \<longleftrightarrow>
     (\<forall>r \<in> set (fresh_retired (ev_retired ev)). justified run po previous ys dur lin frozen (record_id r))
     \<and> ev_new_judgements ev = int (length (ev_candidates ev) + length (fresh_retired (ev_retired ev)))
     \<and> ev_new_judgements ev \<le> effective_cap po n"

lemma effective_cap_pos: "1 \<le> effective_cap po n"
  by (simp add: effective_cap_def)

lemma justified_mono:
  "justified run po previous ys dur lin frozen i \<Longrightarrow> set ys \<subseteq> set zs \<Longrightarrow> justified run po previous zs dur lin frozen i"
  by (auto simp: justified_def)

lemma pass_inv_step:
  assumes "evaluate_item run st po n previous dur lin frozen ev d = Inr ev'"
    and "pass_inv run po n previous dur lin frozen ys ev"
  shows "pass_inv run po n previous dur lin frozen (ys @ [d]) ev'"
proof -
  have old: "\<forall>r \<in> set (fresh_retired (ev_retired ev)). justified run po previous (ys @ [d]) dur lin frozen (record_id r)"
    using assms(2) by (auto simp: pass_inv_def intro: justified_mono)
  from assms(1) show ?thesis
  proof (cases rule: evaluate_itemE)
    case (refused reason)
    with old assms(2) show ?thesis by (simp add: pass_inv_def refuse_def)
  next
    case (already p)
    with old assms(2) show ?thesis by (simp add: pass_inv_def fresh_retired_def)
  next
    case (judged days entry)
    let ?prior = "prior_of previous (ab_document_id d)"
    have new: "justified run po previous (ys @ [d]) dur lin frozen (ab_document_id d)" if "re_status entry = Retired"
    proof -
      have a: "po_grace_runs po \<le> next_absences run ?prior" "2 \<le> next_absences run ?prior"
        using that judged(6) by (auto split: if_splits)
      then obtain p where p: "?prior = Some p" by (cases ?prior) (auto simp: next_absences_def)
      then have "map_of previous (ab_document_id d) = Some p" by (auto simp: prior_of_def split: option.splits if_splits)
      with a p judged(1-4) show ?thesis by (auto simp: justified_def)
    qed
    show ?thesis
    proof (cases "re_status entry = Retired")
      case True
      have "fresh_retired (ev_retired ev') = fresh_retired (ev_retired ev) @ [retired_record entry False]"
        using True judged(7) by (simp add: note_judgement_def Let_def fresh_retired_def)
      with True old new assms(2) judged(5,6,7) show ?thesis
        by (auto simp: pass_inv_def note_judgement_def Let_def)
    next
      case False
      with old assms(2) judged(5,7) show ?thesis by (auto simp: pass_inv_def note_judgement_def Let_def)
    qed
  qed
qed

lemma evaluate_pass:
  assumes "evaluate_retirements run t po n ledger absent dur lin disc frozen = Inr out"
  obtains ev where "evaluation_pass run (isoformat_utc t) po n (previous_entries ledger) absent dur lin frozen = Inr ev"
    "ro_retired out = ev_retired ev" "ro_candidates out = ev_candidates ev" "ro_unjustified out = ev_unjustified ev"
    "rl_entries (ro_ledger out) = vals (fst (fold (reinstate run (isoformat_utc t) disc frozen) (previous_entries ledger) (ev_updated ev, [])))"
  using assms by (auto simp: evaluate_retirements_def Let_def)

lemma ordered_absent_facts [simp]:
  "set (ordered_absent xs) = set xs" "mset (map f (ordered_absent xs)) = mset (map f xs)"
  by (simp_all add: ordered_absent_def)

lemma pass_result:
  assumes "evaluate_retirements run t po n ledger absent dur lin disc frozen = Inr out"
  shows "(\<forall>r \<in> set (fresh_retired (ro_retired out)). justified run po (previous_entries ledger) absent dur lin frozen (record_id r))
    \<and> int (length (ro_candidates out) + length (fresh_retired (ro_retired out))) \<le> effective_cap po n"
proof -
  from evaluate_pass [OF assms] obtain ev where ev:
    "evaluation_pass run (isoformat_utc t) po n (previous_entries ledger) absent dur lin frozen = Inr ev"
    "ro_retired out = ev_retired ev" "ro_candidates out = ev_candidates ev" .
  have "pass_inv run po n (previous_entries ledger) dur lin frozen (ordered_absent absent) ev"
  proof (rule rfold_prefix [OF ev(1) [unfolded evaluation_pass_def]], goal_cases)
    case 1
    show ?case using effective_cap_pos [of po n] by (simp add: pass_inv_def fresh_retired_def)
  next
    case (2 ys d s s')
    show ?case by (rule pass_inv_step [OF 2(4,1)])
  qed
  then show ?thesis unfolding pass_inv_def ev(2,3) by (auto intro: justified_mono)
qed

lemma classification_result:
  assumes "evaluate_retirements run t po n ledger absent dur lin disc frozen = Inr out"
    and "distinct (map ab_document_id absent)"
  shows "mset (map record_id (ro_retired out) @ map record_id (ro_candidates out) @ keys (ro_unjustified out))
    = mset (map ab_document_id absent)"
proof -
  from evaluate_pass [OF assms(1)] obtain ev where ev:
    "evaluation_pass run (isoformat_utc t) po n (previous_entries ledger) absent dur lin frozen = Inr ev"
    "ro_retired out = ev_retired ev" "ro_candidates out = ev_candidates ev" "ro_unjustified out = ev_unjustified ev" .
  have dist: "distinct (map ab_document_id (ordered_absent absent))"
    using assms(2) by (metis mset_eq_imp_distinct_iff ordered_absent_facts(2))
  have "mset (classified ev) = mset (map ab_document_id (ordered_absent absent))"
  proof (rule rfold_prefix [OF ev(1) [unfolded evaluation_pass_def]], goal_cases)
    case (2 ys d s s')
    from 2(3) dist have "ab_document_id d \<notin> set (map ab_document_id ys)" by auto
    then have "ab_document_id d \<notin> set (classified s)" using mset_eq_setD [OF 2(1)] by blast
    from evaluate_item_classified [OF 2(4) previous_entries_id this] 2(1) show ?case by simp
  qed (simp add: classified_def)
  then show ?thesis unfolding classified_def ev(2-4) ordered_absent_facts(2) .
qed

section \<open>Transitions of the ledger\<close>

fun allowed :: "status option \<Rightarrow> status option \<Rightarrow> bool" where
  "allowed None new = (new = None \<or> new = Some Candidate)"
| "allowed (Some Candidate) new = (new \<noteq> None)"
| "allowed (Some Retired) new = (new = Some Retired \<or> new = Some Reinstated)"
| "allowed (Some Reinstated) new = (new = Some Reinstated \<or> new = Some Candidate)"

definition status_in :: "(string, RetirementEntry) dict \<Rightarrow> string \<Rightarrow> status option" where
  "status_in d i = map_option re_status (map_of d i)"

lemma status_in_update: "status_in (AList.update k e d) i = (if i = k then Some (re_status e) else status_in d i)"
  by (simp add: status_in_def update_conv')

lemma allowed_refl [simp]: "allowed s s"
proof (cases s)
  case (Some x)
  then show ?thesis by (cases x) auto
qed simp

lemma judged_allowed:
  assumes "\<forall>p. prior_of previous i = Some p \<longrightarrow> re_status p = Candidate"
  shows "allowed (status_in previous i) (Some (re_status (judge run st po n (prior_of previous i) d k)))"
proof (cases "map_of previous i")
  case None
  then show ?thesis by (simp add: status_in_def prior_of_def next_absences_def)
next
  case (Some p)
  then show ?thesis
    using assms by (cases "re_status p") (auto simp: status_in_def prior_of_def next_absences_def)
qed

lemma evaluate_item_allowed:
  assumes "evaluate_item run st po n previous dur lin frozen ev d = Inr ev'"
    and "\<And>i. allowed (status_in previous i) (status_in (ev_updated ev) i)"
  shows "allowed (status_in previous i) (status_in (ev_updated ev') i)"
  using assms(1)
proof (cases rule: evaluate_itemE)
  case (judged days entry)
  then have "ev_updated ev' = AList.update (ab_document_id d) entry (ev_updated ev)"
    by (simp add: note_judgement_def Let_def)
  with judged_allowed [OF judged(4)] judged(6) assms(2) show ?thesis by (simp add: status_in_update)
qed (use assms(2) in \<open>auto simp: refuse_def\<close>)

lemma reinstate_allowed:
  assumes "set xs \<subseteq> set previous" "wf_dict previous" "\<And>i. allowed (status_in previous i) (status_in u i)"
  shows "allowed (status_in previous i) (status_in (fst (fold (reinstate run st disc frozen) xs (u, names))) i)"
  using assms(1,3)
proof (induction xs arbitrary: u names)
  case (Cons x xs)
  obtain k e where x: "x = (k, e)" by (cases x)
  with Cons.prems(1) assms(2) have "map_of previous k = Some e" by (intro map_of_is_SomeI) auto
  then have e: "status_in previous k = Some (re_status e)" by (simp add: status_in_def)
  have "fst (reinstate run st disc frozen x (u, names)) = u \<or>
    (re_status e \<in> {Candidate, Retired} \<and> fst (reinstate run st disc frozen x (u, names)) = AList.update k (reinstated_entry run st e) u)"
    using x by (auto simp: reinstate_def)
  then have "allowed (status_in previous j) (status_in (fst (reinstate run st disc frozen x (u, names))) j)" for j
    using Cons.prems(2) e by (auto simp: status_in_update reinstated_entry_def)
  then show ?case
    using Cons.IH [of "fst (reinstate run st disc frozen x (u, names))" "snd (reinstate run st disc frozen x (u, names))"] Cons.prems(1)
    by simp
qed simp

lemma transition_result:
  assumes "evaluate_retirements run t po n ledger absent dur lin disc frozen = Inr out"
  shows "\<exists>updated. rl_entries (ro_ledger out) = vals updated \<and>
    (\<forall>i. allowed (status_in (previous_entries ledger) i) (status_in updated i))"
proof -
  from evaluate_pass [OF assms] obtain ev where ev:
    "evaluation_pass run (isoformat_utc t) po n (previous_entries ledger) absent dur lin frozen = Inr ev"
    "rl_entries (ro_ledger out) = vals (fst (fold (reinstate run (isoformat_utc t) disc frozen) (previous_entries ledger) (ev_updated ev, [])))" .
  have "\<forall>i. allowed (status_in (previous_entries ledger) i) (status_in (ev_updated ev) i)"
    by (rule rfold_invariant [OF ev(1) [unfolded evaluation_pass_def]]) (auto intro: evaluate_item_allowed)
  with ev(2) reinstate_allowed [OF order_refl previous_entries_wf] show ?thesis by blast
qed

section \<open>Normal forms of sealed values\<close>

lemma sorted_key_order: "sorted (map fst kvs) \<Longrightarrow> key_order sk kvs = kvs"
  by (simp add: key_order_def sort_key_id_if_sorted)

lemma wf_float_finite: "wf_json (JFloat r) \<Longrightarrow> \<not> non_finite r"
  by (auto simp: non_finite_def parse_number_def lex_int_def is_digit_def less_eq_char_def)

lemma json_ready_pyval_of: "wf_json v \<Longrightarrow> json_ready (pyval_of v) = Inr v"
proof (induction v)
  case (JArr vs)
  then have "rmap (\<lambda>v. json_ready (pyval_of v)) vs = Inr vs"
    by (induction vs) auto
  then have "rmap json_ready (map pyval_of vs) = Inr vs" by (induction vs) auto
  then show ?case by simp
next
  case (JObj kvs)
  have "rmap (\<lambda>(k, v). case k of PStr name \<Rightarrow> rbind (json_ready v) (\<lambda>j. Inr (name, j))
       | _ \<Rightarrow> Inl (TypeError ''canonical JSON object keys must be strings''))
      (map (\<lambda>(k, v). (PStr k, pyval_of v)) xs) = Inr xs" if "set xs \<subseteq> set kvs" for xs
    using that
  proof (induction xs)
    case (Cons x xs)
    obtain k v where x: "x = (k, v)" by (cases x)
    with Cons.prems JObj have "json_ready (pyval_of v) = Inr v"
      by (intro JObj.IH [of x v]) (auto simp: list_all_iff)
    with Cons x show ?case by simp
  qed simp
  from this [of kvs] show ?case by simp
next
  case (JFloat r)
  then show ?case using wf_float_finite [of r] by simp
qed simp_all

definition norm_entry :: "RetirementEntry \<Rightarrow> RetirementEntry" where
  "norm_entry e = e\<lparr>re_decision_inputs := key_order True (map (\<lambda>(k, v). (k, norm_json True v)) (re_decision_inputs e))\<rparr>"

lemma norm_opt [simp]: "norm_json sk (opt_json x) = opt_json x"
  by (cases x) (simp_all add: opt_json_def)

section \<open>Properties of the policy pass\<close>

text \<open>A ledger seen as a dict: the keys are the ids of the entries.\<close>

definition keyed :: "(string, RetirementEntry) dict \<Rightarrow> bool" where
  "keyed d \<longleftrightarrow> wf_dict d \<and> list_all (\<lambda>(k, e). re_document_id e = k) d"

lemma keyed_update: "keyed d \<Longrightarrow> re_document_id e = k \<Longrightarrow> keyed (AList.update k e d)"
  using set_update_subset [of k e d] by (auto simp: keyed_def list_all_iff)

lemma keyed_previous: "keyed (previous_entries ledger)"
  using previous_entries_id [of ledger] by (auto simp: keyed_def list_all_iff intro: map_of_is_SomeI)

lemma keyed_id: "keyed d \<Longrightarrow> (k, e) \<in> set d \<Longrightarrow> re_document_id e = k"
  by (auto simp: keyed_def list_all_iff)

lemma previous_of_keyed:
  assumes "keyed d" shows "previous_entries (Some \<lparr>rl_updated_run_id = r, rl_entries = vals d, rl_ledger_sha256 = s\<rparr>) = d"
proof -
  have "map ((\<lambda>e. (re_document_id e, e)) \<circ> snd) d = d"
    using assms by (intro map_idI) (auto simp: keyed_def list_all_iff)
  with assms show ?thesis by (simp add: previous_entries_def keyed_def dict_of_distinct)
qed

lemma evaluate_item_keyed:
  assumes "evaluate_item run st po n previous dur lin frozen ev d = Inr ev'" "keyed (ev_updated ev)"
  shows "keyed (ev_updated ev')"
  using assms(1)
proof (cases rule: evaluate_itemE)
  case (judged days entry)
  with assms(2) show ?thesis by (simp add: note_judgement_def Let_def keyed_update)
qed (use assms(2) in \<open>auto simp: refuse_def\<close>)

lemma reinstate_keyed:
  "keyed u \<Longrightarrow> \<forall>(k, e) \<in> set xs. re_document_id e = k \<Longrightarrow>
    keyed (fst (fold (reinstate run st disc frozen) xs (u, names)))"
proof (induction xs arbitrary: u names)
  case (Cons x xs)
  then have "keyed (fst (reinstate run st disc frozen x (u, names)))"
    by (cases x) (auto simp: reinstate_def reinstated_entry_def intro: keyed_update)
  with Cons show ?case
    by (cases "reinstate run st disc frozen x (u, names)") simp
qed simp

lemma transitions_of_pass:
  assumes "evaluate_retirements run t po n ledger absent dur lin disc frozen = Inr out"
  shows "allowed (status_in (previous_entries ledger) i) (status_in (previous_entries (Some (ro_ledger out))) i)"
proof -
  from evaluate_pass [OF assms] obtain ev where ev:
    "evaluation_pass run (isoformat_utc t) po n (previous_entries ledger) absent dur lin frozen = Inr ev"
    "rl_entries (ro_ledger out) = vals (fst (fold (reinstate run (isoformat_utc t) disc frozen) (previous_entries ledger) (ev_updated ev, [])))" .
  let ?u = "fst (fold (reinstate run (isoformat_utc t) disc frozen) (previous_entries ledger) (ev_updated ev, []))"
  have "keyed (ev_updated ev)"
    by (rule rfold_invariant [OF ev(1) [unfolded evaluation_pass_def]])
      (auto intro: evaluate_item_keyed simp: keyed_previous)
  then have "keyed ?u" by (rule reinstate_keyed) (auto dest: keyed_id [OF keyed_previous])
  then have "previous_entries (Some (ro_ledger out)) = ?u"
    using ev(2) previous_of_keyed [of ?u] by (simp add: previous_entries_def)
  moreover have "\<forall>i. allowed (status_in (previous_entries ledger) i) (status_in (ev_updated ev) i)"
    by (rule rfold_invariant [OF ev(1) [unfolded evaluation_pass_def]]) (auto intro: evaluate_item_allowed)
  ultimately show ?thesis using reinstate_allowed [OF order_refl previous_entries_wf] by simp
qed

text \<open>A concrete pass: one document on its second absence, one seen missing for the first time.\<close>

definition demo_absent :: "string \<Rightarrow> AbsentDocument" where
  "demo_absent i = \<lparr>ab_document_id = i, ab_source_id = ''s'', ab_issuer = ''bc'', ab_product_code = i,
     ab_document_type = ''terms'', ab_pdf_sha256 = ''p'', ab_ocr_sha256 = None,
     ab_last_observed_run_id = ''r0'', ab_last_observed_at = ''2025-01-01T00:00:00+00:00''\<rparr>"

definition demo_policy :: RetirementPolicy where
  "demo_policy = \<lparr>po_grace_runs = 2, po_grace_days = 7, po_max_per_run = 5, po_max_ratio = ''0.005''\<rparr>"

definition demo_ledger :: RetirementLedger where
  "demo_ledger = \<lparr>rl_updated_run_id = ''r1'',
     rl_entries = [judge ''r1'' ''2025-01-02T00:00:00+00:00'' demo_policy 1000 None (demo_absent ''a'') 0],
     rl_ledger_sha256 = ''''\<rparr>"

definition demo_pass :: "RetirementOutcome result" where
  "demo_pass = evaluate_retirements ''r2'' 1736000000000000 demo_policy 1000 (Some demo_ledger)
     [demo_absent ''b'', demo_absent ''a''] [(''a'', True), (''b'', True)] [(''a'', True), (''b'', True)] {} {}"

lemma demo_evaluation:
  "effective_cap demo_policy 1000 = 5" "isoformat_utc 1736000000000000 = ''2025-01-04T14:13:20+00:00''"
  "elapsed_days ''2025-01-02T00:00:00+00:00'' ''2025-01-04T14:13:20+00:00'' = Inr 2"
  "elapsed_days ''2025-01-04T14:13:20+00:00'' ''2025-01-04T14:13:20+00:00'' = Inr 0"
  by code_simp+

lemma demo_judged:
  fixes prior :: RetirementEntry
  defines "prior \<equiv> judge ''r1'' ''2025-01-02T00:00:00+00:00'' demo_policy 1000 None (demo_absent ''a'') 0"
  shows "evaluation_pass ''r2'' ''2025-01-04T14:13:20+00:00'' demo_policy 1000 [(''a'', prior)]
      [demo_absent ''b'', demo_absent ''a''] [(''a'', True), (''b'', True)] [(''a'', True), (''b'', True)] {} =
    Inr (note_judgement (note_judgement
        \<lparr>ev_updated = [(''a'', prior)], ev_retired = [], ev_candidates = [], ev_unjustified = [], ev_new_judgements = 0\<rparr>
        ''a'' (judge ''r2'' ''2025-01-04T14:13:20+00:00'' demo_policy 1000 (Some prior) (demo_absent ''a'') 2))
        ''b'' (judge ''r2'' ''2025-01-04T14:13:20+00:00'' demo_policy 1000 None (demo_absent ''b'') 0))"
proof -
  have order: "ordered_absent [demo_absent ''b'', demo_absent ''a''] = [demo_absent ''a'', demo_absent ''b'']"
    by (simp add: ordered_absent_def demo_absent_def)
  have ids: "ab_document_id (demo_absent i) = i" "ab_issuer (demo_absent i) = ''bc''" for i
    by (simp_all add: demo_absent_def)
  have prior: "re_first_absent_at prior = ''2025-01-02T00:00:00+00:00''" "re_status prior = Candidate"
    by (simp_all add: prior_def judge_def Let_def next_absences_def)
  have more: "ev_new_judgements (note_judgement ev i e) = ev_new_judgements ev + 1" for ev i e
    by (simp add: note_judgement_def Let_def)
  show ?thesis
    by (simp add: evaluation_pass_def order evaluate_item_def Let_def ids prior demo_evaluation more)
qed

lemma demo_pass_returns:
  obtains out where "demo_pass = Inr out" "map record_id (fresh_retired (ro_retired out)) = [''a'']"
    "map record_id (ro_candidates out) = [''b'']"
proof -
  have "previous_entries (Some demo_ledger) =
      [(''a'', judge ''r1'' ''2025-01-02T00:00:00+00:00'' demo_policy 1000 None (demo_absent ''a'') 0)]"
    by (simp add: previous_entries_def demo_ledger_def dict_of_def demo_absent_def)
  then have pass: "\<exists>out. demo_pass = Inr out \<and> ro_retired out = ev_retired ev \<and> ro_candidates out = ev_candidates ev"
    if "evaluation_pass ''r2'' ''2025-01-04T14:13:20+00:00'' demo_policy 1000
        [(''a'', judge ''r1'' ''2025-01-02T00:00:00+00:00'' demo_policy 1000 None (demo_absent ''a'') 0)]
        [demo_absent ''b'', demo_absent ''a''] [(''a'', True), (''b'', True)] [(''a'', True), (''b'', True)] {} = Inr ev" for ev
    using that by (simp add: demo_pass_def evaluate_retirements_def Let_def demo_evaluation)
  have grace: "po_grace_runs demo_policy = 2" "ab_document_id (demo_absent i) = i" for i
    by (simp_all add: demo_policy_def demo_absent_def)
  from pass [OF demo_judged] obtain out where out: "demo_pass = Inr out"
      "map record_id (fresh_retired (ro_retired out)) = [''a'']" "map record_id (ro_candidates out) = [''b'']"
    by (auto simp: note_judgement_def Let_def next_absences_def fresh_retired_def grace)
  from out show thesis by (rule that)
qed

text \<open>
  C28. Every absent document is classified exactly once: as retired, as a candidate, or as unjustified
  with a reason.  No document is lost by the policy pass and none is counted twice.
\<close>

theorem retirement_classifies_each:
  assumes "evaluate_retirements run t po n ledger absent dur lin disc frozen = Inr out"
    and "distinct (map ab_document_id absent)"
  shows "mset (map record_id (ro_retired out) @ map record_id (ro_candidates out) @ keys (ro_unjustified out))
    = mset (map ab_document_id absent)"
  by (rule classification_result [OF assms])

theorem retirement_classifies_each_witness:
  "\<exists>out. demo_pass = Inr out \<and>
     mset (map record_id (ro_retired out) @ map record_id (ro_candidates out) @ keys (ro_unjustified out)) = {#''b'', ''a''#}"
proof -
  obtain out where out: "demo_pass = Inr out" by (rule demo_pass_returns)
  have "distinct (map ab_document_id [demo_absent ''b'', demo_absent ''a''])" by (simp add: demo_absent_def)
  from retirement_classifies_each [OF out [unfolded demo_pass_def] this] out show ?thesis
    by (intro exI [of _ out]) (simp add: demo_absent_def)
qed



text \<open>
  C29. The ledger only moves along the allowed transitions: a document enters as a candidate, never as
  retired; a recorded document is never dropped; a retired document stays retired until it is
  reinstated, and a reinstated one starts again as a candidate.
\<close>

theorem retirement_ledger_transitions:
  assumes "evaluate_retirements run t po n ledger absent dur lin disc frozen = Inr out"
  shows "allowed (status_in (previous_entries ledger) i) (status_in (previous_entries (Some (ro_ledger out))) i)"
  by (rule transitions_of_pass [OF assms])

theorem retirement_ledger_transitions_witness:
  "\<exists>out. demo_pass = Inr out \<and>
     allowed (status_in (previous_entries (Some demo_ledger)) ''a'') (status_in (previous_entries (Some (ro_ledger out))) ''a'')"
  using demo_pass_returns retirement_ledger_transitions [where i = "''a''"] unfolding demo_pass_def by metis

section \<open>Reading back what was sealed\<close>

definition wf_ledger :: "RetirementLedger \<Rightarrow> bool" where
  "wf_ledger l \<longleftrightarrow> distinct (map re_document_id (rl_entries l)) \<and>
     list_all (\<lambda>e. wf_json (JObj (re_decision_inputs e)) \<and> (re_status e = Retired \<longrightarrow> re_decision_inputs e \<noteq> [])) (rl_entries l)"

definition norm_ledger :: "RetirementLedger \<Rightarrow> RetirementLedger" where
  "norm_ledger l = \<lparr>rl_updated_run_id = rl_updated_run_id l,
     rl_entries = map norm_entry (sort_key re_document_id (rl_entries l)), rl_ledger_sha256 = ''''\<rparr>"

lemma entry_keys_sorted:
  "sorted [''consecutive_absences'', ''decision_inputs'', ''document_id'', ''document_type'', ''first_absent_at'',
     ''first_absent_run_id'', ''issuer'', ''last_checked_run_id'', ''last_observed_at'', ''last_observed_run_id'',
     ''ocr_sha256'', ''pdf_sha256'', ''product_code'', ''reinstated_at'', ''reinstated_run_id'', ''retired_at'',
     ''retired_run_id'', ''source_id'', ''status'']"
  "sorted [''entries'', ''schema_version'', ''updated_run_id'']"
  by code_simp+

lemma norm_entry_payload: "norm_json True (entry_payload e) = entry_payload (norm_entry e)"
proof -
  define kvs where "kvs = map (\<lambda>(k, v). (k, norm_json True v)) (case entry_payload e of JObj kvs \<Rightarrow> kvs | _ \<Rightarrow> [])"
  have keys: "sorted (map fst kvs)"
    unfolding kvs_def entry_payload_def json.simps list.map prod.case fst_conv by (rule entry_keys_sorted)
  have "norm_json True (entry_payload e) = JObj (key_order True kvs)"
    unfolding kvs_def entry_payload_def json.simps norm_json.simps(2) ..
  also have "\<dots> = JObj kvs" unfolding sorted_key_order [OF keys] ..
  also have "\<dots> = entry_payload (norm_entry e)" by (simp add: kvs_def entry_payload_def norm_entry_def)
  finally show ?thesis .
qed

lemma wf_opt_json [simp]: "wf_json (opt_json x)"
  by (cases x) (simp_all add: opt_json_def)

lemma wf_entry_payload: "wf_json (JObj (re_decision_inputs e)) \<Longrightarrow> wf_json (entry_payload e)"
  by (simp add: entry_payload_def)

lemma opt_item_payload [simp]: "map_of kvs k = Some (opt_json x) \<Longrightarrow> opt_item fr kvs k = x"
  by (cases x) (simp_all add: opt_item_def get_item_def opt_json_def py_str_def)

lemma str_item_payload [simp]: "map_of kvs k = Some (JStr s) \<Longrightarrow> str_item fr kvs k = Inr s"
  by (simp add: str_item_def item_def py_str_def)

lemma read_status_text [simp]: "read_status (status_text s) = Some s"
  by (cases s) (simp_all add: read_status_def)

lemma py_dict_of_obj [simp]: "py_dict_of fr (JObj kvs) = Inr kvs"
  by (simp add: py_dict_of_def)

lemma entry_from_payload_eq: "entry_from_payload fr (entry_payload e) = Inr e"
proof -
  define kvs where "kvs = (case entry_payload e of JObj kvs \<Rightarrow> kvs | _ \<Rightarrow> [])"
  have items: "map_of kvs ''status'' = Some (JStr (status_text (re_status e)))"
    "map_of kvs ''document_id'' = Some (JStr (re_document_id e))" "map_of kvs ''source_id'' = Some (JStr (re_source_id e))"
    "map_of kvs ''issuer'' = Some (JStr (re_issuer e))" "map_of kvs ''product_code'' = Some (JStr (re_product_code e))"
    "map_of kvs ''document_type'' = Some (JStr (re_document_type e))" "map_of kvs ''pdf_sha256'' = Some (JStr (re_pdf_sha256 e))"
    "map_of kvs ''first_absent_run_id'' = Some (JStr (re_first_absent_run_id e))"
    "map_of kvs ''first_absent_at'' = Some (JStr (re_first_absent_at e))"
    "map_of kvs ''last_observed_run_id'' = Some (JStr (re_last_observed_run_id e))"
    "map_of kvs ''last_observed_at'' = Some (JStr (re_last_observed_at e))"
    "map_of kvs ''last_checked_run_id'' = Some (JStr (re_last_checked_run_id e))"
    "map_of kvs ''consecutive_absences'' = Some (JInt (re_consecutive_absences e))"
    "map_of kvs ''decision_inputs'' = Some (JObj (re_decision_inputs e))"
    "map_of kvs ''ocr_sha256'' = Some (opt_json (re_ocr_sha256 e))"
    "map_of kvs ''retired_run_id'' = Some (opt_json (re_retired_run_id e))"
    "map_of kvs ''retired_at'' = Some (opt_json (re_retired_at e))"
    "map_of kvs ''reinstated_run_id'' = Some (opt_json (re_reinstated_run_id e))"
    "map_of kvs ''reinstated_at'' = Some (opt_json (re_reinstated_at e))"
    by (simp_all add: kvs_def entry_payload_def)
  have "entry_fields fr kvs = Inr e"
    by (simp add: entry_fields_def items item_def get_item_def py_int_of_def)
  moreover have "entry_payload e = JObj kvs" by (simp add: kvs_def entry_payload_def)
  ultimately show ?thesis by (simp add: entry_from_payload_def)
qed

lemma rmap_entries [simp]: "rmap (entry_from_payload fr) (map entry_payload es) = Inr es"
  by (induction es) (simp_all add: entry_from_payload_eq)

lemma wf_ledger_payload: "wf_ledger l \<Longrightarrow> wf_json (ledger_payload l)"
  by (auto simp: ledger_payload_def wf_ledger_def list_all_iff intro!: wf_entry_payload)

lemma norm_ledger_payload: "norm_json True (ledger_payload l) = JObj
     [(''entries'', JArr (map entry_payload (rl_entries (norm_ledger l)))),
      (''schema_version'', JStr schema_version), (''updated_run_id'', JStr (rl_updated_run_id l))]"
  using entry_keys_sorted(2)
  by (simp add: ledger_payload_def norm_ledger_def norm_entry_payload sorted_key_order)

lemma norm_entry_simps [simp]:
  "re_document_id (norm_entry e) = re_document_id e" "re_status (norm_entry e) = re_status e"
  "re_decision_inputs (norm_entry e) = [] \<longleftrightarrow> re_decision_inputs e = []"
  by (simp_all add: norm_entry_def key_order_def flip: set_empty)

lemma parse_ledger_bytes:
  assumes "wf_ledger l" "ledger_bytes l = Inr b"
  shows "parse_ledger fr b = Inr (norm_ledger l)"
proof -
  from assms have "b = dumps True (ledger_payload l)"
    by (simp add: ledger_bytes_def canonical_json_bytes_def json_ready_pyval_of wf_ledger_payload)
  then have loads: "loads b = Inr (norm_json True (ledger_payload l))"
    using loads_dumps_eq [OF wf_ledger_payload [OF assms(1)]] by simp
  have dist: "distinct (map re_document_id (rl_entries (norm_ledger l)))"
    using assms(1) by (auto simp: norm_ledger_def wf_ledger_def distinct_map inj_on_def comp_def)
  have sealed: "\<not> list_ex (\<lambda>e. re_status e = Retired \<and> re_decision_inputs e = []) (rl_entries (norm_ledger l))"
    using assms(1) by (auto simp: norm_ledger_def wf_ledger_def list_all_iff list_ex_iff)
  show ?thesis
    using dist sealed unfolding parse_ledger_def loads norm_ledger_payload
    by (simp add: get_item_def py_str_def Let_def) (simp add: norm_ledger_def)
qed

text \<open>
  C32. A sealed retirement ledger reads back as it was written, entries in the order of their
  document ids: no field of any entry is lost or altered by the JSON form.
\<close>

theorem retirement_ledger_roundtrip:
  assumes "wf_ledger l" "ledger_bytes l = Inr b"
  shows "parse_ledger fr b = Inr (norm_ledger l)"
  by (rule parse_ledger_bytes [OF assms])

definition demo_sealed :: RetirementLedger where
  "demo_sealed = \<lparr>rl_updated_run_id = ''r1'',
     rl_entries = [judge ''r1'' ''t'' demo_policy 1000 None (demo_absent ''b'') 0,
                   judge ''r1'' ''t'' demo_policy 1000 None (demo_absent ''a'') 0], rl_ledger_sha256 = ''''\<rparr>"

lemma demo_sealed_wf: "wf_ledger demo_sealed"
  by (simp add: wf_ledger_def demo_sealed_def judge_def Let_def next_absences_def demo_absent_def)

lemma ledger_bytes_returns: "wf_ledger l \<Longrightarrow> ledger_bytes l = Inr (dumps True (ledger_payload l))"
  by (simp add: ledger_bytes_def canonical_json_bytes_def json_ready_pyval_of wf_ledger_payload)

definition demo_foreign :: foreign where
  "demo_foreign = \<lparr>fr_str = (\<lambda>_. ''''), fr_int = (\<lambda>_. Inl (ValueError ''int()'')), fr_dict = (\<lambda>_. Inl (TypeError ''dict()''))\<rparr>"

theorem retirement_ledger_roundtrip_witness:
  "\<exists>b l. ledger_bytes demo_sealed = Inr b \<and> parse_ledger demo_foreign b = Inr l \<and>
     map re_document_id (rl_entries l) = [''a'', ''b''] \<and> rl_updated_run_id l = ''r1''"
proof -
  have "parse_ledger demo_foreign (dumps True (ledger_payload demo_sealed)) = Inr (norm_ledger demo_sealed)"
    by (rule retirement_ledger_roundtrip [OF demo_sealed_wf ledger_bytes_returns [OF demo_sealed_wf]])
  moreover have "map re_document_id (rl_entries (norm_ledger demo_sealed)) = [''a'', ''b'']"
    by (simp add: norm_ledger_def demo_sealed_def demo_absent_def)
  moreover have "rl_updated_run_id (norm_ledger demo_sealed) = ''r1''" by (simp add: norm_ledger_def demo_sealed_def)
  ultimately show ?thesis using ledger_bytes_returns [OF demo_sealed_wf] by (intro exI conjI)
qed

end
