(* ===== verification/CorpusDiff.thy ===== *)
theory CorpusDiff
  imports Contracts Retirement
begin

text \<open>
  \<open>cardrag_worker/corpus_diff.py\<close>: the comparison of an acquisition with the prior corpus and the gate that
  fails the run closed when a prior document disappeared without justification.

  A \<open>frozenset\<close> of ids is a list whose order and repetitions the code never looks at (\<open>sorted_set\<close> lists its
  elements in order).  The retirement resolver is an argument, as in the code; what the gate needs of it is
  the locale \<open>retirement_resolver\<close>.  The first component of a result is the report file that was written.
\<close>

record acquired =
  aq_source :: SourceRecord
  aq_pdf_sha256 :: string
  aq_is_historical :: bool
  aq_supersedes_document_id :: "string option"

record PriorEntry =
  pe_document_id :: string
  pe_source_id :: string
  pe_issuer :: string
  pe_product_code :: string
  pe_document_type :: string
  pe_pdf_sha256 :: string
  pe_ocr_sha256 :: "string option"

record CorpusPriorView =
  cv_kind :: string
  cv_generation_id :: string
  cv_run_id :: string
  cv_observed_at :: string
  cv_current_doc_ids :: "string list"
  cv_historical_doc_ids :: "string list"
  cv_entries :: "(string, PriorEntry) dict"

record RetirementRequest =
  rq_document_id :: string
  rq_source_id :: string
  rq_issuer :: string
  rq_product_code :: string
  rq_document_type :: string
  rq_pdf_sha256 :: string
  rq_ocr_sha256 :: "string option"

type_synonym RetirementResolver = "RetirementRequest list \<Rightarrow> lineage list \<Rightarrow> RetirementOutcome option result"

record CorpusDiffReport =
  cd_schema_version :: string
  cd_run_id :: string
  cd_baseline_kind :: string
  cd_counts :: "(string, int) dict"
  cd_unchanged :: "string list"
  cd_same_source_byte_revisions :: "json list"
  cd_successor_sources :: "json list"
  cd_new_products :: "json list"
  cd_historical_maintained :: "string list"
  cd_retired_lineages :: "json list"
  cd_retirement_candidates :: "json list"
  cd_missing_unjustified :: "string list"

definition as_dict :: "CorpusDiffReport \<Rightarrow> json" where
  "as_dict r = JObj
     [(''schema_version'', JStr (cd_schema_version r)), (''run_id'', JStr (cd_run_id r)),
      (''baseline_kind'', JStr (cd_baseline_kind r)), (''counts'', JObj (map (\<lambda>(k, n). (k, JInt n)) (cd_counts r))),
      (''unchanged'', JArr (map JStr (cd_unchanged r))),
      (''same_source_byte_revisions'', JArr (cd_same_source_byte_revisions r)),
      (''successor_sources'', JArr (cd_successor_sources r)), (''new_products'', JArr (cd_new_products r)),
      (''historical_maintained'', JArr (map JStr (cd_historical_maintained r))),
      (''retired_lineages'', JArr (cd_retired_lineages r)), (''retirement_candidates'', JArr (cd_retirement_candidates r)),
      (''missing_unjustified'', JArr (map JStr (cd_missing_unjustified r)))]"

definition write_report :: "CorpusDiffReport \<Rightarrow> bytes result" where
  "write_report r = canonical_json_bytes (pyval_of (as_dict r))"

record seed_entry =
  se_source_id :: string
  se_issuer :: string
  se_pdf_sha256 :: string
  se_ocr_sha256 :: string

record StateSeedLedger =
  sl_generation_id :: string
  sl_run_id :: string
  sl_entries_by_doc_id :: "(string, seed_entry) dict"
  sl_prior_current_doc_ids :: "string list"
  sl_prior_historical_doc_ids :: "string list"
  sl_source_records :: "(string, SourceRecord) dict"
  sl_schema_version :: string

definition is_ocr_recovery_only :: "StateSeedLedger \<Rightarrow> bool" where
  "is_ocr_recovery_only l \<longleftrightarrow> sl_schema_version l = ''cardrag.ocr-recovery-ledger.v1''"

definition prior_view_from_seed_ledger :: "StateSeedLedger \<Rightarrow> string \<Rightarrow> CorpusPriorView" where
  "prior_view_from_seed_ledger l observed_at =
     \<lparr>cv_kind = ''seed-ledger'', cv_generation_id = sl_generation_id l, cv_run_id = sl_run_id l,
      cv_observed_at = observed_at, cv_current_doc_ids = sl_prior_current_doc_ids l,
      cv_historical_doc_ids = sl_prior_historical_doc_ids l,
      cv_entries = map (\<lambda>(i, e). let record = map_of (sl_source_records l) (se_source_id e) in
        (i, \<lparr>pe_document_id = i, pe_source_id = se_source_id e, pe_issuer = se_issuer e,
             pe_product_code = (case record of Some r \<Rightarrow> sr_product_code r | None \<Rightarrow> ''''),
             pe_document_type = (case record of Some r \<Rightarrow> sr_document_type r | None \<Rightarrow> ''''),
             pe_pdf_sha256 = se_pdf_sha256 e, pe_ocr_sha256 = Some (se_ocr_sha256 e)\<rparr>)) (sl_entries_by_doc_id l)\<rparr>"

definition acquired_map :: "acquired list \<Rightarrow> (string, acquired) dict result" where
  "acquired_map ds = rbind (rmap (\<lambda>d. rbind (document_id (aq_source d) (aq_pdf_sha256 d)) (\<lambda>i. Inr (i, d))) ds)
     (\<lambda>kvs. Inr (dict_of kvs))"

definition product_record :: "string \<Rightarrow> string \<Rightarrow> string \<Rightarrow> acquired \<Rightarrow> json" where
  "product_record doc_id sid sha_field d = JObj
     [(''document_id'', JStr doc_id), (''source_id'', JStr sid), (''issuer'', JStr (sr_issuer (aq_source d))),
      (''product_code'', JStr (sr_product_code (aq_source d))), (sha_field, JStr (aq_pdf_sha256 d))]"

definition revision_record :: "string \<Rightarrow> string \<Rightarrow> acquired \<Rightarrow> string option \<Rightarrow> json" where
  "revision_record doc_id sid d previous = JObj
     [(''document_id'', JStr doc_id), (''source_id'', JStr sid), (''issuer'', JStr (sr_issuer (aq_source d))),
      (''product_code'', JStr (sr_product_code (aq_source d))), (''new_pdf_sha256'', JStr (aq_pdf_sha256 d)),
      (''previous_document_id'', opt_json previous)]"

definition find_entry :: "(PriorEntry \<Rightarrow> bool) \<Rightarrow> CorpusPriorView \<Rightarrow> string option" where
  "find_entry P prior = map_option pe_document_id (List.find P (vals (cv_entries prior)))"

definition first_of :: "string option \<Rightarrow> string option \<Rightarrow> string option" where
  "first_of superseded fallback = (case superseded of None \<Rightarrow> fallback | s \<Rightarrow> s)"

record categories =
  ct_same_source :: "json list"
  ct_successors :: "json list"
  ct_new :: "json list"

definition prior_all :: "CorpusPriorView \<Rightarrow> string list" where
  "prior_all prior = sorted_set (cv_current_doc_ids prior @ cv_historical_doc_ids prior)"

text \<open>
  One current document that the prior corpus does not have as current.  \<open>hist\<close> are the ids of the acquired
  historical documents: \<open>replaced_predecessors\<close> is their intersection with the prior current ids.
\<close>

definition categorize ::
  "CorpusPriorView \<Rightarrow> string list \<Rightarrow> categories \<Rightarrow> string \<times> acquired \<Rightarrow> categories result"
where
  "categorize prior hist cats x = (case x of (doc_id, d) \<Rightarrow>
     let source = aq_source d; superseded = aq_supersedes_document_id d in
     rbind (source_id source) (\<lambda>sid.
     if sid \<in> set (map pe_source_id (vals (cv_entries prior)))
     then Inr (cats\<lparr>ct_same_source := ct_same_source cats @
       [revision_record doc_id sid d (first_of superseded (find_entry (\<lambda>pe. pe_source_id pe = sid) prior))]\<rparr>)
     else if (case superseded of None \<Rightarrow> False
              | Some s \<Rightarrow> s \<in> set hist \<and> s \<in> set (cv_current_doc_ids prior) \<or> s \<in> set (keys (cv_entries prior))
                  \<or> s \<in> set (prior_all prior))
          \<or> list_ex (\<lambda>pe. pe_product_code pe \<noteq> [] \<and> pe_issuer pe = sr_issuer source
              \<and> pe_product_code pe = sr_product_code source) (vals (cv_entries prior))
     then Inr (cats\<lparr>ct_successors := ct_successors cats @
       [revision_record doc_id sid d (first_of superseded (find_entry
          (\<lambda>pe. pe_issuer pe = sr_issuer source \<and> pe_product_code pe = sr_product_code source) prior))]\<rparr>)
     else Inr (cats\<lparr>ct_new := ct_new cats @ [product_record doc_id sid ''pdf_sha256'' d]\<rparr>)))"

definition request_for :: "CorpusPriorView \<Rightarrow> string \<Rightarrow> RetirementRequest" where
  "request_for prior i = (case map_of (cv_entries prior) i of
     Some e \<Rightarrow> \<lparr>rq_document_id = i, rq_source_id = pe_source_id e, rq_issuer = pe_issuer e,
       rq_product_code = pe_product_code e, rq_document_type = pe_document_type e,
       rq_pdf_sha256 = pe_pdf_sha256 e, rq_ocr_sha256 = pe_ocr_sha256 e\<rparr>
   | None \<Rightarrow> \<lparr>rq_document_id = i, rq_source_id = '''', rq_issuer = '''', rq_product_code = '''',
       rq_document_type = '''', rq_pdf_sha256 = '''', rq_ocr_sha256 = None\<rparr>)"

definition document_lineage :: "acquired \<Rightarrow> lineage" where
  "document_lineage d = (sr_issuer (aq_source d), sr_product_code (aq_source d), sr_document_type (aq_source d))"

text \<open>Retired records, candidate records and the ids that stay unjustified.\<close>

definition resolve_missing ::
  "RetirementResolver option \<Rightarrow> CorpusPriorView \<Rightarrow> string list \<Rightarrow> lineage list
   \<Rightarrow> (json list \<times> json list \<times> string list) result"
where
  "resolve_missing resolver prior missing lineages = (case resolver of
     None \<Rightarrow> Inr ([], [], missing)
   | Some resolve \<Rightarrow>
       rbind (resolve (map (request_for prior) missing) lineages) (\<lambda>outcome. case outcome of
         None \<Rightarrow> Inr ([], [], missing)
       | Some out \<Rightarrow> Inr (ro_retired out, ro_candidates out,
           sort (filter (\<lambda>i. i \<in> set missing) (keys (ro_unjustified out))))))"

definition corpus_diff_schema_version :: string where
  "corpus_diff_schema_version = ''cardrag.corpus-diff.v2''"

definition unseeded_report :: "string \<Rightarrow> (string, acquired) dict \<Rightarrow> (string, acquired) dict \<Rightarrow> CorpusDiffReport result" where
  "unseeded_report run_id current historical =
     rbind (rmap (\<lambda>(i, d). rbind (source_id (aq_source d)) (\<lambda>sid. Inr (product_record i sid ''pdf_sha256'' d)))
       (sort_key fst current)) (\<lambda>new_products.
     Inr \<lparr>cd_schema_version = corpus_diff_schema_version, cd_run_id = run_id, cd_baseline_kind = ''none'',
       cd_counts = [(''prior_current'', 0), (''prior_historical'', 0), (''unchanged'', 0),
         (''same_source_byte_revision'', 0), (''new_products'', int (length new_products)), (''successor_sources'', 0),
         (''replaced_predecessors'', 0), (''retired'', 0), (''retirement_candidates'', 0),
         (''final_current'', int (length current)), (''final_historical'', int (length historical)),
         (''final_corpus'', int (length (sorted_set (keys current @ keys historical)))), (''missing_unjustified'', 0)],
       cd_unchanged = [], cd_same_source_byte_revisions = [], cd_successor_sources = [], cd_new_products = new_products,
       cd_historical_maintained = sort (keys historical), cd_retired_lineages = [], cd_retirement_candidates = [],
       cd_missing_unjustified = []\<rparr>)"

definition seeded_report ::
  "string \<Rightarrow> (string, acquired) dict \<Rightarrow> (string, acquired) dict \<Rightarrow> CorpusPriorView \<Rightarrow> RetirementResolver option
   \<Rightarrow> lineage list \<Rightarrow> CorpusDiffReport result"
where
  "seeded_report run_id current historical prior resolver lineages =
     (let acquired_ids = keys current @ keys historical;
          prior_current = sorted_set (cv_current_doc_ids prior);
          unchanged = filter (\<lambda>i. i \<in> set (keys current)) prior_current;
          replaced = filter (\<lambda>i. i \<in> set (keys historical)) prior_current;
          new_current = filter (\<lambda>(i, d). i \<notin> set prior_current) (sort_key fst current);
          missing = filter (\<lambda>i. i \<notin> set acquired_ids) (prior_all prior) in
      rbind (rfold (categorize prior (keys historical)) \<lparr>ct_same_source = [], ct_successors = [], ct_new = []\<rparr> new_current)
        (\<lambda>cats.
      rbind (resolve_missing resolver prior missing lineages) (\<lambda>(retired, candidates, unjustified).
      Inr \<lparr>cd_schema_version = corpus_diff_schema_version, cd_run_id = run_id, cd_baseline_kind = cv_kind prior,
        cd_counts = [(''prior_current'', int (length prior_current)),
          (''prior_historical'', int (length (sorted_set (cv_historical_doc_ids prior)))),
          (''unchanged'', int (length unchanged)), (''same_source_byte_revision'', int (length (ct_same_source cats))),
          (''successor_sources'', int (length (ct_successors cats))), (''new_products'', int (length (ct_new cats))),
          (''replaced_predecessors'', int (length replaced)), (''retired'', int (length retired)),
          (''retirement_candidates'', int (length candidates)), (''final_current'', int (length current)),
          (''final_historical'', int (length historical)), (''final_corpus'', int (length (sorted_set acquired_ids))),
          (''missing_unjustified'', int (length unjustified))],
        cd_unchanged = unchanged, cd_same_source_byte_revisions = ct_same_source cats,
        cd_successor_sources = ct_successors cats, cd_new_products = ct_new cats,
        cd_historical_maintained = sort (keys historical), cd_retired_lineages = retired,
        cd_retirement_candidates = candidates, cd_missing_unjustified = unjustified\<rparr>)))"

definition gate_fails :: "bool \<Rightarrow> StateSeedLedger option \<Rightarrow> bool \<Rightarrow> string list \<Rightarrow> bool" where
  "gate_fails fail_on_missing seed_ledger has_resolver unjustified \<longleftrightarrow>
     unjustified \<noteq> [] \<and> fail_on_missing \<and>
     \<not> ((case seed_ledger of Some l \<Rightarrow> is_ocr_recovery_only l | None \<Rightarrow> False) \<and> \<not> has_resolver)"

definition generate_corpus_diff_report ::
  "string \<Rightarrow> acquired list \<Rightarrow> StateSeedLedger option \<Rightarrow> CorpusPriorView option \<Rightarrow> RetirementResolver option \<Rightarrow> bool
   \<Rightarrow> bool \<Rightarrow> string \<Rightarrow> lineage list option \<Rightarrow> bytes option \<times> CorpusDiffReport result"
where
  "generate_corpus_diff_report run_id acquired_documents seed_ledger prior_view resolver has_output fail_on_missing
     prior_observed_at discovered_lineages =
     (let prior = (case (prior_view, seed_ledger) of
            (None, Some l) \<Rightarrow> Some (prior_view_from_seed_ledger l prior_observed_at) | _ \<Rightarrow> prior_view);
          current_docs = filter (\<lambda>d. \<not> aq_is_historical d) acquired_documents;
          historical_docs = filter aq_is_historical acquired_documents;
          lineages = (case discovered_lineages of Some l \<Rightarrow> l | None \<Rightarrow> map document_lineage current_docs);
          report = rbind (acquired_map current_docs) (\<lambda>current. rbind (acquired_map historical_docs) (\<lambda>historical.
            case prior of None \<Rightarrow> unseeded_report run_id current historical
            | Some p \<Rightarrow> seeded_report run_id current historical p resolver lineages))
      in case report of
           Inl e \<Rightarrow> (None, Inl e)
         | Inr r \<Rightarrow>
             (case (if has_output then rbind (write_report r) (\<lambda>b. Inr (Some b)) else Inr None) of
                Inl e \<Rightarrow> (None, Inl e)
              | Inr written \<Rightarrow>
                  (written,
                   if prior \<noteq> None \<and> gate_fails fail_on_missing seed_ledger (resolver \<noteq> None) (cd_missing_unjustified r)
                   then Inl (CorpusDiffError run_id (int (length (cd_missing_unjustified r)))
                          (int (length (cd_retired_lineages r))) (int (length (cd_retirement_candidates r)))
                          (take 5 (cd_missing_unjustified r)))
                   else Inr r)))"

section \<open>The zero-loss gate\<close>

text \<open>What a resolver promises: every request is answered as retired, as a candidate or as unjustified.\<close>

definition answered :: "RetirementOutcome \<Rightarrow> string list" where
  "answered out = map record_id (ro_retired out) @ map record_id (ro_candidates out) @ keys (ro_unjustified out)"

locale retirement_resolver =
  fixes resolve :: RetirementResolver
  assumes answers: "resolve requests lineages = Inr (Some out) \<Longrightarrow> r \<in> set requests \<Longrightarrow> rq_document_id r \<in> set (answered out)"
begin

lemma resolve_missing_covers:
  assumes "resolve_missing (Some resolve) prior missing lineages = Inr (retired, candidates, unjustified)" "i \<in> set missing"
  shows "i \<in> set (map record_id retired) \<union> set (map record_id candidates) \<union> set unjustified"
proof -
  have rq: "rq_document_id (request_for prior i) = i" by (simp add: request_for_def split: option.splits)
  from assms(1) obtain outcome where o: "resolve (map (request_for prior) missing) lineages = Inr outcome"
    "(case outcome of None \<Rightarrow> Inr ([], [], missing)
       | Some out \<Rightarrow> Inr (ro_retired out, ro_candidates out,
           sort (filter (\<lambda>i. i \<in> set missing) (keys (ro_unjustified out))))) =
      (Inr (retired, candidates, unjustified) :: (json list \<times> json list \<times> string list) result)"
    by (auto simp: resolve_missing_def)
  show ?thesis
  proof (cases outcome)
    case None
    with o(2) assms(2) show ?thesis by simp
  next
    case (Some out)
    have "i \<in> set (answered out)" using answers [OF o(1) [unfolded Some], of "request_for prior i"] assms(2) rq by simp
    with Some o(2) assms(2) show ?thesis by (force simp: answered_def)
  qed
qed

end

lemma report_of_generate:
  assumes "generate_corpus_diff_report run docs seed prior_view resolver has_output fail observed discovered = (w, Inr r)"
    and "prior_view = Some prior"
  obtains current historical where
    "acquired_map (filter (\<lambda>d. \<not> aq_is_historical d) docs) = Inr current"
    "acquired_map (filter aq_is_historical docs) = Inr historical"
    "seeded_report run current historical prior resolver
      (case discovered of Some l \<Rightarrow> l | None \<Rightarrow> map document_lineage (filter (\<lambda>d. \<not> aq_is_historical d) docs)) = Inr r"
    "\<not> gate_fails fail seed (resolver \<noteq> None) (cd_missing_unjustified r)"
  using assms unfolding generate_corpus_diff_report_def Let_def
  by (auto split: sum.splits if_splits elim!: rbind_eq_Inr_iff [THEN iffD1, elim_format])

definition acquired_ids :: "acquired list \<Rightarrow> string set" where
  "acquired_ids docs = {i. \<exists>d \<in> set docs. document_id (aq_source d) (aq_pdf_sha256 d) = Inr i}"

lemma acquired_map_keys:
  assumes "acquired_map ds = Inr m" shows "set (keys m) = acquired_ids ds"
proof -
  from assms obtain kvs where kvs: "m = dict_of kvs"
    "list_all2 (\<lambda>d y. rbind (document_id (aq_source d) (aq_pdf_sha256 d)) (\<lambda>i. Inr (i, d)) = Inr y) ds kvs"
    by (auto simp: acquired_map_def rmap_Inr_iff)
  have "set (keys kvs) = acquired_ids ds"
    using kvs(2) by (induction ds kvs rule: list_all2_induct) (auto simp: acquired_ids_def)
  with kvs(1) keys_dict_of show ?thesis by metis
qed

lemma acquired_ids_split:
  "acquired_ids (filter (\<lambda>d. \<not> aq_is_historical d) docs) \<union> acquired_ids (filter aq_is_historical docs) = acquired_ids docs"
  by (auto simp: acquired_ids_def)

lemma seeded_missing:
  assumes "seeded_report run current historical prior resolver lineages = Inr r"
  obtains "resolve_missing resolver prior
      (filter (\<lambda>i. i \<notin> set (keys current @ keys historical)) (prior_all prior)) lineages =
        Inr (cd_retired_lineages r, cd_retirement_candidates r, cd_missing_unjustified r)"
  using assms by (auto simp: seeded_report_def Let_def)

context retirement_resolver
begin

lemma zero_loss:
  assumes "generate_corpus_diff_report run docs seed (Some prior) (Some resolve) has_output True observed discovered = (w, Inr r)"
    and "i \<in> set (cv_current_doc_ids prior) \<union> set (cv_historical_doc_ids prior)"
  shows "i \<in> acquired_ids docs \<union> set (map record_id (cd_retired_lineages r)) \<union> set (map record_id (cd_retirement_candidates r))"
proof -
  obtain current historical where m: "acquired_map (filter (\<lambda>d. \<not> aq_is_historical d) docs) = Inr current"
    "acquired_map (filter aq_is_historical docs) = Inr historical"
    "seeded_report run current historical prior (Some resolve)
      (case discovered of Some l \<Rightarrow> l | None \<Rightarrow> map document_lineage (filter (\<lambda>d. \<not> aq_is_historical d) docs)) = Inr r"
    "\<not> gate_fails True seed True (cd_missing_unjustified r)"
    using report_of_generate [OF assms(1) refl] by auto
  have none: "cd_missing_unjustified r = []" using m(4) by (auto simp: gate_fails_def)
  have ids: "set (keys current @ keys historical) = acquired_ids docs"
    using acquired_map_keys [OF m(1)] acquired_map_keys [OF m(2)] acquired_ids_split [of docs] by simp
  show ?thesis
  proof (cases "i \<in> acquired_ids docs")
    case False
    then have "i \<in> set (filter (\<lambda>i. i \<notin> set (keys current @ keys historical)) (prior_all prior))"
      using assms(2) by (simp only: ids set_filter) (simp add: prior_all_def)
    then have "i \<in> set (map record_id (cd_retired_lineages r)) \<union> set (map record_id (cd_retirement_candidates r)) \<union> set []"
      using seeded_missing [OF m(3)] unfolding none by (blast dest: resolve_missing_covers)
    then show ?thesis by simp
  qed simp
qed

end

section \<open>The counts of a report\<close>

definition count_of :: "CorpusDiffReport \<Rightarrow> string \<Rightarrow> int" where
  "count_of r name = the (map_of (cd_counts r) name)"

definition total_of :: "categories \<Rightarrow> nat" where
  "total_of c = length (ct_same_source c) + length (ct_successors c) + length (ct_new c)"

lemma categorize_total: "categorize prior hist c x = Inr c' \<Longrightarrow> total_of c' = Suc (total_of c)"
  by (auto simp: categorize_def Let_def total_of_def split: prod.splits if_splits)

lemma categorize_all: "rfold (categorize prior hist) c xs = Inr c' \<Longrightarrow> total_of c' = total_of c + length xs"
  by (induction xs arbitrary: c) (auto dest!: categorize_total)

lemma length_filter_swap:
  assumes "distinct xs" "distinct ys"
  shows "length (filter (\<lambda>x. x \<in> set ys) xs) = length (filter (\<lambda>y. y \<in> set xs) ys)"
proof -
  have "length (filter (\<lambda>x. x \<in> set ys) xs) = card (set xs \<inter> set ys)"
    using assms(1) by (subst distinct_card [symmetric]) (auto intro: arg_cong [where f = card])
  moreover have "length (filter (\<lambda>y. y \<in> set xs) ys) = card (set xs \<inter> set ys)"
    using assms(2) by (subst distinct_card [symmetric]) (auto intro: arg_cong [where f = card])
  ultimately show ?thesis by simp
qed

lemma acquired_map_wf: "acquired_map ds = Inr m \<Longrightarrow> wf_dict m"
  by (auto simp: acquired_map_def)

lemma new_and_unchanged:
  assumes "wf_dict current" "distinct prior"
  shows "length (filter (\<lambda>(i, d). i \<notin> set prior) (sort_key fst current)) +
    length (filter (\<lambda>i. i \<in> set (keys current)) prior) = length current"
proof -
  have "length (filter (\<lambda>i. i \<in> set (keys current)) prior) = length (filter (\<lambda>i. i \<in> set prior) (keys current))"
    by (rule length_filter_swap [OF assms(2,1)])
  also have "\<dots> = length (filter (\<lambda>x. fst x \<in> set prior) current)" by (simp add: filter_map comp_def)
  moreover have "length (filter (\<lambda>(i, d). i \<notin> set prior) (sort_key fst current)) = length (filter (\<lambda>x. fst x \<notin> set prior) current)"
    by (metis (mono_tags, lifting) case_prod_beta mset_filter mset_sort size_mset filter_cong)
  ultimately show ?thesis using sum_length_filter_compl [of "\<lambda>x. fst x \<in> set prior" current] by simp
qed

text \<open>
  The counts of a report add up: every current document of the new corpus is unchanged, a byte revision
  of a known source, the successor of a known product, or a new product, and is counted once.
\<close>

lemma corpus_diff_counts_balance:
  assumes "generate_corpus_diff_report run_id docs seed (Some prior) resolver has_output fail observed discovered = (w, Inr r)"
  shows "count_of r ''final_current'' = count_of r ''unchanged'' + count_of r ''same_source_byte_revision''
    + count_of r ''successor_sources'' + count_of r ''new_products''"
proof -
  from report_of_generate [OF assms refl] obtain current historical lineages where m:
    "acquired_map (filter (\<lambda>d. \<not> aq_is_historical d) docs) = Inr current"
    "seeded_report run_id current historical prior resolver lineages = Inr r" by metis
  let ?new = "filter (\<lambda>(i, d). i \<notin> set (sorted_set (cv_current_doc_ids prior))) (sort_key fst current)"
  from m(2) obtain cats where cats:
    "rfold (categorize prior (keys historical)) \<lparr>ct_same_source = [], ct_successors = [], ct_new = []\<rparr> ?new = Inr cats"
    "count_of r ''final_current'' = int (length current)"
    "count_of r ''unchanged'' = int (length (filter (\<lambda>i. i \<in> set (keys current)) (sorted_set (cv_current_doc_ids prior))))"
    "count_of r ''same_source_byte_revision'' = int (length (ct_same_source cats))"
    "count_of r ''successor_sources'' = int (length (ct_successors cats))" "count_of r ''new_products'' = int (length (ct_new cats))"
    unfolding seeded_report_def Let_def count_of_def by (auto simp del: set_map)
  have "total_of cats = length ?new" using categorize_all [OF cats(1)] by (simp add: total_of_def)
  moreover note new_and_unchanged [OF acquired_map_wf [OF m(1)] sorted_set_facts(2), of "cv_current_doc_ids prior"]
  ultimately show ?thesis unfolding cats(2-) total_of_def by linarith
qed

definition demo_acquired :: acquired where
  "demo_acquired = \<lparr>aq_source = demo_source ''n'', aq_pdf_sha256 = sha256_bytes ''x'', aq_is_historical = False, aq_supersedes_document_id = None\<rparr>"

definition demo_empty_prior :: CorpusPriorView where
  "demo_empty_prior = \<lparr>cv_kind = ''rolling-baseline'', cv_generation_id = ''g'', cv_run_id = ''r'', cv_observed_at = '''',
     cv_current_doc_ids = [], cv_historical_doc_ids = [], cv_entries = []\<rparr>"

lemma corpus_diff_counts_balance_witness:
  "\<exists>w r. generate_corpus_diff_report ''r'' [demo_acquired] None (Some demo_empty_prior) None False True [] None = (w, Inr r)
     \<and> count_of r ''final_current'' = count_of r ''unchanged'' + count_of r ''same_source_byte_revision''
       + count_of r ''successor_sources'' + count_of r ''new_products''"
proof -
  have parts: "\<not> aq_is_historical demo_acquired" "aq_supersedes_document_id demo_acquired = None"
    "cv_current_doc_ids demo_empty_prior = []" "cv_entries demo_empty_prior = []" "prior_all demo_empty_prior = []"
    by (simp_all add: demo_acquired_def demo_empty_prior_def prior_all_def sorted_set_def)
  obtain i where i: "document_id (aq_source demo_acquired) (aq_pdf_sha256 demo_acquired) = Inr i"
    by (simp add: demo_acquired_def document_id_eq)
  obtain sid where sid: "source_id (aq_source demo_acquired) = Inr sid"
    by (simp add: demo_acquired_def demo_source_def source_id_def wk_canonical_sha256_def wk_canonical_json_bytes_def discovery_payload_def)
  have map1: "acquired_map [demo_acquired] = Inr [(i, demo_acquired)]" "acquired_map [] = Inr []"
    by (simp_all add: acquired_map_def i dict_of_def)
  have "\<exists>r. generate_corpus_diff_report ''r'' [demo_acquired] None (Some demo_empty_prior) None False True [] None = (None, Inr r)"
    by (simp add: generate_corpus_diff_report_def Let_def parts map1 seeded_report_def sorted_set_def categorize_def sid
        resolve_missing_def gate_fails_def)
  with corpus_diff_counts_balance show ?thesis by blast
qed

end
