(* ===== verification/RetirementStore.thy ===== *)
theory RetirementStore
  imports Retirement
begin

text \<open>
  The storage half of \<open>cardrag_worker/retirement.py\<close>: sealed ledger versions on disk, the pointer to the
  latest one, their loading, writing and pruning.  The directory is the record \<open>ldir\<close>; the writer is the
  sequence of its directory operations, so that a crash is a prefix of that sequence.
\<close>

section \<open>The directory of sealed versions\<close>

text \<open>
  \<open>audit-reports/retirements\<close>: the version files by digest, in directory order, with content and
  \<open>st_mtime_ns\<close>; the text of the \<open>latest\<close> pointer; and what the path checks find.  Temporary files
  (dot files ending in \<open>.tmp\<close>) are invisible to every reader.
\<close>

record ldir =
  ld_exists :: bool
  ld_safe :: bool
  ld_versions :: "(string \<times> bytes \<times> int) list"
  ld_pointer :: "bytes option"
  ld_pointer_regular :: bool

definition try_load_version ::
  "foreign \<Rightarrow> (string \<Rightarrow> string) option \<Rightarrow> string \<Rightarrow> bytes \<Rightarrow> RetirementLedger option result"
where
  "try_load_version fr run_status digest content =
     rbind (raise_if (sha256_bytes content \<noteq> digest) invalid_ledger) (\<lambda>_.
     rbind (parse_ledger fr content) (\<lambda>ledger.
     if (case run_status of Some f \<Rightarrow> rl_updated_run_id ledger \<noteq> [] \<and> f (rl_updated_run_id ledger) \<notin> {''succeeded'', ''no_change''}
         | None \<Rightarrow> False)
     then Inr None
     else Inr (Some (ledger\<lparr>rl_ledger_sha256 := digest\<rparr>))))"

fun first_loaded ::
  "foreign \<Rightarrow> (string \<Rightarrow> string) option \<Rightarrow> (string \<times> bytes \<times> int) list \<Rightarrow> RetirementLedger option result"
where
  "first_loaded fr run_status [] = Inr None"
| "first_loaded fr run_status ((digest, content, _) # vs) =
     rbind (try_load_version fr run_status digest content) (\<lambda>loaded.
     case loaded of Some l \<Rightarrow> Inr (Some l) | None \<Rightarrow> first_loaded fr run_status vs)"

definition newest_first :: "(string \<times> bytes \<times> int) list \<Rightarrow> (string \<times> bytes \<times> int) list" where
  "newest_first vs = sort_key (\<lambda>(_, _, mtime). - mtime) vs"

definition load_retirement_ledger ::
  "foreign \<Rightarrow> (string \<Rightarrow> string) option \<Rightarrow> ldir \<Rightarrow> RetirementLedger option result"
where
  "load_retirement_ledger fr run_status d =
     (if \<not> ld_exists d then Inr None
      else if \<not> ld_safe d then Inl (RetirementError ''unsafe_retirement_path'')
      else if ld_versions d = [] then Inr None
      else
        rbind (case ld_pointer d of None \<Rightarrow> Inr None
          | Some text \<Rightarrow>
            rbind (raise_if (\<not> ld_pointer_regular d) invalid_ledger) (\<lambda>_.
            rbind (raise_if (list_ex (\<lambda>c. (of_char c :: nat) \<ge> 128) text) (ValueError ''ascii'')) (\<lambda>_.
            let pointer = strip text in
            rbind (raise_if (\<not> sha256_hex pointer) invalid_ledger) (\<lambda>_.
            case map_of (ld_versions d) pointer of
              None \<Rightarrow> Inl invalid_ledger
            | Some (content, _) \<Rightarrow> try_load_version fr run_status pointer content)))) (\<lambda>loaded.
        case loaded of Some l \<Rightarrow> Inr (Some l)
        | None \<Rightarrow> first_loaded fr run_status (newest_first (ld_versions d))))"

text \<open>The directory operations of the writer, in order; \<open>LinkVersion\<close> keeps an existing version.\<close>

datatype dir_op = LinkVersion string bytes | UnlinkPointer | LinkPointer bytes

definition write_ops :: "RetirementLedger \<Rightarrow> dir_op list result" where
  "write_ops ledger =
     rbind (ledger_bytes ledger) (\<lambda>payload.
     rbind (raise_if (int (length payload) > 32 * 1024 * 1024) (RetirementError ''retirement_ledger_limit_exceeded'')) (\<lambda>_.
     let version_sha = sha256_bytes payload in
     Inr [LinkVersion version_sha payload, UnlinkPointer, LinkPointer (version_sha @ [CHR 0x0A])]))"

fun apply_op :: "int \<Rightarrow> dir_op \<Rightarrow> ldir \<Rightarrow> ldir result" where
  "apply_op now (LinkVersion digest content) d =
     (case map_of (ld_versions d) digest of
        None \<Rightarrow> Inr (d\<lparr>ld_versions := ld_versions d @ [(digest, content, now)]\<rparr>)
      | Some (existing, _) \<Rightarrow> if length existing \<noteq> length content
          then Inl (RetirementError ''retirement_ledger_conflict'') else Inr d)"
| "apply_op now UnlinkPointer d = Inr (d\<lparr>ld_pointer := None\<rparr>)"
| "apply_op now (LinkPointer text) d = Inr (d\<lparr>ld_pointer := Some text, ld_pointer_regular := True\<rparr>)"

definition apply_ops :: "int \<Rightarrow> dir_op list \<Rightarrow> ldir \<Rightarrow> ldir result" where
  "apply_ops now ops d = rfold (\<lambda>d op. apply_op now op d) d ops"

definition write_retirement_ledger :: "int \<Rightarrow> RetirementLedger \<Rightarrow> ldir \<Rightarrow> ldir result" where
  "write_retirement_ledger now ledger d =
     rbind (write_ops ledger) (\<lambda>ops.
     rbind (raise_if (ld_exists d \<and> \<not> ld_safe d) (RetirementError ''unsafe_retirement_path'')) (\<lambda>_.
     apply_ops now ops (d\<lparr>ld_exists := True, ld_safe := True\<rparr>)))"

fun fill_kept :: "nat \<Rightarrow> string list \<Rightarrow> string list \<Rightarrow> string list" where
  "fill_kept keep kept [] = kept"
| "fill_kept keep kept (n # ns) =
     (if length kept \<ge> keep then kept
      else fill_kept keep (if n \<in> set kept then kept else kept @ [n]) ns)"

definition pointer_target :: "ldir \<Rightarrow> string option" where
  "pointer_target d = (case ld_pointer d of None \<Rightarrow> None
     | Some raw \<Rightarrow> if \<not> ld_pointer_regular d \<or> list_ex (\<lambda>c. (of_char c :: nat) \<ge> 128) raw then None
         else Some (strip raw))"

definition kept_versions :: "int \<Rightarrow> ldir \<Rightarrow> string list" where
  "kept_versions keep d = fill_kept (nat keep) (case pointer_target d of None \<Rightarrow> [] | Some p \<Rightarrow> [p])
     (map fst (sort_key (\<lambda>(name, _, mtime). (- mtime, name)) (ld_versions d)))"

definition prune_retirement_ledgers :: "int \<Rightarrow> ldir \<Rightarrow> (nat \<times> ldir) result" where
  "prune_retirement_ledgers keep d =
     rbind (raise_if (keep < 1) (RetirementError ''retirement_keep_invalid'')) (\<lambda>_.
     if \<not> ld_exists d then Inr (0, d)
     else
       let kept = kept_versions keep d in
       Inr (length (filter (\<lambda>v. fst v \<notin> set kept) (ld_versions d)),
            d\<lparr>ld_versions := filter (\<lambda>v. fst v \<in> set kept) (ld_versions d)\<rparr>))"

section \<open>Loading during a write\<close>

lemma sort_key_snoc_least: "\<forall>y \<in> set xs. f x < f y \<Longrightarrow> sort_key f (xs @ [x]) = x # sort_key f xs"
  by (induction xs) auto

lemma lstrip_head:
  assumes "\<And>p. p \<in> set sp \<Longrightarrow> p \<noteq> [] \<Longrightarrow> hd p \<noteq> c"
  shows "lstrip sp (c # s) = c # s"
proof -
  have "hd p = c" if "p \<noteq> []" "take (length p) (c # s) = p" for p using that by (cases p) auto
  with assms have "find (\<lambda>p. p \<noteq> [] \<and> take (length p) (c # s) = p) sp = None"
    unfolding find_None_iff by blast
  then show ?thesis by (subst lstrip.simps) simp
qed

lemma strip_pointer:
  assumes "sha256_hex p" shows "strip (p @ [CHR 0x0A]) = p"
proof -
  from assms obtain c cs where p: "p = c # cs" "is_hex c" by (cases p) (auto simp: sha256_hex_def)
  then have "lstrip utf8_spaces (p @ [CHR 0x0A]) = p @ [CHR 0x0A]"
    by (auto simp: utf8_spaces_def is_hex_def is_digit_def less_eq_char_def intro!: lstrip_head)
  moreover have "lstrip (map rev utf8_spaces) (CHR 0x0A # rev p) = lstrip (map rev utf8_spaces) (rev p)"
    by (subst lstrip.simps) (simp add: utf8_spaces_def)
  moreover have "lstrip (map rev utf8_spaces) (rev p) = rev p"
    by (rule lstrip_printable(2) [OF sha256_printable [OF assms]])
  ultimately show ?thesis by (simp add: strip_def)
qed

lemma hex_ascii: "sha256_hex p \<Longrightarrow> \<not> list_ex (\<lambda>c. (of_char c :: nat) \<ge> 128) p"
  by (auto simp: sha256_hex_def list_all_iff list_ex_iff is_hex_def is_digit_def less_eq_char_def)

lemma load_pointed:
  assumes "ld_exists d" "ld_safe d" "ld_pointer_regular d" "ld_pointer d = Some (p @ [CHR 0x0A])" "sha256_hex p"
    and "map_of (ld_versions d) p = Some (c, m)"
  shows "load_retirement_ledger fr rs d = rbind (try_load_version fr rs p c) (\<lambda>loaded.
    case loaded of Some l \<Rightarrow> Inr (Some l) | None \<Rightarrow> first_loaded fr rs (newest_first (ld_versions d)))"
  using assms hex_ascii [OF assms(5)] by (auto simp: load_retirement_ledger_def strip_pointer Let_def)

lemma load_unpointed:
  assumes "ld_exists d" "ld_safe d" "ld_pointer d = None"
  shows "load_retirement_ledger fr rs d = first_loaded fr rs (newest_first (ld_versions d))"
  using assms by (auto simp: load_retirement_ledger_def newest_first_def)

text \<open>
  A directory between writes: nothing was ever sealed, or the pointer names the newest version, which
  loads.
\<close>

definition settled :: "foreign \<Rightarrow> (string \<Rightarrow> string) option \<Rightarrow> ldir \<Rightarrow> bool" where
  "settled fr rs d \<longleftrightarrow> ld_exists d \<and> ld_safe d \<and> wf_dict (ld_versions d) \<and>
     (case ld_pointer d of None \<Rightarrow> ld_versions d = []
      | Some raw \<Rightarrow> ld_pointer_regular d \<and> (\<exists>p c m rest old. raw = p @ [CHR 0x0A] \<and> sha256_hex p \<and>
          newest_first (ld_versions d) = (p, c, m) # rest \<and> try_load_version fr rs p c = Inr (Some old)))"

lemma newest_first_set [simp]: "set (newest_first vs) = set vs"
  by (simp add: newest_first_def)

lemma settledE:
  assumes "settled fr rs d"
  obtains (fresh) "ld_exists d" "ld_safe d" "ld_pointer d = None" "ld_versions d = []" "load_retirement_ledger fr rs d = Inr None"
  | (pointed) p c m rest old where "ld_exists d" "ld_safe d" "ld_pointer_regular d" "ld_pointer d = Some (p @ [CHR 0x0A])"
      "sha256_hex p" "map_of (ld_versions d) p = Some (c, m)" "newest_first (ld_versions d) = (p, c, m) # rest"
      "try_load_version fr rs p c = Inr (Some old)" "load_retirement_ledger fr rs d = Inr (Some old)"
proof (cases "ld_pointer d")
  case None
  with assms fresh show thesis by (auto simp: settled_def load_retirement_ledger_def)
next
  case (Some raw)
  with assms obtain p c m rest old where p: "ld_exists d" "ld_safe d" "wf_dict (ld_versions d)" "ld_pointer_regular d"
      "raw = p @ [CHR 0x0A]" "sha256_hex p" "newest_first (ld_versions d) = (p, c, m) # rest"
      "try_load_version fr rs p c = Inr (Some old)" by (auto simp: settled_def)
  have "(p, c, m) \<in> set (ld_versions d)" using arg_cong [OF p(7), of set] by auto
  with p(3) have here: "map_of (ld_versions d) p = Some (c, m)" by simp
  show thesis
    using Some p here load_pointed [OF p(1,2,4) _ p(6) here, of fr rs] by (intro pointed) auto
qed

text \<open>The version file is in place after the first operation, and is newer than every other or known.\<close>

definition linked :: "int \<Rightarrow> string \<Rightarrow> bytes \<Rightarrow> ldir \<Rightarrow> ldir" where
  "linked now dg b d = (if map_of (ld_versions d) dg \<noteq> None then d else d\<lparr>ld_versions := ld_versions d @ [(dg, b, now)]\<rparr>)"

lemma link_version:
  assumes "\<And>c m. map_of (ld_versions d) dg = Some (c, m) \<Longrightarrow> c = b"
  shows "apply_op now (LinkVersion dg b) d = Inr (linked now dg b d)"
  using assms by (cases "map_of (ld_versions d) dg") (auto simp: linked_def)

lemma linked_lookup:
  assumes "\<And>c m. map_of (ld_versions d) dg = Some (c, m) \<Longrightarrow> c = b"
  shows "\<exists>m. map_of (ld_versions (linked now dg b d)) dg = Some (b, m)"
  using assms by (cases "map_of (ld_versions d) dg") (auto simp: linked_def map_add_def)

lemma linked_simps [simp]:
  "ld_exists (linked now dg b d) = ld_exists d" "ld_safe (linked now dg b d) = ld_safe d"
  "ld_pointer (linked now dg b d) = ld_pointer d" "ld_pointer_regular (linked now dg b d) = ld_pointer_regular d"
  by (simp_all add: linked_def)

lemma linked_newest:
  assumes "\<forall>v \<in> set (ld_versions d). snd (snd v) < now"
  shows "newest_first (ld_versions (linked now dg b d)) =
    (if map_of (ld_versions d) dg \<noteq> None then newest_first (ld_versions d) else (dg, b, now) # newest_first (ld_versions d))"
  using assms by (auto simp: linked_def newest_first_def intro!: sort_key_snoc_least)

text \<open>What the scan finds once the version is linked: the new ledger, or what the directory held before.\<close>

lemma scan_linked:
  assumes "settled fr rs d" "\<forall>v \<in> set (ld_versions d). snd (snd v) < now"
    and "try_load_version fr rs dg b = Inr new"
  shows "first_loaded fr rs (newest_first (ld_versions (linked now dg b d))) = load_retirement_ledger fr rs d
    \<or> new \<noteq> None \<and> first_loaded fr rs (newest_first (ld_versions (linked now dg b d))) = Inr new"
  using assms(1)
proof (cases rule: settledE)
  case fresh
  then show ?thesis using assms(3) by (auto simp: linked_def newest_first_def split: option.splits)
next
  case (pointed p c m rest old)
  then show ?thesis using assms(2,3) by (auto simp: linked_newest split: option.splits)
qed

lemma map_of_linked: "map_of (ld_versions d) p = Some v \<Longrightarrow> map_of (ld_versions (linked now dg b d)) p = Some v"
  by (simp add: linked_def map_add_def)

definition sealed :: "RetirementLedger \<Rightarrow> bytes \<Rightarrow> RetirementLedger" where
  "sealed l b = (norm_ledger l)\<lparr>rl_ledger_sha256 := sha256_bytes b\<rparr>"

lemma try_load_sealed:
  assumes "wf_ledger l" "ledger_bytes l = Inr b"
  shows "try_load_version fr rs (sha256_bytes b) b \<in> {Inr None, Inr (Some (sealed l b))}"
    "try_load_version fr None (sha256_bytes b) b = Inr (Some (sealed l b))"
  using parse_ledger_bytes [OF assms, of fr] by (simp_all add: try_load_version_def sealed_def)

lemma load_linked:
  assumes "settled fr rs d" "\<forall>v \<in> set (ld_versions d). snd (snd v) < now"
    and "try_load_version fr rs dg b = Inr new"
  shows "load_retirement_ledger fr rs (linked now dg b d) = load_retirement_ledger fr rs d
      \<or> new \<noteq> None \<and> load_retirement_ledger fr rs (linked now dg b d) = Inr new"
  using assms(1)
proof (cases rule: settledE)
  case fresh
  with load_unpointed [of "linked now dg b d" fr rs] scan_linked [OF assms] show ?thesis by simp
next
  case (pointed p c m rest old)
  with load_pointed [of "linked now dg b d" p c m fr rs] map_of_linked [OF pointed(6)] show ?thesis by simp
qed

lemma load_unlinked:
  assumes "settled fr rs d" "\<forall>v \<in> set (ld_versions d). snd (snd v) < now"
    and "try_load_version fr rs dg b = Inr new"
  shows "load_retirement_ledger fr rs (linked now dg b d\<lparr>ld_pointer := None\<rparr>) = load_retirement_ledger fr rs d
      \<or> new \<noteq> None \<and> load_retirement_ledger fr rs (linked now dg b d\<lparr>ld_pointer := None\<rparr>) = Inr new"
  using scan_linked [OF assms] load_unpointed [of "linked now dg b d\<lparr>ld_pointer := None\<rparr>" fr rs] assms(1)
  by (simp add: settled_def)

lemma load_repointed:
  assumes "settled fr rs d" "\<forall>v \<in> set (ld_versions d). snd (snd v) < now"
    and "try_load_version fr rs dg b = Inr new" "sha256_hex dg"
    and "\<And>c m. map_of (ld_versions d) dg = Some (c, m) \<Longrightarrow> c = b"
    and "d' = linked now dg b d\<lparr>ld_pointer := Some (dg @ [CHR 0x0A]), ld_pointer_regular := True\<rparr>"
  shows "load_retirement_ledger fr rs d' = (case new of None \<Rightarrow> load_retirement_ledger fr rs d | Some l \<Rightarrow> Inr (Some l))"
proof -
  obtain m where "map_of (ld_versions (linked now dg b d)) dg = Some (b, m)"
    using linked_lookup [where now = now, of d dg b] assms(5) by blast
  then have "load_retirement_ledger fr rs d' = rbind (try_load_version fr rs dg b) (\<lambda>loaded.
      case loaded of Some l \<Rightarrow> Inr (Some l) | None \<Rightarrow> first_loaded fr rs (newest_first (ld_versions (linked now dg b d))))"
    using assms(1,4,6) load_pointed [of d' dg b m fr rs] by (simp add: settled_def)
  then show ?thesis using assms(3) scan_linked [OF assms(1-3)] by (auto split: option.splits)
qed

lemma write_ops_eq:
  assumes "write_ops l = Inr ops" "ledger_bytes l = Inr b"
  shows "ops = [LinkVersion (sha256_bytes b) b, UnlinkPointer, LinkPointer (sha256_bytes b @ [CHR 0x0A])]"
  using assms by (auto simp: write_ops_def Let_def)

text \<open>
  C31. Writing a ledger is crash safe: whatever number of the writer's directory operations took place,
  a reader loads the ledger it loaded before or the new one, never an error and never nothing.  Once all
  of them took place, a reader without a run filter loads the new one.
\<close>

theorem retirement_write_crash_safe:
  assumes "settled fr rs d" "wf_ledger l" "ledger_bytes l = Inr b" "write_ops l = Inr ops"
    and "\<forall>v \<in> set (ld_versions d). snd (snd v) < now"
    and "\<And>c m. map_of (ld_versions d) (sha256_bytes b) = Some (c, m) \<Longrightarrow> c = b"
  shows "\<exists>d'. apply_ops now (take k ops) d = Inr d' \<and>
    load_retirement_ledger fr rs d' \<in> {load_retirement_ledger fr rs d, Inr (Some (sealed l b))} \<and>
    (3 \<le> k \<and> rs = None \<longrightarrow> load_retirement_ledger fr rs d' = Inr (Some (sealed l b)))"
proof -
  let ?dg = "sha256_bytes b" and ?d1 = "linked now (sha256_bytes b) b d"
  obtain new where new: "try_load_version fr rs ?dg b = Inr new" "new = None \<or> new = Some (sealed l b)"
    "rs = None \<Longrightarrow> new = Some (sealed l b)"
    using try_load_sealed [OF assms(2,3), of fr] by (cases "try_load_version fr rs ?dg b") fastforce+
  note load = load_linked [OF assms(1,5) new(1)] load_unlinked [OF assms(1,5) new(1)]
    load_repointed [OF assms(1,5) new(1) sha256_bytes_hex assms(6) refl]
  have link: "apply_op now (LinkVersion ?dg b) d = Inr ?d1" by (rule link_version [OF assms(6)])
  consider "k = 0" | "k = 1" | "k = 2" | "3 \<le> k" by linarith
  then show ?thesis
  proof cases
    case 3
    then show ?thesis using load(2) new(2) write_ops_eq [OF assms(4,3)] link
      by (auto simp: apply_ops_def numeral_2_eq_2)
  next
    case 4
    then have "take k ops = ops" using write_ops_eq [OF assms(4,3)] by simp
    then show ?thesis using load(3) new(2,3) write_ops_eq [OF assms(4,3)] link
      by (auto simp: apply_ops_def)
  qed (use load(1) new(2) write_ops_eq [OF assms(4,3)] link in \<open>auto simp: apply_ops_def\<close>)
qed

definition demo_dir :: ldir where
  "demo_dir = \<lparr>ld_exists = True, ld_safe = True, ld_versions = [], ld_pointer = None, ld_pointer_regular = True\<rparr>"

definition demo_empty_ledger :: RetirementLedger where
  "demo_empty_ledger = \<lparr>rl_updated_run_id = ''r1'', rl_entries = [], rl_ledger_sha256 = ''''\<rparr>"

lemma demo_write_ops:
  "wf_ledger demo_empty_ledger" "\<exists>ops. write_ops demo_empty_ledger = Inr ops"
proof -
  show wf: "wf_ledger demo_empty_ledger" by (simp add: wf_ledger_def demo_empty_ledger_def)
  have "length (dumps True (ledger_payload demo_empty_ledger)) < 200" by code_simp
  then have "\<not> int (length (dumps True (ledger_payload demo_empty_ledger))) > 32 * 1024 * 1024" by linarith
  then show "\<exists>ops. write_ops demo_empty_ledger = Inr ops"
    unfolding write_ops_def ledger_bytes_returns [OF wf] rbind_simps raise_if_def Let_def by simp
qed

theorem retirement_write_crash_safe_witness:
  "\<exists>b ops d'. ledger_bytes demo_empty_ledger = Inr b \<and> write_ops demo_empty_ledger = Inr ops \<and>
     apply_ops 1 (take 3 ops) demo_dir = Inr d' \<and>
     load_retirement_ledger demo_foreign None d' = Inr (Some (sealed demo_empty_ledger b))"
proof -
  obtain ops where ops: "write_ops demo_empty_ledger = Inr ops" using demo_write_ops(2) by blast
  have "settled demo_foreign None demo_dir" by (simp add: settled_def demo_dir_def)
  from retirement_write_crash_safe [OF this demo_write_ops(1) ledger_bytes_returns [OF demo_write_ops(1)] ops, of 1 3] ops
    ledger_bytes_returns [OF demo_write_ops(1)]
  show ?thesis by (auto simp: demo_dir_def)
qed

section \<open>Pruning\<close>

lemma fill_kept_extends: "set kept \<subseteq> set (fill_kept keep kept ns)"
proof (induction ns arbitrary: kept)
  case (Cons n ns)
  then show ?case using Cons.IH [of "kept @ [n]"] by auto
qed simp

lemma fill_kept_length: "length kept \<le> max keep 1 \<Longrightarrow> length (fill_kept keep kept ns) \<le> max keep 1"
  by (induction ns arbitrary: kept) auto

lemma distinct_filter_length:
  assumes "distinct (map f xs)" shows "length (filter (\<lambda>x. f x \<in> set ys) xs) \<le> length ys"
proof -
  let ?zs = "map f (filter (\<lambda>x. f x \<in> set ys) xs)"
  have "length ?zs = card (set ?zs)" using assms by (simp add: distinct_map_filter distinct_card del: set_map)
  also have "\<dots> \<le> card (set ys)" by (rule card_mono) auto
  also have "\<dots> \<le> length ys" by (rule card_length)
  finally show ?thesis by simp
qed

lemma kept_length: "1 \<le> keep \<Longrightarrow> length (kept_versions keep d) \<le> nat keep"
  using fill_kept_length [of "case pointer_target d of None \<Rightarrow> [] | Some p \<Rightarrow> [p]" "nat keep"]
  by (auto simp: kept_versions_def split: option.splits)

lemma kept_pointer:
  assumes "ld_pointer d = Some (p @ [CHR 0x0A])" "ld_pointer_regular d" "sha256_hex p"
  shows "p \<in> set (kept_versions keep d)"
proof -
  have "pointer_target d = Some p" using assms hex_ascii [OF assms(3)] by (simp add: pointer_target_def strip_pointer)
  then show ?thesis using fill_kept_extends [of "[p]" "nat keep"] by (simp add: kept_versions_def)
qed

lemma prune_result:
  assumes "prune_retirement_ledgers keep d = Inr (n, d')" "ld_exists d"
  obtains kept where "d' = d\<lparr>ld_versions := filter (\<lambda>v. fst v \<in> set kept) (ld_versions d)\<rparr>" "1 \<le> keep"
    "length kept \<le> nat keep" "n = length (filter (\<lambda>v. fst v \<notin> set kept) (ld_versions d))"
    "\<And>p. ld_pointer d = Some (p @ [CHR 0x0A]) \<Longrightarrow> ld_pointer_regular d \<Longrightarrow> sha256_hex p \<Longrightarrow> p \<in> set kept"
  using assms that [of "kept_versions keep d"] kept_length [of keep d] kept_pointer [of d _ keep]
  by (auto simp: prune_retirement_ledgers_def Let_def)

text \<open>
  Pruning keeps at most the requested number of versions, deletes only version files, counts what it
  deletes, and never changes what a reader loads from a settled directory.
\<close>

lemma retirement_prune_preserves_load:
  assumes "settled fr rs d" "prune_retirement_ledgers keep d = Inr (n, d')"
  shows "load_retirement_ledger fr rs d' = load_retirement_ledger fr rs d
    \<and> length (ld_versions d') \<le> nat keep \<and> n + length (ld_versions d') = length (ld_versions d)
    \<and> set (ld_versions d') \<subseteq> set (ld_versions d) \<and> ld_pointer d' = ld_pointer d"
proof -
  have ex: "ld_exists d" "wf_dict (ld_versions d)" using assms(1) by (auto simp: settled_def)
  obtain kept where kept: "d' = d\<lparr>ld_versions := filter (\<lambda>v. fst v \<in> set kept) (ld_versions d)\<rparr>" "1 \<le> keep"
    "length kept \<le> nat keep" "n = length (filter (\<lambda>v. fst v \<notin> set kept) (ld_versions d))"
    "\<And>p. ld_pointer d = Some (p @ [CHR 0x0A]) \<Longrightarrow> ld_pointer_regular d \<Longrightarrow> sha256_hex p \<Longrightarrow> p \<in> set kept"
    using prune_result [OF assms(2) ex(1)] by blast
  have len: "length (ld_versions d') \<le> nat keep"
    using distinct_filter_length [OF ex(2), of kept] kept(1,3) by simp
  have count: "n + length (ld_versions d') = length (ld_versions d)"
    using sum_length_filter_compl [of "\<lambda>v. fst v \<in> set kept" "ld_versions d"] kept(1,4) by simp
  have "load_retirement_ledger fr rs d' = load_retirement_ledger fr rs d"
    using assms(1)
  proof (cases rule: settledE)
    case fresh
    with kept(1) show ?thesis by (simp add: load_retirement_ledger_def)
  next
    case (pointed p c m rest old)
    have "p \<in> set kept" using kept(5) pointed by blast
    moreover have "(p, c, m) \<in> set (ld_versions d)" by (rule map_of_SomeD [OF pointed(6)])
    ultimately have "(p, c, m) \<in> set (ld_versions d')" using kept(1) by simp
    moreover have "wf_dict (ld_versions d')" using kept(1) ex(2) by (simp add: distinct_map_filter)
    ultimately have "map_of (ld_versions d') p = Some (c, m)" by simp
    with pointed kept(1) load_pointed [of d' p c m fr rs] show ?thesis by simp
  qed
  with len count kept(1) show ?thesis by auto
qed

lemma retirement_prune_preserves_load_witness:
  "\<exists>n d'. prune_retirement_ledgers 2 demo_dir = Inr (n, d') \<and> length (ld_versions d') \<le> 2
     \<and> load_retirement_ledger demo_foreign None d' = load_retirement_ledger demo_foreign None demo_dir"
proof -
  have "prune_retirement_ledgers 2 demo_dir = Inr (0, demo_dir)"
    by (simp add: prune_retirement_ledgers_def demo_dir_def)
  moreover have "settled demo_foreign None demo_dir" by (simp add: settled_def demo_dir_def)
  ultimately show ?thesis using retirement_prune_preserves_load [of demo_foreign None demo_dir 2 0 demo_dir] by auto
qed

end
