(* ===== verification/CorpusGate.thy ===== *)
theory CorpusGate
  imports CorpusDiff RetirementStore
begin

text \<open>
  The part of \<open>cardrag_worker/pipeline.py\<close> that connects the corpus gate with the retirement policy:
  \<open>_retirement_evidence_ok\<close>, \<open>_build_retirement_resolver\<close> and \<open>_commit_pending_retirement_ledger\<close>.

  \<open>evidence_env\<close> is what the worker's database, disk and WebDAV client answer to the lookups of the evidence
  check: which sources and revisions the PDF cache knows, the bytes of a cached object (\<open>None\<close> when it cannot be
  resolved below its own prefix directory or read), the OCR files found locally in glob order (\<open>None\<close> for one
  that cannot be read) and the answer of the content-addressed store (\<open>None\<close> without a client or on failure).
\<close>

record evidence_env =
  en_source_exists :: "string \<Rightarrow> bool"
  en_revision_count :: "string \<Rightarrow> int"
  en_cached :: "string \<Rightarrow> bool"
  en_pdf_bytes :: "string \<Rightarrow> bytes option"
  en_seed_ocr :: "string \<Rightarrow> bytes option"
  en_run_ocr :: "string \<Rightarrow> bytes option list"
  en_cas_get :: "string \<Rightarrow> (int \<times> bytes) option"

definition ocr_matches :: "string \<Rightarrow> bytes \<Rightarrow> bool" where
  "ocr_matches sha content \<longleftrightarrow> sha256_bytes content = sha \<and> length content > 0"

definition retirement_evidence_ok :: "evidence_env \<Rightarrow> AbsentDocument \<Rightarrow> bool" where
  "retirement_evidence_ok env d =
     (if ab_source_id d = [] \<or> \<not> sha256_hex (ab_pdf_sha256 d) then False
      else if \<not> en_source_exists env (ab_source_id d) then False
      else if en_revision_count env (ab_source_id d) < 1 then False
      else if \<not> en_cached env (ab_pdf_sha256 d) then False
      else case en_pdf_bytes env (ab_pdf_sha256 d) of None \<Rightarrow> False
        | Some content \<Rightarrow>
          if sha256_bytes content \<noteq> ab_pdf_sha256 d then False
          else case ab_ocr_sha256 d of None \<Rightarrow> False
            | Some ocr \<Rightarrow>
              if \<not> sha256_hex ocr then False
              else if (case en_seed_ocr env (ab_document_id d) of Some b \<Rightarrow> ocr_matches ocr b | None \<Rightarrow> False) then True
              else if list_ex (\<lambda>f. case f of Some b \<Rightarrow> ocr_matches ocr b | None \<Rightarrow> False) (en_run_ocr env (ab_document_id d))
                then True
              else (case en_cas_get env ocr of Some (status, b) \<Rightarrow> status = 200 \<and> ocr_matches ocr b | None \<Rightarrow> False))"

definition absent_of_request :: "CorpusPriorView \<Rightarrow> RetirementRequest \<Rightarrow> AbsentDocument" where
  "absent_of_request prior r =
     \<lparr>ab_document_id = rq_document_id r, ab_source_id = rq_source_id r, ab_issuer = rq_issuer r,
      ab_product_code = rq_product_code r, ab_document_type = rq_document_type r, ab_pdf_sha256 = rq_pdf_sha256 r,
      ab_ocr_sha256 = rq_ocr_sha256 r, ab_last_observed_run_id = cv_run_id prior, ab_last_observed_at = cv_observed_at prior\<rparr>"

definition absent_of_entry :: "RetirementEntry \<Rightarrow> AbsentDocument" where
  "absent_of_entry e =
     \<lparr>ab_document_id = re_document_id e, ab_source_id = re_source_id e, ab_issuer = re_issuer e,
      ab_product_code = re_product_code e, ab_document_type = re_document_type e, ab_pdf_sha256 = re_pdf_sha256 e,
      ab_ocr_sha256 = re_ocr_sha256 e, ab_last_observed_run_id = re_last_observed_run_id e,
      ab_last_observed_at = re_last_observed_at e\<rparr>"

definition absent_documents ::
  "CorpusPriorView \<Rightarrow> RetirementLedger option \<Rightarrow> RetirementRequest list \<Rightarrow> lineage list \<Rightarrow> (string, AbsentDocument) dict"
where
  "absent_documents prior ledger requests lineages =
     fold (\<lambda>e absent.
         if re_status e \<noteq> Candidate \<or> re_document_id e \<in> set (keys absent) then absent
         else if re_lineage_key e \<in> set lineages \<or> re_document_id e \<in> set (keys (cv_entries prior)) then absent
         else AList.update (re_document_id e) (absent_of_entry e) absent)
       (case ledger of Some l \<Rightarrow> rl_entries l | None \<Rightarrow> [])
       (dict_of (map (\<lambda>r. (rq_document_id r, absent_of_request prior r)) requests))"

text \<open>The evidence of the documents in order; beyond the budget nothing is looked up and evidence counts as missing.\<close>

fun gather_evidence :: "evidence_env \<Rightarrow> lineage list \<Rightarrow> int \<Rightarrow> AbsentDocument list \<Rightarrow> (string, bool) dict \<times> (string, bool) dict" where
  "gather_evidence env lineages budget [] = ([], [])"
| "gather_evidence env lineages budget (d # ds) =
     (let (durable, lineage_absent) = gather_evidence env lineages (budget - 1) ds in
      ((ab_document_id d, 0 < budget \<and> retirement_evidence_ok env d) # durable,
       (ab_document_id d, ab_lineage_key d \<notin> set lineages) # lineage_absent))"

record pipeline =
  pl_grace_runs :: int
  pl_grace_days :: int
  pl_max_per_run :: int
  pl_env :: evidence_env
  pl_foreign :: foreign
  pl_run_status :: "string \<Rightarrow> string"
  pl_directory :: ldir
  pl_failed_issuers :: "string list"
  pl_adapter_codes :: "string list"
  pl_selected_issuers :: "string list"

definition frozen_issuers :: "pipeline \<Rightarrow> string set" where
  "frozen_issuers p = set (pl_failed_issuers p) \<union> (set (pl_adapter_codes p) - set (pl_selected_issuers p))"

record resolution =
  rs_outcome :: RetirementOutcome
  rs_gate_counts :: "int \<times> int"
  rs_pending :: "RetirementLedger option"

definition resolve ::
  "pipeline \<Rightarrow> RetirementPolicy \<Rightarrow> string \<Rightarrow> int \<Rightarrow> CorpusPriorView \<Rightarrow> RetirementRequest list \<Rightarrow> lineage list \<Rightarrow> resolution result"
where
  "resolve p policy run_id now prior requests lineages =
     rbind (load_retirement_ledger (pl_foreign p) (Some (pl_run_status p)) (pl_directory p)) (\<lambda>ledger.
     let absent = vals (absent_documents prior ledger requests lineages);
         (durable, lineage_absent) = gather_evidence (pl_env p) lineages (po_max_per_run policy + 10) (ordered_absent absent) in
     rbind (evaluate_retirements run_id now policy (int (length (cv_entries prior))) ledger absent durable lineage_absent
       (set lineages) (frozen_issuers p)) (\<lambda>out.
     rbind (if rl_entries (ro_ledger out) = [] then Inr False
            else case ledger of None \<Rightarrow> Inr True
              | Some l \<Rightarrow> rbind (ledger_bytes l) (\<lambda>b. rbind (ledger_bytes (ro_ledger out)) (\<lambda>b'. Inr (b \<noteq> b')))) (\<lambda>pending.
     Inr \<lparr>rs_outcome = out, rs_gate_counts = (int (length (ro_retired out)), int (length (ro_candidates out))),
          rs_pending = (if pending then Some (ro_ledger out) else None)\<rparr>)))"

definition build_retirement_resolver ::
  "pipeline \<Rightarrow> string \<Rightarrow> int \<Rightarrow> CorpusPriorView \<Rightarrow> RetirementResolver result"
where
  "build_retirement_resolver p run_id now prior =
     rbind (retirement_policy (pl_grace_runs p) (pl_grace_days p) (pl_max_per_run p) ''0.005'') (\<lambda>policy.
     Inr (\<lambda>requests lineages. rbind (resolve p policy run_id now prior requests lineages) (\<lambda>r. Inr (Some (rs_outcome r)))))"

text \<open>\<open>_commit_pending_retirement_ledger\<close>: a failing write is logged and does not fail the run.\<close>

definition commit_pending_retirement_ledger :: "bool \<Rightarrow> int \<Rightarrow> RetirementLedger option \<Rightarrow> ldir \<Rightarrow> ldir" where
  "commit_pending_retirement_ledger skipped now pending d =
     (if skipped then d
      else case pending of None \<Rightarrow> d
        | Some l \<Rightarrow> (case write_retirement_ledger now l d of Inr d' \<Rightarrow> d' | Inl _ \<Rightarrow> d))"

section \<open>The resolver answers every request\<close>

definition absent_ok :: "(string, AbsentDocument) dict \<Rightarrow> bool" where
  "absent_ok m \<longleftrightarrow> wf_dict m \<and> list_all (\<lambda>(i, d). ab_document_id d = i) m"

lemma absent_ok_update: "absent_ok m \<Longrightarrow> ab_document_id d = i \<Longrightarrow> absent_ok (AList.update i d m)"
  using set_update_subset [of i d m] by (auto simp: absent_ok_def list_all_iff)

lemma absent_ok_dict_of: "list_all (\<lambda>(i, d). ab_document_id d = i) kvs \<Longrightarrow> absent_ok (dict_of kvs)"
proof (induction kvs rule: rev_induct)
  case (snoc x kvs)
  then show ?case by (cases x) (auto simp: dict_of_snoc intro: absent_ok_update)
qed (simp add: absent_ok_def dict_of_def)

lemma absent_documents_facts:
  "absent_ok (absent_documents prior ledger requests lineages)"
  "rq_document_id ` set requests \<subseteq> set (keys (absent_documents prior ledger requests lineages))"
proof -
  let ?f = "\<lambda>e absent. if re_status e \<noteq> Candidate \<or> re_document_id e \<in> set (keys absent) then absent
         else if re_lineage_key e \<in> set lineages \<or> re_document_id e \<in> set (keys (cv_entries prior)) then absent
         else AList.update (re_document_id e) (absent_of_entry e) absent"
  have step: "absent_ok (fold ?f es m) \<and> set (keys m) \<subseteq> set (keys (fold ?f es m))" if "absent_ok m" for es m
    using that
  proof (induction es arbitrary: m)
    case (Cons e es)
    have "absent_ok (?f e m)" using Cons.prems by (auto intro: absent_ok_update simp: absent_of_entry_def)
    moreover have "set (keys m) \<subseteq> set (keys (?f e m))" by (auto simp del: set_map)
    ultimately show ?case using Cons.IH [of "?f e m"] by (simp only: fold.simps comp_apply) blast
  qed simp
  let ?m = "dict_of (map (\<lambda>r. (rq_document_id r, absent_of_request prior r)) requests)"
  have "absent_ok ?m" by (rule absent_ok_dict_of) (simp add: list_all_iff absent_of_request_def)
  note s = step [OF this, of "case ledger of Some l \<Rightarrow> rl_entries l | None \<Rightarrow> []"]
  show "absent_ok (absent_documents prior ledger requests lineages)"
    using s unfolding absent_documents_def by blast
  have "rq_document_id ` set requests = set (keys ?m)" unfolding keys_dict_of by (simp add: image_image)
  then show "rq_document_id ` set requests \<subseteq> set (keys (absent_documents prior ledger requests lineages))"
    using s unfolding absent_documents_def by blast
qed

lemma absent_vals:
  "absent_ok m \<Longrightarrow> distinct (map ab_document_id (vals m))" "absent_ok m \<Longrightarrow> set (map ab_document_id (vals m)) = set (keys m)"
proof -
  assume m: "absent_ok m"
  then have "map (ab_document_id \<circ> snd) m = keys m" by (intro map_cong) (auto simp: absent_ok_def list_all_iff)
  then have "map ab_document_id (vals m) = keys m" by simp
  with m show "distinct (map ab_document_id (vals m))" "set (map ab_document_id (vals m)) = set (keys m)"
    by (simp_all only: absent_ok_def)
qed

lemma resolveE:
  assumes "resolve p policy run_id now prior requests lineages = Inr res"
  obtains ledger durable lineage_absent where
    "gather_evidence (pl_env p) lineages (po_max_per_run policy + 10)
       (ordered_absent (vals (absent_documents prior ledger requests lineages))) = (durable, lineage_absent)"
    "evaluate_retirements run_id now policy (int (length (cv_entries prior))) ledger
       (vals (absent_documents prior ledger requests lineages)) durable lineage_absent (set lineages) (frozen_issuers p)
     = Inr (rs_outcome res)"
  using assms that [OF prod.collapse [symmetric]] unfolding resolve_def Let_def case_prod_beta by auto

lemma resolve_answers:
  assumes "resolve p policy run_id now prior requests lineages = Inr res" "r \<in> set requests"
  shows "rq_document_id r \<in> set (answered (rs_outcome res))"
proof -
  from resolveE [OF assms(1)] obtain ledger durable lineage_absent where
    e: "evaluate_retirements run_id now policy (int (length (cv_entries prior))) ledger
       (vals (absent_documents prior ledger requests lineages)) durable lineage_absent (set lineages) (frozen_issuers p)
     = Inr (rs_outcome res)" by blast
  let ?m = "absent_documents prior ledger requests lineages"
  have "mset (answered (rs_outcome res)) = mset (map ab_document_id (vals ?m))"
    unfolding answered_def by (rule classification_result [OF e absent_vals(1) [OF absent_documents_facts(1)]])
  then have "set (answered (rs_outcome res)) = set (keys ?m)"
    using absent_vals(2) [OF absent_documents_facts(1), of prior ledger requests lineages] by (metis mset_eq_setD)
  with assms(2) absent_documents_facts(2) show ?thesis by blast
qed

interpretation pipeline: retirement_resolver
  "\<lambda>requests lineages. rbind (resolve p policy run_id now prior requests lineages) (\<lambda>r. Inr (Some (rs_outcome r)))"
  for p policy run_id now prior
  by unfold_locales (auto dest: resolve_answers)

section \<open>The evidence of a retirement\<close>

lemma gather_evidence_True:
  assumes "gather_evidence env lineages budget ds = (durable, lineage_absent)" "distinct (map ab_document_id ds)"
    and "map_of durable i = Some True" "map_of lineage_absent i = Some True"
  shows "\<exists>d \<in> set ds. ab_document_id d = i \<and> retirement_evidence_ok env d \<and> ab_lineage_key d \<notin> set lineages"
  using assms
proof (induction ds arbitrary: budget durable lineage_absent)
  case (Cons d ds)
  obtain du la where g: "gather_evidence env lineages (budget - 1) ds = (du, la)" by (cases "gather_evidence env lineages (budget - 1) ds")
  show ?case
  proof (cases "ab_document_id d = i")
    case True
    with Cons.prems g show ?thesis by auto
  next
    case False
    then have "map_of du i = Some True" "map_of la i = Some True" using Cons.prems(1,3,4) g by auto
    with Cons.IH [OF g] Cons.prems(2) show ?thesis by auto
  qed
qed simp

lemma evidence_bytes:
  assumes "retirement_evidence_ok env d"
  shows "\<exists>pdf ocr. en_pdf_bytes env (ab_pdf_sha256 d) = Some pdf \<and> sha256_bytes pdf = ab_pdf_sha256 d
    \<and> ab_ocr_sha256 d = Some (sha256_bytes ocr) \<and> ocr \<noteq> []"
  using assms unfolding retirement_evidence_ok_def
  by (auto simp: ocr_matches_def list_ex_iff split: if_splits option.splits)

section \<open>Properties\<close>

text \<open>A concrete worker: one prior document \<open>a\<close> with intact evidence, and a clock.\<close>

definition demo_env :: evidence_env where
  "demo_env = \<lparr>en_source_exists = (\<lambda>_. True), en_revision_count = (\<lambda>_. 1), en_cached = (\<lambda>_. True),
     en_pdf_bytes = (\<lambda>_. Some ''pdf''), en_seed_ocr = (\<lambda>_. Some ''ocr''), en_run_ocr = (\<lambda>_. []), en_cas_get = (\<lambda>_. None)\<rparr>"

definition demo_pipeline :: "ldir \<Rightarrow> pipeline" where
  "demo_pipeline d = \<lparr>pl_grace_runs = 2, pl_grace_days = 7, pl_max_per_run = 5, pl_env = demo_env,
     pl_foreign = demo_foreign, pl_run_status = (\<lambda>_. ''succeeded''), pl_directory = d,
     pl_failed_issuers = [], pl_adapter_codes = [''bc''], pl_selected_issuers = [''bc'']\<rparr>"

definition demo_prior :: CorpusPriorView where
  "demo_prior = \<lparr>cv_kind = ''rolling-baseline'', cv_generation_id = ''g'', cv_run_id = ''r0'',
     cv_observed_at = ''2025-01-01T00:00:00+00:00'', cv_current_doc_ids = [''a''], cv_historical_doc_ids = [],
     cv_entries = [(''a'', \<lparr>pe_document_id = ''a'', pe_source_id = ''s'', pe_issuer = ''bc'', pe_product_code = ''p1'',
       pe_document_type = ''terms'', pe_pdf_sha256 = sha256_bytes ''pdf'', pe_ocr_sha256 = Some (sha256_bytes ''ocr'')\<rparr>)]\<rparr>"

definition demo_doc :: AbsentDocument where
  "demo_doc = absent_of_request demo_prior (request_for demo_prior ''a'')"

lemma demo_doc_simps:
  "ab_document_id demo_doc = ''a''" "ab_issuer demo_doc = ''bc''" "retirement_evidence_ok demo_env demo_doc"
  by (simp_all add: demo_doc_def absent_of_request_def request_for_def demo_prior_def retirement_evidence_ok_def demo_env_def ocr_matches_def)

lemma demo_frozen [simp]: "frozen_issuers (demo_pipeline d) = {}"
  by (simp add: frozen_issuers_def demo_pipeline_def)

text \<open>The pass over that single document, with or without an open entry in the ledger.\<close>

lemma demo_single:
  assumes "prior_of (previous_entries ledger) ''a'' = prior" "\<And>e. prior = Some e \<Longrightarrow> re_status e = Candidate"
    and "elapsed_days (case prior of None \<Rightarrow> ''2025-01-04T14:13:20+00:00'' | Some e \<Rightarrow> re_first_absent_at e) ''2025-01-04T14:13:20+00:00'' = Inr days"
  shows "\<exists>out. evaluate_retirements ''r2'' 1736000000000000 demo_policy 1 ledger [demo_doc] [(''a'', True)] [(''a'', True)] {} {} = Inr out
    \<and> ro_ledger out = \<lparr>rl_updated_run_id = ''r2'', rl_entries = vals (AList.update ''a''
        (judge ''r2'' ''2025-01-04T14:13:20+00:00'' demo_policy 1 prior demo_doc days) (previous_entries ledger)), rl_ledger_sha256 = ''''\<rparr>
    \<and> (if re_status (judge ''r2'' ''2025-01-04T14:13:20+00:00'' demo_policy 1 prior demo_doc days) = Retired
       then map record_id (fresh_retired (ro_retired out)) = [''a''] \<and> ro_candidates out = []
       else ro_retired out = [] \<and> map record_id (ro_candidates out) = [''a'']) \<and> ro_unjustified out = []"
proof -
  let ?e = "judge ''r2'' ''2025-01-04T14:13:20+00:00'' demo_policy 1 prior demo_doc days"
  let ?ev = "\<lparr>ev_updated = previous_entries ledger, ev_retired = [], ev_candidates = [], ev_unjustified = [], ev_new_judgements = 0\<rparr>"
  have open_prior: "\<not> (case prior of Some e \<Rightarrow> re_status e = Retired | None \<Rightarrow> False)" using assms(2) by (auto split: option.splits)
  have pass: "evaluation_pass ''r2'' ''2025-01-04T14:13:20+00:00'' demo_policy 1 (previous_entries ledger) [demo_doc]
      [(''a'', True)] [(''a'', True)] {} = Inr (note_judgement ?ev ''a'' ?e)"
    using open_prior assms(3) effective_cap_pos [of demo_policy 1]
    by (simp add: evaluation_pass_def ordered_absent_def evaluate_item_def demo_doc_simps assms(1) [unfolded prior_of_def] Let_def)
  have "fold (reinstate run st {} {}) xs u = u" for run st xs u
    by (induction xs) (simp_all add: reinstate_def split: prod.splits)
  then show ?thesis
    using pass by (simp add: evaluate_retirements_def Let_def demo_evaluation note_judgement_def fresh_retired_def demo_doc_simps)
qed

lemma demo_absent_documents:
  assumes "\<And>l. ledger = Some l \<Longrightarrow> list_all (\<lambda>e. re_document_id e = ''a'') (rl_entries l)"
  shows "absent_documents demo_prior ledger [request_for demo_prior ''a''] [] = [(''a'', demo_doc)]"
proof -
  have rq: "rq_document_id (request_for demo_prior ''a'') = ''a''" by (simp add: request_for_def demo_prior_def)
  have "fold (\<lambda>e absent. if re_status e \<noteq> Candidate \<or> re_document_id e \<in> set (keys absent) then absent
         else if re_lineage_key e \<in> set [] \<or> re_document_id e \<in> set (keys (cv_entries demo_prior)) then absent
         else AList.update (re_document_id e) (absent_of_entry e) absent) es [(''a'', demo_doc)] = [(''a'', demo_doc)]"
    if "list_all (\<lambda>e. re_document_id e = ''a'') es" for es
    using that by (induction es) simp_all
  with assms show ?thesis
    by (cases ledger) (simp_all add: absent_documents_def dict_of_def rq demo_doc_def [symmetric])
qed

lemma demo_gathered:
  "gather_evidence demo_env [] (po_max_per_run demo_policy + 10) (ordered_absent [demo_doc]) = ([(''a'', True)], [(''a'', True)])"
  by (simp add: ordered_absent_def demo_doc_simps demo_policy_def)

text \<open>
  C3. The corpus gate loses nothing: when a run with the worker's retirement resolver passes the gate, every
  document of the prior corpus is among the acquired documents, or is named in the report as a retired lineage
  or as a retirement candidate.
\<close>

theorem corpus_gate_zero_loss:
  assumes "build_retirement_resolver p run_id now prior = Inr resolver"
    and "generate_corpus_diff_report run_id docs seed (Some prior) (Some resolver) has_output True observed discovered = (w, Inr r)"
    and "i \<in> set (cv_current_doc_ids prior) \<union> set (cv_historical_doc_ids prior)"
  shows "i \<in> acquired_ids docs \<union> set (map record_id (cd_retired_lineages r)) \<union> set (map record_id (cd_retirement_candidates r))"
proof -
  from assms(1) obtain policy where
    "resolver = (\<lambda>requests lineages. rbind (resolve p policy run_id now prior requests lineages) (\<lambda>r. Inr (Some (rs_outcome r))))"
    by (auto simp: build_retirement_resolver_def)
  with assms(2) show ?thesis using pipeline.zero_loss [OF _ assms(3)] by blast
qed

definition demo_no_dir :: ldir where
  "demo_no_dir = demo_dir\<lparr>ld_exists := False\<rparr>"

lemma demo_resolver: "retirement_policy 2 7 5 ''0.005'' = Inr demo_policy"
proof -
  have "0 < float_of ''0.005'' \<and> float_of ''0.005'' \<le> float_of ''0.05''" by code_simp
  then show ?thesis by (simp add: retirement_policy_def demo_policy_def)
qed

lemma demo_first_resolution:
  obtains res where "resolve (demo_pipeline demo_no_dir) demo_policy ''r2'' 1736000000000000 demo_prior [request_for demo_prior ''a''] [] = Inr res"
    "ro_retired (rs_outcome res) = []" "map record_id (ro_candidates (rs_outcome res)) = [''a'']" "ro_unjustified (rs_outcome res) = []"
proof -
  have "prior_of (previous_entries None) ''a'' = None" by (simp add: prior_of_def previous_entries_def)
  from demo_single [OF this] demo_evaluation(4) obtain out where out:
    "evaluate_retirements ''r2'' 1736000000000000 demo_policy 1 None [demo_doc] [(''a'', True)] [(''a'', True)] {} {} = Inr out"
    "ro_retired out = []" "map record_id (ro_candidates out) = [''a'']" "ro_unjustified out = []" "rl_entries (ro_ledger out) \<noteq> []"
    by (auto simp: next_absences_def previous_entries_def)
  have load: "load_retirement_ledger (pl_foreign (demo_pipeline demo_no_dir)) (Some (pl_run_status (demo_pipeline demo_no_dir)))
      (pl_directory (demo_pipeline demo_no_dir)) = Inr None"
    by (simp add: load_retirement_ledger_def demo_pipeline_def demo_no_dir_def)
  have absent: "absent_documents demo_prior None [request_for demo_prior ''a''] [] = [(''a'', demo_doc)]"
    by (rule demo_absent_documents) simp
  have entries: "int (length (cv_entries demo_prior)) = 1" "pl_env (demo_pipeline d) = demo_env" for d
    by (simp_all add: demo_prior_def demo_pipeline_def)
  show thesis
    by (rule that [of "\<lparr>rs_outcome = out, rs_gate_counts = (0, 1), rs_pending = Some (ro_ledger out)\<rparr>"])
      (use out in \<open>simp_all add: resolve_def Let_def load absent demo_gathered entries arg_cong [OF out(3), of length, simplified]\<close>)
qed

theorem corpus_gate_zero_loss_witness:
  "\<exists>resolver w r. build_retirement_resolver (demo_pipeline demo_no_dir) ''r2'' 1736000000000000 demo_prior = Inr resolver
     \<and> generate_corpus_diff_report ''r2'' [] None (Some demo_prior) (Some resolver) False True [] None = (w, Inr r)
     \<and> ''a'' \<in> acquired_ids [] \<union> set (map record_id (cd_retired_lineages r)) \<union> set (map record_id (cd_retirement_candidates r))"
proof -
  obtain res where res: "resolve (demo_pipeline demo_no_dir) demo_policy ''r2'' 1736000000000000 demo_prior [request_for demo_prior ''a''] [] = Inr res"
    "ro_unjustified (rs_outcome res) = []" by (rule demo_first_resolution)
  let ?resolver = "\<lambda>requests lineages. rbind (resolve (demo_pipeline demo_no_dir) demo_policy ''r2'' 1736000000000000 demo_prior requests lineages)
      (\<lambda>r. Inr (Some (rs_outcome r)))"
  have built: "build_retirement_resolver (demo_pipeline demo_no_dir) ''r2'' 1736000000000000 demo_prior = Inr ?resolver"
    using demo_resolver by (simp add: build_retirement_resolver_def demo_pipeline_def)
  have ids: "prior_all demo_prior = [''a'']" "sorted_set (cv_current_doc_ids demo_prior) = [''a'']"
    by (simp_all add: prior_all_def demo_prior_def sorted_set_def)
  have "\<exists>r. generate_corpus_diff_report ''r2'' [] None (Some demo_prior) (Some ?resolver) False True [] None = (None, Inr r)"
    by (simp add: generate_corpus_diff_report_def acquired_map_def dict_of_def seeded_report_def Let_def ids
        resolve_missing_def res gate_fails_def)
  then obtain r where r: "generate_corpus_diff_report ''r2'' [] None (Some demo_prior) (Some ?resolver) False True [] None = (None, Inr r)" ..
  have "''a'' \<in> set (cv_current_doc_ids demo_prior) \<union> set (cv_historical_doc_ids demo_prior)" by (simp add: demo_prior_def)
  with corpus_gate_zero_loss [OF built r] built r show ?thesis by blast
qed


definition demo_ledger1 :: RetirementLedger where
  "demo_ledger1 = \<lparr>rl_updated_run_id = ''r1'', rl_entries =
     [judge ''r1'' ''2025-01-02T00:00:00+00:00'' demo_policy 1 None demo_doc 0], rl_ledger_sha256 = ''''\<rparr>"

abbreviation demo_bytes1 :: bytes where
  "demo_bytes1 \<equiv> dumps True (ledger_payload demo_ledger1)"

definition demo_sealed_dir :: ldir where
  "demo_sealed_dir = demo_dir\<lparr>ld_versions := [(sha256_bytes demo_bytes1, demo_bytes1, 1)],
     ld_pointer := Some (sha256_bytes demo_bytes1 @ [CHR 0x0A])\<rparr>"

lemma demo_ledger1_wf: "wf_ledger demo_ledger1"
  by (simp add: wf_ledger_def demo_ledger1_def judge_def Let_def next_absences_def demo_policy_def)

lemma demo_ledger1_entries:
  "rl_entries (sealed demo_ledger1 demo_bytes1) = rl_entries demo_ledger1"
  by (simp add: sealed_def norm_ledger_def demo_ledger1_def norm_entry_def judge_def Let_def next_absences_def key_order_def demo_policy_def)

lemma demo_load:
  "load_retirement_ledger demo_foreign (Some (\<lambda>_. ''succeeded'')) demo_sealed_dir = Inr (Some (sealed demo_ledger1 demo_bytes1))"
proof -
  have "try_load_version demo_foreign (Some (\<lambda>_. ''succeeded'')) (sha256_bytes demo_bytes1) demo_bytes1 = Inr (Some (sealed demo_ledger1 demo_bytes1))"
    using parse_ledger_bytes [OF demo_ledger1_wf ledger_bytes_returns [OF demo_ledger1_wf]]
    by (simp add: try_load_version_def sealed_def)
  then show ?thesis
    by (subst load_pointed [where p = "sha256_bytes demo_bytes1" and c = demo_bytes1 and m = 1])
      (simp_all add: demo_sealed_dir_def demo_dir_def)
qed

lemma demo_second_resolution:
  obtains res where "resolve (demo_pipeline demo_sealed_dir) demo_policy ''r2'' 1736000000000000 demo_prior [request_for demo_prior ''a''] [] = Inr res"
    "map record_id (fresh_retired (ro_retired (rs_outcome res))) = [''a'']"
proof -
  let ?l = "sealed demo_ledger1 demo_bytes1" and ?e = "judge ''r1'' ''2025-01-02T00:00:00+00:00'' demo_policy 1 None demo_doc 0"
  have prev: "previous_entries (Some ?l) = [(''a'', ?e)]"
    unfolding previous_entries_def option.case demo_ledger1_entries by (simp add: demo_ledger1_def dict_of_def demo_doc_simps)
  have cand: "re_status ?e = Candidate" "re_first_absent_at ?e = ''2025-01-02T00:00:00+00:00''"
    by (simp_all add: judge_def Let_def next_absences_def)
  let ?e2 = "judge ''r2'' ''2025-01-04T14:13:20+00:00'' demo_policy 1 (Some ?e) demo_doc 2"
  have ret: "re_status ?e2 = Retired" by (simp add: next_absences_def demo_policy_def)
  have "prior_of (previous_entries (Some ?l)) ''a'' = Some ?e" using prev cand(1) by (simp add: prior_of_def)
  from demo_single [OF this] cand demo_evaluation(3) ret obtain out where out:
    "evaluate_retirements ''r2'' 1736000000000000 demo_policy 1 (Some ?l) [demo_doc] [(''a'', True)] [(''a'', True)] {} {} = Inr out"
    "map record_id (fresh_retired (ro_retired out)) = [''a'']"
    "ro_ledger out = \<lparr>rl_updated_run_id = ''r2'', rl_entries = [?e2], rl_ledger_sha256 = ''''\<rparr>"
    unfolding prev by auto
  have "wf_json (JFloat ''0.005'')" by code_simp
  then have wf2: "wf_ledger (ro_ledger out)"
    by (simp add: out(3) wf_ledger_def judge_def Let_def next_absences_def demo_policy_def)
  have wf1: "wf_ledger ?l" using demo_ledger1_wf by (simp add: wf_ledger_def demo_ledger1_entries)
  have absent: "absent_documents demo_prior (Some ?l) [request_for demo_prior ''a''] [] = [(''a'', demo_doc)]"
    by (rule demo_absent_documents, unfold option.inject, drule sym, simp only: demo_ledger1_entries)
      (simp add: demo_ledger1_def demo_doc_simps)
  have parts: "pl_env (demo_pipeline d) = demo_env" "pl_foreign (demo_pipeline d) = demo_foreign"
    "pl_run_status (demo_pipeline d) = (\<lambda>_. ''succeeded'')" "pl_directory (demo_pipeline d) = d"
    "int (length (cv_entries demo_prior)) = 1" for d by (simp_all add: demo_pipeline_def demo_prior_def)
  have ne: "rl_entries (ro_ledger out) \<noteq> []" by (simp add: out(3))
  have "\<exists>res. resolve (demo_pipeline demo_sealed_dir) demo_policy ''r2'' 1736000000000000 demo_prior [request_for demo_prior ''a''] [] = Inr res
      \<and> rs_outcome res = out"
    by (simp add: resolve_def Let_def parts demo_load absent demo_gathered out(1) ledger_bytes_returns [OF wf1] ledger_bytes_returns [OF wf2] ne
        del: dumps.simps)
  then obtain res where res: "resolve (demo_pipeline demo_sealed_dir) demo_policy ''r2'' 1736000000000000 demo_prior [request_for demo_prior ''a''] [] = Inr res"
      "rs_outcome res = out" by (elim exE conjE)
  show thesis by (rule that [OF res(1)]) (simp only: res(2) out(2))
qed


end
