(* ===== verification/Rotation.thy ===== *)
theory Rotation
  imports Contracts Effects
begin

text \<open>
  \<open>cardrag_worker/rotation.py\<close>: the durable assignment of one issuer per Korean day, with at most three
  attempts, and \<open>IssuerScope\<close> of \<open>issuer_scope.py\<close>.

  The state is the content of the three tables for one schedule and channel (every statement selects
  by both): the cycle row, the rows of \<open>issuer_rotation_day\<close> by day, the rows of \<open>issuer_rotation_attempt\<close> by
  day and number, and the migrations.  Lists stored as JSON text are kept as lists.  Each operation is
  one transaction: when it raises, the tables are unchanged.  \<open>run_env\<close> is what the \<open>run\<close> table and the disk
  say about runs.
\<close>

record IssuerScope =
  sc_pool :: "string list"
  sc_selected :: "string list"
  sc_mode :: string

definition issuer_scope :: "string list \<Rightarrow> string list \<Rightarrow> string \<Rightarrow> IssuerScope result" where
  "issuer_scope pool selected mode =
     rbind (raise_if (selected = [] \<or> \<not> distinct selected \<or> \<not> set selected \<subseteq> set pool)
       (ValueError ''issuer selection must be a nonempty subset of the configured pool'')) (\<lambda>_.
     rbind (raise_if (mode \<notin> {''all'', ''selected'', ''round_robin''}) (ValueError ''invalid issuer execution mode'')) (\<lambda>_.
     Inr \<lparr>sc_pool = pool, sc_selected = selected, sc_mode = mode\<rparr>))"

definition scope_payload :: "IssuerScope \<Rightarrow> json" where
  "scope_payload s = JObj [(''schema_version'', JStr ''cardrag.issuer-scope.v1''), (''pool'', JArr (map JStr (sc_pool s))),
     (''selected'', JArr (map JStr (sc_selected s))), (''mode'', JStr (sc_mode s))]"

record Assignment =
  as_scope :: IssuerScope
  as_day :: string
  as_run_id :: "string option"
  as_result :: "json option"
  as_attempt :: nat

record row =
  rw_issuer :: string
  rw_run_id :: "string option"
  rw_result :: "bytes option"

record rotation =
  rt_cycle :: "(string list \<times> string list) option"
  rt_days :: "(string, row) dict"
  rt_attempts :: "(string \<times> nat, row) dict"
  rt_migrations :: "(string, string list \<times> string list) dict"

record run_env =
  rn_status :: "string \<Rightarrow> string option"
  rn_sealed :: "string \<Rightarrow> bool"

definition terminal :: "string option \<Rightarrow> bool" where
  "terminal status \<longleftrightarrow> status \<in> {Some ''succeeded'', Some ''no_change'', Some ''failed''}"

text \<open>\<open>now.astimezone(ZoneInfo("Asia/Seoul")).date().isoformat()\<close>, nine hours ahead of UTC.\<close>

definition seoul_day :: "int \<Rightarrow> string" where
  "seoul_day micros = iso_date (civil_from_days ((micros + 32400000000) div 86400000000))"

text \<open>\<open>UPDATE ... WHERE key\<close>; an \<open>INSERT\<close> of an existing primary key raises.\<close>

definition update_row :: "'k \<Rightarrow> ('v \<Rightarrow> 'v) \<Rightarrow> ('k, 'v) dict \<Rightarrow> ('k, 'v) dict" where
  "update_row k f d = map (\<lambda>(k', v). (k', if k' = k then f v else v)) d"

definition insert_row :: "'k \<Rightarrow> 'v \<Rightarrow> ('k, 'v) dict \<Rightarrow> ('k, 'v) dict result" where
  "insert_row k v d = (if k \<in> set (keys d) then Inl (IntegrityError ''UNIQUE constraint failed'') else Inr (d @ [(k, v)]))"

definition attempts_of :: "rotation \<Rightarrow> string \<Rightarrow> nat list" where
  "attempts_of st day = map snd (filter (\<lambda>(d, _). d = day) (keys (rt_attempts st)))"

definition max_attempt :: "rotation \<Rightarrow> string \<Rightarrow> nat option" where
  "max_attempt st day = (case attempts_of st day of [] \<Rightarrow> None | ns \<Rightarrow> Some (Max (set ns)))"

definition attempt_count :: "rotation \<Rightarrow> string \<Rightarrow> nat" where
  "attempt_count st day = (case max_attempt st day of None \<Rightarrow> 1 | Some n \<Rightarrow> n)"

text \<open>\<open>Rotation.__init__\<close>: days written before attempts were recorded get their first attempt.\<close>

definition rotation_init :: "rotation \<Rightarrow> rotation" where
  "rotation_init st = st\<lparr>rt_attempts := rt_attempts st @
     map (\<lambda>(day, r). ((day, 1), r)) (filter (\<lambda>(day, _). attempts_of st day = []) (rt_days st))\<rparr>"

definition day_limit :: exn where
  "day_limit = PartialExecutionError ''rotation_daily_attempt_limit'' ''scope''"

definition check_limit :: "run_env \<Rightarrow> string \<Rightarrow> rotation \<Rightarrow> unit result" where
  "check_limit env day st = (case map_of (rt_days st) day of
     None \<Rightarrow> Inr ()
   | Some r \<Rightarrow>
       if attempt_count st day < 3 then Inr ()
       else let status = (case rw_run_id r of Some i \<Rightarrow> if i = [] then None else rn_status env i | None \<Rightarrow> None) in
            raise_if (rw_result r \<noteq> None \<or> terminal status) day_limit)"

definition reconciled_result :: "string \<Rightarrow> string \<Rightarrow> bytes" where
  "reconciled_result status run_id = dumps True
     (JObj [(''status'', JStr status), (''run_id'', JStr run_id), (''rotation_reconciled'', JBool True)])"

definition reconcile :: "run_env \<Rightarrow> row \<Rightarrow> bytes option" where
  "reconcile env r = (case (rw_result r, rw_run_id r) of
     (None, Some i) \<Rightarrow> if terminal (rn_status env i) then Some (reconciled_result (the (rn_status env i)) i) else None
   | _ \<Rightarrow> None)"

definition set_result :: "string \<Rightarrow> nat \<Rightarrow> bytes \<Rightarrow> rotation \<Rightarrow> rotation" where
  "set_result day attempt result st = st\<lparr>
     rt_days := update_row day (\<lambda>r. r\<lparr>rw_result := Some result\<rparr>) (rt_days st),
     rt_attempts := update_row (day, attempt) (\<lambda>r. r\<lparr>rw_result := Some result\<rparr>) (rt_attempts st)\<rparr>"

definition set_run :: "string \<Rightarrow> nat \<Rightarrow> string \<Rightarrow> rotation \<Rightarrow> rotation" where
  "set_run day attempt run_id st = st\<lparr>
     rt_days := update_row day (\<lambda>r. r\<lparr>rw_run_id := Some run_id\<rparr>) (rt_days st),
     rt_attempts := update_row (day, attempt) (\<lambda>r. r\<lparr>rw_run_id := Some run_id\<rparr>) (rt_attempts st)\<rparr>"

definition fresh_row :: "string \<Rightarrow> row" where
  "fresh_row issuer = \<lparr>rw_issuer = issuer, rw_run_id = None, rw_result = None\<rparr>"

definition make_assignment :: "string list \<Rightarrow> string \<Rightarrow> string \<Rightarrow> string option \<Rightarrow> nat \<Rightarrow> Assignment result" where
  "make_assignment pool issuer day run_id attempt =
     rbind (issuer_scope pool [issuer] ''round_robin'') (\<lambda>scope.
     Inr \<lparr>as_scope = scope, as_day = day, as_run_id = run_id, as_result = None, as_attempt = attempt\<rparr>)"

definition claim_again :: "run_env \<Rightarrow> string list \<Rightarrow> string \<Rightarrow> row \<Rightarrow> rotation \<Rightarrow> (Assignment \<times> rotation) result" where
  "claim_again env pool day r st =
     (if rw_issuer r \<notin> set pool then Inl (PartialExecutionError ''rotation_assigned_issuer_disabled'' ''scope'')
      else
        let attempt = attempt_count st day;
            st1 = (case reconcile env r of Some result \<Rightarrow> set_result day attempt result st | None \<Rightarrow> st) in
        if rw_result r \<noteq> None \<or> reconcile env r \<noteq> None then
          rbind (raise_if (attempt \<ge> 3) day_limit) (\<lambda>_.
          rbind (insert_row (day, attempt + 1) (fresh_row (rw_issuer r)) (rt_attempts st1)) (\<lambda>attempts.
          rbind (make_assignment pool (rw_issuer r) day None (attempt + 1)) (\<lambda>a.
          Inr (a, st1\<lparr>rt_days := update_row day (\<lambda>r. r\<lparr>rw_run_id := None, rw_result := None\<rparr>) (rt_days st1),
                      rt_attempts := attempts\<rparr>))))
        else rbind (make_assignment pool (rw_issuer r) day (rw_run_id r) attempt) (\<lambda>a. Inr (a, st)))"

definition unresolved :: "run_env \<Rightarrow> rotation \<Rightarrow> bool" where
  "unresolved env st = list_ex (\<lambda>(_, r). rw_result r = None \<and> (case rw_run_id r of
     Some i \<Rightarrow> rn_sealed env i \<and> \<not> terminal (rn_status env i) | None \<Rightarrow> False)) (rt_days st)"

definition claim_new :: "run_env \<Rightarrow> string list \<Rightarrow> string \<Rightarrow> rotation \<Rightarrow> (Assignment \<times> rotation) result" where
  "claim_new env pool day st =
     rbind (raise_if (unresolved env st) (PartialExecutionError ''rotation_publication_reconciliation_required'' ''scope'')) (\<lambda>_.
     let roster0 = (case rt_cycle st of Some (_, roster) \<Rightarrow> roster | None \<Rightarrow> pool);
         remaining0 = (case rt_cycle st of Some (remaining, _) \<Rightarrow> filter (\<lambda>c. c \<in> set pool) remaining | None \<Rightarrow> []);
         migrations = (if rt_cycle st \<noteq> None \<and> roster0 \<noteq> pool then AList.update day (roster0, pool) (rt_migrations st)
           else rt_migrations st);
         remaining = (if remaining0 = [] then pool else remaining0);
         roster = (if remaining0 = [] then pool else roster0) in
     case remaining of
       [] \<Rightarrow> Inl (IndexError ''pop from empty list'')
     | issuer # rest \<Rightarrow>
         rbind (insert_row day (fresh_row issuer) (rt_days st)) (\<lambda>days.
         rbind (insert_row (day, 1) (fresh_row issuer) (rt_attempts st)) (\<lambda>attempts.
         rbind (make_assignment pool issuer day None 1) (\<lambda>a.
         Inr (a, \<lparr>rt_cycle = Some (rest, roster), rt_days = days, rt_attempts = attempts, rt_migrations = migrations\<rparr>)))))"

definition claim :: "run_env \<Rightarrow> string list \<Rightarrow> string \<Rightarrow> rotation \<Rightarrow> (Assignment \<times> rotation) result" where
  "claim env pool day st = (case map_of (rt_days st) day of
     Some r \<Rightarrow> claim_again env pool day r st | None \<Rightarrow> claim_new env pool day st)"

definition is_latest :: "Assignment \<Rightarrow> rotation \<Rightarrow> bool" where
  "is_latest a st \<longleftrightarrow> map_of (rt_days st) (as_day a) \<noteq> None \<and> max_attempt st (as_day a) = Some (as_attempt a)"

definition rotation_bind :: "Assignment \<Rightarrow> string \<Rightarrow> rotation \<Rightarrow> (Assignment \<times> rotation) result" where
  "rotation_bind a run_id st =
     rbind (raise_if (case as_run_id a of Some i \<Rightarrow> i \<noteq> run_id | None \<Rightarrow> False) (ValueError ''rotation run binding changed'')) (\<lambda>_.
     rbind (raise_if (\<not> is_latest a st) (ValueError ''rotation attempt binding changed'')) (\<lambda>_.
     Inr (a\<lparr>as_run_id := Some run_id\<rparr>, set_run (as_day a) (as_attempt a) run_id st)))"

definition rotation_complete :: "Assignment \<Rightarrow> json \<Rightarrow> rotation \<Rightarrow> (Assignment \<times> rotation) result" where
  "rotation_complete a result st =
     rbind (wk_canonical_json_bytes result) (\<lambda>payload.
     rbind (raise_if (\<not> is_latest a st) (ValueError ''rotation attempt completion changed'')) (\<lambda>_.
     Inr (a\<lparr>as_result := Some result\<rparr>, set_result (as_day a) (as_attempt a) payload st)))"

section \<open>The tables stay consistent\<close>

text \<open>
  The rows of one day: attempts are numbered from one without gaps, there are at most three, the last one is
  the row of the day, and every earlier one has a result and the same issuer.
\<close>

definition day_ok :: "row \<Rightarrow> (nat \<Rightarrow> row option) \<Rightarrow> nat \<Rightarrow> bool" where
  "day_ok r attempt m \<longleftrightarrow> 1 \<le> m \<and> m \<le> 3 \<and> attempt m = Some r \<and> (\<forall>n. attempt n \<noteq> None \<longleftrightarrow> 1 \<le> n \<and> n \<le> m)
     \<and> (\<forall>n a. n < m \<longrightarrow> attempt n = Some a \<longrightarrow> rw_issuer a = rw_issuer r \<and> rw_result a \<noteq> None)"

definition rotation_inv :: "rotation \<Rightarrow> bool" where
  "rotation_inv st \<longleftrightarrow> wf_dict (rt_days st) \<and> wf_dict (rt_attempts st) \<and>
     (\<forall>day. case map_of (rt_days st) day of
        None \<Rightarrow> (\<forall>n. map_of (rt_attempts st) (day, n) = None)
      | Some r \<Rightarrow> (\<exists>m. day_ok r (\<lambda>n. map_of (rt_attempts st) (day, n)) m))"

lemma map_of_update_row: "map_of (update_row k f d) k' = (if k' = k then map_option f (map_of d k) else map_of d k')"
  by (induction d) (auto simp: update_row_def)

lemma keys_update_row [simp]: "keys (update_row k f d) = keys d"
  by (induction d) (auto simp: update_row_def)

lemma insert_row_Inr: "insert_row k v d = Inr d' \<longleftrightarrow> map_of d k = None \<and> d' = d @ [(k, v)]"
  by (auto simp: insert_row_def map_of_eq_None_iff)

lemma map_of_snoc: "map_of d k = None \<Longrightarrow> map_of (d @ [(k, v)]) = (map_of d)(k \<mapsto> v)"
  by (rule ext) (auto simp: map_add_def split: option.splits)

lemma wf_snoc: "wf_dict d \<Longrightarrow> map_of d k = None \<Longrightarrow> wf_dict (d @ [(k, v)])"
  by (auto simp: map_of_eq_None_iff)

lemma set_attempts_of: "set (attempts_of st day) = {n. map_of (rt_attempts st) (day, n) \<noteq> None}"
  by (force simp: attempts_of_def map_of_eq_None_iff)

lemma max_attempt_eq:
  assumes "day_ok r (\<lambda>n. map_of (rt_attempts st) (day, n)) m"
  shows "max_attempt st day = Some m" "attempt_count st day = m"
proof -
  have s: "set (attempts_of st day) = {1..m}" using assms by (auto simp: set_attempts_of day_ok_def)
  then have "attempts_of st day \<noteq> []" using assms by (auto simp: day_ok_def)
  moreover have "Max (set (attempts_of st day)) = m" unfolding s using assms by (intro Max_eqI) (auto simp: day_ok_def)
  ultimately show "max_attempt st day = Some m" by (auto simp: max_attempt_def split: list.splits)
  then show "attempt_count st day = m" by (simp add: attempt_count_def)
qed

lemma rotation_invD:
  assumes "rotation_inv st" "map_of (rt_days st) day = Some r"
  obtains m where "day_ok r (\<lambda>n. map_of (rt_attempts st) (day, n)) m" "max_attempt st day = Some m" "attempt_count st day = m"
proof -
  have "case map_of (rt_days st) day of None \<Rightarrow> (\<forall>n. map_of (rt_attempts st) (day, n) = None)
      | Some r \<Rightarrow> (\<exists>m. day_ok r (\<lambda>n. map_of (rt_attempts st) (day, n)) m)"
    using assms(1) unfolding rotation_inv_def by blast
  then obtain m where "day_ok r (\<lambda>n. map_of (rt_attempts st) (day, n)) m" unfolding assms(2) option.case by blast
  with that max_attempt_eq show thesis by blast
qed

lemma rotation_inv_None: "rotation_inv st \<Longrightarrow> map_of (rt_days st) day = None \<Longrightarrow> map_of (rt_attempts st) (day, n) = None"
  unfolding rotation_inv_def by (auto dest!: spec [of _ day])

text \<open>Only the rows of one day change: the invariant has to be checked for that day only.\<close>

lemma rotation_invI:
  assumes "rotation_inv st" "wf_dict (rt_days st')" "wf_dict (rt_attempts st')"
    and "map_of (rt_days st') day = Some r" "day_ok r (\<lambda>n. map_of (rt_attempts st') (day, n)) m"
    and "\<And>d. d \<noteq> day \<Longrightarrow> map_of (rt_days st') d = map_of (rt_days st) d"
    and "\<And>d n. d \<noteq> day \<Longrightarrow> map_of (rt_attempts st') (d, n) = map_of (rt_attempts st) (d, n)"
  shows "rotation_inv st'"
  unfolding rotation_inv_def
proof (intro conjI allI)
  fix d
  show "case map_of (rt_days st') d of None \<Rightarrow> \<forall>n. map_of (rt_attempts st') (d, n) = None
      | Some r \<Rightarrow> \<exists>m. day_ok r (\<lambda>n. map_of (rt_attempts st') (d, n)) m"
  proof (cases "d = day")
    case True
    with assms(4,5) show ?thesis by auto
  next
    case False
    then show ?thesis using assms(1) unfolding rotation_inv_def assms(6,7) [OF False] by blast
  qed
qed (use assms in auto)

lemma day_okD:
  assumes "day_ok r attempt m"
  shows "1 \<le> m" "m \<le> 3" "attempt m = Some r" "attempt n \<noteq> None \<longleftrightarrow> 1 \<le> n \<and> n \<le> m"
    "n < m \<Longrightarrow> attempt n = Some a \<Longrightarrow> rw_issuer a = rw_issuer r \<and> rw_result a \<noteq> None"
  using assms unfolding day_ok_def by blast+

lemma day_okI:
  assumes "1 \<le> m" "m \<le> 3" "attempt m = Some r" "\<And>n. attempt n \<noteq> None \<longleftrightarrow> 1 \<le> n \<and> n \<le> m"
    "\<And>n a. n < m \<Longrightarrow> attempt n = Some a \<Longrightarrow> rw_issuer a = rw_issuer r \<and> rw_result a \<noteq> None"
  shows "day_ok r attempt m"
  using assms unfolding day_ok_def by blast

lemma day_ok_update:
  assumes "day_ok r attempt m" "rw_issuer (f r) = rw_issuer r"
  shows "day_ok (f r) (\<lambda>n. if n = m then map_option f (attempt m) else attempt n) m"
proof (rule day_okI)
  fix n a assume n: "n < m" "(if n = m then map_option f (attempt m) else attempt n) = Some a"
  then have "attempt n = Some a" by simp
  then show "rw_issuer a = rw_issuer (f r) \<and> rw_result a \<noteq> None" using day_okD(5) [OF assms(1) n(1)] assms(2) by simp
qed (use day_okD(1-4) [OF assms(1)] in auto)

lemma set_row_inv:
  assumes "rotation_inv st" "map_of (rt_days st) day = Some r" "max_attempt st day = Some m" "\<And>r. rw_issuer (f r) = rw_issuer r"
  shows "rotation_inv (st\<lparr>rt_days := update_row day f (rt_days st), rt_attempts := update_row (day, m) f (rt_attempts st)\<rparr>)"
proof (rule rotation_invI [OF assms(1)])
  have ok: "day_ok r (\<lambda>n. map_of (rt_attempts st) (day, n)) m"
    using rotation_invD [OF assms(1,2)] assms(3) by (metis option.inject)
  have eq: "(\<lambda>n. map_of (update_row (day, m) f (rt_attempts st)) (day, n)) =
      (\<lambda>n. if n = m then map_option f (map_of (rt_attempts st) (day, m)) else map_of (rt_attempts st) (day, n))"
    by (auto simp: map_of_update_row)
  show "day_ok (f r) (\<lambda>n. map_of (rt_attempts (st\<lparr>rt_days := update_row day f (rt_days st),
      rt_attempts := update_row (day, m) f (rt_attempts st)\<rparr>)) (day, n)) m"
    using day_ok_update [where f = f, OF ok assms(4)] by (simp add: eq)
qed (use assms in \<open>auto simp: rotation_inv_def map_of_update_row\<close>)

lemma set_result_inv:
  "rotation_inv st \<Longrightarrow> map_of (rt_days st) day = Some r \<Longrightarrow> max_attempt st day = Some m \<Longrightarrow> rotation_inv (set_result day m b st)"
  unfolding set_result_def by (rule set_row_inv) auto

lemma set_run_inv:
  "rotation_inv st \<Longrightarrow> map_of (rt_days st) day = Some r \<Longrightarrow> max_attempt st day = Some m \<Longrightarrow> rotation_inv (set_run day m i st)"
  unfolding set_run_def by (rule set_row_inv) auto

lemma is_latestD: "is_latest a st \<Longrightarrow> \<exists>r. map_of (rt_days st) (as_day a) = Some r \<and> max_attempt st (as_day a) = Some (as_attempt a)"
  by (auto simp: is_latest_def)

lemma bind_inv: "rotation_inv st \<Longrightarrow> rotation_bind a i st = Inr (a', st') \<Longrightarrow> rotation_inv st'"
  by (auto simp: rotation_bind_def dest!: is_latestD intro: set_run_inv)

lemma complete_inv: "rotation_inv st \<Longrightarrow> rotation_complete a result st = Inr (a', st') \<Longrightarrow> rotation_inv st'"
  by (auto simp: rotation_complete_def dest!: is_latestD intro: set_result_inv)

text \<open>The row of a day after the results it may have gained by reconciliation.\<close>

definition reconciled_row :: "run_env \<Rightarrow> row \<Rightarrow> row" where
  "reconciled_row env r = (case reconcile env r of Some b \<Rightarrow> r\<lparr>rw_result := Some b\<rparr> | None \<Rightarrow> r)"

lemma claim_againE:
  assumes "rotation_inv st" "map_of (rt_days st) day = Some r" "claim_again env pool day r st = Inr (a, st')"
  obtains (resumed) m where "st' = st" "rw_result r = None" "reconcile env r = None" "rw_issuer r \<in> set pool"
      "make_assignment pool (rw_issuer r) day (rw_run_id r) (attempt_count st day) = Inr a" "attempt_count st day = m"
  | (again) m st1 where "rotation_inv st1" "map_of (rt_days st1) day = Some (reconciled_row env r)"
      "rw_result (reconciled_row env r) \<noteq> None" "day_ok (reconciled_row env r) (\<lambda>n. map_of (rt_attempts st1) (day, n)) m" "m < 3"
      "st' = st1\<lparr>rt_days := update_row day (\<lambda>r. r\<lparr>rw_run_id := None, rw_result := None\<rparr>) (rt_days st1),
         rt_attempts := rt_attempts st1 @ [((day, m + 1), fresh_row (rw_issuer r))]\<rparr>"
      "make_assignment pool (rw_issuer r) day None (m + 1) = Inr a" "rw_issuer r \<in> set pool"
proof -
  obtain m where m: "day_ok r (\<lambda>n. map_of (rt_attempts st) (day, n)) m" "max_attempt st day = Some m" "attempt_count st day = m"
    by (rule rotation_invD [OF assms(1,2)])
  define st1 where "st1 = (case reconcile env r of Some b \<Rightarrow> set_result day m b st | None \<Rightarrow> st)"
  have inv1: "rotation_inv st1"
    using assms(1) set_result_inv [OF assms(1,2) m(2)] by (simp add: st1_def split: option.splits)
  have row1: "map_of (rt_days st1) day = Some (reconciled_row env r)"
    using assms(2) by (simp add: st1_def reconciled_row_def set_result_def map_of_update_row split: option.splits)
  have "set (attempts_of st1 day) = set (attempts_of st day)"
    by (auto simp: st1_def set_result_def set_attempts_of map_of_update_row split: option.splits)
  then have memb: "map_of (rt_attempts st1) (day, n) \<noteq> None \<longleftrightarrow> 1 \<le> n \<and> n \<le> m" for n
    using day_okD(4) [OF m(1), of n] unfolding set_attempts_of by blast
  obtain m1 where m1: "day_ok (reconciled_row env r) (\<lambda>n. map_of (rt_attempts st1) (day, n)) m1"
    by (rule rotation_invD [OF inv1 row1])
  have "m1 = m"
    using day_okD(4) [OF m1, of m] day_okD(4) [OF m1, of m1] memb [of m] memb [of m1] day_okD(1) [OF m1] day_okD(1) [OF m(1)] by linarith
  with m1 have ok1: "day_ok (reconciled_row env r) (\<lambda>n. map_of (rt_attempts st1) (day, n)) m" by simp
  show thesis
  proof (cases "rw_result r \<noteq> None \<or> reconcile env r \<noteq> None")
    case False
    with assms(3) m(3) resumed show thesis
      by (auto simp: claim_again_def Let_def split: if_splits)
  next
    case True
    then have res: "rw_result (reconciled_row env r) \<noteq> None" by (auto simp: reconciled_row_def split: option.splits)
    from True assms(3) show thesis
      by (auto simp: claim_again_def Let_def m(3) st1_def [symmetric] insert_row_Inr split: if_splits
          intro!: again [OF inv1 row1 res ok1])
  qed
qed

lemma claim_again_inv:
  assumes "rotation_inv st" "map_of (rt_days st) day = Some r" "claim_again env pool day r st = Inr (a, st')"
  shows "rotation_inv st'"
  using assms
proof (cases rule: claim_againE)
  case (again m st1)
  let ?f = "\<lambda>r. r\<lparr>rw_run_id := None, rw_result := None\<rparr>"
  have fresh: "map_of (rt_attempts st1) (day, m + 1) = None" using day_okD(4) [OF again(4), of "m + 1"] by auto
  have issuer: "rw_issuer (reconciled_row env r) = rw_issuer r" by (simp add: reconciled_row_def split: option.splits)
  have row: "?f (reconciled_row env r) = fresh_row (rw_issuer r)"
    by (cases "reconciled_row env r") (use issuer in \<open>simp add: fresh_row_def\<close>)
  show ?thesis
  proof (rule rotation_invI [OF again(1)])
    show "map_of (rt_days st') day = Some (fresh_row (rw_issuer r))" using again(2) row by (simp add: again(6) map_of_update_row)
    show "day_ok (fresh_row (rw_issuer r)) (\<lambda>n. map_of (rt_attempts st') (day, n)) (m + 1)"
    proof (rule day_okI)
      fix n a' assume n: "n < m + 1" "map_of (rt_attempts st') (day, n) = Some a'"
      then have n': "map_of (rt_attempts st1) (day, n) = Some a'" by (simp add: again(6) map_add_def fresh split: option.splits)
      show "rw_issuer a' = rw_issuer (fresh_row (rw_issuer r)) \<and> rw_result a' \<noteq> None"
      proof (cases "n = m")
        case True
        then show ?thesis using n' day_okD(3) [OF again(4)] again(3) issuer by (simp add: fresh_row_def)
      next
        case False
        then show ?thesis using n(1) n' day_okD(5) [OF again(4), of n a'] issuer by (simp add: fresh_row_def)
      qed
    next
      fix n show "map_of (rt_attempts st') (day, n) \<noteq> None \<longleftrightarrow> 1 \<le> n \<and> n \<le> m + 1"
        using day_okD(4) [OF again(4), of n] by (auto simp: again(6) map_add_def split: option.splits if_splits)
    qed (use again(5) in \<open>auto simp: again(6) map_add_def fresh [simplified]\<close>)
    show "wf_dict (rt_attempts st')" using again(1) fresh by (simp add: again(6) rotation_inv_def map_of_eq_None_iff)
  qed (use again(1) in \<open>auto simp: again(6) rotation_inv_def map_of_update_row map_add_def split: option.splits\<close>)
qed (simp add: assms(1))

lemma make_assignment_pool: "make_assignment pool issuer day i n = Inr a \<Longrightarrow> issuer \<in> set pool"
  by (auto simp: make_assignment_def issuer_scope_def)

lemma claim_newE:
  assumes "claim_new env pool day st = Inr (a, st')"
  obtains issuer rest roster migrations where "\<not> unresolved env st"
    "(if (case rt_cycle st of Some (remaining, _) \<Rightarrow> filter (\<lambda>c. c \<in> set pool) remaining | None \<Rightarrow> []) = [] then pool
      else (case rt_cycle st of Some (remaining, _) \<Rightarrow> filter (\<lambda>c. c \<in> set pool) remaining | None \<Rightarrow> [])) = issuer # rest"
    "map_of (rt_days st) day = None" "map_of (rt_attempts st) (day, 1) = None"
    "st' = \<lparr>rt_cycle = Some (rest, roster), rt_days = rt_days st @ [(day, fresh_row issuer)],
        rt_attempts = rt_attempts st @ [((day, 1), fresh_row issuer)], rt_migrations = migrations\<rparr>"
    "make_assignment pool issuer day None 1 = Inr a" "issuer \<in> set pool"
  using assms
  by (auto simp: claim_new_def Let_def insert_row_Inr make_assignment_pool split: list.splits)

lemma claim_new_inv:
  assumes "rotation_inv st" "claim_new env pool day st = Inr (a, st')"
  shows "rotation_inv st'"
  using assms(2)
proof (cases rule: claim_newE)
  case (1 issuer rest roster migrations)
  note none = rotation_inv_None [OF assms(1) 1(3)]
  show ?thesis
  proof (rule rotation_invI [OF assms(1)])
    show "map_of (rt_days st') day = Some (fresh_row issuer)" using 1(3) by (simp add: 1(5) map_add_def)
    show "day_ok (fresh_row issuer) (\<lambda>n. map_of (rt_attempts st') (day, n)) 1"
      by (rule day_okI) (auto simp: 1(5) map_add_def none)
    show "wf_dict (rt_attempts st')" using assms(1) 1(4) by (simp add: 1(5) rotation_inv_def map_of_eq_None_iff)
    show "wf_dict (rt_days st')" using assms(1) 1(3) by (simp add: 1(5) rotation_inv_def map_of_eq_None_iff)
  qed (auto simp: 1(5) map_add_def split: option.splits)
qed

lemma claim_inv: "rotation_inv st \<Longrightarrow> claim env pool day st = Inr (a, st') \<Longrightarrow> rotation_inv st'"
  by (auto simp: claim_def split: option.splits intro: claim_again_inv claim_new_inv)

text \<open>After a claim the row of the day is open, and the assignment is what the row says.\<close>

lemma claim_result_row:
  assumes "rotation_inv st" "claim env pool day st = Inr (a, st')"
  shows "\<exists>r. map_of (rt_days st') day = Some r \<and> rw_result r = None \<and> reconcile env r = None \<and> rw_issuer r \<in> set pool
    \<and> make_assignment pool (rw_issuer r) day (rw_run_id r) (attempt_count st' day) = Inr a"
proof (cases "map_of (rt_days st) day")
  case None
  with assms(2) have new: "claim_new env pool day st = Inr (a, st')" by (simp add: claim_def)
  then show ?thesis
  proof (cases rule: claim_newE)
    case (1 issuer rest roster migrations)
    note none = rotation_inv_None [OF assms(1) 1(3)]
    have "day_ok (fresh_row issuer) (\<lambda>n. map_of (rt_attempts st') (day, n)) 1"
      by (rule day_okI) (auto simp: 1(5) map_add_def none)
    from max_attempt_eq(2) [OF this] 1(3,6,7) show ?thesis
      by (simp add: 1(5) map_add_def fresh_row_def reconcile_def)
  qed
next
  case (Some r0)
  with assms(2) have again: "claim_again env pool day r0 st = Inr (a, st')" by (simp add: claim_def)
  from assms(1) Some again show ?thesis
  proof (cases rule: claim_againE)
    case (resumed m)
    with Some show ?thesis by auto
  next
    case (again m st1)
    have row: "map_of (rt_days st') day = Some (fresh_row (rw_issuer r0))"
      using again(2) by (auto simp: again(6) map_of_update_row fresh_row_def reconciled_row_def split: option.splits)
    obtain m' where m': "day_ok (fresh_row (rw_issuer r0)) (\<lambda>n. map_of (rt_attempts st') (day, n)) m'" "attempt_count st' day = m'"
      by (rule rotation_invD [OF claim_inv [OF assms] row])
    have memb: "map_of (rt_attempts st') (day, n) \<noteq> None \<longleftrightarrow> 1 \<le> n \<and> n \<le> m + 1" for n
      using day_okD(4) [OF again(4), of n] by (auto simp: again(6) map_add_def split: option.splits)
    have "m' = m + 1"
      using memb [of m'] memb [of "m + 1"] day_okD(4) [OF m'(1), of m'] day_okD(4) [OF m'(1), of "m + 1"] day_okD(1) [OF m'(1)] by linarith
    with row m'(2) again(7,8) show ?thesis by (simp add: fresh_row_def reconcile_def)
  qed
qed

text \<open>A step is one transaction of any caller, whatever the runs' statuses are at that moment.\<close>

inductive rstep :: "rotation \<Rightarrow> rotation \<Rightarrow> bool" where
  claimed: "claim env pool day st = Inr (a, st') \<Longrightarrow> rstep st st'"
| bound: "rotation_bind a run_id st = Inr (a', st') \<Longrightarrow> rstep st st'"
| completed: "rotation_complete a result st = Inr (a', st') \<Longrightarrow> rstep st st'"

inductive_cases rstepE: "rstep st st'"

definition no_rotation :: rotation where
  "no_rotation = \<lparr>rt_cycle = None, rt_days = [], rt_attempts = [], rt_migrations = []\<rparr>"

lemma no_rotation_inv: "rotation_inv no_rotation"
  by (simp add: rotation_inv_def no_rotation_def)

interpretation rotating: inv_system "\<lambda>st. st = no_rotation" rstep rotation_inv
  by unfold_locales (auto intro: no_rotation_inv claim_inv bind_inv complete_inv elim: rstepE)

section \<open>Properties\<close>

text \<open>
  C10. In every reachable state a day has between one and three attempts, numbered without gaps, all for the
  day's issuer; an attempt is only followed by another once it has a result; and the row of the day is the row
  of its last attempt.
\<close>

theorem rotation_attempts_bounded:
  assumes "rstep\<^sup>*\<^sup>* no_rotation st" "map_of (rt_days st) day = Some r"
  shows "\<exists>m. 1 \<le> m \<and> m \<le> 3 \<and> map_of (rt_attempts st) (day, m) = Some r
    \<and> (\<forall>n. map_of (rt_attempts st) (day, n) \<noteq> None \<longleftrightarrow> 1 \<le> n \<and> n \<le> m)
    \<and> (\<forall>n a. n < m \<longrightarrow> map_of (rt_attempts st) (day, n) = Some a \<longrightarrow> rw_issuer a = rw_issuer r \<and> rw_result a \<noteq> None)"
proof -
  have "rotation_inv st" by (rule rotating.reach_inv [OF refl assms(1)])
  then obtain m where "day_ok r (\<lambda>n. map_of (rt_attempts st) (day, n)) m" using assms(2) by (rule rotation_invD)
  then show ?thesis unfolding day_ok_def by (intro exI)
qed

definition demo_runs :: run_env where
  "demo_runs = \<lparr>rn_status = (\<lambda>_. None), rn_sealed = (\<lambda>_. False)\<rparr>"

definition demo_claimed :: rotation where
  "demo_claimed = \<lparr>rt_cycle = Some ([''shinhan''], [''bc'', ''shinhan'']), rt_days = [(''2025-01-01'', fresh_row ''bc'')],
     rt_attempts = [((''2025-01-01'', 1), fresh_row ''bc'')], rt_migrations = []\<rparr>"

lemma demo_claim:
  "\<exists>a. claim demo_runs [''bc'', ''shinhan''] ''2025-01-01'' no_rotation = Inr (a, demo_claimed)"
  by (simp add: claim_def claim_new_def Let_def no_rotation_def demo_claimed_def unresolved_def insert_row_def make_assignment_def issuer_scope_def)

theorem rotation_attempts_bounded_witness:
  "map_of (rt_days demo_claimed) ''2025-01-01'' = Some (fresh_row ''bc'') \<and> (\<exists>m. 1 \<le> m \<and> m \<le> 3 \<and>
     map_of (rt_attempts demo_claimed) (''2025-01-01'', m) = Some (fresh_row ''bc''))"
proof -
  have "rstep\<^sup>*\<^sup>* no_rotation demo_claimed" using demo_claim by (blast intro: rstep.claimed)
  moreover have r: "map_of (rt_days demo_claimed) ''2025-01-01'' = Some (fresh_row ''bc'')" by (simp add: demo_claimed_def)
  ultimately show ?thesis using rotation_attempts_bounded [of demo_claimed "''2025-01-01''"] by metis
qed

text \<open>
  Claiming is idempotent: claiming the same day again before the attempt has ended returns the same
  assignment and changes nothing, so a restarted worker resumes instead of starting another attempt.
\<close>

lemma rotation_claim_idempotent:
  assumes "rstep\<^sup>*\<^sup>* no_rotation st" "claim env pool day st = Inr (a, st')"
  shows "claim env pool day st' = Inr (a, st')"
proof -
  have inv: "rotation_inv st" by (rule rotating.reach_inv [OF refl assms(1)])
  have inv': "rotation_inv st'" by (rule claim_inv [OF inv assms(2)])
  obtain r where r: "map_of (rt_days st') day = Some r" "rw_result r = None" "reconcile env r = None" "rw_issuer r \<in> set pool"
    "make_assignment pool (rw_issuer r) day (rw_run_id r) (attempt_count st' day) = Inr a"
    using claim_result_row [OF inv assms(2)] by blast
  then show ?thesis by (simp add: claim_def claim_again_def Let_def)
qed

lemma rotation_claim_idempotent_witness:
  "\<exists>a. claim demo_runs [''bc'', ''shinhan''] ''2025-01-01'' no_rotation = Inr (a, demo_claimed) \<and>
     claim demo_runs [''bc'', ''shinhan''] ''2025-01-01'' demo_claimed = Inr (a, demo_claimed)"
  using demo_claim rotation_claim_idempotent [OF rtranclp.rtrancl_refl] by blast

text \<open>The issuers of the first days, one claim per day.\<close>

fun claim_days :: "run_env \<Rightarrow> string list \<Rightarrow> string list \<Rightarrow> rotation \<Rightarrow> (string list \<times> rotation) result" where
  "claim_days env pool [] st = Inr ([], st)"
| "claim_days env pool (day # days) st =
     rbind (claim env pool day st) (\<lambda>(a, st'). rbind (claim_days env pool days st') (\<lambda>(issuers, st'').
     Inr (sc_selected (as_scope a) @ issuers, st'')))"

text \<open>The state after \<open>k\<close> fresh days of an undisturbed rotation over \<open>pool\<close>.\<close>

definition rotated :: "string list \<Rightarrow> nat \<Rightarrow> rotation \<Rightarrow> bool" where
  "rotated pool k st \<longleftrightarrow> rotation_inv st \<and> list_all (\<lambda>(_, r). rw_run_id r = None) (rt_days st) \<and>
     (if k = 0 then rt_cycle st = None else rt_cycle st = Some (drop (Suc ((k - 1) mod length pool)) pool, pool))"

lemma fresh_claim:
  assumes "rotated pool k st" "map_of (rt_days st) day = None" "pool \<noteq> []"
  shows "\<exists>a st'. claim env pool day st = Inr (a, st') \<and> rotated pool (Suc k) st'
    \<and> sc_selected (as_scope a) = [pool ! (k mod length pool)] \<and> fst ` set (rt_days st') = insert day (fst ` set (rt_days st))"
proof -
  let ?n = "length pool"
  have inv: "rotation_inv st" and open_rows: "list_all (\<lambda>(_, r). rw_run_id r = None) (rt_days st)"
    using assms(1) by (auto simp: rotated_def)
  have pos: "0 < ?n" using assms(3) by simp
  define left where "left = (case rt_cycle st of Some (remaining, _) \<Rightarrow> filter (\<lambda>c. c \<in> set pool) remaining | None \<Rightarrow> [])"
  have left: "(if left = [] then pool else left) = drop (k mod ?n) pool"
  proof (cases k)
    case 0
    then show ?thesis using assms(1) by (simp add: rotated_def left_def)
  next
    case (Suc j)
    then have l: "left = drop (Suc (j mod ?n)) pool"
      using assms(1) by (auto simp: rotated_def left_def intro!: filter_True dest: in_set_dropD)
    show ?thesis
    proof (cases "Suc (j mod ?n) = ?n")
      case True
      then have "k mod ?n = 0" using Suc by (simp add: mod_Suc)
      with True l show ?thesis by simp
    next
      case False
      then have "Suc (j mod ?n) < ?n" using mod_less_divisor [OF pos, of j] by linarith
      moreover have "k mod ?n = Suc (j mod ?n)" using Suc False by (simp add: mod_Suc)
      ultimately show ?thesis using l by simp
    qed
  qed
  have split: "drop (k mod ?n) pool = pool ! (k mod ?n) # drop (Suc (k mod ?n)) pool"
    using pos by (simp add: Cons_nth_drop_Suc)
  have "(case rt_cycle st of Some (_, roster) \<Rightarrow> roster | None \<Rightarrow> pool) = pool"
    using assms(1) by (auto simp: rotated_def split: if_splits)
  moreover have "\<not> unresolved env st" using open_rows by (auto simp: unresolved_def list_all_iff list_ex_iff)
  moreover have "pool ! (k mod ?n) \<in> set pool" using pos by simp
  moreover have "map_of (rt_attempts st) (day, 1) = None" by (rule rotation_inv_None [OF inv assms(2)])
  ultimately obtain a st' where claimed: "claim_new env pool day st = Inr (a, st')" "sc_selected (as_scope a) = [pool ! (k mod ?n)]"
      "rt_cycle st' = Some (drop (Suc (k mod ?n)) pool, pool)" "rt_days st' = rt_days st @ [(day, fresh_row (pool ! (k mod ?n)))]"
    using assms(2) left split by (auto simp: claim_new_def Let_def left_def [symmetric] insert_row_def map_of_eq_None_iff
        make_assignment_def issuer_scope_def)
  have "rotated pool (Suc k) st'"
    using claim_new_inv [OF inv claimed(1)] open_rows claimed(3,4) by (simp add: rotated_def fresh_row_def)
  with claimed assms(2) show ?thesis by (simp add: claim_def)
qed



end
