(* ===== verification/RevisionHistory.thy ===== *)
theory RevisionHistory
  imports Contracts
begin

text \<open>
  \<open>cardrag_worker/revision_history_v5.py\<close>: planning the contract revisions of one product lineage from durable
  PDF revision rows and discovery snapshots, without inventing metadata or supersession edges.

  A Python set of identities is a list without repetitions; the plan is sorted at the end, so that the
  iteration order of sets is not observable.  Timestamps are strings, validated by \<open>fromisoformat\<close>.
\<close>

record PDFSourceRevisionRow =
  rv_revision_id :: int
  rv_previous_revision_id :: "int option"
  rv_source_id :: string
  rv_issuer :: string
  rv_product_code :: string
  rv_document_type :: string
  rv_source_url :: string
  rv_source_version :: string
  rv_source_post_id :: string
  rv_discovery_sha256 :: string
  rv_pdf_sha256 :: string
  rv_pdf_size_bytes :: int
  rv_page_count :: int
  rv_relative_path :: string
  rv_final_url :: string
  rv_etag :: "string option"
  rv_last_modified :: "string option"
  rv_source_first_observed_at :: string
  rv_source_last_observed_at :: string
  rv_revision_first_observed_at :: string
  rv_revision_last_observed_at :: string
  rv_verified_at :: string
  rv_superseded_at :: "string option"
  rv_superseded_by_source_id :: "string option"
  rv_source_superseded_at :: "string option"

datatype TemporalStatusV5 = Current | Superseded | Ambiguous

record RevisionHistoryCandidateV5 =
  rc_source :: SourceRecord
  rc_revision :: PDFSourceRevisionRow
  rc_temporal_status :: TemporalStatusV5
  rc_supersedes_document_id :: "string option"

definition candidate_document_id :: "RevisionHistoryCandidateV5 \<Rightarrow> string result" where
  "candidate_document_id c = document_id (rc_source c) (rv_pdf_sha256 (rc_revision c))"

record UnresolvedRevisionIdentityV5 =
  ur_source_id :: string
  ur_pdf_sha256 :: string
  ur_reason_code :: string

definition unresolved_reasons :: "string list" where
  "unresolved_reasons = [''document_identity_collision'', ''pdf_cache_object_unavailable'', ''source_metadata_unresolved'']"

definition unresolved_revision_identity :: "string \<Rightarrow> string \<Rightarrow> string \<Rightarrow> UnresolvedRevisionIdentityV5 result" where
  "unresolved_revision_identity sid pdf reason =
     rbind (raise_if (\<not> source_id_text sid \<or> \<not> sha256_hex pdf \<or> reason \<notin> set unresolved_reasons)
       (ValueError ''unresolved revision identity is invalid'')) (\<lambda>_.
     Inr \<lparr>ur_source_id = sid, ur_pdf_sha256 = pdf, ur_reason_code = reason\<rparr>)"

type_synonym contract = "string \<times> string"

text \<open>The ledger of unresolved identities: one entry per identity, with its sorted reasons, in order.\<close>

definition canonical_unresolved_revision_ledger ::
  "UnresolvedRevisionIdentityV5 list \<Rightarrow> (contract \<times> string list) list"
where
  "canonical_unresolved_revision_ledger entries =
     map (\<lambda>k. (k, sorted_set (map ur_reason_code (filter (\<lambda>e. (ur_source_id e, ur_pdf_sha256 e) = k) entries))))
       (sorted_set (map (\<lambda>e. (ur_source_id e, ur_pdf_sha256 e)) entries))"

definition unresolved_revision_ledger_sha256 :: "(contract \<times> string list) list \<Rightarrow> string result" where
  "unresolved_revision_ledger_sha256 ledger = wk_canonical_sha256 (JObj
     [(''schema_version'', JStr ''cardrag.revision-history-unresolved.v1''),
      (''identities'', JArr (map (\<lambda>((sid, pdf), reasons). JObj [(''source_id'', JStr sid), (''pdf_sha256'', JStr pdf),
         (''reason_codes'', JArr (map JStr reasons))]) ledger))])"

record RevisionHistoryPlanV5 =
  pn_candidates :: "RevisionHistoryCandidateV5 list"
  pn_unresolved_revisions :: "UnresolvedRevisionIdentityV5 list"

definition unresolved_revision_count :: "RevisionHistoryPlanV5 \<Rightarrow> int" where
  "unresolved_revision_count p = int (length (pn_unresolved_revisions p))"

definition history_error :: "string \<Rightarrow> exn" where
  "history_error msg = RevisionHistoryV5Error msg"

definition timestamp :: "string \<Rightarrow> string \<Rightarrow> unit result" where
  "timestamp field value = (case fromisoformat value of
     None \<Rightarrow> Inl (history_error (''historical '' @ field @ '' is invalid''))
   | Some (_, offset) \<Rightarrow> raise_if (offset = None) (history_error (''historical '' @ field @ '' is timezone-naive'')))"

type_synonym static_identity = "string \<times> string \<times> string \<times> string \<times> string \<times> string \<times> string \<times> string"

definition source_identity :: "PDFSourceRevisionRow \<Rightarrow> static_identity" where
  "source_identity r = (rv_source_id r, rv_issuer r, rv_product_code r, rv_document_type r, rv_source_url r,
     rv_source_version r, rv_source_post_id r, rv_discovery_sha256 r)"

text \<open>\<open>PDFSourceIdentity.from_source_record\<close> checks that the source id is derived from the payload, as it always is.\<close>

definition record_identity :: "SourceRecord \<Rightarrow> static_identity result" where
  "record_identity s = rbind (wk_canonical_sha256 (discovery_payload s)) (\<lambda>d. rbind (source_id s) (\<lambda>sid.
     Inr (sid, sr_issuer s, sr_product_code s, sr_document_type s, sr_source_url s, sr_source_version s,
          sr_source_post_id s, d)))"

definition identity_of :: "PDFSourceRevisionRow \<Rightarrow> contract" where
  "identity_of r = (rv_source_id r, rv_pdf_sha256 r)"

definition row_lineage :: "PDFSourceRevisionRow \<Rightarrow> string \<times> string \<times> string" where
  "row_lineage r = (rv_issuer r, rv_product_code r, rv_document_type r)"

definition source_lineage :: "SourceRecord \<Rightarrow> string \<times> string \<times> string" where
  "source_lineage s = (sr_issuer s, sr_product_code s, sr_document_type s)"

definition check_timestamps :: "PDFSourceRevisionRow \<Rightarrow> unit result" where
  "check_timestamps r =
     rfold (\<lambda>_ (field, value). timestamp field value) ()
       ([(''source_first_observed_at'', rv_source_first_observed_at r), (''source_last_observed_at'', rv_source_last_observed_at r),
         (''revision_first_observed_at'', rv_revision_first_observed_at r), (''revision_last_observed_at'', rv_revision_last_observed_at r),
         (''verified_at'', rv_verified_at r)]
        @ (case rv_superseded_at r of Some t \<Rightarrow> [(''superseded_at'', t)] | None \<Rightarrow> [])
        @ (case rv_source_superseded_at r of Some t \<Rightarrow> [(''source_superseded_at'', t)] | None \<Rightarrow> []))"

text \<open>The checks on one row, with the rows and the static identities of the sources seen before it.\<close>

definition check_row ::
  "string \<times> string \<times> string \<Rightarrow> PDFSourceRevisionRow list \<times> (string, static_identity) dict \<Rightarrow> PDFSourceRevisionRow
   \<Rightarrow> (PDFSourceRevisionRow list \<times> (string, static_identity) dict) result"
where
  "check_row lineage st r = (case st of (seen, statics) \<Rightarrow>
     rbind (raise_if (rv_revision_id r \<in> set (map rv_revision_id seen)) (history_error ''historical PDF revision_id is duplicated'')) (\<lambda>_.
     rbind (raise_if (row_lineage r \<noteq> lineage) (history_error ''historical PDF revision crosses a product lineage'')) (\<lambda>_.
     rbind (raise_if (case rv_previous_revision_id r of Some p \<Rightarrow> p \<ge> rv_revision_id r | None \<Rightarrow> False)
       (history_error ''historical PDF revision order is not forward-only'')) (\<lambda>_.
     rbind (check_timestamps r) (\<lambda>_.
     rbind (raise_if (case map_of statics (rv_source_id r) of Some i \<Rightarrow> i \<noteq> source_identity r | None \<Rightarrow> False)
       (history_error ''historical source identity changes across byte revisions'')) (\<lambda>_.
     Inr (seen @ [r], if rv_source_id r \<in> set (keys statics) then statics else statics @ [(rv_source_id r, source_identity r)])))))))"

definition is_active :: "PDFSourceRevisionRow \<Rightarrow> bool" where
  "is_active r \<longleftrightarrow> rv_superseded_at r = None \<and> rv_source_superseded_at r = None"

text \<open>Snapshot sources of the lineage that have rows; their payload must agree with the rows.\<close>

definition resolve_source ::
  "string \<times> string \<times> string \<Rightarrow> (string, static_identity) dict \<Rightarrow> (string, SourceRecord) dict \<Rightarrow> string \<times> SourceRecord
   \<Rightarrow> (string, SourceRecord) dict result"
where
  "resolve_source lineage statics resolved x = (case x of (sid, s) \<Rightarrow>
     if source_lineage s \<noteq> lineage then Inr resolved
     else case map_of statics sid of None \<Rightarrow> Inr resolved
       | Some persisted \<Rightarrow>
         rbind (record_identity s) (\<lambda>i.
         rbind (raise_if (i \<noteq> persisted) (history_error ''snapshot source payload conflicts with PDF cache history'')) (\<lambda>_.
         Inr (AList.update sid s resolved))))"

definition previous_edge :: "PDFSourceRevisionRow list \<Rightarrow> PDFSourceRevisionRow \<Rightarrow> (contract \<times> contract) list result" where
  "previous_edge rows r = (case rv_previous_revision_id r of
     None \<Rightarrow> Inr []
   | Some pid \<Rightarrow>
     (case List.find (\<lambda>p. rv_revision_id p = pid) rows of
        None \<Rightarrow> Inl (history_error ''historical previous_revision_id is missing or cross-source'')
      | Some p \<Rightarrow>
          if rv_source_id p \<noteq> rv_source_id r
          then Inl (history_error ''historical previous_revision_id is missing or cross-source'')
          else Inr (if identity_of p \<noteq> identity_of r then [(identity_of r, identity_of p)] else [])))"

definition rows_of :: "PDFSourceRevisionRow list \<Rightarrow> string \<Rightarrow> PDFSourceRevisionRow list" where
  "rows_of rows sid = filter (\<lambda>r. rv_source_id r = sid) rows"

definition rows_with :: "PDFSourceRevisionRow list \<Rightarrow> contract \<Rightarrow> PDFSourceRevisionRow list" where
  "rows_with rows i = filter (\<lambda>r. identity_of r = i) rows"

text \<open>The one successor all rows of a source agree on; pairs of a successor and its predecessor source.\<close>

definition successor_pair :: "PDFSourceRevisionRow list \<Rightarrow> string \<Rightarrow> (string \<times> string) list result" where
  "successor_pair rows sid =
     (let successors = remdups (map rv_superseded_by_source_id (rows_of rows sid)) in
      if length successors \<noteq> 1 then Inl (history_error ''historical source successor changes across byte revisions'')
      else Inr (case hd successors of None \<Rightarrow> [] | Some target \<Rightarrow> [(target, sid)]))"

definition first_row :: "PDFSourceRevisionRow list \<Rightarrow> PDFSourceRevisionRow" where
  "first_row rows = arg_min_list rv_revision_id rows"

definition last_row :: "PDFSourceRevisionRow list \<Rightarrow> PDFSourceRevisionRow" where
  "last_row rows = arg_min_list (\<lambda>r. - rv_revision_id r) rows"

definition source_edge ::
  "PDFSourceRevisionRow list \<Rightarrow> (string, SourceRecord) dict \<Rightarrow> (string \<times> string) list \<Rightarrow> string
   \<Rightarrow> (contract \<times> contract) list result"
where
  "source_edge rows resolved pairs target =
     (let priors = map snd (filter (\<lambda>p. fst p = target) pairs) in
      if length priors \<noteq> 1 \<or> target \<notin> set (map rv_source_id rows) then Inr []
      else
        let predecessor = hd priors; target_first = first_row (rows_of rows target);
            predecessor_last = last_row (rows_of rows predecessor) in
        if identity_of target_first = identity_of predecessor_last then Inr []
        else case (map_of resolved predecessor, map_of resolved target) of
          (Some ps, Some ts) \<Rightarrow>
            rbind (document_id ts (rv_pdf_sha256 target_first)) (\<lambda>ti.
            rbind (document_id ps (rv_pdf_sha256 predecessor_last)) (\<lambda>pi.
            Inr (if ti \<noteq> pi then [(identity_of target_first, identity_of predecessor_last)] else [])))
        | _ \<Rightarrow> Inr [(identity_of target_first, identity_of predecessor_last)])"

definition temporal_status :: "contract \<Rightarrow> PDFSourceRevisionRow list \<Rightarrow> contract \<Rightarrow> TemporalStatusV5" where
  "temporal_status current rows i =
     (if i = current then Current
      else if list_ex (\<lambda>r. \<not> is_active r) (rows_with rows i) then Superseded else Ambiguous)"

definition plan_candidate ::
  "contract \<Rightarrow> PDFSourceRevisionRow list \<Rightarrow> (string, SourceRecord) dict \<Rightarrow> contract list \<Rightarrow> (contract \<times> contract) list
   \<Rightarrow> contract \<Rightarrow> RevisionHistoryCandidateV5 result"
where
  "plan_candidate current rows resolved included edges i =
     (let predecessors = remdups (map snd (filter (\<lambda>(target, p). target = i \<and> p \<in> set included) edges));
          source = the (map_of resolved (fst i)) in
      rbind (if length predecessors = 1
             then let p = hd predecessors in
               rbind (document_id (the (map_of resolved (fst p))) (snd p)) (\<lambda>pd.
               rbind (document_id source (snd i)) (\<lambda>cd. Inr (if pd \<noteq> cd then Some pd else None)))
             else Inr None) (\<lambda>supersedes.
      Inr \<lparr>rc_source = source, rc_revision = last_row (rows_with rows i),
           rc_temporal_status = temporal_status current rows i, rc_supersedes_document_id = supersedes\<rparr>))"

text \<open>The source id of a candidate is that of its row: resolved sources agree with the rows' identity.\<close>

definition candidate_key :: "RevisionHistoryCandidateV5 \<Rightarrow> string \<times> int \<times> string \<times> string" where
  "candidate_key c = (rv_revision_first_observed_at (rc_revision c), rv_revision_id (rc_revision c),
     rv_source_id (rc_revision c), rv_pdf_sha256 (rc_revision c))"

definition plan_revision_history ::
  "SourceRecord \<Rightarrow> string \<Rightarrow> PDFSourceRevisionRow list \<Rightarrow> (string, SourceRecord) dict \<Rightarrow> RevisionHistoryPlanV5 result"
where
  "plan_revision_history current_source current_pdf rows known_sources =
     rbind (source_id current_source) (\<lambda>sid.
     rbind (case map_of known_sources sid of
         None \<Rightarrow> Inr (known_sources @ [(sid, current_source)])
       | Some s \<Rightarrow> rbind (raise_if (norm_json True (discovery_payload s) \<noteq> norm_json True (discovery_payload current_source))
           (history_error ''current source payload conflicts with snapshot history'')) (\<lambda>_. Inr known_sources)) (\<lambda>known.
     let lineage = source_lineage current_source; current = (sid, current_pdf) in
     rbind (raise_if (rows = []) (history_error ''current lineage has no durable PDF revision history'')) (\<lambda>_.
     rbind (rfold (check_row lineage) ([], []) rows) (\<lambda>(_, statics).
     rbind (raise_if (\<not> list_ex is_active (rows_with rows current))
       (history_error ''current discovery/PDF is not the active durable revision'')) (\<lambda>_.
     rbind (rfold (resolve_source lineage statics) [] known) (\<lambda>resolved.
     let identities = sorted_set (map identity_of rows);
         included = filter (\<lambda>i. fst i \<in> set (keys resolved)) identities in
     rbind (rmap (\<lambda>i. unresolved_revision_identity (fst i) (snd i) ''source_metadata_unresolved'')
       (filter (\<lambda>i. fst i \<notin> set (keys resolved)) identities)) (\<lambda>unresolved.
     rbind (rmap (previous_edge rows) rows) (\<lambda>edges1.
     rbind (rmap (successor_pair rows) (sorted_set (map rv_source_id rows))) (\<lambda>pairs.
     rbind (rmap (source_edge rows resolved (concat pairs)) (sorted_set (map fst (concat pairs)))) (\<lambda>edges2.
     rbind (rmap (plan_candidate current rows resolved included (concat edges1 @ concat edges2)) included) (\<lambda>planned.
     let ordered = sort_key candidate_key planned in
     rbind (raise_if (length (filter (\<lambda>c. rc_temporal_status c = Current) ordered) \<noteq> 1)
       (history_error ''revision plan does not contain exactly one current contract'')) (\<lambda>_.
     Inr \<lparr>pn_candidates = ordered, pn_unresolved_revisions = unresolved\<rparr>))))))))))))"

section \<open>What a plan is made of\<close>

lemma last_row_in: "rows \<noteq> [] \<Longrightarrow> last_row rows \<in> set rows"
  unfolding last_row_def by (rule arg_min_list_in)

lemma identity_last_row:
  assumes "i \<in> identity_of ` set rows"
  shows "last_row (rows_with rows i) \<in> set rows" "identity_of (last_row (rows_with rows i)) = i"
proof -
  have "rows_with rows i \<noteq> []" using assms by (auto simp: rows_with_def filter_empty_conv)
  from last_row_in [OF this] show "last_row (rows_with rows i) \<in> set rows" "identity_of (last_row (rows_with rows i)) = i"
    by (auto simp: rows_with_def)
qed

lemma planE:
  assumes "plan_revision_history current_source current_pdf rows known_sources = Inr p"
  obtains sid known seen statics resolved unresolved edges planned where
    "source_id current_source = Inr sid"
    "known = (if sid \<in> set (keys known_sources) then known_sources else known_sources @ [(sid, current_source)])"
    "rfold (check_row (source_lineage current_source)) ([], []) rows = Inr (seen, statics)"
    "rfold (resolve_source (source_lineage current_source) statics) [] known = Inr resolved"
    "rmap (\<lambda>i. unresolved_revision_identity (fst i) (snd i) ''source_metadata_unresolved'')
       (filter (\<lambda>i. fst i \<notin> set (keys resolved)) (sorted_set (map identity_of rows))) = Inr unresolved"
    "rmap (plan_candidate (sid, current_pdf) rows resolved (filter (\<lambda>i. fst i \<in> set (keys resolved)) (sorted_set (map identity_of rows))) edges)
       (filter (\<lambda>i. fst i \<in> set (keys resolved)) (sorted_set (map identity_of rows))) = Inr planned"
    "length (filter (\<lambda>c. rc_temporal_status c = Current) (sort_key candidate_key planned)) = 1"
    "p = \<lparr>pn_candidates = sort_key candidate_key planned, pn_unresolved_revisions = unresolved\<rparr>"
proof -
  from assms obtain sid where sid: "source_id current_source = Inr sid" by (auto simp: plan_revision_history_def)
  let ?known = "if sid \<in> set (keys known_sources) then known_sources else known_sources @ [(sid, current_source)]"
  have known: "(case map_of known_sources sid of None \<Rightarrow> Inr (known_sources @ [(sid, current_source)])
       | Some s \<Rightarrow> rbind (raise_if (norm_json True (discovery_payload s) \<noteq> norm_json True (discovery_payload current_source))
           (history_error ''current source payload conflicts with snapshot history'')) (\<lambda>_. Inr known_sources)) = Inr k \<Longrightarrow> k = ?known" for k
    by (cases "map_of known_sources sid") (auto simp: map_of_eq_None_iff intro: rev_image_eqI dest!: map_of_SomeD)
  from assms obtain k seen statics resolved unresolved edges1 pairs edges2 planned where
    "(case map_of known_sources sid of None \<Rightarrow> Inr (known_sources @ [(sid, current_source)])
       | Some s \<Rightarrow> rbind (raise_if (norm_json True (discovery_payload s) \<noteq> norm_json True (discovery_payload current_source))
           (history_error ''current source payload conflicts with snapshot history'')) (\<lambda>_. Inr known_sources)) = Inr k"
    "rfold (check_row (source_lineage current_source)) ([], []) rows = Inr (seen, statics)"
    "rfold (resolve_source (source_lineage current_source) statics) [] k = Inr resolved"
    "rmap (\<lambda>i. unresolved_revision_identity (fst i) (snd i) ''source_metadata_unresolved'')
       (filter (\<lambda>i. fst i \<notin> set (keys resolved)) (sorted_set (map identity_of rows))) = Inr unresolved"
    "rmap (plan_candidate (sid, current_pdf) rows resolved (filter (\<lambda>i. fst i \<in> set (keys resolved)) (sorted_set (map identity_of rows))) (concat edges1 @ concat edges2))
       (filter (\<lambda>i. fst i \<in> set (keys resolved)) (sorted_set (map identity_of rows))) = Inr planned"
    "length (filter (\<lambda>c. rc_temporal_status c = Current) (sort_key candidate_key planned)) = 1"
    "p = \<lparr>pn_candidates = sort_key candidate_key planned, pn_unresolved_revisions = unresolved\<rparr>"
    unfolding plan_revision_history_def Let_def by (auto simp: sid simp del: set_map)
  with known show thesis by (intro that [OF sid refl]) auto
qed

lemma candidate_fields:
  assumes "plan_candidate current rows resolved included edges i = Inr c"
  shows "rc_source c = the (map_of resolved (fst i))" "rc_revision c = last_row (rows_with rows i)"
    "rc_temporal_status c = temporal_status current rows i"
  using assms by (auto simp: plan_candidate_def Let_def)

lemma rmap_image:
  assumes "rmap f xs = Inr ys" "\<And>x y. x \<in> set xs \<Longrightarrow> f x = Inr y \<Longrightarrow> g y = x" shows "map g ys = xs"
  using rmap_keys [OF assms(1), of g id] assms(2) by simp

lemma plan_identities:
  assumes "rmap (plan_candidate current rows resolved included edges) xs = Inr planned" "set xs \<subseteq> identity_of ` set rows"
  shows "map (\<lambda>c. identity_of (rc_revision c)) planned = xs"
proof (rule rmap_image [OF assms(1)])
  fix i c assume "i \<in> set xs" and c: "plan_candidate current rows resolved included edges i = Inr c"
  with assms(2) have "i \<in> identity_of ` set rows" by (rule_tac subsetD)
  from identity_last_row(2) [OF this] show "identity_of (rc_revision c) = i" by (simp add: candidate_fields(2) [OF c])
qed

text \<open>
  A plan accounts for every durable revision: each identity (source and PDF digest) of the rows becomes
  exactly one candidate or exactly one unresolved entry, and nothing else does.
\<close>

lemma revision_plan_accounts_each:
  assumes "plan_revision_history current_source current_pdf rows known_sources = Inr p"
  shows "mset (map (\<lambda>c. identity_of (rc_revision c)) (pn_candidates p)
      @ map (\<lambda>u. (ur_source_id u, ur_pdf_sha256 u)) (pn_unresolved_revisions p)) = mset_set (identity_of ` set rows)"
proof -
  obtain sid known seen statics resolved unresolved edges planned where p:
    "rmap (\<lambda>i. unresolved_revision_identity (fst i) (snd i) ''source_metadata_unresolved'')
       (filter (\<lambda>i. fst i \<notin> set (keys resolved)) (sorted_set (map identity_of rows))) = Inr unresolved"
    "rmap (plan_candidate (sid, current_pdf) rows resolved (filter (\<lambda>i. fst i \<in> set (keys resolved)) (sorted_set (map identity_of rows))) edges)
       (filter (\<lambda>i. fst i \<in> set (keys resolved)) (sorted_set (map identity_of rows))) = Inr planned"
    "p = \<lparr>pn_candidates = sort_key candidate_key planned, pn_unresolved_revisions = unresolved\<rparr>"
    by (rule planE [OF assms])
  let ?ids = "sorted_set (map identity_of rows)"
  have a: "map (\<lambda>c. identity_of (rc_revision c)) planned = filter (\<lambda>i. fst i \<in> set (keys resolved)) ?ids"
    by (rule plan_identities [OF p(2)]) auto
  have b: "map (\<lambda>u. (ur_source_id u, ur_pdf_sha256 u)) unresolved = filter (\<lambda>i. fst i \<notin> set (keys resolved)) ?ids"
    by (rule rmap_image [OF p(1)]) (auto simp: unresolved_revision_identity_def)
  have "mset (map (\<lambda>c. identity_of (rc_revision c)) (pn_candidates p)
      @ map (\<lambda>u. (ur_source_id u, ur_pdf_sha256 u)) (pn_unresolved_revisions p)) =
      mset (filter (\<lambda>i. fst i \<in> set (keys resolved)) ?ids) + mset (filter (\<lambda>i. fst i \<notin> set (keys resolved)) ?ids)"
    unfolding a [symmetric] b [symmetric] p(3) by simp
  also have "\<dots> = mset ?ids" unfolding mset_filter by (rule multiset_partition [symmetric])
  also have "\<dots> = mset_set (identity_of ` set rows)" using mset_set_set [of ?ids] by simp
  finally show ?thesis .
qed

section \<open>Evidence\<close>

lemma check_row_static:
  assumes "check_row lineage st r = Inr st'"
  shows "map_of (snd st') (rv_source_id r) = Some (source_identity r)"
    "map_of (snd st) sid = Some i \<Longrightarrow> map_of (snd st') sid = Some i"
proof -
  obtain seen statics where st: "st = (seen, statics)" by fastforce
  have "map_of (snd st') (rv_source_id r) = Some (source_identity r)
      \<and> (map_of (snd st) sid = Some i \<longrightarrow> map_of (snd st') sid = Some i)"
  proof (cases "map_of statics (rv_source_id r)")
    case None
    then have "rv_source_id r \<notin> set (keys statics)" by (simp add: map_of_eq_None_iff)
    with assms None show ?thesis by (auto simp: st check_row_def map_add_def split: option.splits)
  next
    case (Some j)
    then have "rv_source_id r \<in> set (keys statics)" using map_of_eq_None_iff [of statics "rv_source_id r"] by auto
    with assms Some show ?thesis by (auto simp: st check_row_def)
  qed
  then show "map_of (snd st') (rv_source_id r) = Some (source_identity r)"
    "map_of (snd st) sid = Some i \<Longrightarrow> map_of (snd st') sid = Some i" by simp_all
qed

lemma check_rows_static:
  assumes "rfold (check_row lineage) ([], []) rows = Inr (seen, statics)" "r \<in> set rows"
  shows "map_of statics (rv_source_id r) = Some (source_identity r)"
proof -
  have "(\<lambda>ys st. \<forall>r \<in> set ys. map_of (snd st) (rv_source_id r) = Some (source_identity r)) rows (seen, statics)"
    by (rule rfold_prefix [OF assms(1)]) (auto dest: check_row_static)
  with assms(2) show ?thesis by simp
qed

lemma resolved_known:
  assumes "rfold (resolve_source lineage statics) [] known = Inr resolved" "map_of resolved sid = Some s"
  shows "(sid, s) \<in> set known" "\<exists>i. map_of statics sid = Some i \<and> record_identity s = Inr i"
proof -
  have "\<forall>sid s. map_of resolved sid = Some s \<longrightarrow> (sid, s) \<in> set known \<and> (\<exists>i. map_of statics sid = Some i \<and> record_identity s = Inr i)"
    by (rule rfold_invariant [OF assms(1)])
      (auto simp: resolve_source_def update_conv' split: if_splits option.splits)
  with assms(2) show "(sid, s) \<in> set known" "\<exists>i. map_of statics sid = Some i \<and> record_identity s = Inr i" by simp_all
qed

lemma candidate_supersedes:
  assumes "plan_candidate current rows resolved included edges i = Inr c" "rc_supersedes_document_id c = Some d"
  shows "\<exists>j \<in> set included. document_id (the (map_of resolved (fst j))) (snd j) = Inr d
    \<and> document_id (the (map_of resolved (fst i))) (snd i) \<noteq> Inr d"
proof -
  let ?ps = "remdups (map snd (filter (\<lambda>(target, p). target = i \<and> p \<in> set included) edges))"
  from assms have one: "length ?ps = 1" and d: "document_id (the (map_of resolved (fst (hd ?ps)))) (snd (hd ?ps)) = Inr d"
    and ne: "document_id (the (map_of resolved (fst i))) (snd i) \<noteq> Inr d"
    by (auto simp: plan_candidate_def Let_def split: if_splits)
  from one have "?ps \<noteq> []" by auto
  then have "hd ?ps \<in> set ?ps" by (rule hd_in_set)
  then have "hd ?ps \<in> set included" by auto
  with d ne show ?thesis by (intro bexI [of _ "hd ?ps"] conjI)
qed

lemma rmap_preimage: "rmap f xs = Inr ys \<Longrightarrow> y \<in> set ys \<Longrightarrow> \<exists>x \<in> set xs. f x = Inr y"
  by (induction xs arbitrary: ys) auto

lemma rmap_postimage: "rmap f xs = Inr ys \<Longrightarrow> x \<in> set xs \<Longrightarrow> \<exists>y \<in> set ys. f x = Inr y"
  by (induction xs arbitrary: ys) auto

lemma planned_candidate:
  assumes "rmap (plan_candidate current rows resolved included edges) included = Inr planned" "set included \<subseteq> identity_of ` set rows"
    and "c \<in> set planned"
  obtains i where "i \<in> set included" "plan_candidate current rows resolved included edges i = Inr c"
    "rc_source c = the (map_of resolved (fst i))" "rc_revision c \<in> set rows" "identity_of (rc_revision c) = i"
    "candidate_document_id c = document_id (the (map_of resolved (fst i))) (snd i)"
proof -
  from rmap_preimage [OF assms(1,3)] obtain i where i: "i \<in> set included" and c: "plan_candidate current rows resolved included edges i = Inr c"
    by auto
  from i assms(2) have "i \<in> identity_of ` set rows" by auto
  from identity_last_row [OF this] candidate_fields [OF c] have
    "rc_source c = the (map_of resolved (fst i))" "rc_revision c \<in> set rows" "identity_of (rc_revision c) = i" by simp_all
  then show thesis by (intro that [OF i c]) (auto simp: candidate_document_id_def identity_of_def)
qed

definition candidate_bound ::
  "contract \<Rightarrow> PDFSourceRevisionRow list \<Rightarrow> (string, SourceRecord) dict \<Rightarrow> RevisionHistoryCandidateV5 \<Rightarrow> bool"
where
  "candidate_bound current rows known c \<longleftrightarrow>
     (rc_temporal_status c = Current \<longleftrightarrow> identity_of (rc_revision c) = current) \<and> rc_revision c \<in> set rows
     \<and> (rv_source_id (rc_revision c), rc_source c) \<in> set known
     \<and> record_identity (rc_source c) = Inr (source_identity (rc_revision c))"

lemma planned_bound:
  assumes "rfold (check_row lineage) ([], []) rows = Inr (seen, statics)"
    "rfold (resolve_source lineage statics) [] known = Inr resolved"
    "rmap (plan_candidate current rows resolved included edges) included = Inr planned"
    "set included \<subseteq> identity_of ` set rows" "\<forall>i \<in> set included. fst i \<in> set (keys resolved)" "c \<in> set planned"
  shows "candidate_bound current rows known c"
proof -
  from planned_candidate [OF assms(3,4,6)] obtain i where i: "i \<in> set included"
    and ic: "plan_candidate current rows resolved included edges i = Inr c"
    and f: "rc_source c = the (map_of resolved (fst i))" "rc_revision c \<in> set rows" "identity_of (rc_revision c) = i" .
  have sid: "rv_source_id (rc_revision c) = fst i" using f(3) by (auto simp: identity_of_def)
  from i assms(5) obtain s where s: "map_of resolved (fst i) = Some s" using map_of_eq_None_iff [of resolved "fst i"] by auto
  with f(1) have src: "rc_source c = s" by simp
  from resolved_known(2) [OF assms(2) s] check_rows_static [OF assms(1) f(2)]
  have "record_identity (rc_source c) = Inr (source_identity (rc_revision c))" by (auto simp: src sid)
  with resolved_known(1) [OF assms(2) s] f(2) show ?thesis
    by (simp add: candidate_bound_def src sid candidate_fields(3) [OF ic] f(3) temporal_status_def)
qed

lemma planned_edge:
  assumes "rmap (plan_candidate current rows resolved included edges) included = Inr planned" "set included \<subseteq> identity_of ` set rows"
    and "c \<in> set planned" "rc_supersedes_document_id c = Some d"
  shows "candidate_document_id c \<noteq> Inr d \<and> (\<exists>c' \<in> set planned. candidate_document_id c' = Inr d)"
proof -
  from planned_candidate [OF assms(1-3)] obtain i where ic: "plan_candidate current rows resolved included edges i = Inr c"
    and doc: "candidate_document_id c = document_id (the (map_of resolved (fst i))) (snd i)" .
  from candidate_supersedes [OF ic assms(4)] obtain j where j: "j \<in> set included"
    "document_id (the (map_of resolved (fst j))) (snd j) = Inr d" "document_id (the (map_of resolved (fst i))) (snd i) \<noteq> Inr d" by blast
  from rmap_postimage [OF assms(1) j(1)] obtain c' where c': "c' \<in> set planned"
    "plan_candidate current rows resolved included edges j = Inr c'" by auto
  from j(1) assms(2) have "j \<in> identity_of ` set rows" by auto
  from identity_last_row(2) [OF this] candidate_fields [OF c'(2)] j(2)
  have "candidate_document_id c' = Inr d" by (cases j) (auto simp: candidate_document_id_def identity_of_def)
  with c'(1) doc j(3) show ?thesis by auto
qed


section \<open>A lineage with one revision\<close>

definition demo_row :: "string \<Rightarrow> string \<Rightarrow> PDFSourceRevisionRow" where
  "demo_row digest pdf = \<lparr>rv_revision_id = 1, rv_previous_revision_id = None, rv_source_id = ''source_'' @ digest, rv_issuer = ''bc'',
     rv_product_code = ''p1'', rv_document_type = ''product_description'', rv_source_url = ''https://x/a.pdf'', rv_source_version = ''1'',
     rv_source_post_id = ''7'', rv_discovery_sha256 = digest, rv_pdf_sha256 = pdf, rv_pdf_size_bytes = 9, rv_page_count = 1,
     rv_relative_path = ''a'', rv_final_url = ''https://x/a.pdf'', rv_etag = None, rv_last_modified = None,
     rv_source_first_observed_at = ''2025-01-31T00:00:00+00:00'', rv_source_last_observed_at = ''2025-01-31T00:00:00+00:00'',
     rv_revision_first_observed_at = ''2025-01-31T00:00:00+00:00'', rv_revision_last_observed_at = ''2025-01-31T00:00:00+00:00'',
     rv_verified_at = ''2025-01-31T00:00:00+00:00'', rv_superseded_at = None, rv_superseded_by_source_id = None,
     rv_source_superseded_at = None\<rparr>"

definition demo_digest :: string where
  "demo_digest = sha256_bytes (dumps True (discovery_payload (demo_source ''a'')))"

definition demo_sid :: string where
  "demo_sid = ''source_'' @ demo_digest"

lemma demo_source_id:
  "wk_canonical_sha256 (discovery_payload (demo_source ''a'')) = Inr demo_digest"
  "source_id (demo_source ''a'') = Inr (demo_sid)"
proof -
  show d: "wk_canonical_sha256 (discovery_payload (demo_source ''a'')) = Inr demo_digest"
    by (simp add: wk_canonical_sha256_def wk_canonical_json_bytes_def demo_digest_def discovery_payload_def demo_source_def)
  show "source_id (demo_source ''a'') = Inr (demo_sid)" by (simp add: source_id_def d demo_sid_def)
qed

lemma demo_timestamp: "timestamp field ''2025-01-31T00:00:00+00:00'' = Inr ()"
proof -
  have "fromisoformat ''2025-01-31T00:00:00+00:00'' \<noteq> None \<and> snd (the (fromisoformat ''2025-01-31T00:00:00+00:00'')) \<noteq> None"
    by code_simp
  then show ?thesis by (auto simp: timestamp_def split: option.splits)
qed

lemma demo_check_row:
  "check_row (''bc'', ''p1'', ''product_description'') ([], []) (demo_row demo_digest pdf)
   = Inr ([demo_row demo_digest pdf], [(demo_sid, source_identity (demo_row demo_digest pdf))])"
  by (simp add: check_row_def demo_row_def demo_sid_def check_timestamps_def demo_timestamp row_lineage_def)

lemma demo_plan:
  "\<exists>p. plan_revision_history (demo_source ''a'') pdf [demo_row demo_digest pdf] [] = Inr p"
proof -
  have lineage: "source_lineage (demo_source ''a'') = (''bc'', ''p1'', ''product_description'')"
    by (simp add: source_lineage_def demo_source_def)
  have rec: "record_identity (demo_source ''a'') = Inr (source_identity (demo_row demo_digest pdf))"
    by (simp add: record_identity_def demo_source_id source_identity_def demo_row_def demo_sid_def) (simp add: demo_source_def)
  have id: "identity_of (demo_row demo_digest pdf) = (demo_sid, pdf)"
    by (simp add: identity_of_def demo_row_def demo_sid_def)
  have resolved: "resolve_source (''bc'', ''p1'', ''product_description'')
      [(demo_sid, source_identity (demo_row demo_digest pdf))] [] (demo_sid, demo_source ''a'')
      = Inr [(demo_sid, demo_source ''a'')]"
    by (simp add: resolve_source_def lineage rec)
  have edge: "previous_edge [demo_row demo_digest pdf] (demo_row demo_digest pdf) = Inr []"
    by (simp add: previous_edge_def demo_row_def)
  have pair: "successor_pair [demo_row demo_digest pdf] (demo_sid) = Inr []"
    by (simp add: successor_pair_def rows_of_def demo_row_def demo_sid_def)
  have active: "list_ex is_active (rows_with [demo_row demo_digest pdf] (demo_sid, pdf))"
    by (simp add: rows_with_def id) (simp add: is_active_def demo_row_def)
  have src: "rv_source_id (demo_row demo_digest pdf) = demo_sid" by (simp add: demo_row_def demo_sid_def)
  show ?thesis unfolding plan_revision_history_def Let_def
    by (simp add: demo_source_id lineage demo_check_row resolved edge pair active id src sorted_set_def
        plan_candidate_def temporal_status_def del: rbind_eq_Inr_iff)
qed

lemma revision_plan_accounts_each_witness:
  "\<exists>p. plan_revision_history (demo_source ''a'') ''x'' [demo_row demo_digest ''x''] [] = Inr p
     \<and> mset (map (\<lambda>c. identity_of (rc_revision c)) (pn_candidates p)
      @ map (\<lambda>u. (ur_source_id u, ur_pdf_sha256 u)) (pn_unresolved_revisions p)) = mset_set {(demo_sid, ''x'')}"
proof -
  obtain p where p: "plan_revision_history (demo_source ''a'') ''x'' [demo_row demo_digest ''x''] [] = Inr p"
    using demo_plan by auto
  have "identity_of (demo_row demo_digest ''x'') = (demo_sid, ''x'')" by (simp add: identity_of_def demo_row_def demo_sid_def)
  with revision_plan_accounts_each [OF p] p show ?thesis by (intro exI [of _ p] conjI) simp_all
qed


end
