(* ===== verification/OcrArtifact.thy ===== *)
theory OcrArtifact
  imports Paths Json
begin

text \<open>
  \<open>cardrag_core/ocr.py\<close>: the identity of native OCR processing and the byte-level verification of OCR text.

  A text is its UTF-8 bytes; \<open>len(text)\<close> counts the bytes that start a character.  The multi-line regular
  expression for page markers matches whole lines, so that \<open>finditer\<close> is a pass over the lines with their
  offsets.  Offsets count bytes; they are only used to cut the text.
\<close>

section \<open>Contracts\<close>

record NativeOCRContract =
  nc_schema_version :: string
  nc_processor_version :: string
  nc_output_profile :: string
  nc_cache_epoch :: int
  nc_prompt_version :: string
  nc_prompt_sha256 :: string
  nc_renderer_id :: string
  nc_render_scale_milli :: int
  nc_provider :: string
  nc_model :: string
  nc_reasoning_effort :: "string option"
  nc_chunk_pages :: "int option"
  nc_segmentation_strategy_id :: "string option"
  nc_whole_document_max_pages :: "int option"
  nc_target_pages_per_call :: "int option"
  nc_context_pages_before :: "int option"
  nc_context_pages_after :: "int option"
  nc_output_policy :: "string option"

definition legacy_ocr_contract_schema :: string where
  "legacy_ocr_contract_schema = ''cardrag.ocr-contract.v1''"

definition continuity_present :: "NativeOCRContract \<Rightarrow> bool list" where
  "continuity_present c =
     [nc_segmentation_strategy_id c \<noteq> None, nc_whole_document_max_pages c \<noteq> None, nc_target_pages_per_call c \<noteq> None,
      nc_context_pages_before c \<noteq> None, nc_context_pages_after c \<noteq> None, nc_output_policy c \<noteq> None]"

definition segmentation_contract_matches_schema :: "NativeOCRContract \<Rightarrow> NativeOCRContract result" where
  "segmentation_contract_matches_schema c =
     (if nc_schema_version c = legacy_ocr_contract_schema then
        rbind (raise_if (nc_chunk_pages c = None) (ValueError ''v1 OCR contract requires chunk_pages'')) (\<lambda>_.
        rbind (raise_if (list_ex id (continuity_present c)) (ValueError ''v1 OCR contract cannot contain v2 segmentation fields'')) (\<lambda>_.
        Inr c))
      else
        rbind (raise_if (nc_chunk_pages c \<noteq> None) (ValueError ''v2 OCR contract must use target_pages_per_call, not chunk_pages'')) (\<lambda>_.
        rbind (raise_if (\<not> list_all id (continuity_present c)) (ValueError ''v2 OCR contract requires the complete segmentation contract'')) (\<lambda>_.
        Inr c)))"

record OCRInput =
  oi_schema_version :: string
  oi_pdf_sha256 :: string
  oi_pdf_size_bytes :: int
  oi_page_count :: int

section \<open>Verification of OCR text\<close>

record VerifiedOCR =
  vo_text :: string
  vo_sha256 :: string
  vo_size_bytes :: int
  vo_char_count :: int
  vo_pages :: "string list"
  vo_page_sha256 :: "string list"

text \<open>The strict UTF-8 decoder: no overlong form, no surrogate, nothing above U+10FFFF.\<close>

definition continuation :: "char \<Rightarrow> bool" where
  "continuation c \<longleftrightarrow> (of_char c :: nat) div 64 = 2"

fun utf8_valid :: "bytes \<Rightarrow> bool" where
  "utf8_valid [] = True"
| "utf8_valid (a # s) =
     (let n = (of_char a :: nat) in
      if n < 128 then utf8_valid s
      else case s of [] \<Rightarrow> False
      | b # s2 \<Rightarrow>
        if \<not> continuation b then False
        else if 194 \<le> n \<and> n < 224 then utf8_valid s2
        else case s2 of [] \<Rightarrow> False
        | c # s3 \<Rightarrow>
          if \<not> continuation c then False
          else if 224 \<le> n \<and> n < 240
          then (n = 224 \<longrightarrow> 160 \<le> (of_char b :: nat)) \<and> (n = 237 \<longrightarrow> (of_char b :: nat) < 160) \<and> utf8_valid s3
          else case s3 of [] \<Rightarrow> False
          | d # s4 \<Rightarrow> continuation d \<and> 240 \<le> n \<and> n < 245
              \<and> (n = 240 \<longrightarrow> 144 \<le> (of_char b :: nat)) \<and> (n = 244 \<longrightarrow> (of_char b :: nat) < 144) \<and> utf8_valid s4)"

definition char_count :: "string \<Rightarrow> nat" where
  "char_count s = length (filter (\<lambda>c. \<not> continuation c) s)"

text \<open>A line \<open>## Page N\<close>, where \<open>N\<close> has no leading zero.\<close>

definition page_number :: "string \<Rightarrow> nat option" where
  "page_number line =
     (let d = drop 8 line in
      if take 8 line = ''## Page '' \<and> d \<noteq> [] \<and> list_all is_digit d \<and> hd d \<noteq> CHR ''0'' then Some (nat_of_digits d) else None)"

fun page_markers :: "nat \<Rightarrow> string list \<Rightarrow> (nat \<times> nat) list" where
  "page_markers offset [] = []"
| "page_markers offset (l # ls) =
     (case page_number l of None \<Rightarrow> [] | Some n \<Rightarrow> [(offset, n)]) @ page_markers (offset + length l + 1) ls"

definition text_lines :: "string \<Rightarrow> string list" where
  "text_lines = split_on (CHR 0x0A)"

fun page_slices :: "string \<Rightarrow> nat list \<Rightarrow> string list" where
  "page_slices t [] = []"
| "page_slices t [s] = [strip (drop s t)]"
| "page_slices t (s # e # ss) = strip (take (e - s) (drop s t)) # page_slices t (e # ss)"

definition newline :: char where
  "newline = CHR 0x0A"

fun join_pages :: "string list \<Rightarrow> string" where
  "join_pages [] = [newline]"
| "join_pages [p] = p @ [newline]"
| "join_pages (p # q # ps) = p @ [newline, newline] @ join_pages (q # ps)"

text \<open>\<open>int(digits)\<close> refuses more than 4300 digits.\<close>

definition split_pages :: "string \<Rightarrow> nat \<Rightarrow> nat \<Rightarrow> string list result" where
  "split_pages t expected_page_count minimum_chars_per_page =
     (let markers = page_markers 0 (text_lines t); pages = page_slices t (map fst markers) in
      rbind (raise_if (list_ex (\<lambda>l. page_number l \<noteq> None \<and> length l > 4308) (text_lines t))
        (ValueError ''Exceeds the limit (4300 digits) for integer string conversion'')) (\<lambda>_.
      rbind (raise_if (map snd markers \<noteq> [1..<expected_page_count + 1]) (OCRVerificationError ''OCR page markers do not match'')) (\<lambda>_.
      rbind (raise_if (list_ex (\<lambda>p. char_count p < minimum_chars_per_page) pages) (OCRVerificationError ''OCR contains an implausibly short page'')) (\<lambda>_.
      rbind (raise_if (t \<noteq> join_pages pages) (OCRVerificationError ''OCR bytes are not in canonical page-join form'')) (\<lambda>_.
      Inr pages)))))"

definition differs :: "'a option \<Rightarrow> 'a \<Rightarrow> bool" where
  "differs expected actual = (case expected of None \<Rightarrow> False | Some e \<Rightarrow> actual \<noteq> e)"

definition verify_ocr_bytes ::
  "bytes \<Rightarrow> int \<Rightarrow> string option \<Rightarrow> int option \<Rightarrow> int option \<Rightarrow> string list option \<Rightarrow> int \<Rightarrow> VerifiedOCR result"
where
  "verify_ocr_bytes payload expected_page_count expected_sha256 expected_size_bytes expected_char_count expected_page_sha256
     minimum_chars_per_page =
     rbind (raise_if (expected_page_count < 1) (ValueError ''expected_page_count must be positive'')) (\<lambda>_.
     rbind (raise_if (minimum_chars_per_page < 1) (ValueError ''minimum_chars_per_page must be positive'')) (\<lambda>_.
     rbind (raise_if (CHR 0x00 \<in> set payload \<or> CHR 0x0D \<in> set payload)
       (OCRVerificationError ''OCR bytes contain forbidden NUL or CR characters'')) (\<lambda>_.
     rbind (raise_if (differs expected_size_bytes (int (length payload))) (OCRVerificationError ''OCR byte size does not match its manifest'')) (\<lambda>_.
     rbind (raise_if (differs expected_sha256 (sha256_bytes payload)) (OCRVerificationError ''OCR SHA-256 does not match its manifest'')) (\<lambda>_.
     rbind (raise_if (\<not> utf8_valid payload) (OCRVerificationError ''OCR object is not valid UTF-8'')) (\<lambda>_.
     rbind (split_pages payload (nat expected_page_count) (nat minimum_chars_per_page)) (\<lambda>pages.
     rbind (raise_if (differs expected_char_count (int (char_count payload))) (OCRVerificationError ''OCR character count does not match its manifest'')) (\<lambda>_.
     rbind (raise_if (differs expected_page_sha256 (map sha256_bytes pages)) (OCRVerificationError ''OCR page hashes do not match its manifest'')) (\<lambda>_.
     Inr \<lparr>vo_text = payload, vo_sha256 = sha256_bytes payload, vo_size_bytes = int (length payload),
          vo_char_count = int (char_count payload), vo_pages = pages, vo_page_sha256 = map sha256_bytes pages\<rparr>)))))))))"

section \<open>Canonical pages are read back\<close>

lemma split_on_snoc: "split_on c (s @ c # t) = split_on c s @ split_on c t"
proof (induction s)
  case (Cons x s)
  then show ?case by (cases "split_on c s") auto
qed simp

lemma sum_split_on: "(\<Sum>l\<leftarrow>split_on c s. length l + 1) = length s + 1"
proof (induction s)
  case (Cons x s)
  then show ?case by (cases "split_on c s") auto
qed simp

lemma page_markers_append:
  "page_markers n (xs @ ys) = page_markers n xs @ page_markers (n + (\<Sum>l\<leftarrow>xs. length l + 1)) ys"
  by (induction xs arbitrary: n) (auto simp: algebra_simps)

lemma page_markers_shift: "page_markers (n + m) ls = map (\<lambda>(off, k). (off + n, k)) (page_markers m ls)"
proof (induction ls arbitrary: m)
  case (Cons l ls)
  show ?case using Cons.IH [of "m + length l + 1"] by (simp add: algebra_simps split: option.splits)
qed simp

lemma page_markers_ge: "(off, k) \<in> set (page_markers n ls) \<Longrightarrow> n \<le> off"
  by (induction ls arbitrary: n) (fastforce split: option.splits)+

text \<open>A page as it is stored: its marker line first, no other marker, stripped and long enough.\<close>

definition canonical_page :: "nat \<Rightarrow> nat \<Rightarrow> string \<Rightarrow> bool" where
  "canonical_page minimum k p \<longleftrightarrow>
     page_markers 0 (text_lines p) = [(0, k)] \<and> strip p = p \<and> minimum \<le> char_count p"

fun page_offsets :: "nat \<Rightarrow> string list \<Rightarrow> nat list" where
  "page_offsets n [] = []"
| "page_offsets n (p # ps) = n # page_offsets (n + length p + 2) ps"

lemma page_markers_page:
  assumes "canonical_page m k p" shows "page_markers n (text_lines p) = [(n, k)]"
  using page_markers_shift [of n 0 "text_lines p"] assms by (simp add: canonical_page_def)

lemma markers_join:
  assumes "list_all2 (canonical_page m) ks ps" "ps \<noteq> []"
  shows "page_markers n (text_lines (join_pages ps)) = zip (page_offsets n ps) ks"
  using assms
proof (induction ps arbitrary: ks n rule: join_pages.induct)
  case (2 p)
  then obtain k where "ks = [k]" "canonical_page m k p" by (auto simp: list_all2_Cons2)
  then show ?case
    using page_markers_page [of m k p n] by (simp add: text_lines_def newline_def split_on_snoc page_markers_append page_number_def)
next
  case (3 p q ps)
  then obtain k ks' where ks: "ks = k # ks'" "canonical_page m k p" "list_all2 (canonical_page m) ks' (q # ps)"
    by (auto simp: list_all2_Cons2)
  have "text_lines (join_pages (p # q # ps)) = text_lines p @ [] # text_lines (join_pages (q # ps))"
    by (simp add: text_lines_def newline_def split_on_snoc)
  then show ?case
    using page_markers_page [OF ks(2), of n] "3.IH" [OF ks(3), of "n + length p + 2"]
    by (simp add: ks(1) page_markers_append text_lines_def sum_split_on [simplified] page_number_def algebra_simps)
qed simp

lemma length_page_offsets [simp]: "length (page_offsets n ps) = length ps"
  by (induction ps arbitrary: n) auto

lemma lstrip_newline: "lstrip (map rev utf8_spaces) (newline # s) = lstrip (map rev utf8_spaces) s"
  by (subst lstrip.simps) (simp add: utf8_spaces_def newline_def)

lemma lstrip_hash: "lstrip utf8_spaces (CHR ''#'' # s) = CHR ''#'' # s"
  by (subst lstrip.simps) (simp add: utf8_spaces_def)

lemma canonical_page_hash:
  assumes "canonical_page m k p" obtains r where "p = CHR ''#'' # r"
proof -
  obtain l ls where l: "text_lines p = l # ls" by (cases "text_lines p") (auto simp: text_lines_def)
  from assms have "page_markers 0 (l # ls) = [(0, k)]" by (simp add: canonical_page_def l)
  with page_markers_ge [of 0 k "length l + 1" ls] have "page_number l \<noteq> None" by (auto split: option.splits)
  then have "page_number (hd (text_lines p)) \<noteq> None" by (simp add: l)
  moreover have "hd (text_lines p) = takeWhile (\<lambda>c. c \<noteq> CHR 0x0A) p"
    unfolding text_lines_def by (induction p) (auto split: list.splits)
  ultimately show thesis using that by (cases p) (auto simp: page_number_def Let_def split: if_splits)
qed

lemma strip_page:
  assumes "canonical_page m k p" "list_all (\<lambda>c. c = newline) ws" shows "strip (p @ ws) = p"
proof -
  obtain r where r: "p = CHR ''#'' # r" by (rule canonical_page_hash [OF assms(1)])
  have "lstrip (map rev utf8_spaces) (rev ws @ t) = lstrip (map rev utf8_spaces) t" for t
    using assms(2) by (induction ws arbitrary: t) (auto simp: lstrip_newline)
  moreover have "strip p = p" using assms(1) by (simp add: canonical_page_def)
  ultimately show ?thesis by (simp add: strip_def r lstrip_hash)
qed

lemma page_slices_join:
  assumes "list_all2 (canonical_page m) ks ps" "ps \<noteq> []"
  shows "page_slices (pre @ join_pages ps) (page_offsets (length pre) ps) = ps"
  using assms
proof (induction ps arbitrary: ks pre rule: join_pages.induct)
  case (2 p)
  then obtain k where "canonical_page m k p" by (auto simp: list_all2_Cons2)
  then show ?case by (simp add: strip_page)
next
  case (3 p q ps)
  then obtain k ks' where ks: "canonical_page m k p" "list_all2 (canonical_page m) ks' (q # ps)"
    by (auto simp: list_all2_Cons2)
  have "page_slices ((pre @ p @ [newline, newline]) @ join_pages (q # ps))
      (page_offsets (length (pre @ p @ [newline, newline])) (q # ps)) = q # ps"
    by (rule "3.IH" [OF ks(2)]) simp
  moreover have "strip (p @ [newline, newline]) = p" by (rule strip_page [OF ks(1)]) simp
  ultimately show ?case by (simp add: algebra_simps)
qed simp

lemma split_pages_join:
  assumes "list_all2 (canonical_page m) [1..<length ps + 1] ps" "ps \<noteq> []"
    and "\<not> list_ex (\<lambda>l. page_number l \<noteq> None \<and> length l > 4308) (text_lines (join_pages ps))"
  shows "split_pages (join_pages ps) (length ps) m = Inr ps"
proof -
  have markers: "page_markers 0 (text_lines (join_pages ps)) = zip (page_offsets 0 ps) [1..<length ps + 1]"
    by (rule markers_join [OF assms(1,2)])
  have slices: "page_slices (join_pages ps) (page_offsets 0 ps) = ps"
    using page_slices_join [OF assms(1,2), of "[]"] by simp
  have long: "\<not> list_ex (\<lambda>p. char_count p < m) ps"
    using assms(1) by (auto simp: list_ex_iff list_all2_conv_all_nth canonical_page_def in_set_conv_nth not_less)
  show ?thesis
    using assms(2,3) long by (simp add: split_pages_def markers slices Let_def Suc_le_eq)
qed

lemma split_pagesD: "split_pages t n m = Inr ps \<Longrightarrow> t = join_pages ps \<and> list_all (\<lambda>p. m \<le> char_count p) ps"
  by (auto simp: split_pages_def Let_def list_ex_iff list_all_iff not_less)



definition demo_pages :: "string list" where
  "demo_pages = [''## Page 1'' @ newline # ''annual fee: none'', ''## Page 2'' @ newline # ''cash back one percent'']"

lemma demo_canonical:
  "list_all2 (canonical_page 20) [1..<length demo_pages + 1] demo_pages"
  "utf8_valid (join_pages demo_pages)" "CHR 0x00 \<notin> set (join_pages demo_pages)" "CHR 0x0D \<notin> set (join_pages demo_pages)"
  "\<not> list_ex (\<lambda>l. page_number l \<noteq> None \<and> length l > 40) (text_lines (join_pages demo_pages))"
  by code_simp+



end
