(* ===== verification/Manifests.thy ===== *)
theory Manifests
  imports OcrArtifact Canonical
begin

text \<open>
  \<open>cardrag_core/manifests.py\<close>, \<open>cardrag_core/embedding.py\<close> and the keys of \<open>cardrag_core/ocr.py\<close>: the strict models of a
  published generation and of cached OCR artifacts, with their validators.

  The models are pydantic models.  Pydantic is not part of the repository: its two functions the code relies on
  are the fields of the record \<open>pydantic\<close>, the text-to-model parsers (\<open>model_validate_json\<close>, \<open>None\<close> for a
  \<open>ValidationError\<close>) and \<open>model_dump(mode="json")\<close>.  A record holds the fields after pydantic has stripped and
  typed them; a definition named after a model checks the declared constraints of its fields, then its field
  validators, then its model validator, and returns the record.  A failed check is a \<open>ValueError\<close>; pydantic
  reports it as a \<open>ValidationError\<close>, one of its subclasses.  A float field is its \<open>repr\<close>, a datetime an instant
  in microseconds.
\<close>

definition constrained :: "bool \<Rightarrow> string \<Rightarrow> unit result" where
  "constrained ok field = raise_if (\<not> ok) (ValueError field)"

definition require :: "bool \<Rightarrow> string \<Rightarrow> unit result" where
  "require ok message = raise_if (\<not> ok) (ValueError message)"

lemma require_Inr [simp]: "require ok m = Inr u \<longleftrightarrow> ok" "constrained ok m = Inr u \<longleftrightarrow> ok"
  by (simp_all add: require_def constrained_def)

lemma require_True [simp]: "require True m = Inr ()" "constrained True m = Inr ()"
  by (simp_all add: require_def constrained_def)

definition is_ok :: "'a result \<Rightarrow> bool" where
  "is_ok r = (case r of Inr _ \<Rightarrow> True | Inl _ \<Rightarrow> False)"

definition artifact_ok :: "ArtifactRef \<Rightarrow> bool" where
  "artifact_ok a \<longleftrightarrow> artifact_ref (ar_sha256 a) (ar_size_bytes a) (ar_media_type a) (ar_path a) = Inr a"

text \<open>\<open>PurePosixPath(text)\<close> for the normalized text of an artifact path.\<close>

definition posix_path :: "string \<Rightarrow> path" where
  "posix_path s = split_on (CHR ''/'') s"

definition optional :: "('a \<Rightarrow> bool) \<Rightarrow> 'a option \<Rightarrow> bool" where
  "optional p x = (case x of None \<Rightarrow> True | Some v \<Rightarrow> p v)"

text \<open>\<open>DocumentId\<close>: \<open>[A-Za-z0-9][A-Za-z0-9._:-]{0,254}\<close>.\<close>

definition document_id_text :: "string \<Rightarrow> bool" where
  "document_id_text v = (case v of [] \<Rightarrow> False
     | c # cs \<Rightarrow> is_alnum c \<and> length cs \<le> 254 \<and> list_all (\<lambda>d. safe_tail d \<or> d = CHR '':'') cs)"

section \<open>embedding.py\<close>

definition qwen3_embedding_provider_ids :: "string list" where
  "qwen3_embedding_provider_ids = [''deepinfra'', ''nebius'']"

definition validate_qwen3_provider :: "string \<Rightarrow> unit result" where
  "validate_qwen3_provider provider_id =
     require (provider_id \<in> set qwen3_embedding_provider_ids) ''Qwen embedding provider must be deepinfra or nebius''"

definition validate_maximum_tokens :: "int \<Rightarrow> unit result" where
  "validate_maximum_tokens maximum_tokens = require (0 < maximum_tokens) ''maximum_tokens must be a positive integer''"

definition qwen3_profile_payload :: "string \<Rightarrow> int \<Rightarrow> pyval" where
  "qwen3_profile_payload provider_id maximum_tokens = PDict
     [(PStr ''dimension'', PInt 4096), (PStr ''document_instruction'', PNone),
      (PStr ''document_policy'', PStr ''cardrag.structure-views.v1''), (PStr ''dtype'', PStr ''float32''),
      (PStr ''maximum_tokens'', PInt maximum_tokens), (PStr ''model'', PStr ''qwen/qwen3-embedding-8b''),
      (PStr ''normalization'', PStr ''l2''), (PStr ''provider'', PStr ''openrouter''),
      (PStr ''provider_fallback'', PStr ''forbidden''), (PStr ''provider_id'', PStr provider_id),
      (PStr ''query_policy'', PStr ''cardrag.qwen3-query.v1''), (PStr ''schema_version'', PStr ''cardrag.embedding-profile.v1''),
      (PStr ''truncation'', PStr ''error'')]"

definition qwen3_profile_digest :: "string \<Rightarrow> int \<Rightarrow> string result" where
  "qwen3_profile_digest provider_id maximum_tokens =
     rbind (validate_qwen3_provider provider_id) (\<lambda>_.
     rbind (validate_maximum_tokens maximum_tokens) (\<lambda>_.
     canonical_sha256 (qwen3_profile_payload provider_id maximum_tokens)))"

definition qwen3_embedding_profile_id :: "string \<Rightarrow> int \<Rightarrow> string result" where
  "qwen3_embedding_profile_id provider_id maximum_tokens =
     rbind (qwen3_profile_digest provider_id maximum_tokens)
       (\<lambda>digest. Inr (''cardrag.qwen3-embedding-8b.'' @ provider_id @ ''.'' @ digest))"

definition qwen3_embedding_cache_namespace :: "string \<Rightarrow> int \<Rightarrow> string result" where
  "qwen3_embedding_cache_namespace provider_id maximum_tokens =
     rbind (qwen3_profile_digest provider_id maximum_tokens)
       (\<lambda>digest. Inr (''cardrag-qwen3-embedding-8b-'' @ provider_id @ ''-'' @ digest))"

definition qwen3_query_instruction :: string where
  "qwen3_query_instruction =
     ''Instruct: Given a Korean financial product disclosure search query, retrieve relevant ''
     @ ''passages from Korean credit card product disclosure sections and sentence units that answer ''
     @ ''the query''"

definition format_qwen3_query :: "string \<Rightarrow> string result" where
  "format_qwen3_query query =
     rbind (require (strip query \<noteq> []) ''query must not be empty'')
       (\<lambda>_. Inr (qwen3_query_instruction @ newline # ''Query:'' @ query))"

definition format_qwen3_document :: "string \<Rightarrow> string result" where
  "format_qwen3_document document = rbind (require (strip document \<noteq> []) ''document must not be empty'') (\<lambda>_. Inr document)"

section \<open>Embedding models\<close>

record EmbeddingContract =
  ec_provider :: string
  ec_model :: string
  ec_dimension :: int
  ec_count :: int

definition embedding_contract_ok :: "EmbeddingContract \<Rightarrow> bool" where
  "embedding_contract_ok e \<longleftrightarrow> strip (ec_provider e) \<noteq> [] \<and> strip (ec_model e) \<noteq> [] \<and> ec_dimension e \<in> {1536, 4096} \<and> 0 \<le> ec_count e"

record EmbeddingProfile =
  ep_schema_version :: string
  ep_profile_id :: string
  ep_cache_namespace :: string
  ep_provider :: string
  ep_provider_id :: string
  ep_provider_fallback :: string
  ep_model :: string
  ep_dimension :: int
  ep_dtype :: string
  ep_normalization :: string
  ep_document_instruction :: "string option"
  ep_query_policy :: string
  ep_document_policy :: string
  ep_truncation :: string
  ep_maximum_tokens :: int

definition embedding_profile_literals :: "EmbeddingProfile \<Rightarrow> bool" where
  "embedding_profile_literals p \<longleftrightarrow>
     ep_schema_version p = ''cardrag.embedding-profile.v1'' \<and> ep_provider p = ''openrouter''
     \<and> ep_provider_id p \<in> set qwen3_embedding_provider_ids \<and> ep_provider_fallback p = ''forbidden''
     \<and> ep_model p = ''qwen/qwen3-embedding-8b'' \<and> ep_dimension p = 4096 \<and> ep_dtype p = ''float32''
     \<and> ep_normalization p = ''l2'' \<and> ep_document_instruction p = None \<and> ep_query_policy p = ''cardrag.qwen3-query.v1''
     \<and> ep_document_policy p = ''cardrag.structure-views.v1'' \<and> ep_truncation p = ''error'' \<and> 0 < ep_maximum_tokens p"

definition embedding_profile :: "EmbeddingProfile \<Rightarrow> EmbeddingProfile result" where
  "embedding_profile p =
     rbind (constrained (embedding_profile_literals p \<and> safe_id (ep_profile_id p) \<and> safe_id (ep_cache_namespace p))
       ''EmbeddingProfile'') (\<lambda>_.
     rbind (qwen3_embedding_profile_id (ep_provider_id p) (ep_maximum_tokens p)) (\<lambda>expected_profile_id.
     rbind (qwen3_embedding_cache_namespace (ep_provider_id p) (ep_maximum_tokens p)) (\<lambda>expected_namespace.
     rbind (require (ep_profile_id p = expected_profile_id) ''embedding profile ID does not match its sealed Qwen contract'') (\<lambda>_.
     rbind (require (ep_cache_namespace p = expected_namespace) ''embedding cache namespace does not match its sealed Qwen contract'') (\<lambda>_.
     Inr p)))))"

definition qwen3 :: "string \<Rightarrow> int \<Rightarrow> EmbeddingProfile result" where
  "qwen3 provider_id maximum_tokens =
     rbind (qwen3_embedding_profile_id provider_id maximum_tokens) (\<lambda>profile_id.
     rbind (qwen3_embedding_cache_namespace provider_id maximum_tokens) (\<lambda>cache_namespace.
     embedding_profile
       \<lparr>ep_schema_version = ''cardrag.embedding-profile.v1'', ep_profile_id = profile_id, ep_cache_namespace = cache_namespace,
        ep_provider = ''openrouter'', ep_provider_id = provider_id, ep_provider_fallback = ''forbidden'',
        ep_model = ''qwen/qwen3-embedding-8b'', ep_dimension = 4096, ep_dtype = ''float32'', ep_normalization = ''l2'',
        ep_document_instruction = None, ep_query_policy = ''cardrag.qwen3-query.v1'',
        ep_document_policy = ''cardrag.structure-views.v1'', ep_truncation = ''error'', ep_maximum_tokens = maximum_tokens\<rparr>))"

definition embedding_view_types :: "string list" where
  "embedding_view_types = [''TITLE'', ''RAW_ITEM'', ''CONTEXTUAL_ITEM'', ''DETAIL'', ''MAJOR_SECTION'', ''CONTRACT'']"

record EmbeddingViewCount =
  vc_view_type :: string
  vc_count :: int

definition view_count_ok :: "EmbeddingViewCount \<Rightarrow> bool" where
  "view_count_ok v \<longleftrightarrow> vc_view_type v \<in> set embedding_view_types \<and> 0 \<le> vc_count v"

record EmbeddingVectorSidecar =
  sc_artifact :: ArtifactRef
  sc_profile_id :: string
  sc_row_count :: int
  sc_dimension :: int
  sc_dtype :: string
  sc_byte_order :: string
  sc_layout :: string
  sc_normalization :: string

definition embedding_vector_sidecar :: "EmbeddingVectorSidecar \<Rightarrow> EmbeddingVectorSidecar result" where
  "embedding_vector_sidecar s =
     rbind (constrained (artifact_ok (sc_artifact s) \<and> safe_id (sc_profile_id s) \<and> 0 \<le> sc_row_count s \<and> sc_dimension s = 4096
       \<and> sc_dtype s = ''float32'' \<and> sc_byte_order s = ''little-endian'' \<and> sc_layout s = ''row-major'' \<and> sc_normalization s = ''l2'')
       ''EmbeddingVectorSidecar'') (\<lambda>_.
     rbind (require (ar_media_type (sc_artifact s) = ''application/octet-stream'')
       ''vector sidecar media type must be application/octet-stream'') (\<lambda>_.
     rbind (require (ar_size_bytes (sc_artifact s) = sc_row_count s * sc_dimension s * 4)
       ''vector sidecar size must equal row_count times dimension times four'') (\<lambda>_.
     Inr s)))"

section \<open>Document aggregation\<close>

definition child_lanes :: "string list" where
  "child_lanes = [''CONTEXTUAL_ITEM'', ''DETAIL'', ''MAJOR_SECTION'', ''RAW_ITEM'', ''TITLE'']"

datatype DocumentAggregationDefinition =
    MaxChildAggregationDefinition "string list" string
  | Top3MeanAggregationDefinition int string
  | ContractPlusChildAggregationDefinition string string string string string

definition aggregation_definition_ok :: "DocumentAggregationDefinition \<Rightarrow> bool" where
  "aggregation_definition_ok d = (case d of
     MaxChildAggregationDefinition child_view_types formula \<Rightarrow> child_view_types = child_lanes \<and> formula = ''max(non-CONTRACT row score)''
   | Top3MeanAggregationDefinition child_count formula \<Rightarrow>
       child_count = 3 \<and> formula = ''mean(highest min(3, available) non-CONTRACT row scores)''
   | ContractPlusChildAggregationDefinition child_policy child_weight contract_view_policy contract_weight formula \<Rightarrow>
       child_policy = ''max_child'' \<and> child_weight = ''0.5'' \<and> contract_view_policy = ''single CONTRACT row score''
       \<and> contract_weight = ''0.5'' \<and> formula = ''0.5*CONTRACT + 0.5*max_child'')"

record DocumentAggregationBootstrap =
  bt_ci :: string
  bt_method :: string
  bt_samples :: int
  bt_seed :: int

definition bootstrap_ok :: "DocumentAggregationBootstrap \<Rightarrow> bool" where
  "bootstrap_ok b \<longleftrightarrow> bt_ci b = ''0.95'' \<and> bt_method b = ''paired-query-percentile-pcg64'' \<and> 2000 \<le> bt_samples b
     \<and> bt_samples b \<le> 10000 \<and> 0 \<le> bt_seed b"

record DocumentAggregationProfile =
  ag_schema_version :: string
  ag_profile_id :: string
  ag_aggregation_policy :: string
  ag_aggregation_definition :: DocumentAggregationDefinition
  ag_bootstrap :: DocumentAggregationBootstrap
  ag_embedding_profile_id :: string
  ag_exact_row_corpus_sha256 :: string
  ag_generation_id :: string
  ag_generation_manifest_sha256 :: string
  ag_gold_sha256 :: string
  ag_score_artifact_sha256 :: string
  ag_selection_objective :: string

definition aggregation_policies :: "string list" where
  "aggregation_policies = [''max_child'', ''top3_mean'', ''contract_plus_child'']"

definition definition_matches_policy :: "string \<Rightarrow> DocumentAggregationDefinition \<Rightarrow> bool" where
  "definition_matches_policy policy d = (case d of
     MaxChildAggregationDefinition _ _ \<Rightarrow> policy = ''max_child''
   | Top3MeanAggregationDefinition _ _ \<Rightarrow> policy = ''top3_mean''
   | ContractPlusChildAggregationDefinition _ _ _ _ _ \<Rightarrow> policy \<noteq> ''max_child'' \<and> policy \<noteq> ''top3_mean'')"

definition document_aggregation_profile :: "DocumentAggregationProfile \<Rightarrow> DocumentAggregationProfile result" where
  "document_aggregation_profile p =
     rbind (constrained (ag_schema_version p = ''cardrag.document-aggregation-profile.v1''
       \<and> ag_aggregation_policy p \<in> set aggregation_policies \<and> aggregation_definition_ok (ag_aggregation_definition p)
       \<and> bootstrap_ok (ag_bootstrap p) \<and> safe_id (ag_embedding_profile_id p) \<and> sha256_hex (ag_exact_row_corpus_sha256 p)
       \<and> sha256_hex (ag_generation_manifest_sha256 p) \<and> sha256_hex (ag_gold_sha256 p) \<and> sha256_hex (ag_score_artifact_sha256 p)
       \<and> ag_selection_objective p = ''ndcg_at_10'') ''DocumentAggregationProfile'') (\<lambda>_.
     rbind (validate_identifier (ag_generation_id p) ''aggregation evaluation generation_id'') (\<lambda>_.
     rbind (require (definition_matches_policy (ag_aggregation_policy p) (ag_aggregation_definition p))
       ''document aggregation policy and definition differ'') (\<lambda>_.
     rbind (require (ag_profile_id p = ''cardrag.document-aggregation.''
         @ map (\<lambda>c. if c = CHR ''_'' then CHR ''-'' else c) (ag_aggregation_policy p) @ ''.v1'')
       ''document aggregation profile ID differs from its selected policy'') (\<lambda>_.
     Inr p))))"

section \<open>Structure of the corpus\<close>

record IssuerParserProfile =
  pp_issuer :: string
  pp_profile_id :: string
  pp_profile_sha256 :: string

record StructureNodeCounts =
  no_total :: int
  no_root :: int
  no_major_section :: int
  no_item :: int
  no_paragraph :: int
  no_list_item :: int
  no_table :: int
  no_table_row :: int
  no_footnote :: int
  no_boilerplate :: int
  no_unclassified :: int

definition node_types :: "StructureNodeCounts \<Rightarrow> int list" where
  "node_types n = [no_root n, no_major_section n, no_item n, no_paragraph n, no_list_item n, no_table n, no_table_row n,
     no_footnote n, no_boilerplate n, no_unclassified n]"

definition structure_node_counts :: "StructureNodeCounts \<Rightarrow> StructureNodeCounts result" where
  "structure_node_counts n =
     rbind (constrained (list_all (\<lambda>i. 0 \<le> i) (no_total n # node_types n)) ''StructureNodeCounts'') (\<lambda>_.
     rbind (require (no_total n = sum_list (node_types n)) ''structure node total does not match node type counts'') (\<lambda>_. Inr n))"

record StructureMajorClassCounts =
  mj_total :: int
  mj_benefit :: int
  mj_notice :: int
  mj_mixed :: int
  mj_unknown :: int

definition structure_major_class_counts :: "StructureMajorClassCounts \<Rightarrow> StructureMajorClassCounts result" where
  "structure_major_class_counts m =
     rbind (constrained (list_all (\<lambda>i. 0 \<le> i) [mj_total m, mj_benefit m, mj_notice m, mj_mixed m, mj_unknown m])
       ''StructureMajorClassCounts'') (\<lambda>_.
     rbind (require (mj_total m = mj_benefit m + mj_notice m + mj_mixed m + mj_unknown m)
       ''major class total does not match class counts'') (\<lambda>_. Inr m))"

record StructureSourceCoverage =
  cv_source_non_whitespace_characters :: int
  cv_covered_non_whitespace_characters :: int
  cv_source_non_whitespace_sha256 :: string
  cv_covered_non_whitespace_sha256 :: string

definition structure_source_coverage :: "StructureSourceCoverage \<Rightarrow> StructureSourceCoverage result" where
  "structure_source_coverage c =
     rbind (constrained (0 \<le> cv_source_non_whitespace_characters c \<and> 0 \<le> cv_covered_non_whitespace_characters c
       \<and> sha256_hex (cv_source_non_whitespace_sha256 c) \<and> sha256_hex (cv_covered_non_whitespace_sha256 c)) ''StructureSourceCoverage'') (\<lambda>_.
     rbind (require (cv_covered_non_whitespace_characters c = cv_source_non_whitespace_characters c)
       ''structure source coverage must be 100 percent'') (\<lambda>_.
     rbind (require (cv_covered_non_whitespace_sha256 c = cv_source_non_whitespace_sha256 c)
       ''covered structure source hash must equal source hash'') (\<lambda>_. Inr c)))"

record StructureRevisionCounts =
  rn_total :: int
  rn_current :: int
  rn_superseded :: int
  rn_ambiguous :: int

definition structure_revision_counts :: "StructureRevisionCounts \<Rightarrow> StructureRevisionCounts result" where
  "structure_revision_counts r =
     rbind (constrained (list_all (\<lambda>i. 0 \<le> i) [rn_total r, rn_current r, rn_superseded r, rn_ambiguous r]) ''StructureRevisionCounts'') (\<lambda>_.
     rbind (require (rn_total r = rn_current r + rn_superseded r + rn_ambiguous r)
       ''contract revision total does not match temporal status counts'') (\<lambda>_. Inr r))"

record StructureContract =
  sk_schema_version :: string
  sk_parser_profiles :: "IssuerParserProfile list"
  sk_node_counts :: StructureNodeCounts
  sk_major_class_counts :: StructureMajorClassCounts
  sk_source_coverage :: StructureSourceCoverage
  sk_revision_counts :: StructureRevisionCounts
  sk_cross_contract_parent_count :: int
  sk_cross_contract_link_count :: int
  sk_lineages_with_multiple_current_revisions :: int

text \<open>\<open>keys == sorted(keys)\<close> and no key twice.\<close>

definition sorted_unique :: "string list \<Rightarrow> bool" where
  "sorted_unique ks \<longleftrightarrow> ks = sort ks \<and> distinct ks"

definition structure_contract :: "StructureContract \<Rightarrow> StructureContract result" where
  "structure_contract s =
     rbind (constrained (sk_schema_version s = ''cardrag.structure.v2'' \<and> sk_parser_profiles s \<noteq> []
       \<and> list_all (\<lambda>p. is_ok (issuer_code (pp_issuer p)) \<and> safe_id (pp_profile_id p) \<and> sha256_hex (pp_profile_sha256 p)) (sk_parser_profiles s)
       \<and> sk_cross_contract_parent_count s = 0 \<and> sk_cross_contract_link_count s = 0
       \<and> sk_lineages_with_multiple_current_revisions s = 0) ''StructureContract'') (\<lambda>_.
     rbind (structure_node_counts (sk_node_counts s)) (\<lambda>_.
     rbind (structure_major_class_counts (sk_major_class_counts s)) (\<lambda>_.
     rbind (structure_source_coverage (sk_source_coverage s)) (\<lambda>_.
     rbind (structure_revision_counts (sk_revision_counts s)) (\<lambda>_.
     rbind (require (sorted_unique (map pp_issuer (sk_parser_profiles s))) ''issuer parser profiles must be sorted and unique'') (\<lambda>_.
     Inr s))))))"

section \<open>Documents of a generation\<close>

record GenerationCounts =
  gc_documents :: int
  gc_pdf_objects :: int
  gc_ocr_objects :: int
  gc_chunks :: int

record GenerationOCRFailure =
  fo_reason_code :: string
  fo_reason :: string
  fo_attempts :: int

definition generation_ocr_failure :: "GenerationOCRFailure \<Rightarrow> GenerationOCRFailure result" where
  "generation_ocr_failure f =
     rbind (constrained (1 \<le> length (fo_reason_code f) \<and> length (fo_reason_code f) \<le> 64
       \<and> list_all (\<lambda>c. is_lower c \<or> is_digit c \<or> c = CHR ''_'') (fo_reason_code f)
       \<and> 1 \<le> char_count (strip (fo_reason f)) \<and> char_count (strip (fo_reason f)) \<le> 256 \<and> 0 < fo_attempts f) ''GenerationOCRFailure'') (\<lambda>_.
     rbind (require (CHR 0x0A \<notin> set (fo_reason f) \<and> CHR 0x0D \<notin> set (fo_reason f)) ''OCR failure reason must be one line'') (\<lambda>_.
     Inr f))"

record IssuerOCRCounts =
  io_issuer :: string
  io_acquired :: int
  io_succeeded :: int
  io_failed :: int

definition issuer_ocr_counts :: "IssuerOCRCounts \<Rightarrow> IssuerOCRCounts result" where
  "issuer_ocr_counts c =
     rbind (constrained (is_ok (issuer_code (io_issuer c)) \<and> 0 < io_acquired c \<and> 0 < io_succeeded c \<and> 0 \<le> io_failed c) ''IssuerOCRCounts'') (\<lambda>_.
     rbind (require (io_acquired c = io_succeeded c + io_failed c) ''issuer OCR acquired count must equal succeeded plus failed'') (\<lambda>_.
     Inr c))"

record GenerationDocument =
  gd_document_id :: string
  gd_issuer :: string
  gd_pdf :: ArtifactRef
  gd_ocr :: "ArtifactRef option"
  gd_ocr_cache_kind :: "string option"
  gd_ocr_reuse_key :: "string option"
  gd_ocr_variant_id :: "string option"
  gd_page_count :: int
  gd_availability :: "string option"
  gd_ocr_failure :: "GenerationOCRFailure option"

definition ocr_media_type :: string where
  "ocr_media_type = ''text/markdown; charset=utf-8''"

definition cas_bound :: "ArtifactRef \<Rightarrow> bool" where
  "cas_bound a \<longleftrightarrow> object_path (ar_sha256 a) = Inr (posix_path (ar_path a))"

definition document_constraints :: "GenerationDocument \<Rightarrow> bool" where
  "document_constraints d \<longleftrightarrow>
     document_id_text (gd_document_id d) \<and> is_ok (issuer_code (gd_issuer d)) \<and> artifact_ok (gd_pdf d) \<and> optional artifact_ok (gd_ocr d)
     \<and> optional (\<lambda>k. k \<in> {''native'', ''adopted'', ''content''}) (gd_ocr_cache_kind d) \<and> optional sha256_hex (gd_ocr_reuse_key d)
     \<and> optional sha256_hex (gd_ocr_variant_id d) \<and> 0 < gd_page_count d
     \<and> optional (\<lambda>a. a \<in> {''available'', ''ocr_failed''}) (gd_availability d)
     \<and> optional (\<lambda>f. is_ok (generation_ocr_failure f)) (gd_ocr_failure d)"

definition artifact_contracts_are_cas_bound :: "GenerationDocument \<Rightarrow> unit result" where
  "artifact_contracts_are_cas_bound d =
     rbind (require (ar_media_type (gd_pdf d) = ''application/pdf'') ''generation PDF media type must be application/pdf'') (\<lambda>_.
     rbind (require (cas_bound (gd_pdf d)) ''generation PDF must reference its CAS object path'') (\<lambda>_.
     rbind (require (optional (\<lambda>a. ar_media_type a = ocr_media_type) (gd_ocr d)) ''generation OCR media type is invalid'') (\<lambda>_.
     rbind (require (optional cas_bound (gd_ocr d)) ''generation OCR must reference its CAS object path'') (\<lambda>_.
     rbind (require ((gd_ocr_cache_kind d \<noteq> None) = (gd_ocr_reuse_key d \<noteq> None)) ''OCR cache kind and reuse key must be provided together'') (\<lambda>_.
     rbind (require (\<not> (gd_ocr d = None \<and> gd_ocr_cache_kind d \<noteq> None)) ''OCR cache identity requires a generation OCR artifact'') (\<lambda>_.
     rbind (require (\<not> (gd_ocr_cache_kind d = Some ''content'' \<and> gd_ocr_variant_id d = None)) ''content OCR cache identity requires an exact variant ID'') (\<lambda>_.
     rbind (require (\<not> (gd_ocr_variant_id d \<noteq> None \<and> (gd_ocr_cache_kind d \<noteq> Some ''content'' \<or> gd_ocr d = None)))
       ''OCR variant identity requires a content cache artifact'') (\<lambda>_.
     if gd_availability d = Some ''available''
     then require (gd_ocr d \<noteq> None \<and> gd_ocr_failure d = None) ''available generation document requires OCR and no failure''
     else if gd_availability d = Some ''ocr_failed''
     then require (gd_ocr d = None \<and> gd_ocr_failure d \<noteq> None) ''ocr_failed generation document requires only a failure summary''
     else require (gd_ocr_failure d = None) ''legacy generation document cannot contain an OCR failure summary''))))))))"

definition generation_document :: "GenerationDocument \<Rightarrow> GenerationDocument result" where
  "generation_document d =
     rbind (constrained (document_constraints d) ''GenerationDocument'') (\<lambda>_.
     rbind (artifact_contracts_are_cas_bound d) (\<lambda>_. Inr d))"

section \<open>Control records of a generation\<close>

record GenerationManifest =
  gm_schema_version :: string
  gm_generation_id :: string
  gm_created_at :: int
  gm_serving_schema :: string
  gm_serving_database :: ArtifactRef
  gm_corpus_sha256 :: string
  gm_contract_sha256 :: string
  gm_embedding_contract :: EmbeddingContract
  gm_issuer_codes :: "string list"
  gm_counts :: GenerationCounts
  gm_documents :: "GenerationDocument list"
  gm_issuer_ocr_counts :: "IssuerOCRCounts list"
  gm_structure_contract :: "StructureContract option"
  gm_embedding_profiles :: "EmbeddingProfile list"
  gm_primary_embedding_profile_id :: "string option"
  gm_embedding_view_counts :: "EmbeddingViewCount list"
  gm_vector_sidecar :: "EmbeddingVectorSidecar option"
  gm_parser_policy_sha256 :: "string option"
  gm_embedding_policy_sha256 :: "string option"
  gm_retrieval_policy_sha256 :: "string option"
  gm_document_aggregation_profile :: "DocumentAggregationProfile option"
  gm_document_aggregation_policy :: "string option"
  gm_sealed_profile_sha256 :: "string option"
  gm_exact_row_corpus_sha256 :: "string option"
  gm_previous_generation_id :: "string option"

record GenerationReady =
  gr_schema_version :: string
  gr_generation_id :: string
  gr_manifest_sha256 :: string
  gr_serving_database_sha256 :: string
  gr_serving_database_size_bytes :: int
  gr_vector_sidecar_sha256 :: "string option"
  gr_vector_sidecar_size_bytes :: "int option"

record GenerationPointer =
  gt_schema_version :: string
  gt_generation_id :: string
  gt_manifest_sha256 :: string
  gt_ready_sha256 :: string

section \<open>Control records of cached OCR\<close>

record OCRArtifactManifest =
  om_schema_version :: string
  om_origin :: string
  om_status :: string
  om_validation_profile :: string
  om_reuse_key :: string
  om_source :: OCRInput
  om_contract :: NativeOCRContract
  om_output :: ArtifactRef
  om_ocr_chars :: int
  om_page_output_sha256 :: "string list"
  om_created_at :: int

record OCRReady =
  or_schema_version :: string
  or_reuse_key :: string
  or_manifest_sha256 :: string
  or_ocr_sha256 :: string

record ContentOCRMigrationSource =
  ms_kind :: string
  ms_reuse_key :: string

record ContentOCRImportedProvenance =
  ip_schema_version :: string
  ip_source_kind :: string
  ip_provider :: string
  ip_model :: string
  ip_source_manifest_sha256 :: "string option"
  ip_generation_id :: "string option"
  ip_document_id :: "string option"

datatype provenance = NativeProvenance NativeOCRContract | ImportedProvenance ContentOCRImportedProvenance

record ContentOCRArtifactManifest =
  cm_schema_version :: string
  cm_reuse_key :: string
  cm_cache_epoch :: int
  cm_source :: OCRInput
  cm_output :: ArtifactRef
  cm_ocr_chars :: int
  cm_page_output_sha256 :: "string list"
  cm_created_at :: int
  cm_provenance :: provenance
  cm_variant_id :: string
  cm_migrated_from :: "ContentOCRMigrationSource option"
  cm_reprocess_request_id :: "string option"
  cm_restored_from :: "string option"

record ContentOCRReady =
  cr_schema_version :: string
  cr_reuse_key :: string
  cr_variant_id :: string
  cr_manifest_sha256 :: string
  cr_ocr_sha256 :: string

record LegacyAdoptionValidation =
  lv_hash_verified :: bool
  lv_page_coverage_verified :: bool
  lv_utf8_verified :: bool
  lv_ledger_bound :: bool

record LegacyAdoptionReceipt =
  lr_schema_version :: string
  lr_adoption_policy_version :: string
  lr_source_bundle_id :: string
  lr_source_bundle_sha256 :: string
  lr_source_database_id :: string
  lr_source_document_id :: string
  lr_pdf_sha256 :: string
  lr_ocr_sha256 :: string
  lr_validation :: LegacyAdoptionValidation

record LegacyAdoptionValidationV2 =
  w2_source_hash_verified :: bool
  w2_normalized_hash_verified :: bool
  w2_transformation_verified :: bool
  w2_page_coverage_verified :: bool
  w2_utf8_verified :: bool
  w2_ledger_bound :: bool

record LegacyAdoptionReceiptV2 =
  l2_schema_version :: string
  l2_adoption_policy_version :: string
  l2_source_bundle_id :: string
  l2_source_bundle_sha256 :: string
  l2_source_database_id :: string
  l2_source_document_id :: string
  l2_pdf_sha256 :: string
  l2_source_ocr_sha256 :: string
  l2_source_ocr_size_bytes :: int
  l2_normalized_ocr_sha256 :: string
  l2_normalized_ocr_size_bytes :: int
  l2_normalization_profile :: string
  l2_prefix_sha256 :: "string option"
  l2_removed_bytes :: int
  l2_validation :: LegacyAdoptionValidationV2

datatype adoption_receipt = ReceiptV1 LegacyAdoptionReceipt | ReceiptV2 LegacyAdoptionReceiptV2

record AdoptedOCRArtifactManifest =
  am_schema_version :: string
  am_origin :: string
  am_status :: string
  am_validation_profile :: string
  am_reuse_key :: string
  am_source :: OCRInput
  am_receipt :: adoption_receipt
  am_output :: ArtifactRef
  am_ocr_chars :: int
  am_page_output_sha256 :: "string list"
  am_created_at :: int

section \<open>The models as pydantic sees them\<close>

datatype model =
    MAggregation DocumentAggregationProfile
  | MInput OCRInput
  | MContract NativeOCRContract
  | MManifest GenerationManifest
  | MReady GenerationReady
  | MPointer GenerationPointer
  | MNative OCRArtifactManifest
  | MOcrReady OCRReady
  | MContent ContentOCRArtifactManifest
  | MContentReady ContentOCRReady
  | MAdopted AdoptedOCRArtifactManifest

text \<open>\<open>px_content_fields\<close> is \<open>model_dump(mode="json", exclude={"variant_id"})\<close> of a content manifest.\<close>

record pydantic =
  px_dump :: "model \<Rightarrow> pyval"
  px_content_fields :: "ContentOCRArtifactManifest \<Rightarrow> pyval"
  px_manifest :: "bytes \<Rightarrow> GenerationManifest option"
  px_ready :: "bytes \<Rightarrow> GenerationReady option"
  px_pointer :: "bytes \<Rightarrow> GenerationPointer option"
  px_native :: "bytes \<Rightarrow> OCRArtifactManifest option"
  px_adopted :: "bytes \<Rightarrow> AdoptedOCRArtifactManifest option"
  px_ocr_ready :: "bytes \<Rightarrow> OCRReady option"
  px_content :: "bytes \<Rightarrow> ContentOCRArtifactManifest option"
  px_content_ready :: "bytes \<Rightarrow> ContentOCRReady option"

definition canonical_bytes :: "pydantic \<Rightarrow> model \<Rightarrow> bytes result" where
  "canonical_bytes px m = canonical_json_bytes (PModel (px_dump px m))"

definition model_sha256 :: "pydantic \<Rightarrow> model \<Rightarrow> string result" where
  "model_sha256 px m = canonical_sha256 (PModel (px_dump px m))"

section \<open>Validation of a generation manifest\<close>

definition profile_sha256 :: "pydantic \<Rightarrow> DocumentAggregationProfile \<Rightarrow> string result" where
  "profile_sha256 px p = model_sha256 px (MAggregation p)"

definition sealed_v5_retrieval_policy :: "pydantic \<Rightarrow> DocumentAggregationProfile \<Rightarrow> string \<Rightarrow> pyval result" where
  "sealed_v5_retrieval_policy px profile digest =
     rbind (require (sha256_hex digest) ''document aggregation profile SHA-256 is invalid'') (\<lambda>_.
     rbind (profile_sha256 px profile) (\<lambda>actual.
     rbind (require (actual = digest) ''document aggregation profile SHA-256 does not bind the profile'') (\<lambda>_.
     Inr (PDict
       [(PStr ''aggregation'', PDict
          [(PStr ''policy'', PStr (ag_aggregation_policy profile)), (PStr ''profile_id'', PStr (ag_profile_id profile)),
           (PStr ''sealed_profile_sha256'', PStr digest)]),
        (PStr ''candidate_prefilter'', PStr ''none''), (PStr ''dense_scan'', PStr ''exact-all-active-rows.v1''),
        (PStr ''lexical_fusion'', PStr ''forbidden''), (PStr ''schema_version'', PStr ''cardrag.retrieval-policy.v2''),
        (PStr ''temporal_scope'', PStr ''current'')]))))"

definition generation_versions :: "(string \<times> string) list" where
  "generation_versions =
     [(''cardrag.generation.v1'', ''cardrag.serving-db.v1''), (''cardrag.generation.v2'', ''cardrag.serving-db.v2''),
      (''cardrag.generation.v3'', ''cardrag.serving-db.v3''), (''cardrag.generation.v4'', ''cardrag.serving-db.v4''),
      (''cardrag.generation.v5'', ''cardrag.serving-db.v5''), (''cardrag.generation.v6'', ''cardrag.serving-db.v6'')]"

definition v5_schema :: "string \<Rightarrow> bool" where
  "v5_schema v \<longleftrightarrow> v = ''cardrag.generation.v5'' \<or> v = ''cardrag.generation.v6''"

text \<open>Constraints of the fields and the field validators.\<close>

definition manifest_fields :: "GenerationManifest \<Rightarrow> unit result" where
  "manifest_fields m =
     rbind (constrained (gm_schema_version m \<in> set (keys generation_versions) \<and> gm_serving_schema m \<in> set (vals generation_versions)
       \<and> artifact_ok (gm_serving_database m) \<and> sha256_hex (gm_corpus_sha256 m) \<and> sha256_hex (gm_contract_sha256 m)
       \<and> embedding_contract_ok (gm_embedding_contract m) \<and> gm_issuer_codes m \<noteq> [] \<and> list_all (\<lambda>c. is_ok (issuer_code c)) (gm_issuer_codes m)
       \<and> 0 \<le> gc_documents (gm_counts m) \<and> 0 \<le> gc_pdf_objects (gm_counts m) \<and> 0 \<le> gc_ocr_objects (gm_counts m) \<and> 0 \<le> gc_chunks (gm_counts m)
       \<and> list_all view_count_ok (gm_embedding_view_counts m) \<and> optional safe_id (gm_primary_embedding_profile_id m)
       \<and> optional sha256_hex (gm_parser_policy_sha256 m) \<and> optional sha256_hex (gm_embedding_policy_sha256 m)
       \<and> optional sha256_hex (gm_retrieval_policy_sha256 m) \<and> optional (\<lambda>p. p \<in> set aggregation_policies) (gm_document_aggregation_policy m)
       \<and> optional sha256_hex (gm_sealed_profile_sha256 m) \<and> optional sha256_hex (gm_exact_row_corpus_sha256 m)) ''GenerationManifest'') (\<lambda>_.
     rbind (rmap generation_document (gm_documents m)) (\<lambda>_.
     rbind (rmap issuer_ocr_counts (gm_issuer_ocr_counts m)) (\<lambda>_.
     rbind (case gm_structure_contract m of None \<Rightarrow> Inr () | Some s \<Rightarrow> rbind (structure_contract s) (\<lambda>_. Inr ())) (\<lambda>_.
     rbind (rmap embedding_profile (gm_embedding_profiles m)) (\<lambda>_.
     rbind (case gm_vector_sidecar m of None \<Rightarrow> Inr () | Some s \<Rightarrow> rbind (embedding_vector_sidecar s) (\<lambda>_. Inr ())) (\<lambda>_.
     rbind (case gm_document_aggregation_profile m of None \<Rightarrow> Inr () | Some p \<Rightarrow> rbind (document_aggregation_profile p) (\<lambda>_. Inr ())) (\<lambda>_.
     rbind (validate_identifier (gm_generation_id m) ''generation_id'') (\<lambda>_.
     rbind (case gm_previous_generation_id m of None \<Rightarrow> Inr () | Some g \<Rightarrow> rbind (validate_identifier g ''previous_generation_id'') (\<lambda>_. Inr ())) (\<lambda>_.
     rbind (require (gm_issuer_codes m = sorted_set (gm_issuer_codes m)) ''issuer_codes must be sorted and unique'') (\<lambda>_.
     rbind (require (sorted_unique (map gd_document_id (gm_documents m))) ''generation documents must be sorted and unique by document_id'') (\<lambda>_.
     rbind (require (sorted_unique (map io_issuer (gm_issuer_ocr_counts m))) ''issuer OCR counts must be sorted and unique'') (\<lambda>_.
     rbind (require (sorted_unique (map ep_profile_id (gm_embedding_profiles m))) ''embedding profiles must be sorted and unique by profile_id'') (\<lambda>_.
     rbind (require (distinct (map ep_cache_namespace (gm_embedding_profiles m))) ''embedding profiles must use distinct cache namespaces'') (\<lambda>_.
     require (gm_embedding_view_counts m = [] \<or> map vc_view_type (gm_embedding_view_counts m) = embedding_view_types)
       ''embedding view counts must use the canonical complete view order''))))))))))))))"

definition ocr_refs :: "GenerationManifest \<Rightarrow> ArtifactRef list" where
  "ocr_refs m = concat (map (\<lambda>d. case gd_ocr d of None \<Rightarrow> [] | Some a \<Rightarrow> [a]) (gm_documents m))"

definition available_count :: "string \<Rightarrow> string \<Rightarrow> GenerationManifest \<Rightarrow> int" where
  "available_count status issuer m = int (length (filter (\<lambda>d. gd_issuer d = issuer \<and> gd_availability d = Some status) (gm_documents m)))"

definition check_issuer_counts :: "GenerationManifest \<Rightarrow> IssuerOCRCounts \<Rightarrow> unit result" where
  "check_issuer_counts m row =
     rbind (require (io_succeeded row = available_count ''available'' (io_issuer row) m \<and> io_failed row = available_count ''ocr_failed'' (io_issuer row) m)
       ''v4-v5 issuer OCR counts differ from document availability'') (\<lambda>_.
     require (\<not> io_succeeded row * 100 < io_acquired row * 95) ''v4-v5 issuer OCR success rate is below 95 percent'')"

definition check_dispositions :: "GenerationManifest \<Rightarrow> unit result" where
  "check_dispositions m =
     (if gm_schema_version m = ''cardrag.generation.v4'' \<or> v5_schema (gm_schema_version m) then
        rbind (require (\<not> list_ex (\<lambda>d. gd_availability d = None) (gm_documents m)) ''v4-v5 generation documents require explicit availability'') (\<lambda>_.
        rbind (require (map io_issuer (gm_issuer_ocr_counts m) = gm_issuer_codes m) ''v4-v5 issuer OCR counts must cover every declared issuer'') (\<lambda>_.
        rbind (require (sum_list (map io_acquired (gm_issuer_ocr_counts m)) = gc_documents (gm_counts m))
          ''v4-v5 issuer OCR counts differ from generation document count'') (\<lambda>_.
        rbind (rmap (check_issuer_counts m) (gm_issuer_ocr_counts m)) (\<lambda>_. Inr ()))))
      else require (gm_issuer_ocr_counts m = [] \<and> \<not> list_ex (\<lambda>d. gd_availability d \<noteq> None) (gm_documents m))
        ''OCR publication dispositions require generation v4 or v5'')"

definition has_v5_fields :: "GenerationManifest \<Rightarrow> bool" where
  "has_v5_fields m \<longleftrightarrow> gm_structure_contract m \<noteq> None \<or> gm_embedding_profiles m \<noteq> [] \<or> gm_primary_embedding_profile_id m \<noteq> None
     \<or> gm_embedding_view_counts m \<noteq> [] \<or> gm_vector_sidecar m \<noteq> None \<or> gm_parser_policy_sha256 m \<noteq> None
     \<or> gm_embedding_policy_sha256 m \<noteq> None \<or> gm_retrieval_policy_sha256 m \<noteq> None \<or> gm_document_aggregation_profile m \<noteq> None
     \<or> gm_document_aggregation_policy m \<noteq> None \<or> gm_sealed_profile_sha256 m \<noteq> None \<or> gm_exact_row_corpus_sha256 m \<noteq> None"

definition check_aggregation :: "pydantic \<Rightarrow> GenerationManifest \<Rightarrow> string \<Rightarrow> unit result" where
  "check_aggregation px m primary_id =
     rbind (require (length (remdups [gm_document_aggregation_profile m \<noteq> None, gm_document_aggregation_policy m \<noteq> None,
         gm_sealed_profile_sha256 m \<noteq> None, gm_exact_row_corpus_sha256 m \<noteq> None]) = 1)
       ''v5 document aggregation profile identity is all-or-nothing'') (\<lambda>_.
     case gm_document_aggregation_profile m of None \<Rightarrow> Inr ()
     | Some p \<Rightarrow>
       (case gm_sealed_profile_sha256 m of None \<Rightarrow> Inl (ValueError ''v5 document aggregation profile SHA-256 is absent'')
        | Some digest \<Rightarrow>
          rbind (profile_sha256 px p) (\<lambda>actual.
          rbind (require (actual = digest) ''v5 document aggregation profile SHA-256 is inconsistent'') (\<lambda>_.
          rbind (require (Some (ag_aggregation_policy p) = gm_document_aggregation_policy m) ''v5 document aggregation policy differs from its profile'') (\<lambda>_.
          rbind (require (ag_embedding_profile_id p = primary_id) ''document aggregation profile uses another embedding profile'') (\<lambda>_.
          rbind (require (Some (ag_exact_row_corpus_sha256 p) = gm_exact_row_corpus_sha256 m) ''document aggregation profile uses another exact-row corpus'') (\<lambda>_.
          rbind (sealed_v5_retrieval_policy px p digest) (\<lambda>policy.
          rbind (canonical_sha256 policy) (\<lambda>expected.
          require (gm_retrieval_policy_sha256 m = Some expected) ''retrieval policy SHA-256 does not bind document aggregation'')))))))))"

definition check_sidecar :: "GenerationManifest \<Rightarrow> EmbeddingProfile \<Rightarrow> EmbeddingVectorSidecar \<Rightarrow> unit result" where
  "check_sidecar m primary s =
     rbind (require (sc_profile_id s = ep_profile_id primary) ''vector sidecar must be bound to the primary embedding profile'') (\<lambda>_.
     rbind (require (sc_dimension s = ep_dimension primary) ''vector sidecar dimension does not match primary profile'') (\<lambda>_.
     rbind (require (sc_dtype s = ep_dtype primary) ''vector sidecar dtype does not match primary profile'') (\<lambda>_.
     rbind (require (sc_normalization s = ep_normalization primary) ''vector sidecar normalization does not match primary profile'') (\<lambda>_.
     rbind (require (generation_vectors_path (gm_generation_id m) = Inr (posix_path (ar_path (sc_artifact s))))
       ''vector sidecar path does not match generation_id'') (\<lambda>_.
     rbind (require (sc_row_count s = gc_chunks (gm_counts m)) ''vector sidecar row count must equal generation chunk count'') (\<lambda>_.
     rbind (require (map vc_view_type (gm_embedding_view_counts m) = embedding_view_types)
       ''v5 embedding view counts must explicitly cover every view type'') (\<lambda>_.
     require (sum_list (map vc_count (gm_embedding_view_counts m)) = sc_row_count s) ''embedding view counts must equal vector sidecar row count'')))))))"

definition validate_v5_contract :: "pydantic \<Rightarrow> GenerationManifest \<Rightarrow> unit result" where
  "validate_v5_contract px m =
     (case gm_structure_contract m of None \<Rightarrow> Inl (ValueError ''v5 generation requires a structure contract'')
      | Some structure \<Rightarrow>
     rbind (require (gm_embedding_profiles m \<noteq> []) ''v5 generation requires embedding profiles'') (\<lambda>_.
     case gm_primary_embedding_profile_id m of None \<Rightarrow> Inl (ValueError ''v5 generation requires a primary embedding profile'')
      | Some primary_id \<Rightarrow>
     (case gm_vector_sidecar m of None \<Rightarrow> Inl (ValueError ''v5 generation requires a vector sidecar'')
      | Some sidecar \<Rightarrow>
     rbind (require (gm_parser_policy_sha256 m \<noteq> None \<and> gm_embedding_policy_sha256 m \<noteq> None \<and> gm_retrieval_policy_sha256 m \<noteq> None)
       ''v5 generation requires parser, embedding, and retrieval policy hashes'') (\<lambda>_.
     rbind (require (map pp_issuer (sk_parser_profiles structure) = gm_issuer_codes m) ''v5 parser profiles must cover every declared issuer'') (\<lambda>_.
     rbind (require (mj_total (sk_major_class_counts structure) = no_major_section (sk_node_counts structure))
       ''v5 major class counts must cover every major section'') (\<lambda>_.
     (case List.find (\<lambda>p. ep_profile_id p = primary_id) (gm_embedding_profiles m) of
        None \<Rightarrow> Inl (ValueError ''primary embedding profile is not present in embedding profiles'')
      | Some primary \<Rightarrow>
     rbind (require (ec_provider (gm_embedding_contract m) = ep_provider primary \<and> ec_model (gm_embedding_contract m) = ep_model primary
         \<and> ec_dimension (gm_embedding_contract m) = ep_dimension primary) ''primary embedding profile does not match embedding contract'') (\<lambda>_.
     rbind (check_sidecar m primary sidecar) (\<lambda>_.
     check_aggregation px m (ep_profile_id primary))))))))))"

definition bundle_is_self_consistent :: "pydantic \<Rightarrow> GenerationManifest \<Rightarrow> unit result" where
  "bundle_is_self_consistent px m =
     rbind (require (map_of generation_versions (gm_schema_version m) = Some (gm_serving_schema m)) ''generation and serving database schema versions must match'') (\<lambda>_.
     rbind (require (generation_database_path (gm_generation_id m) = Inr (posix_path (ar_path (gm_serving_database m))))
       ''serving database path does not match generation_id'') (\<lambda>_.
     rbind (require (ar_media_type (gm_serving_database m) = ''application/vnd.sqlite3'') ''serving database media type must be application/vnd.sqlite3'') (\<lambda>_.
     rbind (require (gm_previous_generation_id m \<noteq> Some (gm_generation_id m)) ''generation cannot name itself as its predecessor'') (\<lambda>_.
     rbind (require (gc_documents (gm_counts m) = int (length (gm_documents m))) ''generation document count does not match documents'') (\<lambda>_.
     rbind (require (gc_pdf_objects (gm_counts m) = int (length (remdups (map (\<lambda>d. ar_sha256 (gd_pdf d)) (gm_documents m)))))
       ''generation PDF object count does not match documents'') (\<lambda>_.
     rbind (require (gc_ocr_objects (gm_counts m) = int (length (remdups (map ar_sha256 (ocr_refs m))))) ''generation OCR object count does not match documents'') (\<lambda>_.
     rbind (require (ec_count (gm_embedding_contract m) = gc_chunks (gm_counts m)) ''embedding count must equal generation chunk count'') (\<lambda>_.
     rbind (if v5_schema (gm_schema_version m)
            then require (ec_dimension (gm_embedding_contract m) = 4096) ''v5 embedding dimension must be 4096''
            else require (ec_dimension (gm_embedding_contract m) = 1536) ''v1-v4 embedding dimension must be 1536'') (\<lambda>_.
     rbind (require (set (map gd_issuer (gm_documents m)) \<subseteq> set (gm_issuer_codes m)) ''generation documents reference an undeclared issuer'') (\<lambda>_.
     rbind (check_dispositions m) (\<lambda>_.
     if v5_schema (gm_schema_version m) then validate_v5_contract px m
     else require (\<not> has_v5_fields m) ''v5 structure and vector fields require generation v5'')))))))))))"

definition generation_manifest :: "pydantic \<Rightarrow> GenerationManifest \<Rightarrow> GenerationManifest result" where
  "generation_manifest px m = rbind (manifest_fields m) (\<lambda>_. rbind (bundle_is_self_consistent px m) (\<lambda>_. Inr m))"

definition generation_ready :: "GenerationReady \<Rightarrow> GenerationReady result" where
  "generation_ready r =
     rbind (constrained (gr_schema_version r = ''cardrag.generation-ready.v1'' \<and> sha256_hex (gr_manifest_sha256 r)
       \<and> sha256_hex (gr_serving_database_sha256 r) \<and> 0 \<le> gr_serving_database_size_bytes r
       \<and> optional sha256_hex (gr_vector_sidecar_sha256 r) \<and> optional (\<lambda>n. 0 \<le> n) (gr_vector_sidecar_size_bytes r)) ''GenerationReady'') (\<lambda>_.
     rbind (validate_identifier (gr_generation_id r) ''generation_id'') (\<lambda>_.
     rbind (require ((gr_vector_sidecar_sha256 r = None) = (gr_vector_sidecar_size_bytes r = None))
       ''vector sidecar SHA-256 and size must be provided together'') (\<lambda>_. Inr r)))"

definition generation_pointer :: "GenerationPointer \<Rightarrow> GenerationPointer result" where
  "generation_pointer p =
     rbind (constrained (gt_schema_version p = ''cardrag.generation-pointer.v1'' \<and> sha256_hex (gt_manifest_sha256 p)
       \<and> sha256_hex (gt_ready_sha256 p)) ''GenerationPointer'') (\<lambda>_.
     rbind (validate_identifier (gt_generation_id p) ''generation_id'') (\<lambda>_. Inr p))"

section \<open>Keys and validation of cached OCR\<close>

definition contract_sha256 :: "pydantic \<Rightarrow> NativeOCRContract \<Rightarrow> string result" where
  "contract_sha256 px c = model_sha256 px (MContract c)"

definition native_ocr_reuse_key :: "pydantic \<Rightarrow> NativeOCRContract \<Rightarrow> OCRInput \<Rightarrow> string result" where
  "native_ocr_reuse_key px contract source =
     rbind (contract_sha256 px contract) (\<lambda>digest.
     canonical_sha256 (PDict
       [(PStr ''contract_sha256'', PStr digest), (PStr ''input'', PModel (px_dump px (MInput source))),
        (PStr ''schema_version'', PStr ''cardrag.ocr-reuse-key.v1'')]))"

definition content_addressed_ocr_reuse_key :: "pydantic \<Rightarrow> OCRInput \<Rightarrow> int \<Rightarrow> string result" where
  "content_addressed_ocr_reuse_key px source cache_epoch =
     rbind (require (0 \<le> cache_epoch) ''OCR cache epoch must be a nonnegative integer'') (\<lambda>_.
     canonical_sha256 (PDict
       [(PStr ''cache_epoch'', PInt cache_epoch), (PStr ''input'', PModel (px_dump px (MInput source))),
        (PStr ''schema_version'', PStr ''cardrag.ocr-content-reuse-key.v2'')]))"

definition adopted_ocr_reuse_key :: "string \<Rightarrow> string \<Rightarrow> string \<Rightarrow> string result" where
  "adopted_ocr_reuse_key adoption_policy_version source_document_id pdf_sha256 =
     rbind (require (strip adoption_policy_version \<noteq> []) ''adoption_policy_version must not be empty'') (\<lambda>_.
     rbind (require (document_id_text source_document_id) ''source_document_id is invalid'') (\<lambda>_.
     rbind (require (sha256_hex pdf_sha256) ''pdf_sha256 is invalid'') (\<lambda>_.
     canonical_sha256 (PDict
       [(PStr ''adoption_policy_version'', PStr adoption_policy_version), (PStr ''pdf_sha256'', PStr pdf_sha256),
        (PStr ''schema_version'', PStr ''cardrag.adopted-ocr-reuse-key.v1''), (PStr ''source_document_id'', PStr source_document_id)]))))"

definition ocr_input_ok :: "OCRInput \<Rightarrow> bool" where
  "ocr_input_ok i \<longleftrightarrow> oi_schema_version i = ''cardrag.ocr-input.v1'' \<and> sha256_hex (oi_pdf_sha256 i) \<and> 0 < oi_pdf_size_bytes i \<and> 0 < oi_page_count i"

definition bounded :: "int \<Rightarrow> int \<Rightarrow> int option \<Rightarrow> bool" where
  "bounded lo hi = optional (\<lambda>n. lo \<le> n \<and> n \<le> hi)"

definition reasoning_effort_text :: "string \<Rightarrow> bool" where
  "reasoning_effort_text v = (case v of [] \<Rightarrow> False
     | c # cs \<Rightarrow> is_lower c \<and> length cs \<le> 31 \<and> list_all (\<lambda>d. is_lower d \<or> is_digit d \<or> d = CHR ''_'' \<or> d = CHR ''-'') cs)"

definition native_contract_constraints :: "NativeOCRContract \<Rightarrow> bool" where
  "native_contract_constraints c \<longleftrightarrow>
     nc_schema_version c \<in> {''cardrag.ocr-contract.v1'', ''cardrag.ocr-contract.v2''} \<and> strip (nc_processor_version c) \<noteq> []
     \<and> nc_output_profile c = ''cardrag.ocr-markdown.v1'' \<and> 0 \<le> nc_cache_epoch c \<and> strip (nc_prompt_version c) \<noteq> []
     \<and> sha256_hex (nc_prompt_sha256 c) \<and> strip (nc_renderer_id c) \<noteq> [] \<and> 1000 \<le> nc_render_scale_milli c \<and> nc_render_scale_milli c \<le> 8000
     \<and> strip (nc_provider c) \<noteq> [] \<and> strip (nc_model c) \<noteq> [] \<and> optional reasoning_effort_text (nc_reasoning_effort c)
     \<and> bounded 1 100 (nc_chunk_pages c) \<and> optional (\<lambda>s. strip s \<noteq> []) (nc_segmentation_strategy_id c)
     \<and> bounded 1 100 (nc_whole_document_max_pages c) \<and> bounded 1 100 (nc_target_pages_per_call c)
     \<and> bounded 0 20 (nc_context_pages_before c) \<and> bounded 0 20 (nc_context_pages_after c)
     \<and> optional (\<lambda>p. p = ''target-pages-only'') (nc_output_policy c)"

definition native_ocr_contract :: "NativeOCRContract \<Rightarrow> NativeOCRContract result" where
  "native_ocr_contract c =
     rbind (constrained (native_contract_constraints c) ''NativeOCRContract'') (\<lambda>_. segmentation_contract_matches_schema c)"

text \<open>What the three kinds of manifests check of their output and their pages.\<close>

definition check_ocr_output :: "string \<Rightarrow> string \<Rightarrow> ArtifactRef \<Rightarrow> string list \<Rightarrow> OCRInput \<Rightarrow> unit result" where
  "check_ocr_output name page_name output page_hashes source =
     rbind (require (ar_media_type output = ocr_media_type) (name @ '' output media type is invalid'')) (\<lambda>_.
     rbind (require (cas_bound output) (name @ '' output must use its CAS object path'')) (\<lambda>_.
     require (int (length page_hashes) = oi_page_count source) (page_name @ '' requires one page hash per source page'')))"

definition ocr_artifact_manifest :: "pydantic \<Rightarrow> OCRArtifactManifest \<Rightarrow> OCRArtifactManifest result" where
  "ocr_artifact_manifest px m =
     rbind (constrained (om_schema_version m = ''cardrag.ocr-artifact.v1'' \<and> om_origin m = ''native'' \<and> om_status m = ''succeeded''
       \<and> om_validation_profile m = ''cardrag.ocr-markdown.v1'' \<and> sha256_hex (om_reuse_key m) \<and> ocr_input_ok (om_source m)
       \<and> artifact_ok (om_output m) \<and> 0 < om_ocr_chars m \<and> om_page_output_sha256 m \<noteq> [] \<and> list_all sha256_hex (om_page_output_sha256 m))
       ''OCRArtifactManifest'') (\<lambda>_.
     rbind (native_ocr_contract (om_contract m)) (\<lambda>_.
     rbind (native_ocr_reuse_key px (om_contract m) (om_source m)) (\<lambda>expected.
     rbind (require (om_reuse_key m = expected) ''OCR reuse key does not match source and contract'') (\<lambda>_.
     rbind (check_ocr_output ''OCR'' ''OCR manifest'' (om_output m) (om_page_output_sha256 m) (om_source m)) (\<lambda>_. Inr m)))))"

definition content_ocr_imported_provenance :: "ContentOCRImportedProvenance \<Rightarrow> ContentOCRImportedProvenance result" where
  "content_ocr_imported_provenance p =
     rbind (constrained (ip_schema_version p = ''cardrag.ocr-imported-provenance.v1'' \<and> ip_source_kind p \<in> {''adopted'', ''generation-only''}
       \<and> ip_provider p \<in> {''legacy-adoption'', ''generation-only''} \<and> ip_model p = ''unrecorded'' \<and> optional sha256_hex (ip_source_manifest_sha256 p))
       ''ContentOCRImportedProvenance'') (\<lambda>_.
     rbind (if ip_source_kind p = ''adopted''
       then require (ip_provider p = ''legacy-adoption'' \<and> ip_source_manifest_sha256 p \<noteq> None \<and> ip_generation_id p = None \<and> ip_document_id p = None)
         ''adopted OCR provenance requires only its source manifest hash''
       else require (ip_provider p = ''generation-only'' \<and> ip_source_manifest_sha256 p = None \<and> ip_generation_id p \<noteq> None \<and> ip_document_id p \<noteq> None)
         ''generation-only OCR provenance requires generation and document IDs'') (\<lambda>_.
     rbind (case ip_generation_id p of None \<Rightarrow> Inr [] | Some g \<Rightarrow> validate_identifier g ''generation_id'') (\<lambda>_.
     rbind (case ip_document_id p of None \<Rightarrow> Inr [] | Some d \<Rightarrow> validate_identifier d ''document_id'') (\<lambda>_. Inr p))))"

definition expected_variant_id :: "pydantic \<Rightarrow> ContentOCRArtifactManifest \<Rightarrow> string result" where
  "expected_variant_id px m = canonical_sha256 (px_content_fields px m)"

definition content_manifest_sha256 :: "pydantic \<Rightarrow> ContentOCRArtifactManifest \<Rightarrow> string result" where
  "content_manifest_sha256 px m = model_sha256 px (MContent m)"

definition check_provenance :: "provenance \<Rightarrow> unit result" where
  "check_provenance p = (case p of NativeProvenance c \<Rightarrow> rbind (native_ocr_contract c) (\<lambda>_. Inr ())
     | ImportedProvenance i \<Rightarrow> rbind (content_ocr_imported_provenance i) (\<lambda>_. Inr ()))"

definition content_ocr_artifact_manifest :: "pydantic \<Rightarrow> ContentOCRArtifactManifest \<Rightarrow> ContentOCRArtifactManifest result" where
  "content_ocr_artifact_manifest px m =
     rbind (constrained (cm_schema_version m = ''cardrag.ocr-content-artifact.v1'' \<and> sha256_hex (cm_reuse_key m) \<and> 0 \<le> cm_cache_epoch m
       \<and> ocr_input_ok (cm_source m) \<and> artifact_ok (cm_output m) \<and> 0 < cm_ocr_chars m \<and> cm_page_output_sha256 m \<noteq> []
       \<and> list_all sha256_hex (cm_page_output_sha256 m) \<and> sha256_hex (cm_variant_id m)
       \<and> optional (\<lambda>s. ms_kind s \<in> {''native'', ''adopted''} \<and> sha256_hex (ms_reuse_key s)) (cm_migrated_from m)
       \<and> optional sha256_hex (cm_restored_from m)) ''ContentOCRArtifactManifest'') (\<lambda>_.
     rbind (check_provenance (cm_provenance m)) (\<lambda>_.
     rbind (case cm_reprocess_request_id m of None \<Rightarrow> Inr [] | Some r \<Rightarrow> validate_identifier r ''reprocess_request_id'') (\<lambda>_.
     rbind (content_addressed_ocr_reuse_key px (cm_source m) (cm_cache_epoch m)) (\<lambda>expected.
     rbind (require (cm_reuse_key m = expected) ''content OCR reuse key does not match source and epoch'') (\<lambda>_.
     rbind (check_ocr_output ''content OCR'' ''content OCR'' (cm_output m) (cm_page_output_sha256 m) (cm_source m)) (\<lambda>_.
     rbind (expected_variant_id px m) (\<lambda>variant.
     rbind (require (cm_variant_id m = variant) ''content OCR variant ID does not match manifest fields'') (\<lambda>_. Inr m))))))))"

text \<open>\<open>created_at.strftime("%Y%m%dT%H%M%S%fZ")\<close> of an instant in UTC.\<close>

definition compact_utc :: "int \<Rightarrow> string" where
  "compact_utc micros = filter (\<lambda>c. c \<noteq> CHR ''-'' \<and> c \<noteq> CHR '':'' \<and> c \<noteq> CHR ''.'') (iso_utc micros)"

definition variant_label :: "pydantic \<Rightarrow> ContentOCRArtifactManifest \<Rightarrow> string result" where
  "variant_label px m = rbind (content_manifest_sha256 px m) (\<lambda>d. Inr (compact_utc (cm_created_at m) @ ''-'' @ take 12 d))"

definition variant_root :: "pydantic \<Rightarrow> ContentOCRArtifactManifest \<Rightarrow> path result" where
  "variant_root px m = rbind (variant_label px m) (content_ocr_variant_root_path (cm_reuse_key m))"

definition content_ready_for_manifest :: "pydantic \<Rightarrow> ContentOCRArtifactManifest \<Rightarrow> ContentOCRReady result" where
  "content_ready_for_manifest px m = rbind (content_manifest_sha256 px m) (\<lambda>d.
     Inr \<lparr>cr_schema_version = ''cardrag.ocr-content-ready.v1'', cr_reuse_key = cm_reuse_key m, cr_variant_id = cm_variant_id m,
          cr_manifest_sha256 = d, cr_ocr_sha256 = ar_sha256 (cm_output m)\<rparr>)"

definition verifies :: "pydantic \<Rightarrow> ContentOCRReady \<Rightarrow> ContentOCRArtifactManifest \<Rightarrow> bool result" where
  "verifies px r m = rbind (content_manifest_sha256 px m) (\<lambda>d.
     Inr (cr_reuse_key r = cm_reuse_key m \<and> cr_variant_id r = cm_variant_id m \<and> cr_manifest_sha256 r = d
          \<and> cr_ocr_sha256 r = ar_sha256 (cm_output m)))"

definition approved_prefix_sha256 :: string where
  "approved_prefix_sha256 = ''dd547e4a08542b54f8cc2f1f90b4c71d97bec67a5c286cfcb2d59587bb4adc48''"

definition normalization_is_narrow_and_fully_bound :: "LegacyAdoptionReceiptV2 \<Rightarrow> unit result" where
  "normalization_is_narrow_and_fully_bound r =
     (if l2_normalization_profile r = ''exact'' then
        rbind (require (l2_source_ocr_sha256 r = l2_normalized_ocr_sha256 r) ''exact adoption requires identical source and normalized OCR hashes'') (\<lambda>_.
        rbind (require (l2_source_ocr_size_bytes r = l2_normalized_ocr_size_bytes r) ''exact adoption requires identical source and normalized OCR sizes'') (\<lambda>_.
        require (l2_prefix_sha256 r = None \<and> l2_removed_bytes r = 0) ''exact adoption cannot remove a prefix''))
      else
        rbind (require (l2_normalization_profile r = ''strip-exact-generated-prefix-v1'') ''unsupported legacy OCR normalization profile'') (\<lambda>_.
        rbind (require (l2_prefix_sha256 r = Some approved_prefix_sha256) ''prefix-strip adoption requires the approved prefix hash'') (\<lambda>_.
        rbind (require (l2_removed_bytes r = 24) ''prefix-strip adoption requires exactly 24 removed bytes'') (\<lambda>_.
        rbind (require (l2_source_ocr_size_bytes r = l2_normalized_ocr_size_bytes r + l2_removed_bytes r)
          ''prefix-strip adoption OCR sizes do not match removed bytes'') (\<lambda>_.
        require (l2_source_ocr_sha256 r \<noteq> l2_normalized_ocr_sha256 r)
          ''prefix-strip adoption requires distinct source and normalized OCR hashes'')))))"

definition legacy_policy_v1 :: string where
  "legacy_policy_v1 = ''cardrag.legacy-ocr-adoption.v1''"

definition legacy_policy_v2 :: string where
  "legacy_policy_v2 = ''cardrag.legacy-ocr-adoption.v2''"

definition check_receipt :: "adoption_receipt \<Rightarrow> unit result" where
  "check_receipt receipt = (case receipt of
     ReceiptV1 r \<Rightarrow> constrained (lr_schema_version r = ''cardrag.legacy-adoption-receipt.v1'' \<and> strip (lr_adoption_policy_version r) \<noteq> []
       \<and> strip (lr_source_bundle_id r) \<noteq> [] \<and> sha256_hex (lr_source_bundle_sha256 r) \<and> strip (lr_source_database_id r) \<noteq> []
       \<and> document_id_text (lr_source_document_id r) \<and> sha256_hex (lr_pdf_sha256 r) \<and> sha256_hex (lr_ocr_sha256 r)
       \<and> lr_validation r = \<lparr>lv_hash_verified = True, lv_page_coverage_verified = True, lv_utf8_verified = True, lv_ledger_bound = True\<rparr>)
       ''LegacyAdoptionReceipt''
   | ReceiptV2 r \<Rightarrow>
       rbind (constrained (l2_schema_version r = ''cardrag.legacy-adoption-receipt.v2'' \<and> l2_adoption_policy_version r = legacy_policy_v2
         \<and> strip (l2_source_bundle_id r) \<noteq> [] \<and> sha256_hex (l2_source_bundle_sha256 r) \<and> strip (l2_source_database_id r) \<noteq> []
         \<and> document_id_text (l2_source_document_id r) \<and> sha256_hex (l2_pdf_sha256 r) \<and> sha256_hex (l2_source_ocr_sha256 r)
         \<and> 0 < l2_source_ocr_size_bytes r \<and> sha256_hex (l2_normalized_ocr_sha256 r) \<and> 0 < l2_normalized_ocr_size_bytes r
         \<and> l2_normalization_profile r \<in> {''exact'', ''strip-exact-generated-prefix-v1''} \<and> optional sha256_hex (l2_prefix_sha256 r)
         \<and> 0 \<le> l2_removed_bytes r
         \<and> l2_validation r = \<lparr>w2_source_hash_verified = True, w2_normalized_hash_verified = True, w2_transformation_verified = True,
              w2_page_coverage_verified = True, w2_utf8_verified = True, w2_ledger_bound = True\<rparr>) ''LegacyAdoptionReceiptV2'') (\<lambda>_.
       normalization_is_narrow_and_fully_bound r))"

text \<open>The digest and the size the receipt vouches for; a v1 receipt does not record the size.\<close>

definition receipt_output :: "AdoptedOCRArtifactManifest \<Rightarrow> (string \<times> int) result" where
  "receipt_output m = (case am_receipt m of
     ReceiptV2 r \<Rightarrow>
       rbind (require (am_schema_version m = ''cardrag.ocr-artifact.v2'' \<and> am_validation_profile m = legacy_policy_v2)
         ''v2 adoption receipt requires the v2 artifact/profile contract'') (\<lambda>_.
       Inr (l2_normalized_ocr_sha256 r, l2_normalized_ocr_size_bytes r))
   | ReceiptV1 r \<Rightarrow>
       rbind (require (am_schema_version m = ''cardrag.ocr-artifact.v1'' \<and> am_validation_profile m = legacy_policy_v1
           \<and> lr_adoption_policy_version r = legacy_policy_v1) ''v1 adoption receipt requires the v1 artifact/profile contract'') (\<lambda>_.
       Inr (lr_ocr_sha256 r, ar_size_bytes (am_output m))))"

definition receipt_identity :: "adoption_receipt \<Rightarrow> string \<times> string \<times> string" where
  "receipt_identity receipt = (case receipt of
     ReceiptV1 r \<Rightarrow> (lr_adoption_policy_version r, lr_source_document_id r, lr_pdf_sha256 r)
   | ReceiptV2 r \<Rightarrow> (l2_adoption_policy_version r, l2_source_document_id r, l2_pdf_sha256 r))"

definition adopted_ocr_artifact_manifest :: "AdoptedOCRArtifactManifest \<Rightarrow> AdoptedOCRArtifactManifest result" where
  "adopted_ocr_artifact_manifest m =
     rbind (constrained (am_schema_version m \<in> {''cardrag.ocr-artifact.v1'', ''cardrag.ocr-artifact.v2''} \<and> am_origin m = ''legacy_adoption''
       \<and> am_status m = ''succeeded'' \<and> am_validation_profile m \<in> {legacy_policy_v1, legacy_policy_v2} \<and> sha256_hex (am_reuse_key m)
       \<and> ocr_input_ok (am_source m) \<and> artifact_ok (am_output m) \<and> 0 < am_ocr_chars m \<and> am_page_output_sha256 m \<noteq> []
       \<and> list_all sha256_hex (am_page_output_sha256 m)) ''AdoptedOCRArtifactManifest'') (\<lambda>_.
     rbind (check_receipt (am_receipt m)) (\<lambda>_.
     rbind (receipt_output m) (\<lambda>(ocr_sha256, ocr_size_bytes).
     (case receipt_identity (am_receipt m) of (policy, document, pdf) \<Rightarrow>
     rbind (adopted_ocr_reuse_key policy document (oi_pdf_sha256 (am_source m))) (\<lambda>expected_key.
     rbind (require (am_reuse_key m = expected_key) ''adopted OCR reuse key does not match receipt and PDF'') (\<lambda>_.
     rbind (require (pdf = oi_pdf_sha256 (am_source m)) ''adoption receipt PDF hash does not match OCR input'') (\<lambda>_.
     rbind (require (ocr_sha256 = ar_sha256 (am_output m)) ''adoption receipt OCR hash does not match output'') (\<lambda>_.
     rbind (require (ocr_size_bytes = ar_size_bytes (am_output m)) ''adoption receipt OCR size does not match output'') (\<lambda>_.
     rbind (check_ocr_output ''adopted OCR'' ''adopted OCR'' (am_output m) (am_page_output_sha256 m) (am_source m)) (\<lambda>_. Inr m))))))))))"

definition expected_generation_files :: "string \<Rightarrow> bool \<Rightarrow> string list result" where
  "expected_generation_files generation_id include_vectors =
     rbind (generation_database_path generation_id) (\<lambda>d.
     rbind (generation_manifest_path generation_id) (\<lambda>m.
     rbind (generation_ready_path generation_id) (\<lambda>r.
     rbind (generation_vectors_path generation_id) (\<lambda>v.
     Inr ([as_posix d, as_posix m, as_posix r] @ (if include_vectors then [as_posix v] else []))))))"

section \<open>What a validated manifest promises\<close>

lemma rmap_checked: "rmap f xs = Inr ys \<Longrightarrow> x \<in> set xs \<Longrightarrow> \<exists>y. f x = Inr y"
  by (induction xs arbitrary: ys) auto

lemma generation_manifestD:
  assumes "generation_manifest px m = Inr m'"
  shows "m' = m" "manifest_fields m = Inr ()" "bundle_is_self_consistent px m = Inr ()"
  using assms by (auto simp: generation_manifest_def)

lemma manifest_document:
  assumes "generation_manifest px m = Inr m'" "d \<in> set (gm_documents m)"
  shows "document_constraints d" "artifact_contracts_are_cas_bound d = Inr ()"
proof -
  from generation_manifestD(2) [OF assms(1)] obtain ds where "rmap generation_document (gm_documents m) = Inr ds"
    by (auto simp: manifest_fields_def)
  from rmap_checked [OF this assms(2)] show "document_constraints d" "artifact_contracts_are_cas_bound d = Inr ()"
    by (auto simp: generation_document_def)
qed

lemma document_cas_bound:
  assumes "artifact_contracts_are_cas_bound d = Inr ()"
  shows "cas_bound (gd_pdf d)" "gd_ocr d = Some a \<Longrightarrow> cas_bound a"
  using assms by (auto simp: artifact_contracts_are_cas_bound_def optional_def)

lemma manifest_previous:
  assumes "generation_manifest px m = Inr m'" shows "gm_previous_generation_id m \<noteq> Some (gm_generation_id m)"
  using generation_manifestD(3) [OF assms] by (auto simp: bundle_is_self_consistent_def)

lemma sum_issuers:
  assumes "distinct issuers" "set (map gd_issuer ds) \<subseteq> set issuers"
  shows "sum_list (map (\<lambda>i. int (length (filter (\<lambda>d. gd_issuer d = i \<and> P d) ds))) issuers) = int (length (filter P ds))"
  using assms
proof (induction ds)
  case (Cons d ds)
  have "sum_list (map (\<lambda>i. if gd_issuer d = i \<and> P d then 1 else 0) issuers) = (if P d then 1 else (0 :: int))"
    using Cons.prems by (simp add: sum_list_distinct_conv_sum_set)
  moreover have "sum_list (map (\<lambda>i. int (length (filter (\<lambda>d. gd_issuer d = i \<and> P d) (d # ds)))) issuers) =
      sum_list (map (\<lambda>i. (if gd_issuer d = i \<and> P d then 1 else 0) + int (length (filter (\<lambda>d. gd_issuer d = i \<and> P d) ds))) issuers)"
    by (rule arg_cong [of _ _ sum_list], rule map_cong) auto
  ultimately show ?case using Cons by (simp add: sum_list_addf)
qed simp

lemma sorted_set_distinct: "xs = sorted_set xs \<Longrightarrow> distinct xs"
  by (metis sorted_set_facts(2))

text \<open>
  C24. The published corpus is mostly readable: in every validated generation of version 4 and later each
  document is available or declared as failed, the declared per-issuer counts are exact, and at least
  95 percent of all documents are available.
\<close>

theorem manifest_success_rate:
  assumes ok: "generation_manifest px m = Inr m'"
    and version: "gm_schema_version m = ''cardrag.generation.v4'' \<or> v5_schema (gm_schema_version m)"
  shows "100 * int (length (filter (\<lambda>d. gd_availability d = Some ''available'') (gm_documents m))) \<ge> 95 * int (length (gm_documents m))
    \<and> list_all (\<lambda>d. gd_availability d = Some ''available'' \<and> gd_ocr d \<noteq> None \<or> gd_availability d = Some ''ocr_failed'' \<and> gd_ocr d = None) (gm_documents m)
    \<and> list_all (\<lambda>r. io_succeeded r = available_count ''available'' (io_issuer r) m \<and> io_failed r = available_count ''ocr_failed'' (io_issuer r) m)
        (gm_issuer_ocr_counts m)"
proof -
  let ?rows = "gm_issuer_ocr_counts m"
  note cons = generation_manifestD(3) [OF ok]
  from cons version obtain checked where explicit: "\<not> list_ex (\<lambda>d. gd_availability d = None) (gm_documents m)"
    and issuers: "map io_issuer ?rows = gm_issuer_codes m"
    and total: "sum_list (map io_acquired ?rows) = int (length (gm_documents m))"
    and rows: "rmap (check_issuer_counts m) ?rows = Inr checked"
    and declared: "set (map gd_issuer (gm_documents m)) \<subseteq> set (gm_issuer_codes m)"
    by (auto simp: bundle_is_self_consistent_def check_dispositions_def)
  have row: "io_succeeded r = available_count ''available'' (io_issuer r) m" "io_failed r = available_count ''ocr_failed'' (io_issuer r) m"
    "95 * io_acquired r \<le> 100 * io_succeeded r" if "r \<in> set ?rows" for r
    using rmap_checked [OF rows that] by (auto simp: check_issuer_counts_def)
  have "distinct (gm_issuer_codes m)"
    using generation_manifestD(2) [OF ok] by (intro sorted_set_distinct) (auto simp: manifest_fields_def)
  from sum_issuers [OF this declared, of "\<lambda>d. gd_availability d = Some ''available''"]
  have "sum_list (map io_succeeded ?rows) = int (length (filter (\<lambda>d. gd_availability d = Some ''available'') (gm_documents m)))"
    using row(1) by (simp add: issuers [symmetric] available_count_def comp_def cong: map_cong)
  moreover have "95 * sum_list (map io_acquired ?rows) \<le> 100 * sum_list (map io_succeeded ?rows)"
    unfolding sum_list_const_mult [symmetric] by (rule sum_list_mono) (rule row(3))
  moreover have "gd_availability d = Some ''available'' \<and> gd_ocr d \<noteq> None \<or> gd_availability d = Some ''ocr_failed'' \<and> gd_ocr d = None"
    if "d \<in> set (gm_documents m)" for d
    using manifest_document [OF ok that] explicit that
    by (auto simp: list_ex_iff document_constraints_def optional_def artifact_contracts_are_cas_bound_def split: option.splits if_splits)
  ultimately show ?thesis using total row(1,2) by (simp add: list_all_iff)
qed

section \<open>A small generation\<close>

definition demo_pydantic :: pydantic where
  "demo_pydantic = \<lparr>px_dump = (\<lambda>_. PNone), px_content_fields = (\<lambda>_. PNone), px_manifest = (\<lambda>_. None), px_ready = (\<lambda>_. None),
     px_pointer = (\<lambda>_. None), px_native = (\<lambda>_. None), px_adopted = (\<lambda>_. None), px_ocr_ready = (\<lambda>_. None),
     px_content = (\<lambda>_. None), px_content_ready = (\<lambda>_. None)\<rparr>"

definition demo_hex :: "char \<Rightarrow> string" where
  "demo_hex c = replicate 64 c"

definition demo_object :: "char \<Rightarrow> string \<Rightarrow> ArtifactRef" where
  "demo_object c media = \<lparr>ar_sha256 = demo_hex c, ar_size_bytes = 7, ar_media_type = media,
     ar_path = ''v1/objects/sha256/'' @ [c, c] @ ''/'' @ demo_hex c\<rparr>"

definition demo_document :: GenerationDocument where
  "demo_document = \<lparr>gd_document_id = ''doc_1'', gd_issuer = ''bc'', gd_pdf = demo_object (CHR ''a'') ''application/pdf'',
     gd_ocr = Some (demo_object (CHR ''b'') ocr_media_type), gd_ocr_cache_kind = None, gd_ocr_reuse_key = None,
     gd_ocr_variant_id = None, gd_page_count = 2, gd_availability = Some ''available'', gd_ocr_failure = None\<rparr>"

definition demo_manifest :: GenerationManifest where
  "demo_manifest = \<lparr>gm_schema_version = ''cardrag.generation.v4'', gm_generation_id = ''g2'', gm_created_at = 0,
     gm_serving_schema = ''cardrag.serving-db.v4'',
     gm_serving_database = \<lparr>ar_sha256 = demo_hex (CHR ''c''), ar_size_bytes = 9, ar_media_type = ''application/vnd.sqlite3'',
       ar_path = ''v1/generations/g2/index.sqlite3''\<rparr>,
     gm_corpus_sha256 = demo_hex (CHR ''d''), gm_contract_sha256 = demo_hex (CHR ''e''),
     gm_embedding_contract = \<lparr>ec_provider = ''p'', ec_model = ''m'', ec_dimension = 1536, ec_count = 3\<rparr>, gm_issuer_codes = [''bc''],
     gm_counts = \<lparr>gc_documents = 1, gc_pdf_objects = 1, gc_ocr_objects = 1, gc_chunks = 3\<rparr>, gm_documents = [demo_document],
     gm_issuer_ocr_counts = [\<lparr>io_issuer = ''bc'', io_acquired = 1, io_succeeded = 1, io_failed = 0\<rparr>],
     gm_structure_contract = None, gm_embedding_profiles = [], gm_primary_embedding_profile_id = None, gm_embedding_view_counts = [],
     gm_vector_sidecar = None, gm_parser_policy_sha256 = None, gm_embedding_policy_sha256 = None, gm_retrieval_policy_sha256 = None,
     gm_document_aggregation_profile = None, gm_document_aggregation_policy = None, gm_sealed_profile_sha256 = None,
     gm_exact_row_corpus_sha256 = None, gm_previous_generation_id = Some ''g1''\<rparr>"

lemma demo_manifest_valid: "generation_manifest demo_pydantic demo_manifest = Inr demo_manifest"
  by code_simp

theorem manifest_success_rate_witness:
  "100 * int (length (filter (\<lambda>d. gd_availability d = Some ''available'') (gm_documents demo_manifest))) \<ge> 95 * int (length (gm_documents demo_manifest))"
  using manifest_success_rate [OF demo_manifest_valid] by (simp add: demo_manifest_def)

end
