(* ===== verification/WorkerDav.thy ===== *)
theory WorkerDav
  imports Webdav
begin

text \<open>
  \<open>cardrag_worker/webdav.py\<close>: the operations of the worker's client on top of the core client that remote
  maintenance uses.  \<open>to_thread_fenced\<close> runs the core operation and waits for it, so that it is the operation
  itself.  The XML parser (\<open>defusedxml\<close>) is not part of the repository: \<open>xml\<close> maps a body to the texts of
  \<open>DAV:href\<close> of its \<open>DAV:response\<close> elements, \<open>None\<close> for an element without one, and to \<open>None\<close> when the body does
  not parse.  The verification memo (\<open>self.verification\<close>) is absent, as in a maintenance run.
\<close>

type_synonym xml = "bytes \<Rightarrow> string option list option"

section \<open>Loops over operations\<close>

fun smap :: "('a \<Rightarrow> ('s, 'b) op) \<Rightarrow> 'a list \<Rightarrow> ('s, 'b list) op" where
  "smap f [] = ret []"
| "smap f (x # xs) = sbind (f x) (\<lambda>y. sbind (smap f xs) (\<lambda>ys. ret (y # ys)))"

text \<open>\<open>yields m Q\<close>: a value \<open>m\<close> returns satisfies \<open>Q\<close>, whatever happened before.\<close>

definition yields :: "('s, 'a) op \<Rightarrow> ('a \<Rightarrow> bool) \<Rightarrow> bool" where
  "yields m Q \<longleftrightarrow> (\<forall>s x s'. m s = (Inr x, s') \<longrightarrow> Q x)"

named_theorems yields_intros \<open>rules for the values of an operation\<close>

lemma yieldsD: "yields m Q \<Longrightarrow> m s = (Inr x, s') \<Longrightarrow> Q x"
  by (auto simp: yields_def)

lemma yields_ret [yields_intros]: "Q x \<Longrightarrow> yields (ret x) Q"
  by (simp add: yields_def ret_def)

lemma yields_raise [yields_intros]: "yields (raise e) Q"
  by (simp add: yields_def raise_def)

lemma yields_lift [yields_intros]: "(\<And>x. r = Inr x \<Longrightarrow> Q x) \<Longrightarrow> yields (lift r) Q"
  by (simp add: yields_def lift_def)

lemma yields_sbind: "yields m P \<Longrightarrow> (\<And>x. P x \<Longrightarrow> yields (f x) Q) \<Longrightarrow> yields (sbind m f) Q"
  unfolding yields_def by (fastforce simp: sbind_eqs)

lemma yields_any: "yields m (\<lambda>_. True)"
  by (simp add: yields_def)

lemma yields_then: "(\<And>x. yields (f x) Q) \<Longrightarrow> yields (sbind m f) Q"
  by (rule yields_sbind [OF yields_any])

lemma yields_sbind_lift [yields_intros]: "(\<And>x. r = Inr x \<Longrightarrow> yields (f x) Q) \<Longrightarrow> yields (sbind (lift r) f) Q"
  by (cases r) (auto simp: yields_def sbind_def lift_def)

lemma yields_catch: "yields m Q \<Longrightarrow> (\<And>e. yields (h e) Q) \<Longrightarrow> yields (catch m h) Q"
  unfolding yields_def by (fastforce simp: catch_eqs)

lemma yields_weaken: "yields m P \<Longrightarrow> (\<And>x. P x \<Longrightarrow> Q x) \<Longrightarrow> yields m Q"
  by (auto simp: yields_def)

lemma yields_smap: "(\<And>x. x \<in> set xs \<Longrightarrow> yields (f x) (Q x)) \<Longrightarrow> yields (smap f xs) (list_all2 Q xs)"
proof (induction xs)
  case (Cons x xs)
  then have "yields (f x) (Q x)" "yields (smap f xs) (list_all2 Q xs)" by simp_all
  then show ?case by (auto intro!: yields_sbind yields_ret elim!: yields_sbind)
qed (simp add: yields_ret)

lemma does_smap [does_intros]:
  "(\<And>x. x \<in> set xs \<Longrightarrow> does A (f x) (\<lambda>_ _. True)) \<Longrightarrow> does A (smap f xs) (\<lambda>_ _. True)"
proof (induction xs)
  case (Cons x xs)
  then have "does A (f x) (\<lambda>_ _. True)" "does A (smap f xs) (\<lambda>_ _. True)" by simp_all
  then show ?case by (auto intro!: does_seq does_ret)
qed (simp add: does_ret)

section \<open>Texts of the standard library\<close>

text \<open>\<open>unquote(text)\<close> as bytes; a percent sign not followed by two hexadecimal digits stays.\<close>

fun unquote :: "string \<Rightarrow> string" where
  "unquote (c # a # b # s) =
     (if c = CHR ''%'' then (case (hex_val a, hex_val b) of
          (Some x, Some y) \<Rightarrow> char_of (16 * x + y) # unquote s
        | _ \<Rightarrow> c # unquote (a # b # s))
      else c # unquote (a # b # s))"
| "unquote s = s"

definition is_scheme :: "string \<Rightarrow> bool" where
  "is_scheme s = (case s of [] \<Rightarrow> False | c # cs \<Rightarrow> (is_lower c \<or> is_upper c)
     \<and> list_all (\<lambda>d. is_alnum d \<or> d = CHR ''+'' \<or> d = CHR ''-'' \<or> d = CHR ''.'') cs)"

definition before_any :: "char list \<Rightarrow> string \<Rightarrow> string" where
  "before_any cs s = takeWhile (\<lambda>c. c \<notin> set cs) s"

text \<open>\<open>urlsplit(url).path\<close>: without scheme, authority, query and fragment.\<close>

definition urlsplit_path :: "string \<Rightarrow> string" where
  "urlsplit_path href =
     (let u = filter (\<lambda>c. c \<notin> {CHR 0x09, CHR 0x0A, CHR 0x0D}) (dropWhile (\<lambda>c. (of_char c :: nat) \<le> 32) href);
          s = before_any [CHR '':''] u;
          r = (if length s < length u \<and> is_scheme s then drop (length s + 1) u else u);
          p = (if take 2 r = ''//'' then dropWhile (\<lambda>c. c \<notin> set ''/?#'') (drop 2 r) else r)
      in before_any [CHR ''#'', CHR ''?''] p)"

definition strip_slashes :: "string \<Rightarrow> string" where
  "strip_slashes s = rstrip_slash (dropWhile (\<lambda>c. c = CHR ''/'') s)"

section \<open>The client\<close>

definition control_object_max_bytes :: int where
  "control_object_max_bytes = 8 * 1024 * 1024"

definition get_bytes :: "'w http \<Rightarrow> base_url \<Rightarrow> path \<Rightarrow> int option \<Rightarrow> ('w, bytes option) dav_op" where
  "get_bytes http base path max_bytes =
     catch (sbind (dav_get http base path max_bytes) (\<lambda>r. ret (Some (rs_content r))))
       (\<lambda>e. case e of WebDAVHTTPError _ _ status \<Rightarrow> if status = 404 then ret None else raise e | _ \<Rightarrow> raise e)"

definition child_of_href :: "string \<Rightarrow> path \<Rightarrow> string option \<Rightarrow> path list result" where
  "child_of_href base_path relative href =
     (case href of
        None \<Rightarrow> Inl (WebDAVError ''PROPFIND response is missing DAV:href'')
      | Some h \<Rightarrow>
          rbind (raise_if (h = []) (WebDAVError ''PROPFIND response is missing DAV:href'')) (\<lambda>_.
          let decoded = unquote (urlsplit_path h) in
          rbind (raise_if (take (length base_path) decoded \<noteq> base_path)
            (WebDAVError ''PROPFIND href escaped configured WebDAV base'')) (\<lambda>_.
          let child_raw = strip_slashes (drop (length base_path) decoded) in
          if child_raw = [] then Inr []
          else rbind (validate_relative_path child_raw) (\<lambda>child. Inr (if child \<noteq> relative then [child] else [])))))"

definition list_children :: "xml \<Rightarrow> 'w http \<Rightarrow> base_url \<Rightarrow> path \<Rightarrow> ('w, path list) dav_op" where
  "list_children xml http base path =
     sbind (lift (validate_path path)) (\<lambda>relative.
     sbind (propfind http base relative ''1'' propfind_body) (\<lambda>response.
     case xml (rs_content response) of
       None \<Rightarrow> raise (WebDAVError (''invalid PROPFIND XML for '' @ as_posix relative))
     | Some hrefs \<Rightarrow>
         let base_path = rstrip_slash (unquote (bu_path base)) @ ''/'' in
         sbind (lift (rmap (child_of_href base_path relative) hrefs)) (\<lambda>children.
         ret (sort_key as_posix (remdups (concat children))))))"

definition wk_delete :: "'w http \<Rightarrow> base_url \<Rightarrow> path \<Rightarrow> bool \<Rightarrow> ('w, unit) dav_op" where
  "wk_delete http base path missing_ok = delete http base path missing_ok"

section \<open>Reading changes nothing\<close>

definition reads :: "http_request \<times> http_result \<Rightarrow> bool" where
  "reads x \<longleftrightarrow> rq_method (fst x) \<in> {''GET'', ''PROPFIND'', ''HEAD''}"

lemma does_get_bytes [does_intros]: "does reads (get_bytes http base path cap) (\<lambda>_ _. True)"
  unfolding get_bytes_def dav_get_def stream_get_def
  by (rule does_catch [where R' = "\<lambda>_ _. True"])
    (auto intro!: does_seq does_lift does_ret does_raise does_trivial [OF does_exchange] simp: reads_def split: http_result.splits exn.splits option.splits)

lemma does_request_method:
  assumes "\<And>u r. A (\<lparr>rq_method = method, rq_url = u, rq_headers = hdrs, rq_content = content\<rparr>, r)"
  shows "does A (request http base method path expected hdrs content) (\<lambda>_ _. True)"
  unfolding request_def
  by (auto intro!: does_seq does_lift does_ret does_raise does_trivial [OF does_exchange] assms split: http_result.splits)

lemma does_list_children [does_intros]: "does reads (list_children xml http base path) (\<lambda>_ _. True)"
  unfolding list_children_def propfind_def Let_def
  by (auto intro!: does_seq does_lift does_ret does_raise does_request_method simp: reads_def split: option.splits)

text \<open>A delete puts one request on the wire, for the path it was given.\<close>

definition deletes :: "base_url \<Rightarrow> path \<Rightarrow> http_request \<times> http_result \<Rightarrow> bool" where
  "deletes base p x \<longleftrightarrow> rq_method (fst x) = ''DELETE'' \<and> url base p = Inr (rq_url (fst x))"

lemma validate_path_eq: "validate_path p = Inr q \<Longrightarrow> p \<noteq> [] \<Longrightarrow> as_posix q = as_posix p"
  by (auto simp: validate_path_def validate_relative_path_def as_posix_def Let_def split: if_splits)

lemma url_validated: "validate_path p = Inr q \<Longrightarrow> url base q = Inr u \<Longrightarrow> url base p = Inr u"
proof -
  assume q: "validate_path p = Inr q" and u: "url base q = Inr u"
  have "p \<noteq> [] \<Longrightarrow> validate_path q = validate_path p" using validate_path_eq [OF q] by (simp add: validate_path_def)
  moreover have "p \<noteq> []" using q by (auto simp: validate_path_def as_posix_def validate_relative_path_def Let_def split: if_splits)
  ultimately show "url base p = Inr u" using u by (simp add: url_def)
qed

lemma does_wk_delete: "does (deletes base p) (wk_delete http base p missing) (\<lambda>_ _. True)"
  unfolding wk_delete_def delete_def request_def
  by (auto intro!: does_sbind_lift does_seq does_lift does_ret does_raise does_trivial [OF does_exchange]
      simp: deletes_def url_validated split: http_result.splits)

lemma list_children_sorted:
  "yields (list_children xml http base path) (\<lambda>ps. distinct ps \<and> list_all (\<lambda>p. validate_relative_path (as_posix p) = Inr p) ps)"
proof -
  have child: "validate_relative_path (as_posix p) = Inr p" if "validate_relative_path raw = Inr p" for raw p
    using that by (auto simp: validate_relative_path_def as_posix_def Let_def split: if_splits)
  have "list_all (\<lambda>p. validate_relative_path (as_posix p) = Inr p) cs" if "child_of_href bp rel h = Inr cs" for bp rel h cs
    using that by (auto simp: child_of_href_def Let_def intro: child split: option.splits if_splits)
  then have "\<forall>cs \<in> set css. list_all (\<lambda>p. validate_relative_path (as_posix p) = Inr p) cs"
    if "rmap (child_of_href bp rel) hs = Inr css" for bp rel hs css
    using that by (induction hs arbitrary: css) auto
  then show ?thesis
    unfolding list_children_def Let_def
    by (auto intro!: yields_then yields_sbind_lift yields_ret yields_raise simp: list_all_iff split: option.splits)
qed

end
