(* ===== verification/Gc.thy ===== *)
theory Gc
  imports Manifests WorkerDav "HOL-Library.Sublist"
begin

text \<open>
  \<open>cardrag_worker/gc.py\<close>: fail-closed mark and sweep of the remote artifacts.

  The mark phase only reads: it follows the chain of retained generations from the channel pointer, verifies and
  marks what they reference, and lists everything else as a candidate.  A candidate is deleted once it has been
  unreferenced for the grace period, and each deletion is preceded by another read of the pointer.  The table
  \<open>gc_unreferenced\<close> of the worker's database (\<open>WorkerState\<close>) maps a remote path to the instants at which it was
  first and last seen unreferenced.  The listings \<open>asyncio.gather\<close> runs concurrently only read; they are run in
  order.  A mapping to sets is a list of pairs, a set a list.
\<close>

type_synonym binding = "string \<times> int \<times> string"
type_synonym cache_key = "string \<times> string"

record GCResult =
  gx_retained_generations :: "string list"
  gx_marked_objects :: int
  gx_candidates :: "string list"
  gx_eligible :: "string list"
  gx_deleted :: "string list"
  gx_dry_run :: bool

definition guard :: "bool \<Rightarrow> exn \<Rightarrow> ('s, unit) op" where
  "guard ok e = lift (raise_if (\<not> ok) e)"

definition mark_check :: "bool \<Rightarrow> string \<Rightarrow> unit result" where
  "mark_check ok message = raise_if (\<not> ok) (GCMarkVerificationError message)"

definition required_bytes :: "'w http \<Rightarrow> base_url \<Rightarrow> path \<Rightarrow> ('w, bytes) dav_op" where
  "required_bytes http base path =
     sbind (get_bytes http base path (Some control_object_max_bytes)) (\<lambda>body.
     case body of None \<Rightarrow> raise (GCError (''required control object is missing: '' @ as_posix path)) | Some b \<Rightarrow> ret b)"

section \<open>The chain of retained generations\<close>

definition check_vectors :: "string \<Rightarrow> GenerationManifest \<Rightarrow> GenerationReady \<Rightarrow> unit result" where
  "check_vectors g manifest ready =
     (if v5_schema (gm_schema_version manifest) then
        rbind (generation_vectors_path g) (\<lambda>vectors.
        mark_check (case gm_vector_sidecar manifest of None \<Rightarrow> False
            | Some s \<Rightarrow> gr_vector_sidecar_sha256 ready = Some (ar_sha256 (sc_artifact s))
                \<and> gr_vector_sidecar_size_bytes ready = Some (ar_size_bytes (sc_artifact s)) \<and> ar_path (sc_artifact s) = as_posix vectors)
          (''generation '' @ g @ '' vector control hashes disagree''))
      else mark_check (gm_vector_sidecar manifest = None \<and> gr_vector_sidecar_sha256 ready = None \<and> gr_vector_sidecar_size_bytes ready = None)
        (''legacy generation '' @ g @ '' declares a vector sidecar''))"

definition check_generation ::
  "pydantic \<Rightarrow> GenerationPointer \<Rightarrow> nat \<Rightarrow> string \<Rightarrow> GenerationManifest \<Rightarrow> bytes \<Rightarrow> GenerationReady \<Rightarrow> bytes \<Rightarrow> unit result"
where
  "check_generation px pointer index g manifest manifest_body ready ready_body =
     rbind (canonical_bytes px (MManifest manifest)) (\<lambda>mc.
     rbind (canonical_bytes px (MReady ready)) (\<lambda>rc.
     rbind (mark_check (mc = manifest_body \<and> rc = ready_body) (''generation '' @ g @ '' control JSON is not canonical'')) (\<lambda>_.
     rbind (mark_check (gm_generation_id manifest = g \<and> gr_generation_id ready = g \<and> sha256_bytes manifest_body = gr_manifest_sha256 ready
         \<and> ar_sha256 (gm_serving_database manifest) = gr_serving_database_sha256 ready
         \<and> ar_size_bytes (gm_serving_database manifest) = gr_serving_database_size_bytes ready)
       (''generation '' @ g @ '' control hashes disagree'')) (\<lambda>_.
     rbind (check_vectors g manifest ready) (\<lambda>_.
     mark_check (index = 0 \<longrightarrow> gt_manifest_sha256 pointer = gr_manifest_sha256 ready \<and> gt_ready_sha256 pointer = sha256_bytes ready_body)
       ''stable pointer does not bind current generation READY/manifest'')))))"

definition read_generation ::
  "pydantic \<Rightarrow> 'w http \<Rightarrow> base_url \<Rightarrow> GenerationPointer \<Rightarrow> nat \<Rightarrow> string \<Rightarrow> ('w, GenerationManifest) dav_op"
where
  "read_generation px http base pointer index g =
     sbind (lift (generation_manifest_path g)) (\<lambda>manifest_path.
     sbind (required_bytes http base manifest_path) (\<lambda>manifest_body.
     sbind (lift (generation_ready_path g)) (\<lambda>ready_path.
     sbind (required_bytes http base ready_path) (\<lambda>ready_body.
     case (px_manifest px manifest_body, px_ready px ready_body) of
       (Some manifest, Some ready) \<Rightarrow>
         sbind (lift (check_generation px pointer index g manifest manifest_body ready ready_body)) (\<lambda>_. ret manifest)
     | _ \<Rightarrow> raise (GCMarkVerificationError (''generation '' @ g @ '' control JSON is invalid''))))))"

fun follow_chain ::
  "pydantic \<Rightarrow> 'w http \<Rightarrow> base_url \<Rightarrow> GenerationPointer \<Rightarrow> nat \<Rightarrow> nat \<Rightarrow> string list \<Rightarrow> string option
   \<Rightarrow> ('w, GenerationManifest list) dav_op"
where
  "follow_chain px http base pointer index 0 seen g = ret []"
| "follow_chain px http base pointer index (Suc n) seen None = ret []"
| "follow_chain px http base pointer index (Suc n) seen (Some g) =
     sbind (guard (g \<notin> set seen) (GCMarkVerificationError (''generation predecessor chain contains a cycle at '' @ g))) (\<lambda>_.
     sbind (read_generation px http base pointer index g) (\<lambda>m.
     sbind (follow_chain px http base pointer (Suc index) n (g # seen) (gm_previous_generation_id m)) (\<lambda>ms.
     ret (m # ms))))"

definition generation_chain ::
  "pydantic \<Rightarrow> 'w http \<Rightarrow> base_url \<Rightarrow> nat \<Rightarrow> path \<Rightarrow> ('w, bytes \<times> GenerationManifest list) dav_op"
where
  "generation_chain px http base retain pointer_path =
     sbind (required_bytes http base pointer_path) (\<lambda>pointer_body.
     case px_pointer px pointer_body of
       None \<Rightarrow> raise (GCMarkVerificationError ''stable pointer is invalid'')
     | Some pointer \<Rightarrow>
         sbind (lift (canonical_bytes px (MPointer pointer))) (\<lambda>pc.
         sbind (guard (pc = pointer_body) (GCMarkVerificationError ''stable pointer is not canonical JSON'')) (\<lambda>_.
         sbind (follow_chain px http base pointer 0 retain [] (Some (gt_generation_id pointer))) (\<lambda>ms.
         ret (pointer_body, ms)))))"

section \<open>Listings\<close>

definition generations_root :: path where
  "generations_root = [''v1'', ''generations'']"

definition generation_names :: "string list" where
  "generation_names = [''index.sqlite3'', ''vectors.f32'', ''manifest.json'', ''READY.json'']"

definition generation_entry :: "xml \<Rightarrow> 'w http \<Rightarrow> base_url \<Rightarrow> path \<Rightarrow> ('w, string) dav_op" where
  "generation_entry xml http base path =
     sbind (guard (butlast path = generations_root) (GCError ''unexpected generations PROPFIND shape'')) (\<lambda>_.
     sbind (guard (is_ok (validate_identifier (last path) ''generation_id'')) (GCError ''unsafe generation ID in PROPFIND'')) (\<lambda>_.
     sbind (list_children xml http base path) (\<lambda>children.
     let names = remdups (map last (filter (\<lambda>c. butlast c = path) children)) in
     sbind (guard (length names = length children \<and> set names \<subseteq> set generation_names)
       (GCError (''unexpected object in generation '' @ last path))) (\<lambda>_.
     ret (last path)))))"

definition list_generation_ids :: "xml \<Rightarrow> 'w http \<Rightarrow> base_url \<Rightarrow> ('w, string list) dav_op" where
  "list_generation_ids xml http base =
     sbind (list_children xml http base generations_root) (\<lambda>children.
     sbind (smap (generation_entry xml http base) children) (\<lambda>ids. ret (sort ids)))"

definition hex_prefix :: "string \<Rightarrow> bool" where
  "hex_prefix s \<longleftrightarrow> length s = 2 \<and> list_all is_hex s"

definition cas_root :: path where
  "cas_root = [''v1'', ''objects'', ''sha256'']"

definition list_prefix :: "xml \<Rightarrow> 'w http \<Rightarrow> base_url \<Rightarrow> path \<Rightarrow> ('w, path list) dav_op" where
  "list_prefix xml http base pfx =
     sbind (list_children xml http base pfx) (\<lambda>children.
     sbind (guard (list_all (\<lambda>p. butlast p = pfx \<and> sha256_hex (last p) \<and> take 2 (last p) = last pfx) children)
       (GCError ''unexpected CAS object in PROPFIND'')) (\<lambda>_.
     ret children))"

definition list_cas_objects :: "xml \<Rightarrow> 'w http \<Rightarrow> base_url \<Rightarrow> ('w, path list) dav_op" where
  "list_cas_objects xml http base =
     sbind (list_children xml http base cas_root) (\<lambda>prefixes.
     sbind (guard (list_all (\<lambda>p. butlast p = cas_root \<and> hex_prefix (last p)) prefixes) (GCError ''unexpected CAS prefix in PROPFIND'')) (\<lambda>_.
     sbind (smap (list_prefix xml http base) prefixes) (\<lambda>groups.
     ret (sort_key as_posix (concat groups)))))"

definition optional_children :: "xml \<Rightarrow> 'w http \<Rightarrow> base_url \<Rightarrow> path \<Rightarrow> ('w, path list) dav_op" where
  "optional_children xml http base path =
     catch (list_children xml http base path)
       (\<lambda>e. case e of WebDAVHTTPError _ _ status \<Rightarrow> if status = 404 then ret [] else raise e | _ \<Rightarrow> raise e)"

definition incoming_root :: path where
  "incoming_root = [''v1'', ''.incoming'']"

definition is_incoming_temp_leaf :: "path \<Rightarrow> bool" where
  "is_incoming_temp_leaf p \<longleftrightarrow> length p = 4 \<and> take 2 p = incoming_root \<and> p ! 2 \<in> {''channels'', ''publish''}
     \<and> length (last p) = 36 \<and> list_all is_hex (take 32 (last p)) \<and> drop 32 (last p) = ''.tmp''"

definition incoming_leaf_exists_and_is_safe :: "xml \<Rightarrow> 'w http \<Rightarrow> base_url \<Rightarrow> path \<Rightarrow> ('w, bool) dav_op" where
  "incoming_leaf_exists_and_is_safe xml http base path =
     sbind (guard (is_incoming_temp_leaf path) (GCError ''unsafe incoming temporary deletion candidate'')) (\<lambda>_.
     sbind (catch (sbind (list_children xml http base path) (\<lambda>ds. ret (Some ds)))
       (\<lambda>e. case e of WebDAVHTTPError _ _ status \<Rightarrow> if status = 404 then ret None else raise e | _ \<Rightarrow> raise e)) (\<lambda>found.
     case found of None \<Rightarrow> ret False
     | Some ds \<Rightarrow> sbind (guard (ds = []) (GCError ''incoming temporary deletion candidate is not a leaf'')) (\<lambda>_. ret True)))"

definition list_namespace :: "xml \<Rightarrow> 'w http \<Rightarrow> base_url \<Rightarrow> path \<Rightarrow> ('w, path list) dav_op" where
  "list_namespace xml http base namespace_root =
     sbind (list_children xml http base namespace_root) (\<lambda>children.
     sbind (guard (distinct children) (GCError ''duplicate incoming temporary path in PROPFIND'')) (\<lambda>_.
     sbind (smap (\<lambda>path.
       sbind (guard (butlast path = namespace_root \<and> is_incoming_temp_leaf path) (GCError ''unexpected incoming temporary path'')) (\<lambda>_.
       sbind (incoming_leaf_exists_and_is_safe xml http base path) (\<lambda>there. ret (if there then [path] else [])))) children) (\<lambda>leaves.
     ret (concat leaves))))"

definition list_incoming_temp_leaves :: "xml \<Rightarrow> 'w http \<Rightarrow> base_url \<Rightarrow> ('w, path list) dav_op" where
  "list_incoming_temp_leaves xml http base =
     sbind (optional_children xml http base incoming_root) (\<lambda>namespace_children.
     sbind (guard (distinct namespace_children) (GCError ''duplicate incoming namespace path in PROPFIND'')) (\<lambda>_.
     let collected = map (\<lambda>n. incoming_root @ [n]) [''channels'', ''publish'']; allowed = collected @ [incoming_root @ [''objects'']] in
     sbind (guard (list_all (\<lambda>p. butlast p = incoming_root \<and> p \<in> set allowed) namespace_children) (GCError ''unexpected incoming namespace path'')) (\<lambda>_.
     sbind (smap (list_namespace xml http base) (filter (\<lambda>p. p \<in> set namespace_children) collected)) (\<lambda>leaves.
     ret (sort_key as_posix (concat leaves))))))"

section \<open>Content variants\<close>

definition binding_of :: "ArtifactRef \<Rightarrow> binding" where
  "binding_of a = (ar_sha256 a, ar_size_bytes a, ar_path a)"

definition content_index_root :: path where
  "content_index_root = [''v1'', ''ocr-cache'', ''content-index'']"

definition content_root :: path where
  "content_root = [''v1'', ''ocr-cache'', ''content'']"

definition content_index_path :: "pydantic \<Rightarrow> ContentOCRArtifactManifest \<Rightarrow> path result" where
  "content_index_path px m = rbind (variant_label px m) (\<lambda>label. Inr (content_index_root @ [cm_reuse_key m @ ''-'' @ label @ ''.json'']))"

definition expected_index :: "pydantic \<Rightarrow> ContentOCRArtifactManifest \<Rightarrow> bytes result" where
  "expected_index px m =
     rbind (content_manifest_sha256 px m) (\<lambda>digest.
     rbind (variant_label px m) (\<lambda>label.
     canonical_json_bytes (PDict
       [(PStr ''schema_version'', PStr ''cardrag.ocr-content-index.v1''), (PStr ''reuse_key'', PStr (cm_reuse_key m)),
        (PStr ''variant_id'', PStr (cm_variant_id m)), (PStr ''manifest_sha256'', PStr digest), (PStr ''variant_label'', PStr label)])))"

definition value_error :: "exn \<Rightarrow> bool" where
  "value_error e = (case e of ValueError _ \<Rightarrow> True | ValidationError _ \<Rightarrow> True | OCRVerificationError _ \<Rightarrow> True | _ \<Rightarrow> False)"

definition gc_error :: "exn \<Rightarrow> bool" where
  "gc_error e = (case e of GCError _ \<Rightarrow> True | GCMarkVerificationError _ \<Rightarrow> True | GCDeletionError _ \<Rightarrow> True | GCPartialFailure _ \<Rightarrow> True | _ \<Rightarrow> False)"

text \<open>The controls of one variant agree with each other, with its place, and with what generations retain.\<close>

definition check_variant ::
  "pydantic \<Rightarrow> (cache_key \<times> binding) list \<Rightarrow> string \<Rightarrow> path \<Rightarrow> ContentOCRArtifactManifest \<Rightarrow> bytes \<Rightarrow> ContentOCRReady \<Rightarrow> bytes
   \<Rightarrow> bytes \<Rightarrow> unit result"
where
  "check_variant px retained key root manifest manifest_body ready ready_body index_body =
     rbind (canonical_bytes px (MContent manifest)) (\<lambda>mc.
     rbind (canonical_bytes px (MContentReady ready)) (\<lambda>rc.
     rbind (expected_index px manifest) (\<lambda>ic.
     rbind (verifies px ready manifest) (\<lambda>verified.
     rbind (variant_root px manifest) (\<lambda>vroot.
     rbind (raise_if (mc \<noteq> manifest_body \<or> rc \<noteq> ready_body \<or> ic \<noteq> index_body \<or> \<not> verified \<or> cm_reuse_key manifest \<noteq> key \<or> vroot \<noteq> root)
       (ValueError ''content OCR variant controls disagree'')) (\<lambda>_.
     raise_if (case map_of retained (cm_reuse_key manifest, cm_variant_id manifest) of None \<Rightarrow> False
         | Some b \<Rightarrow> b \<noteq> binding_of (cm_output manifest)) (ValueError ''retained content OCR binding differs'')))))))"

definition verify_variant ::
  "pydantic \<Rightarrow> 'w http \<Rightarrow> base_url \<Rightarrow> (cache_key \<times> binding) list \<Rightarrow> path list \<Rightarrow> string \<Rightarrow> path
   \<Rightarrow> ('w, ContentOCRArtifactManifest \<times> path) dav_op"
where
  "verify_variant px http base retained index_set key root =
     sbind (required_bytes http base (root @ [''manifest.json''])) (\<lambda>manifest_body.
     sbind (required_bytes http base (root @ [''READY.json''])) (\<lambda>ready_body.
     case (px_content px manifest_body, px_content_ready px ready_body) of
       (Some manifest, Some ready) \<Rightarrow>
         sbind (lift (content_index_path px manifest)) (\<lambda>index_path.
         sbind (guard (index_path \<in> set index_set) (ValueError ''content OCR variant has no index'')) (\<lambda>_.
         sbind (required_bytes http base index_path) (\<lambda>index_body.
         sbind (lift (check_variant px retained key root manifest manifest_body ready ready_body index_body)) (\<lambda>_.
         sbind (required_bytes http base (posix_path (ar_path (cm_output manifest)))) (\<lambda>ocr_body.
         sbind (lift (verify_ocr_bytes ocr_body (oi_page_count (cm_source manifest)) (Some (ar_sha256 (cm_output manifest)))
           (Some (ar_size_bytes (cm_output manifest))) (Some (cm_ocr_chars manifest)) (Some (cm_page_output_sha256 manifest)) 20)) (\<lambda>_.
         ret (manifest, index_path)))))))
     | _ \<Rightarrow> raise (ValidationError ''content OCR controls'')))"

record variant_mark =
  vm_index :: path
  vm_variant :: cache_key
  vm_marks :: "string list"
  vm_legacy :: "(cache_key \<times> binding) list"

definition mark_variant ::
  "pydantic \<Rightarrow> xml \<Rightarrow> 'w http \<Rightarrow> base_url \<Rightarrow> (cache_key \<times> binding) list \<Rightarrow> path list \<Rightarrow> path \<Rightarrow> path \<Rightarrow> ('w, variant_mark) dav_op"
where
  "mark_variant px xml http base retained index_set reuse_root vroot =
     sbind (guard (butlast vroot = reuse_root @ [''variants'']) (GCMarkVerificationError ''unexpected content OCR variant path'')) (\<lambda>_.
     sbind (list_children xml http base vroot) (\<lambda>children.
     let manifest_path = vroot @ [''manifest.json'']; ready_path = vroot @ [''READY.json''] in
     sbind (guard (length children = 2 \<and> set children = {manifest_path, ready_path}) (GCMarkVerificationError ''incomplete content OCR variant'')) (\<lambda>_.
     sbind (catch (verify_variant px http base retained index_set (last reuse_root) vroot)
       (\<lambda>e. if value_error e \<or> gc_error e then raise (GCMarkVerificationError ''content OCR variant failed mark verification'') else raise e))
       (\<lambda>(manifest, index_path).
     ret \<lparr>vm_index = index_path, vm_variant = (cm_reuse_key manifest, cm_variant_id manifest),
          vm_marks = [as_posix manifest_path, as_posix ready_path, as_posix index_path, ar_path (cm_output manifest)],
          vm_legacy = (case cm_migrated_from manifest of None \<Rightarrow> []
            | Some s \<Rightarrow> [((ms_kind s, ms_reuse_key s), binding_of (cm_output manifest))])\<rparr>))))"

definition mark_content_reuse ::
  "pydantic \<Rightarrow> xml \<Rightarrow> 'w http \<Rightarrow> base_url \<Rightarrow> (cache_key \<times> binding) list \<Rightarrow> path list \<Rightarrow> path \<Rightarrow> path \<Rightarrow> ('w, variant_mark list) dav_op"
where
  "mark_content_reuse px xml http base retained index_set pfx reuse_root =
     sbind (guard (butlast reuse_root = pfx \<and> sha256_hex (last reuse_root) \<and> take 2 (last reuse_root) = last pfx)
       (GCMarkVerificationError ''unexpected content OCR reuse directory'')) (\<lambda>_.
     sbind (list_children xml http base reuse_root) (\<lambda>children.
     sbind (guard (set children = {reuse_root @ [''variants'']}) (GCMarkVerificationError ''unexpected content OCR reuse shape'')) (\<lambda>_.
     sbind (list_children xml http base (reuse_root @ [''variants''])) (\<lambda>variants.
     smap (mark_variant px xml http base retained index_set reuse_root) variants))))"

definition mark_content_prefix ::
  "pydantic \<Rightarrow> xml \<Rightarrow> 'w http \<Rightarrow> base_url \<Rightarrow> (cache_key \<times> binding) list \<Rightarrow> path list \<Rightarrow> path \<Rightarrow> ('w, variant_mark list) dav_op"
where
  "mark_content_prefix px xml http base retained index_set pfx =
     sbind (guard (butlast pfx = content_root \<and> hex_prefix (last pfx)) (GCMarkVerificationError ''unexpected content OCR prefix'')) (\<lambda>_.
     sbind (list_children xml http base pfx) (\<lambda>roots.
     sbind (smap (mark_content_reuse px xml http base retained index_set pfx) roots) (\<lambda>ms. ret (concat ms))))"

definition mark_content_variants ::
  "pydantic \<Rightarrow> xml \<Rightarrow> 'w http \<Rightarrow> base_url \<Rightarrow> (cache_key \<times> binding) list \<Rightarrow> ('w, string list \<times> (cache_key \<times> binding) list) dav_op"
where
  "mark_content_variants px xml http base retained =
     sbind (optional_children xml http base content_index_root) (\<lambda>index_set.
     sbind (guard (distinct index_set) (GCMarkVerificationError ''duplicate content OCR index entry'')) (\<lambda>_.
     sbind (guard (list_all (\<lambda>p. butlast p = content_index_root \<and> suffix ''.json'' (last p)) index_set)
       (GCMarkVerificationError ''unexpected content OCR index entry'')) (\<lambda>_.
     sbind (optional_children xml http base content_root) (\<lambda>prefixes.
     sbind (guard (distinct prefixes) (GCMarkVerificationError ''duplicate content OCR prefix'')) (\<lambda>_.
     sbind (smap (mark_content_prefix px xml http base retained index_set) prefixes) (\<lambda>mss.
     let ms = concat mss in
     sbind (guard (set (map vm_index ms) = set index_set \<and> set (map fst retained) \<subseteq> set (map vm_variant ms))
       (GCMarkVerificationError ''content OCR index or retained generation variant is missing'')) (\<lambda>_.
     ret (concat (map vm_marks ms), concat (map vm_legacy ms)))))))))"

section \<open>Native and adopted caches\<close>

datatype cache_mark = InactiveCache path | MarkedCache cache_key path "string list"

definition parse_cache :: "pydantic \<Rightarrow> string \<Rightarrow> bytes \<Rightarrow> (string \<times> ArtifactRef \<times> model) option" where
  "parse_cache px kind body =
     (if kind = ''native'' then map_option (\<lambda>m. (om_reuse_key m, om_output m, MNative m)) (px_native px body)
      else map_option (\<lambda>m. (am_reuse_key m, am_output m, MAdopted m)) (px_adopted px body))"

text \<open>A defective cache blocks the sweep when a retained generation refers to it, else it is a candidate.\<close>

definition defective :: "binding list \<Rightarrow> string \<Rightarrow> path \<Rightarrow> ('w, cache_mark) dav_op" where
  "defective retained message root =
     (if retained \<noteq> [] then raise (GCMarkVerificationError message) else ret (InactiveCache root))"

definition judge_cache ::
  "pydantic \<Rightarrow> binding list \<Rightarrow> binding list \<Rightarrow> string \<Rightarrow> path \<Rightarrow> bytes \<Rightarrow> bytes \<Rightarrow> ('w, cache_mark) dav_op"
where
  "judge_cache px retained required kind root manifest_body ready_body =
     (let key = last root; name = kind @ '' OCR cache '' @ key in
     case (parse_cache px kind manifest_body, px_ocr_ready px ready_body) of
       (Some (manifest_key, output, m), Some ready) \<Rightarrow>
         sbind (lift (canonical_bytes px m)) (\<lambda>mc.
         sbind (lift (canonical_bytes px (MOcrReady ready))) (\<lambda>rc.
         if mc \<noteq> manifest_body \<or> rc \<noteq> ready_body then defective retained (''non-canonical retained '' @ name) root
         else if manifest_key \<noteq> key \<or> or_reuse_key ready \<noteq> key \<or> or_manifest_sha256 ready \<noteq> sha256_bytes manifest_body
           \<or> or_ocr_sha256 ready \<noteq> ar_sha256 output then defective retained (''unbound retained '' @ name) root
         else if retained = [] then ret (InactiveCache root)
         else
           sbind (guard (binding_of output \<in> set retained)
             (GCMarkVerificationError (''retained generation/cache binding differs for '' @ kind @ ''/'' @ key))) (\<lambda>_.
           sbind (guard (required \<noteq> [] \<longrightarrow> binding_of output \<in> set required) (GCMarkVerificationError ''migrated legacy OCR binding differs'')) (\<lambda>_.
           ret (MarkedCache (kind, key) root [as_posix (root @ [''manifest.json'']), as_posix (root @ [''READY.json'']), ar_path output])))))
     | _ \<Rightarrow> defective retained (''invalid retained '' @ name) root)"

definition refs_of :: "(cache_key \<times> binding) list \<Rightarrow> cache_key \<Rightarrow> binding list" where
  "refs_of refs k = map snd (filter (\<lambda>r. fst r = k) refs)"

definition mark_reuse_root ::
  "pydantic \<Rightarrow> xml \<Rightarrow> 'w http \<Rightarrow> base_url \<Rightarrow> (cache_key \<times> binding) list \<Rightarrow> (cache_key \<times> binding) list \<Rightarrow> string \<Rightarrow> path \<Rightarrow> path
   \<Rightarrow> ('w, cache_mark) dav_op"
where
  "mark_reuse_root px xml http base refs required kind pfx reuse_root =
     (let key = last reuse_root in
     sbind (guard (butlast reuse_root = pfx \<and> sha256_hex key \<and> take 2 key = last pfx) (GCMarkVerificationError ''unexpected OCR cache reuse directory'')) (\<lambda>_.
     sbind (lift (ocr_manifest_path key kind)) (\<lambda>manifest_path.
     sbind (lift (ocr_ready_path key kind)) (\<lambda>ready_path.
     let retained = refs_of refs (kind, key) in
     sbind (list_children xml http base reuse_root) (\<lambda>children.
     let names = remdups (map last (filter (\<lambda>c. butlast c = reuse_root) children)) in
     sbind (guard (length names = length children \<and> set names \<subseteq> {last manifest_path, last ready_path})
       (GCMarkVerificationError (''unexpected object in '' @ kind @ '' OCR cache '' @ key))) (\<lambda>_.
     sbind (get_bytes http base manifest_path (Some control_object_max_bytes)) (\<lambda>manifest_body.
     sbind (get_bytes http base ready_path (Some control_object_max_bytes)) (\<lambda>ready_body.
     case ready_body of None \<Rightarrow> ret (InactiveCache reuse_root)
     | Some rb \<Rightarrow>
       (case manifest_body of None \<Rightarrow> defective retained (''retained '' @ kind @ '' OCR cache '' @ key @ '' has no manifest'') reuse_root
        | Some mb \<Rightarrow> judge_cache px retained (refs_of required (kind, key)) kind reuse_root mb rb)))))))))"

definition mark_cache_prefix ::
  "pydantic \<Rightarrow> xml \<Rightarrow> 'w http \<Rightarrow> base_url \<Rightarrow> (cache_key \<times> binding) list \<Rightarrow> (cache_key \<times> binding) list \<Rightarrow> string \<Rightarrow> path
   \<Rightarrow> ('w, cache_mark list) dav_op"
where
  "mark_cache_prefix px xml http base refs required kind pfx =
     sbind (guard (butlast pfx = [''v1'', ''ocr-cache'', kind] \<and> hex_prefix (last pfx)) (GCMarkVerificationError ''unexpected OCR cache prefix'')) (\<lambda>_.
     sbind (list_children xml http base pfx) (\<lambda>roots.
     smap (mark_reuse_root px xml http base refs required kind pfx) roots))"

definition mark_kind ::
  "pydantic \<Rightarrow> xml \<Rightarrow> 'w http \<Rightarrow> base_url \<Rightarrow> (cache_key \<times> binding) list \<Rightarrow> (cache_key \<times> binding) list \<Rightarrow> string \<Rightarrow> ('w, cache_mark list) dav_op"
where
  "mark_kind px xml http base refs required kind =
     sbind (optional_children xml http base [''v1'', ''ocr-cache'', kind]) (\<lambda>prefixes.
     sbind (smap (mark_cache_prefix px xml http base refs required kind) prefixes) (\<lambda>mss. ret (concat mss)))"

definition found_key :: "cache_mark \<Rightarrow> cache_key list" where
  "found_key c = (case c of MarkedCache k _ _ \<Rightarrow> [k] | InactiveCache _ \<Rightarrow> [])"

definition cache_marks :: "cache_mark \<Rightarrow> string list" where
  "cache_marks c = (case c of MarkedCache _ _ ms \<Rightarrow> ms | InactiveCache _ \<Rightarrow> [])"

definition inactive_root :: "cache_mark \<Rightarrow> path list" where
  "inactive_root c = (case c of MarkedCache _ _ _ \<Rightarrow> [] | InactiveCache r \<Rightarrow> [r])"

definition mark_ocr_caches ::
  "pydantic \<Rightarrow> xml \<Rightarrow> 'w http \<Rightarrow> base_url \<Rightarrow> (cache_key \<times> binding) list \<Rightarrow> (cache_key \<times> binding) list \<Rightarrow> ('w, cache_mark list) dav_op"
where
  "mark_ocr_caches px xml http base refs required =
     sbind (smap (mark_kind px xml http base refs required) [''native'', ''adopted'']) (\<lambda>mss.
     let marks = concat mss; found = concat (map found_key marks) in
     sbind (guard (\<not> list_ex (\<lambda>r. fst r \<in> set (map fst refs) \<and> fst r \<notin> set found) required)
       (GCMarkVerificationError ''migrated legacy OCR provenance is missing'')) (\<lambda>_.
     ret marks))"

section \<open>The mark phase\<close>

record gc_refs =
  rf_marked :: "string list"
  rf_cache :: "(cache_key \<times> binding) list"
  rf_content :: "(cache_key, binding) dict"

definition note_document :: "gc_refs \<Rightarrow> GenerationDocument \<Rightarrow> gc_refs result" where
  "note_document rf d =
     (let rf1 = rf\<lparr>rf_marked := rf_marked rf @ [ar_path (gd_pdf d)]\<rparr> in
      case gd_ocr d of None \<Rightarrow> Inr rf1
      | Some ocr \<Rightarrow>
        let rf2 = rf1\<lparr>rf_marked := rf_marked rf1 @ [ar_path ocr]\<rparr> in
        (case (gd_ocr_cache_kind d, gd_ocr_reuse_key d) of
           (Some kind, Some key) \<Rightarrow>
             if kind = ''content'' then
               (case gd_ocr_variant_id d of
                  None \<Rightarrow> Inl (GCMarkVerificationError ''retained content OCR variant ID is missing'')
                | Some v \<Rightarrow>
                    rbind (mark_check (case map_of (rf_content rf2) (key, v) of None \<Rightarrow> True | Some b \<Rightarrow> b = binding_of ocr)
                      ''retained content OCR variant has conflicting bindings'') (\<lambda>_.
                    Inr (rf2\<lparr>rf_content := AList.update (key, v) (binding_of ocr) (rf_content rf2)\<rparr>)))
             else Inr (rf2\<lparr>rf_cache := rf_cache rf2 @ [((kind, key), binding_of ocr)]\<rparr>)
         | _ \<Rightarrow> Inr rf2))"

definition note_manifest :: "gc_refs \<Rightarrow> GenerationManifest \<Rightarrow> gc_refs result" where
  "note_manifest rf m =
     rbind (expected_generation_files (gm_generation_id m) False) (\<lambda>files.
     rfold note_document
       (rf\<lparr>rf_marked := rf_marked rf @ files
          @ (case gm_vector_sidecar m of None \<Rightarrow> [] | Some s \<Rightarrow> [ar_path (sc_artifact s)])\<rparr>) (gm_documents m))"

record gc_plan =
  pl_pointer_body :: bytes
  pl_manifests :: "GenerationManifest list"
  pl_marked :: "string list"
  pl_candidates :: "string list"

definition gc_mark :: "pydantic \<Rightarrow> xml \<Rightarrow> 'w http \<Rightarrow> base_url \<Rightarrow> nat \<Rightarrow> path \<Rightarrow> ('w, gc_plan) dav_op" where
  "gc_mark px xml http base retain pointer_path =
     sbind (generation_chain px http base retain pointer_path) (\<lambda>(pointer_body, manifests).
     sbind (lift (rfold note_manifest \<lparr>rf_marked = [as_posix pointer_path], rf_cache = [], rf_content = []\<rparr> manifests)) (\<lambda>rf.
     sbind (mark_content_variants px xml http base (rf_content rf)) (\<lambda>(content_marks, migrated_legacy).
     sbind (mark_ocr_caches px xml http base (rf_cache rf @ migrated_legacy) migrated_legacy) (\<lambda>caches.
     sbind (list_generation_ids xml http base) (\<lambda>all_generations.
     sbind (list_cas_objects xml http base) (\<lambda>all_objects.
     sbind (list_incoming_temp_leaves xml http base) (\<lambda>leaves.
     let marked = rf_marked rf @ content_marks @ concat (map cache_marks caches) in
     ret \<lparr>pl_pointer_body = pointer_body, pl_manifests = manifests, pl_marked = marked,
          pl_candidates = sorted_set (
            map (\<lambda>g. ''v1/generations/'' @ g) (filter (\<lambda>g. g \<notin> set (map gm_generation_id manifests)) all_generations)
            @ filter (\<lambda>t. t \<notin> set marked) (map as_posix all_objects)
            @ map as_posix (concat (map inactive_root caches)) @ map as_posix leaves)\<rparr>)))))))"

section \<open>The table of unreferenced paths\<close>

type_synonym gc_rows = "(string, int \<times> int) dict"

definition note_unreferenced :: "int \<Rightarrow> string \<Rightarrow> gc_rows \<Rightarrow> gc_rows" where
  "note_unreferenced now path rows =
     AList.update path (case map_of rows path of Some (first, _) \<Rightarrow> (first, now) | None \<Rightarrow> (now, now)) rows"

definition first_seen_at :: "gc_rows \<Rightarrow> string \<Rightarrow> int" where
  "first_seen_at rows path = fst (the (map_of rows path))"

definition clear_unreferenced_except :: "string list \<Rightarrow> gc_rows \<Rightarrow> gc_rows" where
  "clear_unreferenced_except paths rows = filter (\<lambda>r. fst r \<in> set paths) rows"

definition clear_unreferenced :: "string \<Rightarrow> gc_rows \<Rightarrow> gc_rows" where
  "clear_unreferenced path rows = filter (\<lambda>r. fst r \<noteq> path) rows"

section \<open>The sweep\<close>

type_synonym ('w, 'a) gc_op = "('w dav \<times> gc_rows, 'a) op"

definition on_dav :: "('w, 'a) dav_op \<Rightarrow> ('w, 'a) gc_op" where
  "on_dav m s = (case m (fst s) of (r, d) \<Rightarrow> (r, (d, snd s)))"

definition on_rows :: "(gc_rows \<Rightarrow> gc_rows) \<Rightarrow> ('w, unit) gc_op" where
  "on_rows f s = (Inr (), (fst s, f (snd s)))"

definition ask_rows :: "(gc_rows \<Rightarrow> 'a) \<Rightarrow> ('w, 'a) gc_op" where
  "ask_rows f s = (Inr (f (snd s)), s)"

definition deletion_rank :: "string \<Rightarrow> int result" where
  "deletion_rank path =
     (if is_incoming_temp_leaf (posix_path path) then Inr 0
      else if prefix ''v1/generations/'' path then Inr 1
      else if prefix ''v1/ocr-cache/'' path then Inr 2
      else if prefix ''v1/objects/'' path then Inr 3
      else Inl (GCError (''unexpected deletion candidate '' @ path)))"

text \<open>One round of the loop: fence, then delete; the value says whether the path was deleted.\<close>

definition delete_candidate :: "xml \<Rightarrow> 'w http \<Rightarrow> base_url \<Rightarrow> string \<Rightarrow> ('w, bool) gc_op" where
  "delete_candidate xml http base path =
     sbind (if is_incoming_temp_leaf (posix_path path)
            then on_dav (incoming_leaf_exists_and_is_safe xml http base (posix_path path)) else ret True) (\<lambda>there.
     if \<not> there then sbind (on_rows (clear_unreferenced path)) (\<lambda>_. ret False)
     else sbind (on_dav (wk_delete http base (posix_path path) True)) (\<lambda>_.
          sbind (on_rows (clear_unreferenced path)) (\<lambda>_. ret True)))"

definition sweep_one ::
  "xml \<Rightarrow> 'w http \<Rightarrow> base_url \<Rightarrow> path \<Rightarrow> bytes \<Rightarrow> string \<Rightarrow> ('w, bool) gc_op"
where
  "sweep_one xml http base pointer_path pointer_body path =
     sbind (on_dav (required_bytes http base pointer_path)) (\<lambda>body.
     sbind (guard (body = pointer_body) (GCDeletionError ''stable pointer changed during GC'')) (\<lambda>_.
     delete_candidate xml http base path))"

fun sweep ::
  "xml \<Rightarrow> 'w http \<Rightarrow> base_url \<Rightarrow> path \<Rightarrow> bytes \<Rightarrow> string list \<Rightarrow> string list \<Rightarrow> 'w dav \<times> gc_rows
   \<Rightarrow> (string list \<times> exn option) \<times> 'w dav \<times> gc_rows"
where
  "sweep xml http base pointer_path pointer_body [] deleted s = ((deleted, None), s)"
| "sweep xml http base pointer_path pointer_body (p # ps) deleted s =
     (case sweep_one xml http base pointer_path pointer_body p s of
        (Inl e, s') \<Rightarrow> ((deleted, Some e), s')
      | (Inr there, s') \<Rightarrow> sweep xml http base pointer_path pointer_body ps (if there then deleted @ [p] else deleted) s')"

definition apply_sweep ::
  "xml \<Rightarrow> 'w http \<Rightarrow> base_url \<Rightarrow> path \<Rightarrow> bytes \<Rightarrow> string list \<Rightarrow> ('w, string list) gc_op"
where
  "apply_sweep xml http base pointer_path pointer_body eligible =
     sbind (on_dav (required_bytes http base pointer_path)) (\<lambda>body.
     sbind (guard (body = pointer_body) (GCDeletionError ''stable pointer changed during GC; deleted 0 objects'')) (\<lambda>_ s.
     case sweep xml http base pointer_path pointer_body eligible [] s of
       ((deleted, None), s') \<Rightarrow> (Inr deleted, s')
     | ((deleted, Some e), s') \<Rightarrow>
         (Inl (if deleted \<noteq> [] then GCPartialFailure (int (length deleted))
               else if gc_error e then e
               else GCDeletionError (''first remote DELETE failed for '' @ hd eligible)), s')))"

definition micros_per_day :: int where
  "micros_per_day = 86400 * 1000000"

definition candidate_pointer :: path where
  "candidate_pointer = [''v1'', ''channels'', ''candidate-v1.0.11.json'']"

definition stable_pointer :: path where
  "stable_pointer = [''v1'', ''channels'', ''stable.json'']"

text \<open>What follows the mark phase: the table is brought up to date, then the aged candidates are swept.\<close>

definition finish_gc ::
  "xml \<Rightarrow> 'w http \<Rightarrow> base_url \<Rightarrow> bool \<Rightarrow> int \<Rightarrow> int \<Rightarrow> path \<Rightarrow> gc_plan \<Rightarrow> ('w, GCResult) gc_op"
where
  "finish_gc xml http base apply threshold observed_at pointer_path plan =
     sbind (on_rows (fold (note_unreferenced observed_at) (pl_candidates plan))) (\<lambda>_.
     sbind (ask_rows (\<lambda>rows. filter (\<lambda>p. first_seen_at rows p \<le> threshold) (pl_candidates plan))) (\<lambda>aged.
     sbind (on_rows (clear_unreferenced_except (pl_candidates plan))) (\<lambda>_.
     sbind (lift (rmap (\<lambda>p. rbind (deletion_rank p) (\<lambda>k. Inr (k, p))) aged)) (\<lambda>ranked.
     let eligible = map snd (sort ranked) in
     sbind (if apply \<and> eligible \<noteq> [] then apply_sweep xml http base pointer_path (pl_pointer_body plan) eligible else ret []) (\<lambda>deleted.
     ret \<lparr>gx_retained_generations = map gm_generation_id (pl_manifests plan),
          gx_marked_objects = int (length (filter (prefix ''v1/objects/'') (remdups (pl_marked plan)))),
          gx_candidates = pl_candidates plan, gx_eligible = eligible, gx_deleted = deleted, gx_dry_run = \<not> apply\<rparr>)))))"

definition collect_garbage ::
  "pydantic \<Rightarrow> xml \<Rightarrow> 'w http \<Rightarrow> base_url \<Rightarrow> bool \<Rightarrow> int \<Rightarrow> int \<Rightarrow> int \<Rightarrow> path \<Rightarrow> ('w, GCResult) gc_op"
where
  "collect_garbage px xml http base apply retain_generations grace_days observed_at pointer_path =
     sbind (guard (1 \<le> retain_generations \<and> 1 \<le> grace_days) (ValueError ''retention and grace must be positive'')) (\<lambda>_.
     sbind (guard (pointer_path \<in> {stable_pointer, candidate_pointer})
       (GCError ''remote garbage collection is restricted to the stable or candidate-v1.0.11 channel'')) (\<lambda>_.
     sbind (on_dav (gc_mark px xml http base (nat retain_generations) pointer_path))
       (finish_gc xml http base apply (observed_at - grace_days * micros_per_day) observed_at pointer_path)))"

section \<open>Marking only reads\<close>

lemma does_guard [does_intros]: "does A (guard ok e) (\<lambda>_ _. True)"
  unfolding guard_def by (rule does_lift) simp

lemma does_catch_any: "does A m (\<lambda>_ _. True) \<Longrightarrow> (\<And>e. does A (h e) (\<lambda>_ _. True)) \<Longrightarrow> does A (catch m h) (\<lambda>_ _. True)"
  by (rule does_catch [where R' = "\<lambda>_ _. True"]) simp_all

lemmas read_rules = does_seq does_ret does_raise does_lift does_guard does_smap does_catch_any does_get_bytes does_list_children

lemma reads_required_bytes: "does reads (required_bytes http base path) (\<lambda>_ _. True)"
  unfolding required_bytes_def by (auto intro!: read_rules split: option.splits)

lemma reads_generation: "does reads (read_generation px http base pointer index g) (\<lambda>_ _. True)"
  unfolding read_generation_def by (auto intro!: read_rules reads_required_bytes split: option.splits)

lemma reads_follow_chain: "does reads (follow_chain px http base pointer index n seen g) (\<lambda>_ _. True)"
  by (induction px http base pointer index n seen g rule: follow_chain.induct) (auto intro!: read_rules reads_generation)

lemma reads_chain: "does reads (generation_chain px http base retain pointer_path) (\<lambda>_ _. True)"
  unfolding generation_chain_def by (auto intro!: read_rules reads_required_bytes reads_follow_chain split: option.splits)

lemma reads_optional_children: "does reads (optional_children xml http base path) (\<lambda>_ _. True)"
  unfolding optional_children_def by (auto intro!: read_rules split: exn.splits)

lemma reads_leaf: "does reads (incoming_leaf_exists_and_is_safe xml http base path) (\<lambda>_ _. True)"
  unfolding incoming_leaf_exists_and_is_safe_def by (auto intro!: read_rules split: exn.splits option.splits)

lemma reads_listings:
  "does reads (list_generation_ids xml http base) (\<lambda>_ _. True)"
  "does reads (list_cas_objects xml http base) (\<lambda>_ _. True)"
  "does reads (list_incoming_temp_leaves xml http base) (\<lambda>_ _. True)"
  unfolding list_generation_ids_def generation_entry_def list_cas_objects_def list_prefix_def list_incoming_temp_leaves_def list_namespace_def Let_def
  by (intro read_rules reads_optional_children reads_leaf; simp)+

lemma reads_variant: "does reads (mark_variant px xml http base retained index_set reuse_root vroot) (\<lambda>_ _. True)"
  unfolding mark_variant_def verify_variant_def Let_def
  by (auto intro!: read_rules reads_required_bytes split: option.splits prod.splits)

lemma reads_content: "does reads (mark_content_variants px xml http base retained) (\<lambda>_ _. True)"
  unfolding mark_content_variants_def mark_content_prefix_def mark_content_reuse_def Let_def
  by (intro read_rules reads_optional_children reads_variant) simp_all

lemma reads_judge: "does reads (judge_cache px retained required kind root mb rb) (\<lambda>_ _. True)"
  unfolding judge_cache_def defective_def Let_def by (auto intro!: read_rules split: option.splits prod.splits)

lemma reads_reuse_root: "does reads (mark_reuse_root px xml http base refs required kind pfx root) (\<lambda>_ _. True)"
  unfolding mark_reuse_root_def defective_def Let_def by (auto intro!: read_rules reads_judge split: option.splits)

lemma reads_caches: "does reads (mark_ocr_caches px xml http base refs required) (\<lambda>_ _. True)"
  unfolding mark_ocr_caches_def mark_kind_def mark_cache_prefix_def Let_def
  by (intro read_rules reads_optional_children reads_reuse_root) simp_all

lemma reads_mark: "does reads (gc_mark px xml http base retain pointer_path) (\<lambda>_ _. True)"
  unfolding gc_mark_def Let_def
  by (auto intro!: read_rules reads_chain reads_content reads_caches reads_listings)

section \<open>The shape of what is listed\<close>

lemma yields_guard: "(ok \<Longrightarrow> yields (f ()) Q) \<Longrightarrow> yields (sbind (guard ok e) f) Q"
  unfolding guard_def by (rule yields_sbind_lift) auto

lemma yields_case_option:
  "(x = None \<Longrightarrow> yields m Q) \<Longrightarrow> (\<And>v. x = Some v \<Longrightarrow> yields (f v) Q) \<Longrightarrow> yields (case x of None \<Rightarrow> m | Some v \<Rightarrow> f v) Q"
  by (cases x) simp_all

lemma yields_sbind_prod:
  "yields m (\<lambda>(a, b). P a b) \<Longrightarrow> (\<And>a b. P a b \<Longrightarrow> yields (f a b) Q) \<Longrightarrow> yields (sbind m (\<lambda>(a, b). f a b)) Q"
  by (erule yields_sbind) auto

text \<open>A path as \<open>list_children\<close> returns it: its text parses back to it.\<close>

definition clean :: "path \<Rightarrow> bool" where
  "clean p \<longleftrightarrow> posix_path (as_posix p) = p \<and> p \<noteq> []"

lemma clean_validated: "validate_relative_path (as_posix p) = Inr p \<Longrightarrow> clean p"
  by (auto simp: clean_def validate_relative_path_def posix_path_def Let_def split: if_splits)

lemma children_clean: "yields (list_children xml http base path) (\<lambda>ps. distinct ps \<and> list_all clean ps)"
  by (rule yields_weaken [OF list_children_sorted]) (auto simp: list_all_iff intro: clean_validated)

lemma optional_clean: "yields (optional_children xml http base path) (\<lambda>ps. distinct ps \<and> list_all clean ps)"
  unfolding optional_children_def by (rule yields_catch [OF children_clean]) (auto intro: yields_ret yields_raise split: exn.splits)

lemma path_snoc: "butlast p = r \<Longrightarrow> p \<noteq> [] \<Longrightarrow> p = r @ [last p]"
  by (metis append_butlast_last_id)

definition object_shape :: "path \<Rightarrow> bool" where
  "object_shape p \<longleftrightarrow> (\<exists>x h. p = [''v1'', ''objects'', ''sha256'', x, h])"

lemma list_all2_right: "list_all2 (\<lambda>_. P) xs ys \<Longrightarrow> list_all P ys"
  by (induction rule: list_all2_induct) simp_all

lemma yields_concat:
  assumes "\<And>x. x \<in> set xs \<Longrightarrow> yields (f x) (list_all Q)" and "\<And>ys. list_all Q (concat ys) \<Longrightarrow> yields (g ys) R"
  shows "yields (sbind (smap f xs) g) R"
proof (rule yields_sbind [OF yields_smap])
  show "yields (f x) (list_all Q)" if "x \<in> set xs" for x by (rule assms(1) [OF that])
  show "yields (g ys) R" if "list_all2 (\<lambda>_. list_all Q) xs ys" for ys
    using that by (intro assms(2)) (induction rule: list_all2_induct, simp_all)
qed

lemma cas_objects_shape: "yields (list_cas_objects xml http base) (list_all (\<lambda>p. clean p \<and> object_shape p))"
  unfolding list_cas_objects_def
proof (rule yields_sbind [OF children_clean], rule yields_guard, rule yields_concat)
  fix prefixes pfx assume pre: "distinct prefixes \<and> list_all clean prefixes"
    "list_all (\<lambda>p. butlast p = cas_root \<and> hex_prefix (last p)) prefixes" "pfx \<in> set prefixes"
  then have "pfx = cas_root @ [last pfx]" by (auto simp: list_all_iff clean_def intro: path_snoc)
  then obtain x where x: "pfx = cas_root @ [x]" by blast
  show "yields (list_prefix xml http base pfx) (list_all (\<lambda>p. clean p \<and> object_shape p))"
    unfolding list_prefix_def
  proof (rule yields_sbind [OF children_clean], rule yields_guard, rule yields_ret)
    fix ps assume ps: "distinct ps \<and> list_all clean ps"
      "list_all (\<lambda>p. butlast p = pfx \<and> sha256_hex (last p) \<and> take 2 (last p) = last pfx) ps"
    have "p = cas_root @ [x, last p]" if "p \<in> set ps" for p
      using path_snoc [of p pfx] ps that x by (auto simp: list_all_iff clean_def)
    then show "list_all (\<lambda>p. clean p \<and> object_shape p) ps"
      using ps by (auto simp: list_all_iff object_shape_def cas_root_def)
  qed
next
  fix groups assume "list_all (\<lambda>p. clean p \<and> object_shape p) (concat groups)"
  then show "yields (ret (sort_key as_posix (concat groups))) (list_all (\<lambda>p. clean p \<and> object_shape p))"
    by (intro yields_ret) (simp add: list_all_iff)
qed

lemma identifier_plain: "is_ok (validate_identifier g label) \<Longrightarrow> CHR ''/'' \<notin> set g"
  by (auto simp: is_ok_def validate_identifier_def safe_id_def safe_tail_def is_alnum_def is_lower_def is_upper_def is_digit_def
      list_all_iff less_eq_char_def split: if_splits list.splits)

lemma generation_ids_plain: "yields (list_generation_ids xml http base) (list_all (\<lambda>g. CHR ''/'' \<notin> set g))"
  unfolding list_generation_ids_def
proof (rule yields_then, rule yields_sbind [OF yields_smap [where Q = "\<lambda>_ g. CHR ''/'' \<notin> set g"]])
  show "yields (generation_entry xml http base p) (\<lambda>g. CHR ''/'' \<notin> set g)" for p
    unfolding generation_entry_def Let_def
    by (rule yields_guard, rule yields_guard, rule yields_then, rule yields_guard, rule yields_ret) (rule identifier_plain)
  show "yields (ret (sort ids)) (list_all (\<lambda>g. CHR ''/'' \<notin> set g))" if "list_all2 (\<lambda>_ g. CHR ''/'' \<notin> set g) cs ids" for cs :: "path list" and ids
    using that by (intro yields_ret) (auto simp: list_all_iff list_all2_conv_all_nth in_set_conv_nth)
qed

lemma leaves_shape: "yields (list_incoming_temp_leaves xml http base) (list_all (\<lambda>p. clean p \<and> is_incoming_temp_leaf p))"
  unfolding list_incoming_temp_leaves_def Let_def
proof (rule yields_then, rule yields_guard, rule yields_guard, rule yields_concat)
  fix root show "yields (list_namespace xml http base root) (list_all (\<lambda>p. clean p \<and> is_incoming_temp_leaf p))"
    unfolding list_namespace_def
  proof (rule yields_sbind [OF children_clean], rule yields_guard, rule yields_concat)
    fix children p assume "distinct children \<and> list_all clean children" "p \<in> set children"
    then show "yields (sbind (guard (butlast p = root \<and> is_incoming_temp_leaf p) (GCError ''unexpected incoming temporary path''))
        (\<lambda>_. sbind (incoming_leaf_exists_and_is_safe xml http base p) (\<lambda>there. ret (if there then [p] else []))))
        (list_all (\<lambda>p. clean p \<and> is_incoming_temp_leaf p))"
      by (intro yields_guard yields_then yields_ret) (auto simp: list_all_iff)
  qed (rule yields_ret)
qed (auto intro!: yields_ret simp: list_all_iff)

section \<open>The shape of what is marked\<close>

text \<open>
  What pydantic documents: a model it returns from \<open>model_validate_json\<close> has passed its validators.
\<close>

definition pydantic_sound :: "pydantic \<Rightarrow> bool" where
  "pydantic_sound px \<longleftrightarrow>
     (\<forall>b m. px_manifest px b = Some m \<longrightarrow> generation_manifest px m = Inr m)
     \<and> (\<forall>b m. px_native px b = Some m \<longrightarrow> ocr_artifact_manifest px m = Inr m)
     \<and> (\<forall>b m. px_adopted px b = Some m \<longrightarrow> adopted_ocr_artifact_manifest m = Inr m)
     \<and> (\<forall>b m. px_content px b = Some m \<longrightarrow> content_ocr_artifact_manifest px m = Inr m)"

lemma cas_bound_shape: "cas_bound a \<Longrightarrow> object_shape (posix_path (ar_path a))"
  by (auto simp: cas_bound_def object_path_def object_shape_def dest!: sym [of "_ # _"])

lemma cas_bound_text: "cas_bound a \<Longrightarrow> as_posix (posix_path (ar_path a)) = ar_path a"
  by (simp add: posix_path_def as_posix_def)

lemma output_cas_bound:
  assumes "pydantic_sound px"
  shows "px_native px b = Some nm \<Longrightarrow> cas_bound (om_output nm)" "px_adopted px b = Some am \<Longrightarrow> cas_bound (am_output am)"
    "px_content px b = Some cm \<Longrightarrow> cas_bound (cm_output cm)"
proof -
  have out: "check_ocr_output n pn a hs i = Inr () \<Longrightarrow> cas_bound a" for n pn a hs i by (auto simp: check_ocr_output_def)
  show "px_native px b = Some nm \<Longrightarrow> cas_bound (om_output nm)"
    using assms by (force simp: pydantic_sound_def ocr_artifact_manifest_def dest: out)
  show "px_content px b = Some cm \<Longrightarrow> cas_bound (cm_output cm)"
    using assms by (force simp: pydantic_sound_def content_ocr_artifact_manifest_def dest: out)
  assume "px_adopted px b = Some am"
  with assms have "adopted_ocr_artifact_manifest am = Inr am" by (auto simp: pydantic_sound_def)
  then show "cas_bound (am_output am)" 
    by (cases "receipt_identity (am_receipt am)") (auto simp: adopted_ocr_artifact_manifest_def dest: out)
qed

lemma parse_cache_bound: "pydantic_sound px \<Longrightarrow> parse_cache px kind b = Some (k, output, m) \<Longrightarrow> cas_bound output"
  by (auto simp: parse_cache_def output_cas_bound split: if_splits)

definition root_of :: "cache_mark \<Rightarrow> path" where
  "root_of c = (case c of InactiveCache r \<Rightarrow> r | MarkedCache _ r _ \<Rightarrow> r)"

definition cache_shape :: "string \<Rightarrow> cache_mark \<Rightarrow> bool" where
  "cache_shape kind c \<longleftrightarrow> clean (root_of c) \<and> (\<exists>x k. root_of c = [''v1'', ''ocr-cache'', kind, x, k])
     \<and> list_all (\<lambda>t. object_shape (posix_path t) \<or> (\<exists>n. n \<in> {''manifest.json'', ''READY.json''} \<and> t = as_posix (root_of c @ [n]))) (cache_marks c)"

lemma yields_defective: "Q (InactiveCache root) \<Longrightarrow> yields (defective retained msg root) Q"
  by (simp add: defective_def yields_raise yields_ret)

lemma judge_shape:
  assumes "pydantic_sound px" "clean root" "root = [''v1'', ''ocr-cache'', kind, x, k]"
  shows "yields (judge_cache px retained required kind root mb rb) (\<lambda>c. root_of c = root \<and> cache_shape kind c)"
proof -
  have inactive: "root_of (InactiveCache root) = root \<and> cache_shape kind (InactiveCache root)"
    using assms(2,3) by (simp add: root_of_def cache_shape_def cache_marks_def)
  have marked: "root_of (MarkedCache k' root ms) = root \<and> cache_shape kind (MarkedCache k' root ms)"
    if "cas_bound a" "ms = [as_posix (root @ [''manifest.json'']), as_posix (root @ [''READY.json'']), ar_path a]" for k' ms a
    using assms(2,3) that cas_bound_shape [OF that(1)] by (auto simp: root_of_def cache_shape_def cache_marks_def)
  show ?thesis
    unfolding judge_cache_def Let_def
    by (auto split: option.splits prod.splits
        intro!: yields_defective yields_sbind_lift yields_guard yields_ret inactive marked dest: parse_cache_bound [OF assms(1)])
qed

lemma reuse_root_shape:
  assumes "pydantic_sound px" "clean root" "pfx = [''v1'', ''ocr-cache'', kind, x]"
  shows "yields (mark_reuse_root px xml http base refs required kind pfx root) (\<lambda>c. root_of c = root \<and> cache_shape kind c)"
  unfolding mark_reuse_root_def Let_def
proof (rule yields_guard)
  assume "butlast root = pfx \<and> sha256_hex (last root) \<and> take 2 (last root) = last pfx"
  then obtain k where root: "root = [''v1'', ''ocr-cache'', kind, x, k]"
    using path_snoc [of root pfx] assms(2,3) by (auto simp: clean_def)
  then have inactive: "root_of (InactiveCache root) = root \<and> cache_shape kind (InactiveCache root)"
    using assms(2) by (simp add: root_of_def cache_shape_def cache_marks_def)
  show "yields (sbind (lift (ocr_manifest_path (last root) kind)) (\<lambda>manifest_path.
      sbind (lift (ocr_ready_path (last root) kind)) (\<lambda>ready_path.
      sbind (list_children xml http base root) (\<lambda>children.
      sbind (guard (length (remdups (map last (filter (\<lambda>c. butlast c = root) children))) = length children
          \<and> set (remdups (map last (filter (\<lambda>c. butlast c = root) children))) \<subseteq> {last manifest_path, last ready_path})
        (GCMarkVerificationError (''unexpected object in '' @ kind @ '' OCR cache '' @ last root))) (\<lambda>_.
      sbind (get_bytes http base manifest_path (Some control_object_max_bytes)) (\<lambda>manifest_body.
      sbind (get_bytes http base ready_path (Some control_object_max_bytes)) (\<lambda>ready_body.
      case ready_body of None \<Rightarrow> ret (InactiveCache root)
      | Some rb \<Rightarrow> (case manifest_body of
            None \<Rightarrow> defective (refs_of refs (kind, last root)) (''retained '' @ kind @ '' OCR cache '' @ last root @ '' has no manifest'') root
          | Some mb \<Rightarrow> judge_cache px (refs_of refs (kind, last root)) (refs_of required (kind, last root)) kind root mb rb)))))))) (\<lambda>c. root_of c = root \<and> cache_shape kind c)"
    by (intro yields_then yields_case_option yields_ret yields_defective inactive judge_shape [OF assms(1,2) root])
qed

lemma cache_prefix_shape:
  assumes "pydantic_sound px" "clean pfx"
  shows "yields (mark_cache_prefix px xml http base refs required kind pfx)
    (\<lambda>cs. distinct (map root_of cs) \<and> list_all (\<lambda>c. butlast (root_of c) = pfx \<and> cache_shape kind c) cs)"
  unfolding mark_cache_prefix_def
proof (rule yields_guard, rule yields_sbind [OF children_clean])
  fix roots assume pfx: "butlast pfx = [''v1'', ''ocr-cache'', kind] \<and> hex_prefix (last pfx)" and roots: "distinct roots \<and> list_all clean roots"
  then obtain x where x: "pfx = [''v1'', ''ocr-cache'', kind, x]" using path_snoc [of pfx] assms(2) by (auto simp: clean_def)
  have "yields (smap (mark_reuse_root px xml http base refs required kind pfx) roots)
      (list_all2 (\<lambda>r c. (root_of c = r \<and> cache_shape kind c) \<and> butlast r = pfx) roots)"
  proof (rule yields_smap)
    fix r assume "r \<in> set roots"
    then have "clean r" using roots by (simp add: list_all_iff)
    have "yields (mark_reuse_root px xml http base refs required kind pfx r) (\<lambda>c. butlast r = pfx)"
      unfolding mark_reuse_root_def Let_def by (rule yields_guard) (simp add: yields_def)
    with reuse_root_shape [OF assms(1) \<open>clean r\<close> x, of xml http base refs required]
    show "yields (mark_reuse_root px xml http base refs required kind pfx r) (\<lambda>c. (root_of c = r \<and> cache_shape kind c) \<and> butlast r = pfx)"
      by (auto simp: yields_def)
  qed
  then show "yields (smap (mark_reuse_root px xml http base refs required kind pfx) roots)
      (\<lambda>cs. distinct (map root_of cs) \<and> list_all (\<lambda>c. butlast (root_of c) = pfx \<and> cache_shape kind c) cs)"
  proof (rule yields_weaken)
    fix cs assume cs: "list_all2 (\<lambda>r c. (root_of c = r \<and> cache_shape kind c) \<and> butlast r = pfx) roots cs"
    then have "map root_of cs = roots" by (induction rule: list_all2_induct) auto
    moreover from cs have "list_all (\<lambda>c. butlast (root_of c) = pfx \<and> cache_shape kind c) cs" by (induction rule: list_all2_induct) auto
    ultimately show "distinct (map root_of cs) \<and> list_all (\<lambda>c. butlast (root_of c) = pfx \<and> cache_shape kind c) cs" using roots by simp
  qed
qed

lemma distinct_groups:
  assumes "distinct xs" "list_all2 (\<lambda>x ys. distinct (map f ys) \<and> list_all (\<lambda>y. g (f y) = x \<and> P y) ys) xs yss"
  shows "distinct (map f (concat yss)) \<and> list_all P (concat yss) \<and> (\<forall>y \<in> set (concat yss). g (f y) \<in> set xs)"
  using assms
proof (induction xs arbitrary: yss)
  case (Cons x xs)
  from Cons.prems(2) obtain ys zss where yss: "yss = ys # zss" and ys: "distinct (map f ys)" "list_all (\<lambda>y. g (f y) = x \<and> P y) ys"
    and zss: "list_all2 (\<lambda>x ys. distinct (map f ys) \<and> list_all (\<lambda>y. g (f y) = x \<and> P y) ys) xs zss"
    by (auto simp: list_all2_Cons1)
  have IH: "distinct (map f (concat zss)) \<and> list_all P (concat zss) \<and> (\<forall>y \<in> set (concat zss). g (f y) \<in> set xs)"
    using Cons.IH [OF _ zss] Cons.prems(1) by simp
  have "f y \<noteq> f z" if "y \<in> set ys" "z \<in> set (concat zss)" for y z
    using that ys(2) IH Cons.prems(1) by (auto simp: list_all_iff)
  then have "set (map f ys) \<inter> set (map f (concat zss)) = {}" by auto
  with IH ys show ?case unfolding yss by (auto simp: list_all_iff)
qed simp

lemma kind_shape:
  assumes "pydantic_sound px"
  shows "yields (mark_kind px xml http base refs required kind) (\<lambda>cs. distinct (map root_of cs) \<and> list_all (cache_shape kind) cs)"
  unfolding mark_kind_def
proof (rule yields_sbind [OF optional_clean], rule yields_sbind [OF yields_smap])
  fix prefixes pfx assume "distinct prefixes \<and> list_all clean prefixes" "pfx \<in> set prefixes"
  then have "clean pfx" by (simp add: list_all_iff)
  then show "yields (mark_cache_prefix px xml http base refs required kind pfx)
      (\<lambda>cs. distinct (map root_of cs) \<and> list_all (\<lambda>c. butlast (root_of c) = pfx \<and> cache_shape kind c) cs)"
    by (rule cache_prefix_shape [OF assms])
next
  fix prefixes css assume pre: "distinct prefixes \<and> list_all clean prefixes"
    and "list_all2 (\<lambda>pfx cs. distinct (map root_of cs) \<and> list_all (\<lambda>c. butlast (root_of c) = pfx \<and> cache_shape kind c) cs) prefixes css"
  from distinct_groups [OF conjunct1 [OF pre] this(2)]
  show "yields (ret (concat css)) (\<lambda>cs. distinct (map root_of cs) \<and> list_all (cache_shape kind) cs)" by (intro yields_ret) auto
qed

text \<open>Every cache directory is either marked or inactive, never both.\<close>

lemma caches_shape:
  assumes "pydantic_sound px"
  shows "yields (mark_ocr_caches px xml http base refs required)
    (\<lambda>cs. distinct (map root_of cs) \<and> list_all (\<lambda>c. cache_shape ''native'' c \<or> cache_shape ''adopted'' c) cs)"
  unfolding mark_ocr_caches_def Let_def
proof (rule yields_sbind [OF yields_smap])
  show "yields (mark_kind px xml http base refs required kind) (\<lambda>cs. distinct (map root_of cs) \<and> list_all (cache_shape kind) cs)" for kind
    by (rule kind_shape [OF assms])
  fix css assume "list_all2 (\<lambda>kind cs. distinct (map root_of cs) \<and> list_all (cache_shape kind) cs) [''native'', ''adopted''] css"
  then obtain as bs where css: "css = [as, bs]" and a: "distinct (map root_of as)" "list_all (cache_shape ''native'') as"
    and b: "distinct (map root_of bs)" "list_all (cache_shape ''adopted'') bs" by (auto simp: list_all2_Cons1)
  have "root_of x \<noteq> root_of y" if "x \<in> set as" "y \<in> set bs" for x y
    using that a(2) b(2) by (fastforce simp: list_all_iff cache_shape_def)
  then have "set (map root_of as) \<inter> set (map root_of bs) = {}" by auto
  then show "yields (sbind (guard (\<not> list_ex (\<lambda>r. fst r \<in> set (map fst refs) \<and> fst r \<notin> set (concat (map found_key (concat css)))) required)
      (GCMarkVerificationError ''migrated legacy OCR provenance is missing'')) (\<lambda>_. ret (concat css)))
      (\<lambda>cs. distinct (map root_of cs) \<and> list_all (\<lambda>c. cache_shape ''native'' c \<or> cache_shape ''adopted'' c) cs)"
    using a b by (intro yields_guard yields_ret) (auto simp: css list_all_iff)
qed

lemma clean_segments: "clean p \<Longrightarrow> s \<in> set p \<Longrightarrow> CHR ''/'' \<notin> set s"
  unfolding clean_def posix_path_def by (metis split_on_no_sep)

lemma posix_path_segments: "p \<noteq> [] \<Longrightarrow> \<forall>s \<in> set p. CHR ''/'' \<notin> set s \<Longrightarrow> posix_path (as_posix p) = p"
  by (simp add: posix_path_def as_posix_def split_join_on)

lemma clean_snoc: "clean p \<Longrightarrow> CHR ''/'' \<notin> set n \<Longrightarrow> posix_path (as_posix (p @ [n])) = p @ [n]"
  by (rule posix_path_segments) (auto dest: clean_segments)

definition content_mark :: "string \<Rightarrow> bool" where
  "content_mark t \<longleftrightarrow> object_shape (posix_path t) \<or> take 3 (posix_path t) \<in> {content_root, content_index_root}"

lemma variant_verified:
  assumes "pydantic_sound px"
  shows "yields (verify_variant px http base retained index_set key root) (\<lambda>(m, i). i \<in> set index_set \<and> cas_bound (cm_output m))"
  unfolding verify_variant_def
  by (auto split: option.splits intro!: yields_then yields_raise yields_guard yields_ret dest: output_cas_bound(3) [OF assms])

lemma variant_shape:
  assumes "pydantic_sound px" "clean vroot" "take 3 reuse_root = content_root" "length reuse_root = 5"
    and index: "list_all (\<lambda>p. clean p \<and> butlast p = content_index_root) index_set"
  shows "yields (mark_variant px xml http base retained index_set reuse_root vroot) (\<lambda>v. list_all content_mark (vm_marks v))"
  unfolding mark_variant_def Let_def
proof (rule yields_guard, rule yields_then, rule yields_guard, rule yields_sbind)
  show "yields (catch (verify_variant px http base retained index_set (last reuse_root) vroot)
      (\<lambda>e. if value_error e \<or> gc_error e then raise (GCMarkVerificationError ''content OCR variant failed mark verification'') else raise e))
      (\<lambda>(m, i). i \<in> set index_set \<and> cas_bound (cm_output m))"
    by (rule yields_catch [OF variant_verified [OF assms(1)]]) (simp add: yields_raise)
  fix x assume shape: "butlast vroot = reuse_root @ [''variants'']" and x: "case x of (m, i) \<Rightarrow> i \<in> set index_set \<and> cas_bound (cm_output m)"
  obtain m i where xmi: "x = (m, i)" by fastforce
  obtain n where vroot: "vroot = reuse_root @ [''variants'', n]"
    using path_snoc [OF shape] assms(2) by (auto simp: clean_def)
  have "take 3 vroot = content_root" "3 \<le> length vroot" using assms(3,4) by (simp_all add: vroot)
  moreover have i: "posix_path (as_posix i) = i" "i \<noteq> []" "butlast i = content_index_root"
    using x index xmi by (auto simp: list_all_iff clean_def)
  moreover obtain l where "i = content_index_root @ [l]" using path_snoc [OF i(3,2)] by blast
  then have "take 3 i = content_index_root" by (simp add: content_index_root_def)
  ultimately show "yields ((\<lambda>(manifest, index_path). ret \<lparr>vm_index = index_path, vm_variant = (cm_reuse_key manifest, cm_variant_id manifest),
          vm_marks = [as_posix (vroot @ [''manifest.json'']), as_posix (vroot @ [''READY.json'']), as_posix index_path, ar_path (cm_output manifest)],
          vm_legacy = (case cm_migrated_from manifest of None \<Rightarrow> []
            | Some s \<Rightarrow> [((ms_kind s, ms_reuse_key s), binding_of (cm_output manifest))])\<rparr>) x) (\<lambda>v. list_all content_mark (vm_marks v))"
    using x assms(2) by (auto simp: xmi content_mark_def clean_snoc cas_bound_shape content_root_def intro!: yields_ret)
qed

lemma content_prefix_shape:
  assumes "pydantic_sound px" "clean pfx" "list_all (\<lambda>p. clean p \<and> butlast p = content_index_root) index_set"
  shows "yields (mark_content_prefix px xml http base retained index_set pfx) (list_all (\<lambda>v. list_all content_mark (vm_marks v)))"
  unfolding mark_content_prefix_def
proof (rule yields_guard, rule yields_sbind [OF children_clean], rule yields_concat)
  fix roots root assume pfx: "butlast pfx = content_root \<and> hex_prefix (last pfx)" and "distinct roots \<and> list_all clean roots" "root \<in> set roots"
  then have root: "clean root" by (simp add: list_all_iff)
  obtain x where x: "pfx = content_root @ [x]" using path_snoc [of pfx content_root] pfx assms(2) by (auto simp: clean_def)
  show "yields (mark_content_reuse px xml http base retained index_set pfx root) (list_all (\<lambda>v. list_all content_mark (vm_marks v)))"
    unfolding mark_content_reuse_def
  proof (rule yields_guard, rule yields_then, rule yields_guard, rule yields_sbind [OF children_clean])
    fix vs assume r: "butlast root = pfx \<and> sha256_hex (last root) \<and> take 2 (last root) = last pfx" and vs: "distinct vs \<and> list_all clean vs"
    obtain k where "root = pfx @ [k]" using path_snoc [of root pfx] r root by (auto simp: clean_def)
    then have "take 3 root = content_root" "length root = 5" by (simp_all add: x content_root_def)
    then have "yields (smap (mark_variant px xml http base retained index_set root) vs) (list_all2 (\<lambda>_ v. list_all content_mark (vm_marks v)) vs)"
      using vs by (intro yields_smap variant_shape [OF assms(1) _ _ _ assms(3)]) (auto simp: list_all_iff)
    then show "yields (smap (mark_variant px xml http base retained index_set root) vs) (list_all (\<lambda>v. list_all content_mark (vm_marks v)))"
      by (rule yields_weaken) (rule list_all2_right)
  qed
qed (rule yields_ret)

lemma content_shape:
  assumes "pydantic_sound px"
  shows "yields (mark_content_variants px xml http base retained) (\<lambda>(marks, _). list_all content_mark marks)"
  unfolding mark_content_variants_def Let_def
proof (rule yields_sbind [OF optional_clean], rule yields_guard, rule yields_guard, rule yields_sbind [OF optional_clean], rule yields_guard, rule yields_concat)
  fix index_set prefixes pfx
  assume "distinct index_set \<and> list_all clean index_set" "list_all (\<lambda>p. butlast p = content_index_root \<and> suffix ''.json'' (last p)) index_set"
    "distinct prefixes \<and> list_all clean prefixes" "pfx \<in> set prefixes"
  then show "yields (mark_content_prefix px xml http base retained index_set pfx) (list_all (\<lambda>v. list_all content_mark (vm_marks v)))"
    by (intro content_prefix_shape [OF assms]) (auto simp: list_all_iff)
qed (auto intro!: yields_guard yields_ret simp: list_all_iff)

text \<open>The files of a retained generation, as the manifest names them.\<close>

definition member_paths :: "GenerationManifest \<Rightarrow> string list" where
  "member_paths m =
     (case expected_generation_files (gm_generation_id m) False of Inr files \<Rightarrow> files | Inl _ \<Rightarrow> [])
     @ (case gm_vector_sidecar m of None \<Rightarrow> [] | Some s \<Rightarrow> [ar_path (sc_artifact s)])
     @ concat (map (\<lambda>d. ar_path (gd_pdf d) # (case gd_ocr d of None \<Rightarrow> [] | Some a \<Rightarrow> [ar_path a])) (gm_documents m))"

lemma note_document_marks:
  assumes "note_document rf d = Inr rf'"
  shows "rf_marked rf' = rf_marked rf @ ar_path (gd_pdf d) # (case gd_ocr d of None \<Rightarrow> [] | Some a \<Rightarrow> [ar_path a])"
  using assms by (auto simp: note_document_def Let_def split: option.splits if_splits)

lemma note_documents_marks:
  "rfold note_document rf ds = Inr rf' \<Longrightarrow>
   rf_marked rf' = rf_marked rf @ concat (map (\<lambda>d. ar_path (gd_pdf d) # (case gd_ocr d of None \<Rightarrow> [] | Some a \<Rightarrow> [ar_path a])) ds)"
  by (induction ds arbitrary: rf) (auto dest!: note_document_marks)

lemma note_manifests_marks:
  "rfold note_manifest rf ms = Inr rf' \<Longrightarrow> rf_marked rf' = rf_marked rf @ concat (map member_paths ms)
   \<and> list_all (\<lambda>m. is_ok (expected_generation_files (gm_generation_id m) False)) ms"
proof (induction ms arbitrary: rf)
  case (Cons m ms)
  then obtain rf1 where rf1: "note_manifest rf m = Inr rf1" "rfold note_manifest rf1 ms = Inr rf'" by auto
  then have "rf_marked rf1 = rf_marked rf @ member_paths m" "is_ok (expected_generation_files (gm_generation_id m) False)"
    by (auto simp: note_manifest_def member_paths_def is_ok_def dest!: note_documents_marks)
  with Cons.IH [OF rf1(2)] show ?case by simp
qed simp

section \<open>No candidate covers anything marked\<close>

lemma follow_chain_parsed: "yields (follow_chain px http base pointer index n seen g) (list_all (\<lambda>m. \<exists>b. px_manifest px b = Some m))"
proof (induction px http base pointer index n seen g rule: follow_chain.induct)
  case (3 px http base pointer index n seen g)
  have read: "yields (read_generation px http base pointer index g) (\<lambda>m. \<exists>b. px_manifest px b = Some m)"
    unfolding read_generation_def by (auto split: option.splits intro!: yields_then yields_raise yields_ret)
  show ?case unfolding follow_chain.simps
    by (rule yields_guard, rule yields_sbind [OF read], rule yields_sbind [OF 3], rule yields_ret) simp
qed (simp_all add: yields_ret)

lemma chain_parsed: "yields (generation_chain px http base retain pointer_path) (\<lambda>(_, ms). list_all (\<lambda>m. \<exists>b. px_manifest px b = Some m) ms)"
  unfolding generation_chain_def
  by (auto split: option.splits intro!: yields_then yields_raise yields_guard yields_sbind [OF follow_chain_parsed] yields_ret)

lemma sidecar_path:
  assumes "generation_manifest px m = Inr m'" "gm_vector_sidecar m = Some s"
  shows "posix_path (ar_path (sc_artifact s)) = [''v1'', ''generations'', gm_generation_id m, ''vectors.f32'']"
proof -
  have "v5_schema (gm_schema_version m) \<Longrightarrow> validate_v5_contract px m = Inr ()" "v5_schema (gm_schema_version m)"
    using generation_manifestD(3) [OF assms(1)] assms(2) by (auto simp: bundle_is_self_consistent_def has_v5_fields_def split: if_splits)
  then have "generation_vectors_path (gm_generation_id m) = Inr (posix_path (ar_path (sc_artifact s)))"
    using assms(2) by (auto simp: validate_v5_contract_def check_sidecar_def split: option.splits)
  then show ?thesis by (auto simp: generation_vectors_path_def generation_root_path_def validate_identifier_def split: if_splits)
qed

lemma generation_files:
  assumes "is_ok (expected_generation_files g False)"
  obtains files where "expected_generation_files g False = Inr files"
    "\<And>t. t \<in> set files \<Longrightarrow> \<exists>n. posix_path t = [''v1'', ''generations'', g, n]"
proof -
  have ok: "is_ok (validate_identifier g ''generation_id'')"
  proof (cases "validate_identifier g ''generation_id''")
    case (Inl e)
    with assms show ?thesis by (simp add: is_ok_def expected_generation_files_def generation_database_path_def generation_root_path_def)
  next
    case (Inr v)
    then show ?thesis by (simp only: is_ok_def sum.case)
  qed
  have "posix_path (as_posix [''v1'', ''generations'', g, n]) = [''v1'', ''generations'', g, n]" if "CHR ''/'' \<notin> set n" for n
    using identifier_plain [OF ok] that by (intro posix_path_segments) auto
  with ok show thesis
    by (intro that [of "map (\<lambda>n. as_posix [''v1'', ''generations'', g, n]) [''index.sqlite3'', ''manifest.json'', ''READY.json'']"])
      (auto simp: expected_generation_files_def generation_database_path_def generation_manifest_path_def generation_ready_path_def
        generation_vectors_path_def generation_root_path_def is_ok_def validate_identifier_def split: sum.splits if_splits)
qed

lemma member_shape:
  assumes "generation_manifest px m = Inr m'" "is_ok (expected_generation_files (gm_generation_id m) False)" "t \<in> set (member_paths m)"
  shows "object_shape (posix_path t) \<or> (\<exists>n. posix_path t = [''v1'', ''generations'', gm_generation_id m, n])"
proof -
  obtain files where files: "expected_generation_files (gm_generation_id m) False = Inr files"
    "\<And>t. t \<in> set files \<Longrightarrow> \<exists>n. posix_path t = [''v1'', ''generations'', gm_generation_id m, n]" by (rule generation_files [OF assms(2)]) blast
  from assms(3) consider "t \<in> set files" | s where "gm_vector_sidecar m = Some s" "t = ar_path (sc_artifact s)"
    | d where "d \<in> set (gm_documents m)" "t = ar_path (gd_pdf d)" | d a where "d \<in> set (gm_documents m)" "gd_ocr d = Some a" "t = ar_path a"
    by (auto simp: member_paths_def files(1) split: option.splits dest!: sym [of "Some _"])
  then show ?thesis
  proof cases
    case 1 then show ?thesis using files(2) by blast
  next
    case 2 then show ?thesis using sidecar_path [OF assms(1)] by blast
  next
    case 3 then show ?thesis using document_cas_bound(1) [OF manifest_document(2) [OF assms(1)]] cas_bound_shape by blast
  next
    case 4 then show ?thesis using document_cas_bound(2) [OF manifest_document(2) [OF assms(1)]] cas_bound_shape by blast
  qed
qed

text \<open>The kinds of marked paths and of candidates.\<close>

definition marked_kind :: "string list \<Rightarrow> path set \<Rightarrow> path \<Rightarrow> bool" where
  "marked_kind ids roots p \<longleftrightarrow> take 2 p = [''v1'', ''channels''] \<or> object_shape p
     \<or> (\<exists>g n. p = [''v1'', ''generations'', g, n] \<and> g \<in> set ids) \<or> take 3 p \<in> {content_root, content_index_root}
     \<or> (\<exists>r x k kind n. r \<in> roots \<and> r = [''v1'', ''ocr-cache'', kind, x, k] \<and> p = r @ [n])"

definition candidate_kind :: "string list \<Rightarrow> string list \<Rightarrow> path set \<Rightarrow> string \<Rightarrow> bool" where
  "candidate_kind ids marked roots c \<longleftrightarrow>
     (\<exists>g. posix_path c = [''v1'', ''generations'', g] \<and> g \<notin> set ids) \<or> object_shape (posix_path c) \<and> c \<notin> set marked
     \<or> (\<exists>kind x k. posix_path c = [''v1'', ''ocr-cache'', kind, x, k] \<and> kind \<in> {''native'', ''adopted''} \<and> posix_path c \<notin> roots)
     \<or> is_incoming_temp_leaf (posix_path c)"

lemma candidate_covers_nothing:
  assumes "candidate_kind ids marked roots c" "t \<in> set marked" "marked_kind ids roots (posix_path t)"
  shows "\<not> prefix (posix_path c) (posix_path t)"
proof
  assume pre: "prefix (posix_path c) (posix_path t)"
  from assms(1) consider g where "posix_path c = [''v1'', ''generations'', g]" "g \<notin> set ids" | "object_shape (posix_path c)" "c \<notin> set marked"
    | kind x k where "posix_path c = [''v1'', ''ocr-cache'', kind, x, k]" "kind \<in> {''native'', ''adopted''}" "posix_path c \<notin> roots"
    | "is_incoming_temp_leaf (posix_path c)" unfolding candidate_kind_def by blast
  then show False
  proof cases
    case 1 with pre assms(3) show ?thesis by (auto simp: marked_kind_def object_shape_def content_root_def content_index_root_def prefix_def)
  next
    case 2
    then have "posix_path t = posix_path c"
      using pre assms(3) by (auto simp: marked_kind_def object_shape_def content_root_def content_index_root_def prefix_def)
    then have "t = c" unfolding posix_path_def by (metis join_split_on)
    with 2 assms(2) show ?thesis by simp
  next
    case 3 with pre assms(3) show ?thesis by (auto simp: marked_kind_def object_shape_def content_root_def content_index_root_def prefix_def)
  next
    case 4
    then obtain a b where "posix_path c = [''v1'', ''.incoming'', a, b]"
      by (cases "posix_path c" rule: list.exhaust) (auto simp: is_incoming_temp_leaf_def incoming_root_def length_Suc_conv numeral_eq_Suc)
    with pre assms(3) show ?thesis by (auto simp: marked_kind_def object_shape_def content_root_def content_index_root_def prefix_def)
  qed
qed

definition plan_safe :: "path \<Rightarrow> gc_plan \<Rightarrow> bool" where
  "plan_safe pointer_path plan \<longleftrightarrow> as_posix pointer_path \<in> set (pl_marked plan)
     \<and> (\<forall>m \<in> set (pl_manifests plan). set (member_paths m) \<subseteq> set (pl_marked plan))
     \<and> (\<forall>c \<in> set (pl_candidates plan). \<forall>t \<in> set (pl_marked plan). \<not> prefix (posix_path c) (posix_path t))"

definition marked_roots :: "cache_mark list \<Rightarrow> path set" where
  "marked_roots cs = root_of ` {c \<in> set cs. found_key c \<noteq> []}"

lemma refs_marked_kind:
  assumes "pydantic_sound px" "pointer_path \<in> {stable_pointer, candidate_pointer}" "list_all (\<lambda>m. \<exists>b. px_manifest px b = Some m) ms"
    and "rfold note_manifest \<lparr>rf_marked = [as_posix pointer_path], rf_cache = [], rf_content = []\<rparr> ms = Inr rf" "t \<in> set (rf_marked rf)"
  shows "marked_kind (map gm_generation_id ms) roots (posix_path t)"
proof -
  note marks = note_manifests_marks [OF assms(4)]
  have "posix_path (as_posix stable_pointer) = stable_pointer" "posix_path (as_posix candidate_pointer) = candidate_pointer"
    by code_simp+
  then have "take 2 (posix_path (as_posix pointer_path)) = [''v1'', ''channels'']"
    using assms(2) by (auto simp: stable_pointer_def candidate_pointer_def)
  moreover have "marked_kind (map gm_generation_id ms) roots (posix_path t)" if m: "m \<in> set ms" "t \<in> set (member_paths m)" for m
  proof -
    have "generation_manifest px m = Inr m" using assms(1,3) m(1) by (auto simp: list_all_iff pydantic_sound_def)
    from member_shape [OF this _ m(2)] marks m(1) show ?thesis by (auto simp: marked_kind_def list_all_iff)
  qed
  ultimately show ?thesis using assms(5) marks by (auto simp: marked_kind_def)
qed

lemma caches_marked_kind:
  assumes "distinct (map root_of cs)" "list_all (\<lambda>c. cache_shape ''native'' c \<or> cache_shape ''adopted'' c) cs"
    and "c \<in> set cs" "t \<in> set (cache_marks c)"
  shows "marked_kind ids (marked_roots cs) (posix_path t)"
proof -
  from assms(2,3) obtain kind x k where shape: "cache_shape kind c" and root: "root_of c = [''v1'', ''ocr-cache'', kind, x, k]"
    by (auto simp: list_all_iff cache_shape_def)
  have "found_key c \<noteq> []" using assms(4) by (auto simp: cache_marks_def found_key_def split: cache_mark.splits)
  then have "root_of c \<in> marked_roots cs" using assms(3) by (auto simp: marked_roots_def)
  moreover have "object_shape (posix_path t) \<or> (\<exists>n. posix_path t = root_of c @ [n])"
  proof -
    have cl: "clean (root_of c)" using shape by (simp add: cache_shape_def)
    from shape assms(4) consider "object_shape (posix_path t)" | n where "n \<in> {''manifest.json'', ''READY.json''}" "t = as_posix (root_of c @ [n])"
      unfolding cache_shape_def list_all_iff by blast
    then show ?thesis using clean_snoc [OF cl] by cases auto
  qed
  ultimately show ?thesis using root by (auto simp: marked_kind_def)
qed

lemma inactive_candidate:
  assumes "distinct (map root_of cs)" "list_all (\<lambda>c. cache_shape ''native'' c \<or> cache_shape ''adopted'' c) cs"
    and "c \<in> set cs" "r \<in> set (inactive_root c)"
  shows "candidate_kind ids marked (marked_roots cs) (as_posix r)"
proof -
  have r: "root_of c = r" "found_key c = []"
    using assms(4) by (auto simp: inactive_root_def root_of_def found_key_def split: cache_mark.splits)
  from assms(2,3) r obtain kind x k where "clean r" "kind \<in> {''native'', ''adopted''}" "r = [''v1'', ''ocr-cache'', kind, x, k]"
    by (fastforce simp: list_all_iff cache_shape_def)
  moreover have "r \<notin> marked_roots cs"
    using assms(1,3) r by (auto simp: marked_roots_def distinct_map inj_on_def)
  ultimately show ?thesis by (auto simp: candidate_kind_def clean_def)
qed

lemma mark_safe:
  assumes "pydantic_sound px" "pointer_path \<in> {stable_pointer, candidate_pointer}"
  shows "yields (gc_mark px xml http base retain pointer_path) (plan_safe pointer_path)"
  unfolding gc_mark_def Let_def
proof (rule yields_sbind_prod [OF chain_parsed], rule yields_sbind_lift, rule yields_sbind_prod [OF content_shape [OF assms(1)]],
    rule yields_sbind [OF caches_shape [OF assms(1)]], rule yields_sbind [OF generation_ids_plain], rule yields_sbind [OF cas_objects_shape],
    rule yields_sbind [OF leaves_shape], rule yields_ret)
  fix pb ms rf content legacy cs gens objects leaves
  assume parsed: "list_all (\<lambda>m. \<exists>b. px_manifest px b = Some m) ms"
    and rf: "rfold note_manifest \<lparr>rf_marked = [as_posix pointer_path], rf_cache = [], rf_content = []\<rparr> ms = Inr rf"
    and content: "list_all content_mark content"
    and cs: "distinct (map root_of cs) \<and> list_all (\<lambda>c. cache_shape ''native'' c \<or> cache_shape ''adopted'' c) cs"
    and gens: "list_all (\<lambda>g. CHR ''/'' \<notin> set g) gens" and objects: "list_all (\<lambda>p. clean p \<and> object_shape p) objects"
    and leaves: "list_all (\<lambda>p. clean p \<and> is_incoming_temp_leaf p) leaves"
  let ?marked = "rf_marked rf @ content @ concat (map cache_marks cs)" and ?ids = "map gm_generation_id ms"
  let ?cands = "map (\<lambda>g. ''v1/generations/'' @ g) (filter (\<lambda>g. g \<notin> set ?ids) gens) @ filter (\<lambda>t. t \<notin> set ?marked) (map as_posix objects)
      @ map as_posix (concat (map inactive_root cs)) @ map as_posix leaves"
  have marked: "marked_kind ?ids (marked_roots cs) (posix_path t)" if "t \<in> set ?marked" for t
  proof -
    from that consider "t \<in> set (rf_marked rf)" | "t \<in> set content" | c where "c \<in> set cs" "t \<in> set (cache_marks c)" by auto
    then show ?thesis
    proof cases
      case 1 then show ?thesis by (rule refs_marked_kind [OF assms parsed rf])
    next
      case 2 then show ?thesis using content by (auto simp: list_all_iff content_mark_def marked_kind_def)
    next
      case 3 then show ?thesis using cs by (intro caches_marked_kind) auto
    qed
  qed
  have gen: "posix_path (''v1/generations/'' @ g) = [''v1'', ''generations'', g]" if "CHR ''/'' \<notin> set g" for g
    using that posix_path_segments [of "[''v1'', ''generations'', g]"] by (simp add: as_posix_def)
  have "candidate_kind ?ids ?marked (marked_roots cs) c" if "c \<in> set ?cands" for c
  proof -
    from that consider g where "g \<in> set gens" "g \<notin> set ?ids" "c = ''v1/generations/'' @ g" | p where "p \<in> set objects" "c = as_posix p" "c \<notin> set ?marked"
      | d r where "d \<in> set cs" "r \<in> set (inactive_root d)" "c = as_posix r" | p where "p \<in> set leaves" "c = as_posix p" by auto
    then show ?thesis
    proof cases
      case 1 then show ?thesis using gen gens unfolding candidate_kind_def by (intro disjI1) (auto simp: list_all_iff)
    next
      case 2 then show ?thesis using objects unfolding candidate_kind_def by (auto simp: list_all_iff clean_def)
    next
      case 3 then show ?thesis using inactive_candidate [of cs d r] cs by simp
    next
      case 4 then show ?thesis using leaves unfolding candidate_kind_def by (auto simp: list_all_iff clean_def)
    qed
  qed
  then have "\<forall>c \<in> set ?cands. \<forall>t \<in> set ?marked. \<not> prefix (posix_path c) (posix_path t)"
    using candidate_covers_nothing marked by blast
  moreover have "as_posix pointer_path \<in> set ?marked" "\<forall>m \<in> set ms. set (member_paths m) \<subseteq> set ?marked"
    using note_manifests_marks [OF rf] by auto
  ultimately show "plan_safe pointer_path \<lparr>pl_pointer_body = pb, pl_manifests = ms, pl_marked = ?marked, pl_candidates = sorted_set ?cands\<rparr>"
    by (simp add: plan_safe_def)
qed

section \<open>What the sweep puts on the wire\<close>

text \<open>\<open>keeps Q m\<close>: however \<open>m\<close> ends, the exchanges it appends to the log satisfy \<open>Q\<close>.\<close>

definition keeps :: "(exchanges \<Rightarrow> bool) \<Rightarrow> ('w, 'a) gc_op \<Rightarrow> bool" where
  "keeps Q m \<longleftrightarrow> (\<forall>s r s'. m s = (r, s') \<longrightarrow> (\<exists>l. dav_log (fst s') = dav_log (fst s) @ l \<and> Q l))"

lemma keepsD: "keeps Q m \<Longrightarrow> m s = (r, s') \<Longrightarrow> \<exists>l. dav_log (fst s') = dav_log (fst s) @ l \<and> Q l"
  unfolding keeps_def by blast

text \<open>
  A contract on the log that reads satisfy and that concatenation preserves.  Under it the sweep keeps the
  contract as soon as one of its rounds does.
\<close>

locale log_contract =
  fixes Q :: "exchanges \<Rightarrow> bool"
  assumes reading: "list_all reads l \<Longrightarrow> Q l"
    and appending: "Q l \<Longrightarrow> Q l' \<Longrightarrow> Q (l @ l')"
begin

lemma keeps_reads: "does reads m (\<lambda>_ _. True) \<Longrightarrow> keeps Q (on_dav m)"
  unfolding keeps_def on_dav_def by (auto split: prod.splits elim!: doesD_log intro: reading)

lemma keeps_pure: "keeps Q (ret x)" "keeps Q (lift r)" "keeps Q (guard ok e)" "keeps Q (on_rows f)" "keeps Q (ask_rows g)"
  using reading [of "[]"] by (simp_all add: keeps_def ret_def lift_def guard_def on_rows_def ask_rows_def)

lemma keeps_sbind_value:
  assumes m: "keeps Q m" and f: "\<And>s x s'. m s = (Inr x, s') \<Longrightarrow> keeps Q (f x)"
  shows "keeps Q (sbind m f)"
  unfolding keeps_def
proof (intro allI impI)
  fix s r s' assume run: "sbind m f s = (r, s')"
  obtain r1 s1 where m1: "m s = (r1, s1)" by (cases "m s")
  with keepsD [OF m] obtain l1 where l1: "dav_log (fst s1) = dav_log (fst s) @ l1" "Q l1" by blast
  show "\<exists>l. dav_log (fst s') = dav_log (fst s) @ l \<and> Q l"
  proof (cases r1)
    case (Inl e) with run m1 l1 show ?thesis by (auto simp: sbind_def)
  next
    case (Inr x)
    with run m1 have "f x s1 = (r, s')" by (simp add: sbind_def)
    with keepsD [OF f] m1 Inr obtain l2 where "dav_log (fst s') = dav_log (fst s1) @ l2" "Q l2" by blast
    with l1 show ?thesis by (intro exI [of _ "l1 @ l2"]) (simp add: appending)
  qed
qed

lemma keeps_sbind: "keeps Q m \<Longrightarrow> (\<And>x. keeps Q (f x)) \<Longrightarrow> keeps Q (sbind m f)"
  by (rule keeps_sbind_value)

lemma keeps_sweep:
  assumes "sweep xml http base pointer_path pointer_body ps deleted s = (out, s')"
    and "\<And>p. p \<in> set ps \<Longrightarrow> keeps Q (sweep_one xml http base pointer_path pointer_body p)"
  shows "\<exists>l. dav_log (fst s') = dav_log (fst s) @ l \<and> Q l"
  using assms
proof (induction ps arbitrary: deleted s)
  case (Cons p ps)
  obtain r s1 where one: "sweep_one xml http base pointer_path pointer_body p s = (r, s1)"
    by (cases "sweep_one xml http base pointer_path pointer_body p s")
  from keepsD [OF Cons.prems(2) one] obtain l1 where l1: "dav_log (fst s1) = dav_log (fst s) @ l1" "Q l1" by auto
  show ?case
  proof (cases r)
    case (Inl e) with Cons.prems(1) one l1 show ?thesis by auto
  next
    case (Inr there)
    with Cons.prems(1) one have "sweep xml http base pointer_path pointer_body ps (if there then deleted @ [p] else deleted) s1 = (out, s')" by simp
    from Cons.IH [OF this] Cons.prems(2) obtain l2 where "dav_log (fst s') = dav_log (fst s1) @ l2" "Q l2" by auto
    with l1 show ?thesis by (intro exI [of _ "l1 @ l2"]) (simp add: appending)
  qed
qed (simp add: reading)

lemma keeps_apply_sweep:
  assumes "\<And>p. p \<in> set ps \<Longrightarrow> keeps Q (sweep_one xml http base pointer_path pointer_body p)"
  shows "keeps Q (apply_sweep xml http base pointer_path pointer_body ps)"
  unfolding apply_sweep_def
proof (intro keeps_sbind keeps_reads [OF reads_required_bytes] keeps_pure)
  show "keeps Q (\<lambda>s. case sweep xml http base pointer_path pointer_body ps [] s of
       ((deleted, None), s') \<Rightarrow> (Inr deleted, s')
     | ((deleted, Some e), s') \<Rightarrow>
         (Inl (if deleted \<noteq> [] then GCPartialFailure (int (length deleted))
               else if gc_error e then e
               else GCDeletionError (''first remote DELETE failed for '' @ hd ps)), s'))"
    unfolding keeps_def by (auto split: prod.splits option.splits dest!: keeps_sweep [OF _ assms])
qed

end

text \<open>The first contract: reads, and deletions of given paths.\<close>

definition swept :: "base_url \<Rightarrow> string set \<Rightarrow> http_request \<times> http_result \<Rightarrow> bool" where
  "swept base cs x \<longleftrightarrow> reads x \<or> (\<exists>c \<in> cs. deletes base (posix_path c) x)"

interpretation swept: log_contract "list_all (swept base cs)" for base cs
  by unfold_locales (auto simp: list_all_iff swept_def)

lemma delete_once:
  "wk_delete http base p missing d = (r, d') \<Longrightarrow> \<exists>l. dav_log d' = dav_log d @ l \<and> list_all (deletes base p) l \<and> length l \<le> 1"
proof -
  assume run: "wk_delete http base p missing d = (r, d')"
  from doesD_log [OF does_wk_delete run] obtain l where l: "dav_log d' = dav_log d @ l" "list_all (deletes base p) l" .
  moreover have "length (dav_log d') \<le> Suc (length (dav_log d))"
    using run by (auto simp: wk_delete_def delete_def request_def sbind_def lift_def exchange_def ret_def raise_def
      split: prod.splits sum.splits http_result.splits if_splits)
  ultimately show ?thesis by (intro exI [of _ l]) simp
qed

lemma sweep_one_swept: "p \<in> cs \<Longrightarrow> keeps (list_all (swept base cs)) (sweep_one xml http base pointer_path pointer_body p)"
proof -
  assume p: "p \<in> cs"
  have del: "keeps (list_all (swept base cs)) (on_dav (wk_delete http base (posix_path p) True))"
    using p by (fastforce simp: keeps_def on_dav_def list_all_iff swept_def split: prod.splits dest!: delete_once)
  show ?thesis unfolding sweep_one_def delete_candidate_def
    by (auto intro!: swept.keeps_sbind swept.keeps_reads swept.keeps_pure reads_required_bytes reads_leaf del)
qed

text \<open>
  The second contract, the fence: a request that is not a read comes after a read of the pointer that answered
  with the body the mark phase started from, with no other read of the pointer and no other such request between.
\<close>

definition pointer_read :: "base_url \<Rightarrow> path \<Rightarrow> http_request \<times> http_result \<Rightarrow> bool" where
  "pointer_read base pointer_path x \<longleftrightarrow> rq_method (fst x) = ''GET'' \<and> url base pointer_path = Inr (rq_url (fst x))"

definition answered :: "bytes \<Rightarrow> http_request \<times> http_result \<Rightarrow> bool" where
  "answered body x = (case snd x of HttpResponse status rh chunks broken \<Rightarrow> status = 200 \<and> \<not> broken \<and> concat chunks = body | HttpError \<Rightarrow> False)"

fun fenced :: "base_url \<Rightarrow> path \<Rightarrow> bytes \<Rightarrow> bool \<Rightarrow> exchanges \<Rightarrow> bool" where
  "fenced base pointer_path body armed [] = True"
| "fenced base pointer_path body armed (x # l) =
     (if pointer_read base pointer_path x then fenced base pointer_path body (answered body x) l
      else if reads x then fenced base pointer_path body armed l
      else armed \<and> fenced base pointer_path body False l)"

lemma fenced_weaken: "fenced base pp body False l \<Longrightarrow> fenced base pp body armed l"
  by (induction l arbitrary: armed) auto

lemma fenced_append: "fenced base pp body armed l \<Longrightarrow> fenced base pp body False l' \<Longrightarrow> fenced base pp body armed (l @ l')"
  by (induction l arbitrary: armed) (auto intro: fenced_weaken)

interpretation fence: log_contract "fenced base pp body False" for base pp body
proof
  show "fenced base pp body False l" if "list_all reads l" for l
    using that by (induction l) (auto intro: fenced_weaken)
qed (rule fenced_append)

lemma required_bytes_log:
  assumes "required_bytes http base pp d = (Inr body, d')"
  obtains x where "dav_log d' = dav_log d @ [x]" "pointer_read base pp x" "answered body x"
proof -
  let ?R = "\<lambda>body l. \<exists>x. l = [x] \<and> pointer_read base pp x \<and> answered body x"
  have get: "does (\<lambda>_. True) (dav_get http base pp cap) (\<lambda>r. ?R (rs_content r))" for cap
    unfolding dav_get_def
    by (rule does_sbind_lift, rule does_sbind_lift, rule does_sbind [where Q = "\<lambda>(rh, body) r l. l = [] \<and> body = rs_content r", OF does_stream_get])
      (auto intro!: does_ret simp: pointer_read_def answered_def dest: url_validated)
  show thesis using assms that
    by (auto simp: required_bytes_def get_bytes_def sbind_def catch_def ret_def raise_def
      split: prod.splits sum.splits option.splits exn.splits if_splits elim!: doesD [OF get])
qed

definition lists :: "http_request \<times> http_result \<Rightarrow> bool" where
  "lists x \<longleftrightarrow> rq_method (fst x) = ''PROPFIND''"

lemma lists_leaf: "does lists (incoming_leaf_exists_and_is_safe xml http base p) (\<lambda>_ _. True)"
proof -
  have "does lists (list_children xml http base q) (\<lambda>_ _. True)" for q
    unfolding list_children_def propfind_def Let_def
    by (auto intro!: does_seq does_lift does_ret does_raise does_request_method simp: lists_def split: option.splits)
  then show ?thesis
    unfolding incoming_leaf_exists_and_is_safe_def
    by (auto intro!: does_seq does_ret does_raise does_guard does_catch_any split: option.splits exn.splits)
qed

lemma fenced_lists: "list_all lists l \<Longrightarrow> fenced base pp body armed (l @ l') \<longleftrightarrow> fenced base pp body armed l'"
  by (induction l) (auto simp: lists_def pointer_read_def reads_def)

lemma fenced_delete: "list_all (deletes base p) l \<Longrightarrow> length l \<le> 1 \<Longrightarrow> fenced base pp body True l"
  by (cases l) (auto simp: deletes_def)

lemma after_fence:
  fixes s :: "'w dav \<times> gc_rows"
  assumes "delete_candidate xml http base p s = (r, s')"
  shows "\<exists>l. dav_log (fst s') = dav_log (fst s) @ l \<and> fenced base pp body True l"
proof -
  define m :: "('w, bool) gc_op" where "m = (if is_incoming_temp_leaf (posix_path p)
    then on_dav (incoming_leaf_exists_and_is_safe xml http base (posix_path p)) else ret True)"
  obtain r1 s1 where m: "m s = (r1, s1)" by (cases "m s")
  then obtain l1 where l1: "dav_log (fst s1) = dav_log (fst s) @ l1" "list_all lists l1"
    by (auto simp: m_def on_dav_def ret_def split: if_splits prod.splits elim!: doesD_log [OF lists_leaf])
  show ?thesis
  proof (cases "r1 = Inr True")
    case False
    with assms m l1 show ?thesis
      by (intro exI [of _ l1]) (auto simp: delete_candidate_def m_def [symmetric] sbind_def on_rows_def ret_def fenced_lists [where l' = "[]", simplified] split: sum.splits)
  next
    case True
    obtain r2 d2 where d2: "wk_delete http base (posix_path p) True (fst s1) = (r2, d2)" by (cases "wk_delete http base (posix_path p) True (fst s1)")
    from delete_once [OF this] obtain l2 where l2: "dav_log d2 = dav_log (fst s1) @ l2" "list_all (deletes base (posix_path p)) l2" "length l2 \<le> 1" by auto
    with l1 assms m d2 True show ?thesis
      by (intro exI [of _ "l1 @ l2"]) (auto simp: delete_candidate_def m_def [symmetric] sbind_def on_dav_def on_rows_def ret_def fenced_lists fenced_delete split: sum.splits)
  qed
qed

lemma sweep_one_fenced: "keeps (fenced base pp body False) (sweep_one xml http base pp body p)"
  unfolding keeps_def
proof (intro allI impI)
  fix s :: "'a dav \<times> gc_rows" and r s'
  assume run: "sweep_one xml http base pp body p s = (r, s')"
  obtain r1 d1 where rb: "required_bytes http base pp (fst s) = (r1, d1)" by (cases "required_bytes http base pp (fst s)")
  show "\<exists>l. dav_log (fst s') = dav_log (fst s) @ l \<and> fenced base pp body False l"
  proof (cases "r1 = Inr body")
    case False
    from doesD_log [OF reads_required_bytes rb] obtain l where "dav_log d1 = dav_log (fst s) @ l" "list_all reads l" .
    with False run rb show ?thesis
      by (intro exI [of _ l]) (auto simp: sweep_one_def sbind_def on_dav_def guard_def lift_def intro: fence.reading split: sum.splits)
  next
    case True
    with rb obtain x where x: "dav_log d1 = dav_log (fst s) @ [x]" "pointer_read base pp x" "answered body x"
      by (auto elim: required_bytes_log)
    from run rb True have "delete_candidate xml http base p (d1, snd s) = (r, s')"
      by (simp add: sweep_one_def sbind_def on_dav_def guard_def lift_def)
    from after_fence [OF this] obtain l where "dav_log (fst s') = dav_log d1 @ l" "fenced base pp body True l" by auto
    with x show ?thesis by (intro exI [of _ "x # l"]) simp
  qed
qed

lemma note_keeps_first:
  "map_of (fold (note_unreferenced now) cs rows) p = Some (f, l) \<Longrightarrow> f < now \<Longrightarrow> \<exists>l'. map_of rows p = Some (f, l')"
proof (induction cs arbitrary: rows)
  case (Cons c cs)
  from Cons.IH [of "note_unreferenced now c rows"] Cons.prems obtain l' where "map_of (note_unreferenced now c rows) p = Some (f, l')" by auto
  with Cons.prems(2) show ?case by (auto simp: note_unreferenced_def update_conv' split: if_splits option.splits)
qed auto

lemma note_present: "c \<in> set cs \<or> map_of rows c \<noteq> None \<Longrightarrow> map_of (fold (note_unreferenced now) cs rows) c \<noteq> None"
  by (induction cs arbitrary: rows) (auto simp: note_unreferenced_def update_conv')

lemma eligible_aged:
  assumes "rmap (\<lambda>p. rbind (deletion_rank p) (\<lambda>k. Inr (k, p))) aged = Inr ranked"
  shows "set (map snd (sort ranked)) = set aged"
proof -
  from assms have "map snd ranked = aged"
    by (induction aged arbitrary: ranked) auto
  then show ?thesis by (metis set_map set_sort)
qed

definition aged_entry :: "gc_rows \<Rightarrow> int \<Rightarrow> string \<Rightarrow> bool" where
  "aged_entry rows threshold c \<longleftrightarrow> (\<exists>first last. map_of rows c = Some (first, last) \<and> first \<le> threshold)"

lemma aged_before:
  assumes "c \<in> set cs" "first_seen_at (fold (note_unreferenced now) cs rows) c \<le> threshold" "threshold < now"
  shows "aged_entry rows threshold c"
proof -
  from note_present [of c cs rows now] assms(1) obtain f l where f: "map_of (fold (note_unreferenced now) cs rows) c = Some (f, l)" by auto
  with assms(2) have "f \<le> threshold" by (simp add: first_seen_at_def)
  with note_keeps_first [OF f] assms(3) show ?thesis by (auto simp: aged_entry_def)
qed

context log_contract
begin

lemma keeps_finish:
  assumes run: "finish_gc xml http base apply threshold now pointer_path plan (d, rows) = (r, (d', rows'))" and "threshold < now"
    and one: "\<And>p. \<lbrakk>apply; p \<in> set (pl_candidates plan); aged_entry rows threshold p\<rbrakk>
      \<Longrightarrow> keeps Q (sweep_one xml http base pointer_path (pl_pointer_body plan) p :: ('w, bool) gc_op)"
  shows "\<exists>l. dav_log (d' :: 'w dav) = dav_log d @ l \<and> Q l"
proof -
  let ?noted = "fold (note_unreferenced now) (pl_candidates plan) rows"
  let ?aged = "filter (\<lambda>p. first_seen_at ?noted p \<le> threshold) (pl_candidates plan)"
  have old: "aged_entry rows threshold c" if "c \<in> set ?aged" for c using that assms(2) by (intro aged_before) auto
  define rest :: "('w, GCResult) gc_op" where "rest = sbind (on_rows (clear_unreferenced_except (pl_candidates plan))) (\<lambda>_.
     sbind (lift (rmap (\<lambda>p. rbind (deletion_rank p) (\<lambda>k. Inr (k, p))) ?aged)) (\<lambda>ranked.
     let eligible = map snd (sort ranked) in
     sbind (if apply \<and> eligible \<noteq> [] then apply_sweep xml http base pointer_path (pl_pointer_body plan) eligible else ret []) (\<lambda>deleted.
     ret \<lparr>gx_retained_generations = map gm_generation_id (pl_manifests plan),
          gx_marked_objects = int (length (filter (prefix ''v1/objects/'') (remdups (pl_marked plan)))),
          gx_candidates = pl_candidates plan, gx_eligible = eligible, gx_deleted = deleted, gx_dry_run = \<not> apply\<rparr>)))"
  have "keeps Q rest"
    unfolding rest_def Let_def
  proof (rule keeps_sbind [OF keeps_pure(4)], rule keeps_sbind_value [OF keeps_pure(2)], rule keeps_sbind [OF _ keeps_pure(1)])
    fix s s' :: "'w dav \<times> gc_rows" and ranked
    assume "lift (rmap (\<lambda>p. rbind (deletion_rank p) (\<lambda>k. Inr (k, p))) ?aged) s = (Inr ranked, s')"
    then have elig: "set (map snd (sort ranked)) = set ?aged" by (intro eligible_aged) (simp add: lift_def)
    show "keeps Q (if apply \<and> map snd (sort ranked) \<noteq> [] then apply_sweep xml http base pointer_path (pl_pointer_body plan) (map snd (sort ranked)) else ret [])"
    proof (cases "apply \<and> map snd (sort ranked) \<noteq> []")
      case True
      have "keeps Q (sweep_one xml http base pointer_path (pl_pointer_body plan) p :: ('w, bool) gc_op)" if "p \<in> set (map snd (sort ranked))" for p
        using that True old unfolding elig by (intro one) auto
      then show ?thesis unfolding if_P [OF True] by (rule keeps_apply_sweep)
    next
      case False
      show ?thesis unfolding if_not_P [OF False] by (rule keeps_pure)
    qed
  qed
  moreover from run have "rest (d, ?noted) = (r, (d', rows'))"
    by (simp add: finish_gc_def rest_def sbind_def [of "on_rows (fold _ _)"] sbind_def [of "ask_rows _"] on_rows_def [of "fold _ _"] ask_rows_def)
  ultimately show ?thesis by (auto dest: keepsD)
qed

end

text \<open>
  C4. Garbage collection never removes what is in use: whatever the server answers and however the run ends, every
  request that is not a read is a DELETE of an apply run for a path that neither is nor contains the channel
  pointer, a file of a retained generation or any other marked path, and that an earlier run had already
  recorded as unreferenced at least the grace period ago.  A dry run only reads.
\<close>

theorem gc_deletes_only_unreferenced:
  assumes sound: "pydantic_sound px"
    and run: "collect_garbage px xml http base apply retain grace now pointer_path (d, rows) = (r, (d', rows'))"
  shows "\<exists>l. dav_log d' = dav_log d @ l \<and>
    (\<forall>x \<in> set l. reads x \<or> apply \<and> (\<exists>plan d1. gc_mark px xml http base (nat retain) pointer_path d = (Inr plan, d1)
       \<and> plan_safe pointer_path plan
       \<and> (\<exists>c \<in> set (pl_candidates plan). deletes base (posix_path c) x \<and> aged_entry rows (now - grace * micros_per_day) c)))"
proof (cases "1 \<le> retain \<and> 1 \<le> grace \<and> pointer_path \<in> {stable_pointer, candidate_pointer}")
  case False
  with run show ?thesis by (auto simp: collect_garbage_def sbind_def guard_def lift_def raise_if_def split: if_splits)
next
  case True
  then have guards: "guard (1 \<le> retain \<and> 1 \<le> grace) e s = (Inr (), s)" "guard (pointer_path \<in> {stable_pointer, candidate_pointer}) e s = (Inr (), s)"
    for e and s :: "'a dav \<times> gc_rows" by (simp_all add: guard_def lift_def)
  obtain m d1 where mark: "gc_mark px xml http base (nat retain) pointer_path d = (m, d1)" by (cases "gc_mark px xml http base (nat retain) pointer_path d")
  from doesD_log [OF reads_mark mark] obtain l1 where l1: "dav_log d1 = dav_log d @ l1" "list_all reads l1" .
  show ?thesis
  proof (cases m)
    case (Inl e)
    with run mark l1 guards show ?thesis by (auto simp: collect_garbage_def sbind_def on_dav_def list_all_iff)
  next
    case (Inr plan)
    let ?t = "now - grace * micros_per_day"
    have safe: "plan_safe pointer_path plan" using yieldsD [OF mark_safe [OF sound]] mark Inr True by blast
    from run mark Inr guards have "finish_gc xml http base apply ?t now pointer_path plan (d1, rows) = (r, (d', rows'))"
      by (simp add: collect_garbage_def sbind_def on_dav_def)
    moreover have "?t < now" using True by (simp add: micros_per_day_def)
    ultimately obtain l2 where "dav_log d' = dav_log d1 @ l2"
      "list_all (swept base {c \<in> set (pl_candidates plan). apply \<and> aged_entry rows ?t c}) l2"
      using swept.keeps_finish [of xml http base "apply" ?t now pointer_path plan d1 rows r d' rows' base,
        OF _ _ sweep_one_swept [of _ "{c \<in> set (pl_candidates plan). apply \<and> aged_entry rows ?t c}"]] by blast
    with l1 mark Inr safe show ?thesis by (intro exI [of _ "l1 @ l2"]) (fastforce simp: list_all_iff swept_def)
  qed
qed

text \<open>
  C17. The fence of the sweep: whatever the server answers, every DELETE of a run comes after a read of the channel
  pointer that answered with exactly the bytes the mark phase started from, later than any earlier DELETE and with
  no other read of the pointer in between.  So a pointer that was seen to move stops the sweep before its next deletion.
\<close>

theorem gc_deletes_behind_fence:
  assumes run: "collect_garbage px xml http base apply retain grace now pointer_path (d, rows) = (r, (d', rows'))"
    and mark: "gc_mark px xml http base (nat retain) pointer_path d = (Inr plan, d1)"
  shows "\<exists>l. dav_log d' = dav_log d @ l \<and> fenced base pointer_path (pl_pointer_body plan) False l"
proof (cases "1 \<le> retain \<and> 1 \<le> grace \<and> pointer_path \<in> {stable_pointer, candidate_pointer}")
  case False
  with run show ?thesis by (auto simp: collect_garbage_def sbind_def guard_def lift_def raise_if_def split: if_splits)
next
  case True
  let ?t = "now - grace * micros_per_day"
  from doesD_log [OF reads_mark mark] obtain l1 where l1: "dav_log d1 = dav_log d @ l1" "list_all reads l1" .
  from True run mark have "finish_gc xml http base apply ?t now pointer_path plan (d1, rows) = (r, (d', rows'))"
    by (simp add: collect_garbage_def sbind_def on_dav_def guard_def lift_def)
  moreover have "?t < now" using True by (simp add: micros_per_day_def)
  ultimately obtain l2 where "dav_log d' = dav_log d1 @ l2" "fenced base pointer_path (pl_pointer_body plan) False l2"
    using fence.keeps_finish [OF _ _ sweep_one_fenced] by blast
  with l1 show ?thesis by (intro exI [of _ "l1 @ l2"]) (simp add: fence.appending fence.reading)
qed

section \<open>A small server\<close>

text \<open>
  The channel points at \<open>g2\<close>; the older \<open>g0\<close> is not retained and was first seen unreferenced on day 0.
  The control objects are all the JSON text \<open>null\<close>, and a listing is its paths separated by bars.
\<close>

definition gc_demo_ready :: GenerationReady where
  "gc_demo_ready = \<lparr>gr_schema_version = ''cardrag.ready.v1'', gr_generation_id = ''g2'', gr_manifest_sha256 = sha256_bytes ''null'',
     gr_serving_database_sha256 = demo_hex (CHR ''c''), gr_serving_database_size_bytes = 9,
     gr_vector_sidecar_sha256 = None, gr_vector_sidecar_size_bytes = None\<rparr>"

definition gc_demo_pointer :: GenerationPointer where
  "gc_demo_pointer = \<lparr>gt_schema_version = ''cardrag.stable.v1'', gt_generation_id = ''g2'',
     gt_manifest_sha256 = sha256_bytes ''null'', gt_ready_sha256 = sha256_bytes ''null''\<rparr>"

definition gc_demo_px :: pydantic where
  "gc_demo_px = demo_pydantic\<lparr>px_manifest := (\<lambda>b. if b = ''null'' then Some demo_manifest else None),
     px_ready := (\<lambda>b. if b = ''null'' then Some gc_demo_ready else None),
     px_pointer := (\<lambda>b. if b = ''null'' then Some gc_demo_pointer else None)\<rparr>"

definition gc_demo_xml :: xml where
  "gc_demo_xml body = Some (if body = [] then [] else map Some (split_on (CHR ''|'') body))"

definition gc_demo_http :: "unit http" where
  "gc_demo_http rq w =
     (if rq_method rq = ''GET'' then HttpResponse 200 [] [''null''] False
      else if rq_method rq = ''DELETE'' then HttpResponse 204 [] [] False
      else if rq_url rq = ''http://h/v1/generations'' then HttpResponse 207 [] [''/v1/generations/g0|/v1/generations/g2''] False
      else HttpResponse 207 [] [] False, w)"


definition gc_demo_base :: base_url where
  "gc_demo_base = \<lparr>bu_scheme = ''http'', bu_netloc = ''h'', bu_path = []\<rparr>"

definition gc_demo_run :: "GCResult result \<times> unit dav \<times> gc_rows" where
  "gc_demo_run = collect_garbage gc_demo_px gc_demo_xml gc_demo_http gc_demo_base True 1 7
     (10 * micros_per_day) stable_pointer (\<lparr>dav_world = (), dav_log = [], local_files = Map.empty\<rparr>, [(''v1/generations/g0'', (0, micros_per_day))])"

definition answers :: "('s, 'a) op \<Rightarrow> 'a \<Rightarrow> bool" where
  "answers m x \<longleftrightarrow> (\<forall>s. fst (m s) = Inr x)"

lemma answers_sbind: "answers m x \<Longrightarrow> answers (f x) y \<Longrightarrow> answers (sbind m f) y"
  by (auto simp: answers_def sbind_def split: prod.splits sum.splits) (metis fst_conv sum.simps(4) sum.inject(2))+

lemma answers_basic: "answers (ret x) x" "r = Inr y \<Longrightarrow> answers (lift r) y" "ok \<Longrightarrow> answers (guard ok e) ()"
  by (simp_all add: answers_def ret_def lift_def guard_def)

lemma gc_demo_null: "canonical_bytes gc_demo_px m = Inr ''null''"
  by (simp add: canonical_bytes_def gc_demo_px_def demo_pydantic_def, code_simp)

lemma gc_demo_reads:
  "answers (required_bytes gc_demo_http gc_demo_base stable_pointer) ''null''"
  "answers (required_bytes gc_demo_http gc_demo_base [''v1'', ''generations'', ''g2'', ''manifest.json'']) ''null''"
  "answers (required_bytes gc_demo_http gc_demo_base [''v1'', ''generations'', ''g2'', ''READY.json'']) ''null''"
  unfolding answers_def by (rule allI, code_simp)+

lemma gc_demo_lists:
  "answers (list_generation_ids gc_demo_xml gc_demo_http gc_demo_base) [''g0'', ''g2'']"
  "answers (list_cas_objects gc_demo_xml gc_demo_http gc_demo_base) []"
  "answers (list_incoming_temp_leaves gc_demo_xml gc_demo_http gc_demo_base) []"
  "answers (optional_children gc_demo_xml gc_demo_http gc_demo_base content_index_root) []"
  "answers (optional_children gc_demo_xml gc_demo_http gc_demo_base content_root) []"
  "answers (optional_children gc_demo_xml gc_demo_http gc_demo_base [''v1'', ''ocr-cache'', ''native'']) []"
  "answers (optional_children gc_demo_xml gc_demo_http gc_demo_base [''v1'', ''ocr-cache'', ''adopted'']) []"
  unfolding answers_def by (rule allI, code_simp)+

definition gc_demo_refs :: gc_refs where
  "gc_demo_refs = \<lparr>rf_marked = [''v1/channels/stable.json'', ''v1/generations/g2/index.sqlite3'', ''v1/generations/g2/manifest.json'',
     ''v1/generations/g2/READY.json'', ar_path (gd_pdf demo_document), ar_path (the (gd_ocr demo_document))], rf_cache = [], rf_content = []\<rparr>"

lemma gc_demo_paths:
  "expected_generation_files ''g2'' False = Inr [''v1/generations/g2/index.sqlite3'', ''v1/generations/g2/manifest.json'', ''v1/generations/g2/READY.json'']"
  "generation_manifest_path ''g2'' = Inr [''v1'', ''generations'', ''g2'', ''manifest.json'']"
  "generation_ready_path ''g2'' = Inr [''v1'', ''generations'', ''g2'', ''READY.json'']"
  "as_posix stable_pointer = ''v1/channels/stable.json''"
  by code_simp+

lemma gc_demo_noted:
  "rfold note_manifest \<lparr>rf_marked = [as_posix stable_pointer], rf_cache = [], rf_content = []\<rparr> [demo_manifest] = Inr gc_demo_refs"
  by (simp add: note_manifest_def note_document_def gc_demo_paths gc_demo_refs_def demo_manifest_def demo_document_def)

lemma gc_demo_parsed:
  "px_manifest gc_demo_px ''null'' = Some demo_manifest" "px_ready gc_demo_px ''null'' = Some gc_demo_ready"
  "px_pointer gc_demo_px ''null'' = Some gc_demo_pointer"
  by (simp_all add: gc_demo_px_def)

lemma gc_demo_checked: "check_generation gc_demo_px gc_demo_pointer 0 ''g2'' demo_manifest ''null'' gc_demo_ready ''null'' = Inr ()"
  by (simp add: check_generation_def check_vectors_def mark_check_def gc_demo_null gc_demo_ready_def gc_demo_pointer_def demo_manifest_def v5_schema_def)

lemma gc_demo_generation: "answers (read_generation gc_demo_px gc_demo_http gc_demo_base gc_demo_pointer 0 ''g2'') demo_manifest"
  unfolding read_generation_def gc_demo_paths
  by (rule answers_sbind gc_demo_reads answers_basic gc_demo_checked refl | simp only: gc_demo_parsed option.case prod.case)+

lemma gc_demo_chain: "answers (generation_chain gc_demo_px gc_demo_http gc_demo_base 1 stable_pointer) (''null'', [demo_manifest])"
proof -
  have "answers (follow_chain gc_demo_px gc_demo_http gc_demo_base gc_demo_pointer 0 1 [] (Some ''g2'')) [demo_manifest]"
    unfolding One_nat_def follow_chain.simps by (rule answers_sbind gc_demo_generation answers_basic | simp)+
  moreover have "gt_generation_id gc_demo_pointer = ''g2''" by (simp add: gc_demo_pointer_def)
  ultimately show ?thesis
    unfolding generation_chain_def
    by - (rule answers_sbind gc_demo_reads answers_basic gc_demo_null refl | simp only: gc_demo_parsed option.case prod.case)+
qed

lemma gc_demo_content: "answers (mark_content_variants gc_demo_px gc_demo_xml gc_demo_http gc_demo_base []) ([], [])"
  unfolding mark_content_variants_def
  by (rule answers_sbind gc_demo_lists answers_basic | simp add: Let_def)+

lemma gc_demo_caches: "answers (mark_ocr_caches gc_demo_px gc_demo_xml gc_demo_http gc_demo_base [] []) []"
  unfolding mark_ocr_caches_def mark_kind_def
  by (rule answers_sbind gc_demo_lists answers_basic | simp add: Let_def)+

definition gc_demo_plan :: gc_plan where
  "gc_demo_plan = \<lparr>pl_pointer_body = ''null'', pl_manifests = [demo_manifest], pl_marked = rf_marked gc_demo_refs,
     pl_candidates = [''v1/generations/g0'']\<rparr>"

lemma gc_demo_mark: "answers (gc_mark gc_demo_px gc_demo_xml gc_demo_http gc_demo_base 1 stable_pointer) gc_demo_plan"
proof -
  have refs: "rf_cache gc_demo_refs = []" "rf_content gc_demo_refs = []" by (simp_all add: gc_demo_refs_def)
  have "sorted_set [''v1/generations/g0''] = [''v1/generations/g0'']" by code_simp
  moreover have "gm_generation_id demo_manifest = ''g2''" by (simp add: demo_manifest_def)
  ultimately have candidates: "sorted_set (map (\<lambda>g. ''v1/generations/'' @ g) (filter (\<lambda>g. g \<notin> set (map gm_generation_id [demo_manifest])) [''g0'', ''g2''])
      @ filter (\<lambda>t. t \<notin> set marked) (map as_posix []) @ map as_posix (concat (map inactive_root [])) @ map as_posix []) = [''v1/generations/g0'']" for marked
    by simp
  show ?thesis
    unfolding gc_mark_def
    by (rule answers_sbind [OF gc_demo_chain], simp only: prod.case, rule answers_sbind [OF answers_basic(2) [OF gc_demo_noted]],
        simp only: refs append_Nil, rule answers_sbind [OF gc_demo_content], simp only: prod.case append_Nil,
        rule answers_sbind [OF gc_demo_caches], rule answers_sbind [OF gc_demo_lists(1)], rule answers_sbind [OF gc_demo_lists(2)],
        rule answers_sbind [OF gc_demo_lists(3)])
      (simp only: Let_def candidates, simp add: gc_demo_plan_def answers_basic)
qed

definition gc_demo_result :: GCResult where
  "gc_demo_result = \<lparr>gx_retained_generations = [''g2''], gx_marked_objects = 2, gx_candidates = [''v1/generations/g0''],
     gx_eligible = [''v1/generations/g0''], gx_deleted = [''v1/generations/g0''], gx_dry_run = False\<rparr>"

lemma gc_demo_finish:
  "fst (finish_gc gc_demo_xml gc_demo_http gc_demo_base True (3 * micros_per_day) (10 * micros_per_day) stable_pointer gc_demo_plan
     (d, [(''v1/generations/g0'', (0, micros_per_day))])) = Inr gc_demo_result"
  by code_simp

lemma gc_demo_sound: "pydantic_sound gc_demo_px"
proof -
  have "generation_manifest gc_demo_px demo_manifest = generation_manifest demo_pydantic demo_manifest"
    by (simp add: generation_manifest_def bundle_is_self_consistent_def validate_v5_contract_def demo_manifest_def v5_schema_def)
  with demo_manifest_valid show ?thesis
    by (auto simp: pydantic_sound_def gc_demo_px_def demo_pydantic_def split: if_splits)
qed

lemma gc_demo_deletes: "fst gc_demo_run = Inr gc_demo_result"
proof -
  have "fst (collect_garbage gc_demo_px gc_demo_xml gc_demo_http gc_demo_base True 1 7 (10 * micros_per_day) stable_pointer
      (d, [(''v1/generations/g0'', (0, micros_per_day))])) = Inr gc_demo_result" for d
    using gc_demo_mark gc_demo_finish
    by (auto simp: collect_garbage_def sbind_def guard_def lift_def raise_if_def on_dav_def answers_def split: prod.splits sum.splits)
      (metis Inl_Inr_False fst_conv sum.inject(2))+
  then show ?thesis by (simp add: gc_demo_run_def)
qed

theorem gc_deletes_only_unreferenced_witness:
  "fst gc_demo_run = Inr gc_demo_result \<and> list_all (\<lambda>x. reads x \<or> (\<exists>plan. plan_safe stable_pointer plan
     \<and> (\<exists>c \<in> set (pl_candidates plan). deletes gc_demo_base (posix_path c) x
         \<and> aged_entry [(''v1/generations/g0'', (0, micros_per_day))] (3 * micros_per_day) c))) (dav_log (fst (snd gc_demo_run)))"
  unfolding list_all_iff
proof (intro conjI ballI)
  obtain r d' rows' where run: "gc_demo_run = (r, (d', rows'))" by (cases gc_demo_run)
  fix x assume "x \<in> set (dav_log (fst (snd gc_demo_run)))"
  then have "x \<in> set (dav_log d')" by (simp add: run)
  moreover have "3 * micros_per_day = 10 * micros_per_day - 7 * micros_per_day" by simp
  ultimately show "reads x \<or> (\<exists>plan. plan_safe stable_pointer plan \<and> (\<exists>c \<in> set (pl_candidates plan). deletes gc_demo_base (posix_path c) x
      \<and> aged_entry [(''v1/generations/g0'', (0, micros_per_day))] (3 * micros_per_day) c))"
    using gc_deletes_only_unreferenced [OF gc_demo_sound run [unfolded gc_demo_run_def]]
    by (elim exE conjE) (simp only: dav.select_convs append_Nil, blast)
qed (rule gc_demo_deletes)

theorem gc_deletes_behind_fence_witness:
  "fst gc_demo_run = Inr gc_demo_result \<and> fenced gc_demo_base stable_pointer ''null'' False (dav_log (fst (snd gc_demo_run)))"
proof -
  obtain r d' rows' where run: "gc_demo_run = (r, (d', rows'))" by (cases gc_demo_run)
  let ?d = "\<lparr>dav_world = (), dav_log = [], local_files = Map.empty\<rparr>"
  obtain d1 where "gc_mark gc_demo_px gc_demo_xml gc_demo_http gc_demo_base (nat 1) stable_pointer ?d = (Inr gc_demo_plan, d1)"
    using gc_demo_mark unfolding answers_def by (metis nat_one_as_int prod.collapse)
  from gc_deletes_behind_fence [OF run [unfolded gc_demo_run_def] this]
  have "fenced gc_demo_base stable_pointer ''null'' False (dav_log d')" by (simp add: gc_demo_plan_def)
  with gc_demo_deletes show ?thesis by (simp add: run)
qed

end
