(* ===== verification/Facade.thy ===== *)
theory Facade
  imports Manifests Cas
begin

text \<open>
  \<open>cardrag_core/facade.py\<close>: the read-only reader of the service.  It follows the channel pointer to READY and manifest,
  checks that they are canonical and bind each other, and verifies or downloads the members they name.  The reader
  wraps the read-only client, so that every request is a \<open>GET\<close>; what it returns from a store is characterised by the
  bytes the store holds.
\<close>

section \<open>The reader\<close>

record CurrentGeneration =
  cg_pointer :: GenerationPointer
  cg_ready :: GenerationReady
  cg_manifest :: GenerationManifest

definition control_file_limit :: int where
  "control_file_limit = 8 * 1024 * 1024"

text \<open>The model type chooses both the parser and the constructor of the dumped model.\<close>

definition parse_canonical ::
  "pydantic \<Rightarrow> (bytes \<Rightarrow> 'm option) \<Rightarrow> ('m \<Rightarrow> model) \<Rightarrow> bytes \<Rightarrow> string \<Rightarrow> 'm result"
where
  "parse_canonical px model_validate_json dumped payload label =
     (case model_validate_json payload of
        None \<Rightarrow> Inl (ArtifactContractError (label @ '' is not a valid strict manifest''))
      | Some m \<Rightarrow>
          rbind (canonical_bytes px (dumped m)) (\<lambda>b.
          rbind (raise_if (b \<noteq> payload) (ArtifactContractError (label @ '' is not canonical JSON''))) (\<lambda>_. Inr m)))"

definition get_control :: "'w http \<Rightarrow> base_url \<Rightarrow> path \<Rightarrow> ('w, bytes) dav_op" where
  "get_control http base path =
     sbind (dav_get http base path (Some control_file_limit)) (\<lambda>response. ret (rs_content response))"

definition read_stable_pointer :: "pydantic \<Rightarrow> 'w http \<Rightarrow> base_url \<Rightarrow> path \<Rightarrow> ('w, GenerationPointer) dav_op" where
  "read_stable_pointer px http base pointer_path =
     sbind (get_control http base pointer_path) (\<lambda>payload.
     lift (parse_canonical px (px_pointer px) MPointer payload ''stable generation pointer''))"

definition read_generation_ready ::
  "pydantic \<Rightarrow> 'w http \<Rightarrow> base_url \<Rightarrow> string \<Rightarrow> ('w, GenerationReady \<times> bytes) dav_op"
where
  "read_generation_ready px http base generation_id =
     sbind (lift (generation_ready_path generation_id)) (\<lambda>path.
     sbind (get_control http base path) (\<lambda>payload.
     sbind (lift (parse_canonical px (px_ready px) MReady payload ''generation READY'')) (\<lambda>ready.
     sbind (lift (raise_if (gr_generation_id ready \<noteq> generation_id)
       (ArtifactContractError ''generation READY ID does not match its path''))) (\<lambda>_.
     ret (ready, payload)))))"

definition read_generation_manifest ::
  "pydantic \<Rightarrow> 'w http \<Rightarrow> base_url \<Rightarrow> string \<Rightarrow> string option \<Rightarrow> ('w, GenerationManifest) dav_op"
where
  "read_generation_manifest px http base generation_id expected_sha256 =
     sbind (lift (generation_manifest_path generation_id)) (\<lambda>path.
     sbind (get_control http base path) (\<lambda>payload.
     sbind (lift (raise_if (case expected_sha256 of None \<Rightarrow> False | Some d \<Rightarrow> sha256_bytes payload \<noteq> d)
       (ArtifactContractError ''generation manifest SHA-256 does not match READY''))) (\<lambda>_.
     sbind (lift (parse_canonical px (px_manifest px) MManifest payload ''generation manifest'')) (\<lambda>manifest.
     sbind (lift (raise_if (gm_generation_id manifest \<noteq> generation_id)
       (ArtifactContractError ''generation manifest ID does not match its path''))) (\<lambda>_.
     ret manifest)))))"

definition check_sidecar_binding :: "GenerationReady \<Rightarrow> GenerationManifest \<Rightarrow> unit result" where
  "check_sidecar_binding ready manifest =
     (if v5_schema (gm_schema_version manifest) then
        (case gm_vector_sidecar manifest of
           None \<Rightarrow> Inl (ArtifactContractError ''v5 generation manifest does not declare a vector sidecar'')
         | Some sidecar \<Rightarrow>
             rbind (generation_vectors_path (gm_generation_id manifest)) (\<lambda>vectors.
             rbind (raise_if (posix_path (ar_path (sc_artifact sidecar)) \<noteq> vectors)
               (ArtifactContractError ''vector sidecar path does not match its generation'')) (\<lambda>_.
             raise_if (gr_vector_sidecar_sha256 ready \<noteq> Some (ar_sha256 (sc_artifact sidecar))
                 \<or> gr_vector_sidecar_size_bytes ready \<noteq> Some (ar_size_bytes (sc_artifact sidecar)))
               (ArtifactContractError ''generation READY does not bind the vector sidecar''))))
      else raise_if (gm_vector_sidecar manifest \<noteq> None \<or> gr_vector_sidecar_sha256 ready \<noteq> None
             \<or> gr_vector_sidecar_size_bytes ready \<noteq> None)
           (ArtifactContractError ''legacy generation must not declare a vector sidecar''))"

definition read_current_generation :: "pydantic \<Rightarrow> 'w http \<Rightarrow> base_url \<Rightarrow> path \<Rightarrow> ('w, CurrentGeneration) dav_op" where
  "read_current_generation px http base pointer_path =
     sbind (read_stable_pointer px http base pointer_path) (\<lambda>pointer.
     sbind (read_generation_ready px http base (gt_generation_id pointer)) (\<lambda>(ready, ready_bytes).
     sbind (lift (raise_if (sha256_bytes ready_bytes \<noteq> gt_ready_sha256 pointer)
       (ArtifactContractError ''stable pointer does not bind generation READY''))) (\<lambda>_.
     sbind (lift (raise_if (gr_manifest_sha256 ready \<noteq> gt_manifest_sha256 pointer)
       (ArtifactContractError ''stable pointer and generation READY disagree on manifest''))) (\<lambda>_.
     sbind (read_generation_manifest px http base (gt_generation_id pointer) (Some (gr_manifest_sha256 ready))) (\<lambda>manifest.
     sbind (lift (raise_if (gr_serving_database_sha256 ready \<noteq> ar_sha256 (gm_serving_database manifest)
         \<or> gr_serving_database_size_bytes ready \<noteq> ar_size_bytes (gm_serving_database manifest))
       (ArtifactContractError ''generation READY does not bind the serving database''))) (\<lambda>_.
     sbind (lift (check_sidecar_binding ready manifest)) (\<lambda>_.
     ret \<lparr>cg_pointer = pointer, cg_ready = ready, cg_manifest = manifest\<rparr>)))))))"

section \<open>Members\<close>

definition check_object_path :: "ArtifactRef \<Rightarrow> unit result" where
  "check_object_path reference =
     rbind (object_path (ar_sha256 reference)) (\<lambda>p.
     raise_if (posix_path (ar_path reference) \<noteq> p) (ArtifactContractError ''object reference is not bound to its CAS path''))"

definition read_object :: "'w http \<Rightarrow> base_url \<Rightarrow> ArtifactRef \<Rightarrow> int option \<Rightarrow> ('w, bytes) dav_op" where
  "read_object http base reference max_bytes =
     sbind (lift (check_object_path reference)) (\<lambda>_.
     let limit = (case max_bytes of None \<Rightarrow> ar_size_bytes reference | Some n \<Rightarrow> min n (ar_size_bytes reference)) in
     sbind (dav_get http base (posix_path (ar_path reference)) (Some limit)) (\<lambda>response.
     sbind (lift (raise_if (int (length (rs_content response)) \<noteq> ar_size_bytes reference
         \<or> sha256_bytes (rs_content response) \<noteq> ar_sha256 reference)
       (ArtifactContractError ''CAS object bytes do not match their artifact reference''))) (\<lambda>_.
     ret (rs_content response))))"

definition verify_member :: "'w http \<Rightarrow> base_url \<Rightarrow> ArtifactRef \<Rightarrow> ('w, VerifiedArtifact) dav_op" where
  "verify_member http base reference =
     verify http base (posix_path (ar_path reference)) (ar_sha256 reference) (ar_size_bytes reference) None"

definition download_member :: "'w http \<Rightarrow> base_url \<Rightarrow> ArtifactRef \<Rightarrow> local_target \<Rightarrow> ('w, VerifiedArtifact) dav_op" where
  "download_member http base reference destination =
     download http base (posix_path (ar_path reference)) destination (Some (ar_sha256 reference)) (Some (ar_size_bytes reference)) None"

definition verify_object :: "'w http \<Rightarrow> base_url \<Rightarrow> ArtifactRef \<Rightarrow> ('w, VerifiedArtifact) dav_op" where
  "verify_object http base reference =
     sbind (lift (check_object_path reference)) (\<lambda>_. verify_member http base reference)"

definition download_object :: "'w http \<Rightarrow> base_url \<Rightarrow> ArtifactRef \<Rightarrow> local_target \<Rightarrow> ('w, VerifiedArtifact) dav_op" where
  "download_object http base reference destination =
     sbind (lift (check_object_path reference)) (\<lambda>_. download_member http base reference destination)"

definition selected ::
  "pydantic \<Rightarrow> 'w http \<Rightarrow> base_url \<Rightarrow> path \<Rightarrow> CurrentGeneration option \<Rightarrow> ('w, CurrentGeneration) dav_op"
where
  "selected px http base pointer_path current =
     (case current of Some c \<Rightarrow> ret c | None \<Rightarrow> read_current_generation px http base pointer_path)"

definition check_database_path :: "CurrentGeneration \<Rightarrow> ArtifactRef result" where
  "check_database_path c =
     rbind (generation_database_path (gm_generation_id (cg_manifest c))) (\<lambda>p.
     rbind (raise_if (posix_path (ar_path (gm_serving_database (cg_manifest c))) \<noteq> p)
       (ArtifactContractError ''serving database path does not match its generation'')) (\<lambda>_.
     Inr (gm_serving_database (cg_manifest c))))"

definition verify_serving_database ::
  "pydantic \<Rightarrow> 'w http \<Rightarrow> base_url \<Rightarrow> path \<Rightarrow> CurrentGeneration option \<Rightarrow> ('w, VerifiedArtifact) dav_op"
where
  "verify_serving_database px http base pointer_path current =
     sbind (selected px http base pointer_path current) (\<lambda>c.
     sbind (lift (check_database_path c)) (\<lambda>database. verify_member http base database))"

definition download_serving_database ::
  "pydantic \<Rightarrow> 'w http \<Rightarrow> base_url \<Rightarrow> path \<Rightarrow> local_target \<Rightarrow> CurrentGeneration option \<Rightarrow> ('w, VerifiedArtifact) dav_op"
where
  "download_serving_database px http base pointer_path destination current =
     sbind (selected px http base pointer_path current) (\<lambda>c.
     sbind (lift (check_database_path c)) (\<lambda>database. download_member http base database destination))"

definition check_vector_sidecar :: "CurrentGeneration \<Rightarrow> ArtifactRef result" where
  "check_vector_sidecar c =
     (case gm_vector_sidecar (cg_manifest c) of
        None \<Rightarrow> Inl (ArtifactContractError ''selected generation has no v5 vector sidecar'')
      | Some sidecar \<Rightarrow>
          let artifact = sc_artifact sidecar in
          rbind (raise_if (\<not> v5_schema (gm_schema_version (cg_manifest c)))
            (ArtifactContractError ''selected generation has no v5 vector sidecar'')) (\<lambda>_.
          rbind (generation_vectors_path (gm_generation_id (cg_manifest c))) (\<lambda>p.
          rbind (raise_if (posix_path (ar_path artifact) \<noteq> p)
            (ArtifactContractError ''vector sidecar path does not match its generation'')) (\<lambda>_.
          rbind (raise_if (gr_vector_sidecar_sha256 (cg_ready c) \<noteq> Some (ar_sha256 artifact)
              \<or> gr_vector_sidecar_size_bytes (cg_ready c) \<noteq> Some (ar_size_bytes artifact))
            (ArtifactContractError ''generation READY does not bind the vector sidecar'')) (\<lambda>_.
          Inr artifact)))))"

definition verify_vector_sidecar ::
  "pydantic \<Rightarrow> 'w http \<Rightarrow> base_url \<Rightarrow> path \<Rightarrow> CurrentGeneration option \<Rightarrow> ('w, VerifiedArtifact) dav_op"
where
  "verify_vector_sidecar px http base pointer_path current =
     sbind (selected px http base pointer_path current) (\<lambda>c.
     sbind (lift (check_vector_sidecar c)) (\<lambda>artifact. verify_member http base artifact))"

definition download_vector_sidecar ::
  "pydantic \<Rightarrow> 'w http \<Rightarrow> base_url \<Rightarrow> path \<Rightarrow> local_target \<Rightarrow> CurrentGeneration option \<Rightarrow> ('w, VerifiedArtifact) dav_op"
where
  "download_vector_sidecar px http base pointer_path destination current =
     sbind (selected px http base pointer_path current) (\<lambda>c.
     sbind (lift (check_vector_sidecar c)) (\<lambda>artifact. download_member http base artifact destination))"

section \<open>What a reader sees in a store\<close>

text \<open>
  \<open>view\<close> is the reader without requests: the generation that the bytes of a store describe.  On a server that holds
  those bytes (\<open>mem_http\<close>) the reader returns exactly it.
\<close>

definition control_at :: "base_url \<Rightarrow> (string \<Rightarrow> bytes option) \<Rightarrow> path \<Rightarrow> bytes result" where
  "control_at base w path =
     (case w (address base path) of
        None \<Rightarrow> Inl (WebDAVHTTPError ''GET'' path 404)
      | Some b \<Rightarrow> if int (length b) > control_file_limit
          then Inl (WebDAVIntegrityError (''WebDAV object '' @ as_posix path @ '' exceeds the read limit'')) else Inr b)"

definition view :: "pydantic \<Rightarrow> base_url \<Rightarrow> path \<Rightarrow> (string \<Rightarrow> bytes option) \<Rightarrow> CurrentGeneration result" where
  "view px base pointer_path w =
     rbind (control_at base w pointer_path) (\<lambda>pointer_body.
     rbind (parse_canonical px (px_pointer px) MPointer pointer_body ''stable generation pointer'') (\<lambda>pointer.
     rbind (generation_ready_path (gt_generation_id pointer)) (\<lambda>ready_path.
     rbind (control_at base w ready_path) (\<lambda>ready_body.
     rbind (parse_canonical px (px_ready px) MReady ready_body ''generation READY'') (\<lambda>ready.
     rbind (raise_if (gr_generation_id ready \<noteq> gt_generation_id pointer) (ArtifactContractError ''generation READY ID does not match its path'')) (\<lambda>_.
     rbind (raise_if (sha256_bytes ready_body \<noteq> gt_ready_sha256 pointer) (ArtifactContractError ''stable pointer does not bind generation READY'')) (\<lambda>_.
     rbind (raise_if (gr_manifest_sha256 ready \<noteq> gt_manifest_sha256 pointer)
       (ArtifactContractError ''stable pointer and generation READY disagree on manifest'')) (\<lambda>_.
     rbind (generation_manifest_path (gt_generation_id pointer)) (\<lambda>manifest_path.
     rbind (control_at base w manifest_path) (\<lambda>manifest_body.
     rbind (raise_if (sha256_bytes manifest_body \<noteq> gr_manifest_sha256 ready)
       (ArtifactContractError ''generation manifest SHA-256 does not match READY'')) (\<lambda>_.
     rbind (parse_canonical px (px_manifest px) MManifest manifest_body ''generation manifest'') (\<lambda>manifest.
     rbind (raise_if (gm_generation_id manifest \<noteq> gt_generation_id pointer)
       (ArtifactContractError ''generation manifest ID does not match its path'')) (\<lambda>_.
     rbind (raise_if (gr_serving_database_sha256 ready \<noteq> ar_sha256 (gm_serving_database manifest)
         \<or> gr_serving_database_size_bytes ready \<noteq> ar_size_bytes (gm_serving_database manifest))
       (ArtifactContractError ''generation READY does not bind the serving database'')) (\<lambda>_.
     rbind (check_sidecar_binding ready manifest) (\<lambda>_.
     Inr \<lparr>cg_pointer = pointer, cg_ready = ready, cg_manifest = manifest\<rparr>)))))))))))))))"

lemma runs_result:
  assumes "runs m w r w" "\<And>x. r = Inr x \<Longrightarrow> runs (f x) w (g x) w"
  shows "runs (sbind m f) w (rbind r g) w"
  using assms by (cases r) (auto intro: runs_sbind runs_sbind_Inl)

lemma runs_lift_result: "(\<And>x. r = Inr x \<Longrightarrow> runs (f x) w (g x) w) \<Longrightarrow> runs (sbind (lift r) f) w (rbind r g) w"
  by (rule runs_result) (auto simp: runs_def lift_def)

lemma runs_lifted: "runs (lift r) w r w"
  by (simp add: runs_def lift_def)

lemma runs_get_control: "plain_path p \<Longrightarrow> runs (get_control mem_http base p) w (control_at base w p) w"
  by (auto simp: runs_def get_control_def dav_get_def stream_get_def sbind_def lift_def exchange_def ret_def raise_def
      mem_answers control_at_def control_file_limit_def split: option.splits)

lemma sbind_assoc: "sbind (sbind m f) g = sbind m (\<lambda>x. sbind (f x) g)"
  by (rule ext) (auto simp: sbind_def split: prod.splits sum.splits)

lemma sbind_ret: "sbind (ret x) f = f x"
  by (rule ext) (simp add: sbind_def ret_def)

lemma generation_control_plain:
  "generation_ready_path g = Inr p \<Longrightarrow> plain_path p" "generation_manifest_path g = Inr p \<Longrightarrow> plain_path p"
  by (auto simp: generation_root_path_Inr generation_ready_path_def generation_manifest_path_def plain_path_def safe_id_segment)

lemma runs_read_current:
  assumes "plain_path pointer_path"
  shows "runs (read_current_generation px mem_http base pointer_path) w (view px base pointer_path w) w"
  unfolding read_current_generation_def read_stable_pointer_def read_generation_ready_def read_generation_manifest_def view_def
    sbind_assoc sbind_ret prod.case option.case
  by (intro runs_lift_result runs_result [OF runs_get_control] assms runs_ret generation_control_plain | assumption)+

text \<open>The three control objects of a readable generation, and what they have to satisfy together.\<close>

definition binds :: "pydantic \<Rightarrow> bytes \<Rightarrow> bytes \<Rightarrow> bytes \<Rightarrow> CurrentGeneration \<Rightarrow> bool" where
  "binds px pointer_body ready_body manifest_body c \<longleftrightarrow>
     parse_canonical px (px_pointer px) MPointer pointer_body ''stable generation pointer'' = Inr (cg_pointer c)
     \<and> parse_canonical px (px_ready px) MReady ready_body ''generation READY'' = Inr (cg_ready c)
     \<and> parse_canonical px (px_manifest px) MManifest manifest_body ''generation manifest'' = Inr (cg_manifest c)
     \<and> gr_generation_id (cg_ready c) = gt_generation_id (cg_pointer c) \<and> gm_generation_id (cg_manifest c) = gt_generation_id (cg_pointer c)
     \<and> sha256_bytes ready_body = gt_ready_sha256 (cg_pointer c) \<and> gr_manifest_sha256 (cg_ready c) = gt_manifest_sha256 (cg_pointer c)
     \<and> sha256_bytes manifest_body = gr_manifest_sha256 (cg_ready c)
     \<and> gr_serving_database_sha256 (cg_ready c) = ar_sha256 (gm_serving_database (cg_manifest c))
     \<and> gr_serving_database_size_bytes (cg_ready c) = ar_size_bytes (gm_serving_database (cg_manifest c))
     \<and> check_sidecar_binding (cg_ready c) (cg_manifest c) = Inr ()"

lemma view_Inr:
  "view px base pp w = Inr c \<longleftrightarrow> (\<exists>pb rb mb rp mp. control_at base w pp = Inr pb
     \<and> generation_ready_path (gt_generation_id (cg_pointer c)) = Inr rp \<and> control_at base w rp = Inr rb
     \<and> generation_manifest_path (gt_generation_id (cg_pointer c)) = Inr mp \<and> control_at base w mp = Inr mb
     \<and> binds px pb rb mb c)"
  by (cases c) (auto simp: view_def binds_def)

text \<open>A generation that is readable in one store is readable in every store that still holds its control objects.\<close>

lemma view_mono:
  assumes "view px base pp w = Inr c" "channel_pointer_path ch = Inr pp"
    and keep: "\<And>p b. \<lbrakk>plain_path p; take 2 p \<noteq> [''v1'', ''.incoming'']; w (address base p) = Some b\<rbrakk> \<Longrightarrow> w' (address base p) = Some b"
  shows "view px base pp w' = Inr c"
proof -
  have pp: "plain_path pp" "take 2 pp \<noteq> [''v1'', ''.incoming'']"
    using assms(2) by (auto simp: channel_pointer_path_def plain_path_def json_suffix)
  have get: "control_at base w p = Inr b \<Longrightarrow> control_at base w' p = Inr b" if "plain_path p" "take 2 p \<noteq> [''v1'', ''.incoming'']" for p b
    using keep [OF that] by (auto simp: control_at_def split: option.splits if_splits)
  have ctl: "generation_ready_path g = Inr p \<Longrightarrow> control_at base w p = Inr b \<Longrightarrow> control_at base w' p = Inr b"
    "generation_manifest_path g = Inr p \<Longrightarrow> control_at base w p = Inr b \<Longrightarrow> control_at base w' p = Inr b" for g p b
    using get [OF generation_control_plain(1)] get [OF generation_control_plain(2)]
    by (auto simp: generation_root_path_Inr generation_ready_path_def generation_manifest_path_def)
  show ?thesis using assms(1) unfolding view_Inr by (blast intro: get [OF pp] ctl)
qed

end
