(* ===== verification/Store.thy ===== *)
theory Store
  imports Cas
begin

text \<open>
  What the publishers rely on when they talk to a WebDAV server, and what they then do to its objects.

  A server is \<open>honest\<close> if a request either has the effect WebDAV gives it or none at all, whatever is answered, and if
  a complete answer to a \<open>GET\<close> is the object's content.  So a request may be lost before or after it took effect, an
  answer may be lost or be an error, and a server that is cut off for good after any number of requests is honest
  too: a statement about every honest server covers a crash of the publisher at any point.
\<close>

type_synonym objects = "string \<Rightarrow> bytes option"

definition effect :: "http_request \<Rightarrow> objects \<Rightarrow> objects" where
  "effect rq st =
     (let u = rq_url rq; m = rq_method rq in
      if m = ''PUT'' then
        (if map_of (rq_headers rq) ''If-None-Match'' = Some ''*'' \<and> st u \<noteq> None then st else st(u := rq_content rq))
      else if m = ''MOVE'' then
        (let d = the (map_of (rq_headers rq) ''Destination'') in
         if st u = None \<or> map_of (rq_headers rq) ''Overwrite'' = Some ''F'' \<and> st d \<noteq> None then st
         else st(d := st u, u := None))
      else if m = ''DELETE'' then st(u := None)
      else st)"

text \<open>
  \<open>keeping store I m Q\<close>: \<open>m\<close> keeps the assertion \<open>I\<close> on the objects however it ends, and a value it returns satisfies \<open>Q\<close>.
\<close>

definition keeping :: "('w \<Rightarrow> 'st) \<Rightarrow> ('st \<Rightarrow> bool) \<Rightarrow> ('w, 'a) dav_op \<Rightarrow> ('a \<Rightarrow> 'st \<Rightarrow> bool) \<Rightarrow> bool" where
  "keeping store I m Q \<longleftrightarrow> valid (\<lambda>s. I (store (dav_world s))) m
     (\<lambda>x s. I (store (dav_world s)) \<and> Q x (store (dav_world s))) (\<lambda>_ s. I (store (dav_world s)))"

abbreviation kept :: "('w \<Rightarrow> 'st) \<Rightarrow> ('st \<Rightarrow> bool) \<Rightarrow> ('w, 'a) dav_op \<Rightarrow> bool" where
  "kept store I m \<equiv> keeping store I m (\<lambda>_ _. True)"

named_theorems keeping_intros \<open>rules for assertions on the objects of a server\<close>

lemma keeping_sbind_post:
  assumes "keeping store I m R" "\<And>x. keeping store (\<lambda>st. I st \<and> R x st) (f x) Q"
  shows "keeping store I (sbind m f) Q"
  unfolding keeping_def
  by (rule valid_sbind [OF assms(1) [unfolded keeping_def]], rule valid_weaken [OF assms(2) [unfolded keeping_def]]) auto

lemma keeping_sbind [keeping_intros]:
  assumes "kept store I m" "\<And>x. keeping store I (f x) Q"
  shows "keeping store I (sbind m f) Q"
  using assms by (auto intro: keeping_sbind_post)

lemma keeping_sbind_lift [keeping_intros]: "(\<And>x. r = Inr x \<Longrightarrow> keeping store I (f x) Q) \<Longrightarrow> keeping store I (sbind (lift r) f) Q"
  by (cases r) (auto simp: keeping_def valid_def sbind_def lift_def)

lemma keeping_ret [keeping_intros]: "(\<And>st. I st \<Longrightarrow> Q x st) \<Longrightarrow> keeping store I (ret x) Q"
  by (auto simp: keeping_def valid_def ret_def)

lemma keeping_raise [keeping_intros]: "keeping store I (raise e) Q"
  by (auto simp: keeping_def valid_def raise_def)

lemma keeping_lift [keeping_intros]: "(\<And>x st. r = Inr x \<Longrightarrow> I st \<Longrightarrow> Q x st) \<Longrightarrow> keeping store I (lift r) Q"
  by (cases r) (auto simp: keeping_def valid_def lift_def)

lemma keeping_catch [keeping_intros]:
  assumes "keeping store I m Q" "\<And>e. keeping store I (h e) Q"
  shows "keeping store I (catch m h) Q"
  using assms unfolding keeping_def by (rule valid_catch)

lemma keeping_suppress [keeping_intros]: "kept store I m \<Longrightarrow> kept store I (suppress m)"
  unfolding keeping_def by (erule valid_suppress [OF valid_weaken]) auto

lemma keeping_sfor [keeping_intros]: "(\<And>x. x \<in> set xs \<Longrightarrow> kept store I (f x)) \<Longrightarrow> kept store I (sfor f xs)"
  unfolding keeping_def by (rule valid_weaken [OF valid_sfor]) auto

lemma keeping_if [keeping_intros]:
  "(b \<Longrightarrow> keeping store I m Q) \<Longrightarrow> (\<not> b \<Longrightarrow> keeping store I n Q) \<Longrightarrow> keeping store I (if b then m else n) Q"
  by simp

lemma keeping_weaken: "keeping store I m R \<Longrightarrow> (\<And>x st. I st \<Longrightarrow> R x st \<Longrightarrow> Q x st) \<Longrightarrow> keeping store I m Q"
  unfolding keeping_def by (erule valid_weaken) auto

lemma keepingD:
  assumes "keeping store I m Q" "m s = (r, s')" "I (store (dav_world s))"
  shows "I (store (dav_world s')) \<and> (\<forall>x. r = Inr x \<longrightarrow> Q x (store (dav_world s')))"
  using assms by (cases r) (auto simp: keeping_def dest: valid_Inr valid_Inl)

definition transit :: "(string \<Rightarrow> bytes option \<Rightarrow> bool) \<Rightarrow> (bytes \<Rightarrow> bool) \<Rightarrow> string \<Rightarrow> string \<Rightarrow> bool" where
  "transit ok C T D \<longleftrightarrow> ok T None \<and> (\<forall>b. C b \<longrightarrow> ok T (Some b)) \<and> (\<forall>b. ok T (Some b) \<longrightarrow> ok D None \<longrightarrow> ok D (Some b))"

section \<open>The contract of a server\<close>

locale honest_server =
  fixes http :: "'w http" and store :: "'w \<Rightarrow> objects"
  assumes effect_or_none: "http rq w = (r, w') \<Longrightarrow> store w' = store w \<or> store w' = effect rq (store w)"
    and truthful: "http rq w = (HttpResponse 200 rh chunks False, w') \<Longrightarrow> rq_method rq = ''GET'' \<Longrightarrow> store w (rq_url rq) = Some (concat chunks)"
begin

lemma keeping_exchange:
  assumes "\<And>st. I st \<Longrightarrow> I (effect rq st)"
  shows "kept store I (exchange http rq)"
  unfolding keeping_def valid_def exchange_def
  using assms effect_or_none by (fastforce split: prod.splits)

lemma keeping_get:
  assumes "rq_method rq = ''GET''"
  shows "keeping store I (exchange http rq) (\<lambda>r st. \<forall>rh chunks. r = HttpResponse 200 rh chunks False \<longrightarrow> st (rq_url rq) = Some (concat chunks))"
  unfolding keeping_def valid_def exchange_def
proof (intro allI impI, clarsimp split: prod.splits)
  fix s :: "'w dav" and r w' assume I: "I (store (dav_world s))" and run: "http rq (dav_world s) = (r, w')"
  have "store w' = store (dav_world s)" using effect_or_none [OF run] assms by (auto simp: effect_def)
  with I run assms truthful show "I (store w') \<and> (\<forall>rh chunks. r = HttpResponse 200 rh chunks False \<longrightarrow> store w' (rq_url rq) = Some (concat chunks))"
    by auto
qed

lemma keeping_request:
  assumes "plain_path p"
    and "\<And>st. I st \<Longrightarrow> I (effect \<lparr>rq_method = m, rq_url = address base p, rq_headers = hdrs, rq_content = c\<rparr> st)"
  shows "kept store I (request http base m p expected hdrs c)"
  unfolding request_def using assms
  by (auto intro!: keeping_intros keeping_exchange split: http_result.splits)

lemma keeping_quiet:
  assumes "plain_path p" "m \<notin> {''PUT'', ''MOVE'', ''DELETE''}"
  shows "kept store I (request http base m p expected hdrs c)"
  by (rule keeping_request [OF assms(1)]) (use assms(2) in \<open>auto simp: effect_def\<close>)

lemma keeping_exists [keeping_intros]: "plain_path p \<Longrightarrow> kept store I (exists http base p)"
  unfolding exists_def head_def by (auto intro!: keeping_intros keeping_quiet split: exn.splits prod.splits)

lemma keeping_ensure_parent [keeping_intros]:
  assumes "plain_path p"
  shows "kept store I (ensure_collection http base (butlast p))"
proof -
  have "plain_path q" if "validate_path (butlast p) = Inr q" for q using validate_path_Inr [OF that] by simp
  then have "plain_path (take (Suc i) q)" if "validate_path (butlast p) = Inr q" "i < length q" for q i
    using that by (fastforce simp: plain_path_def list_all_iff dest: in_set_takeD)
  then show ?thesis
    unfolding ensure_collection_def mkcol_def
    by (auto intro!: keeping_intros keeping_quiet split: prod.splits)
qed

lemma keeping_stream_get:
  assumes "plain_path p"
  shows "keeping store I (stream_get http base p cap e) (\<lambda>r st. st (address base p) = Some (snd r))"
  unfolding stream_get_def
proof (rule keeping_sbind_lift, rule keeping_sbind_post [OF keeping_get], simp, goal_cases)
  case (1 u r)
  with assms have "u = address base p" by simp
  then show ?case by (auto intro!: keeping_raise keeping_ret dest: read_chunks_concat split: http_result.splits option.splits)
qed

lemma keeping_verify:
  assumes "plain_path p"
  shows "keeping store I (verify http base p digest sz None)
     (\<lambda>_ st. \<exists>b. st (address base p) = Some b \<and> sha256_bytes b = digest \<and> int (length b) = sz)"
proof -
  have "keeping store I (verify_with_metadata http base p digest sz None)
     (\<lambda>_ st. \<exists>b. st (address base p) = Some b \<and> sha256_bytes b = digest \<and> int (length b) = sz)"
    unfolding verify_with_metadata_def Let_def option.case
  proof ((rule keeping_sbind_lift)+, goal_cases)
    case (1 relative trusted u v)
    then have eqs: "relative = p" "trusted = digest" using assms by auto
    show ?case unfolding eqs
      by (rule keeping_sbind_post [OF keeping_stream_get [OF assms]]) (auto intro!: keeping_sbind_lift keeping_ret)
  qed
  then show ?thesis unfolding verify_def by (rule keeping_sbind_post) (auto intro: keeping_ret)
qed

lemma keeping_put:
  assumes "plain_path p" "keeping store I content (\<lambda>b _. C b)"
    and "\<And>st b. I st \<Longrightarrow> C b \<Longrightarrow> st (address base p) = None \<Longrightarrow> I (st(address base p := Some b))"
  shows "kept store I (put http base p content mt True)"
  unfolding put_def Let_def
proof (rule keeping_sbind_lift, rule keeping_sbind_post [OF assms(2)])
  fix relative payload assume "validate_path p = Inr relative"
  with assms(1) have eq: "relative = p" by simp
  have "kept store (\<lambda>st. I st \<and> C payload) (request http base ''PUT'' p [200, 201, 204]
      ((''Content-Type'', mt) # (if True then [(''If-None-Match'', ''*'')] else [])) (Some payload))"
    by (rule keeping_request [OF assms(1)]) (use assms(3) in \<open>auto simp: effect_def Let_def\<close>)
  then show "kept store (\<lambda>st. I st \<and> C payload) (sbind (request http base ''PUT'' relative [200, 201, 204]
      ((''Content-Type'', mt) # (if True then [(''If-None-Match'', ''*'')] else [])) (Some payload))
      (\<lambda>(status, rh, _). ret \<lparr>st_path = relative, st_status_code = status,
          st_size_bytes = (case map_of rh ''content-length'' of None \<Rightarrow> None
             | Some raw \<Rightarrow> if isdigit raw then Some (int (nat_of_digits raw)) else None),
          st_etag = map_of rh ''etag'', st_last_modified = map_of rh ''last-modified''\<rparr>))"
    unfolding eq by (rule keeping_sbind) (auto intro: keeping_ret)
qed

lemma keeping_move:
  assumes "plain_path p" "plain_path q"
    and "\<And>st b. I st \<Longrightarrow> st (address base p) = Some b \<Longrightarrow> ov \<or> st (address base q) = None
      \<Longrightarrow> I (st(address base q := Some b, address base p := None))"
  shows "kept store I (move http base p q ov)"
  unfolding move_def
proof ((rule keeping_sbind_lift)+, goal_cases)
  case (1 src dst v)
  with assms(1,2) have eqs: "src = p" "dst = q" "v = address base q" by auto
  have "kept store I (request http base ''MOVE'' p [201, 204] [(''Destination'', address base q), (''Overwrite'', if ov then ''T'' else ''F'')] None)"
    by (rule keeping_request [OF assms(1)]) (use assms(3) in \<open>auto simp: effect_def Let_def\<close>)
  then show ?case unfolding eqs by (rule keeping_sbind) (auto intro: keeping_ret)
qed

lemma keeping_delete:
  assumes "plain_path p" "\<And>st. I st \<Longrightarrow> I (st(address base p := None))"
  shows "kept store I (delete http base p ok)"
  unfolding delete_def
  by (auto intro!: keeping_intros keeping_request assms simp: assms(1) effect_def)

text \<open>
  A publication brings bytes to its destination by way of a temporary object.  \<open>transit ok C T D\<close> says that a
  pointwise assertion \<open>ok\<close> on the objects allows this: \<open>T\<close> may be absent or hold any bytes of \<open>C\<close>, and whatever it may
  hold may appear at an absent \<open>D\<close>.
\<close>

lemma keeping_publish_new:
  assumes fresh: "safe_id fresh" and d: "plain_path d"
    and T: "T = address (pb_base pb) (incoming_path ''publish'' fresh)" and D: "D = address (pb_base pb) d" and "T \<noteq> D"
    and ok: "transit ok C T D" and content: "\<And>I. keeping store I content (\<lambda>b _. C b)" and pre: "\<And>I. kept store I pre_commit"
  shows "keeping store (\<lambda>st. \<forall>u. ok u (st u)) (publish_new http pb fresh d digest sz mt content pre_commit)
     (\<lambda>_ st. \<exists>b. st D = Some b \<and> sha256_bytes b = digest \<and> int (length b) = sz)"
proof -
  let ?t = "incoming_path ''publish'' fresh" and ?I = "\<lambda>st. \<forall>u. ok u (st u)"
  let ?Q = "\<lambda>_ :: unit. \<lambda>st. \<exists>b. st D = Some b \<and> sha256_bytes b = digest \<and> int (length b) = sz"
  have t: "plain_path ?t" by (rule incoming_plain [OF fresh]) simp
  have put: "kept store ?I (put http (pb_base pb) ?t content mt True)"
    by (rule keeping_put [OF t content]) (use ok T in \<open>auto simp: transit_def\<close>)
  have mv: "kept store ?I (move http (pb_base pb) ?t d False)"
  proof (rule keeping_move [OF t d], unfold T [symmetric] D [symmetric], intro allI)
    fix st b u assume st: "\<forall>u. ok u (st u)" "st T = Some b" "False \<or> st D = None"
    then have "ok T (Some b)" "ok D None" by (metis, metis)
    with ok st(1) show "ok u ((st(D := Some b, T := None)) u)" by (auto simp: transit_def)
  qed
  have del: "kept store I (delete http (pb_base pb) ?t True)" if "\<And>st. I st \<Longrightarrow> I (st(T := None))" for I
    using that by (intro keeping_delete [OF t]) (auto simp: T)
  have keep: "kept store ?I (delete http (pb_base pb) ?t True)" "kept store (\<lambda>st. ?I st \<and> ?Q () st) (delete http (pb_base pb) ?t True)"
    by (rule del; use ok \<open>T \<noteq> D\<close> in \<open>auto simp: transit_def\<close>)+
  have ver: "keeping store ?I (sbind (verify_remote http pb d digest sz) (\<lambda>_. ret ())) ?Q"
    unfolding verify_remote_def D by (rule keeping_sbind_post [OF keeping_verify [OF d]]) (auto intro: keeping_ret)
  have vt: "kept store ?I (verify_temporary http pb ?t digest sz)"
    unfolding verify_temporary_def verify_remote_def
    by (auto intro!: keeping_ret keeping_sbind keeping_weaken [OF keeping_verify [OF t]])
  have commit: "kept store ?I (commit_move http pb ?t d)"
    unfolding commit_move_def by (auto intro!: keeping_intros mv d split: exn.splits)
  have body: "keeping store ?I (catch (sbind (put http (pb_base pb) ?t content mt True) (\<lambda>_.
        sbind (verify_temporary http pb ?t digest sz) (\<lambda>_.
        sbind pre_commit (\<lambda>_.
        sbind (commit_move http pb ?t d) (\<lambda>_.
        sbind (verify_remote http pb d digest sz) (\<lambda>_. ret ()))))))
       (\<lambda>e. sbind (suppress (delete http (pb_base pb) ?t True)) (\<lambda>_. raise e))) ?Q"
    by (intro keeping_catch keeping_sbind put vt pre commit ver keeping_suppress keep keeping_raise)
  have drop: "keeping store (\<lambda>st. ?I st \<and> ?Q x st) (suppress (delete http (pb_base pb) ?t True)) ?Q" for x
    by (rule keeping_weaken [OF keeping_suppress [OF keep(2)]]) simp
  show ?thesis
    unfolding publish_new_def Let_def
    by (intro keeping_sbind keeping_ensure_parent d t keeping_sbind_post [OF body drop])
qed

lemma keeping_publish:
  assumes fresh: "safe_id fresh" and d: "plain_path d"
    and T: "T = address (pb_base pb) (incoming_path ''publish'' fresh)" and D: "D = address (pb_base pb) d" and "T \<noteq> D"
    and ok: "transit ok C T D" and content: "\<And>I. keeping store I content (\<lambda>b _. C b)" and pre: "\<And>I. kept store I pre_commit"
  shows "keeping store (\<lambda>st. \<forall>u. ok u (st u)) (publish http pb fresh d digest sz mt content pre_commit)
     (\<lambda>r st. artifact_ref digest sz mt (as_posix d) = Inr r \<and> (\<exists>b. st D = Some b \<and> sha256_bytes b = digest \<and> int (length b) = sz))"
  unfolding publish_def
proof ((rule keeping_sbind_lift)+, rule keeping_sbind [OF keeping_exists], goal_cases)
  case (1 destination u)
  then show ?case by (auto dest: validate_path_Inr)
next
  case (2 destination u there)
  let ?I = "\<lambda>st. \<forall>u. ok u (st u)" and ?Q = "\<lambda>st. \<exists>b. st D = Some b \<and> sha256_bytes b = digest \<and> int (length b) = sz"
  from 2 d have eq: "destination = d" by simp
  have "keeping store ?I (sbind (verify_remote http pb d digest sz) (\<lambda>_. ret ())) (\<lambda>_. ?Q)"
    unfolding verify_remote_def D by (rule keeping_sbind_post [OF keeping_verify [OF d]]) (auto intro: keeping_ret)
  then have "keeping store ?I (if there then sbind (verify_remote http pb d digest sz) (\<lambda>_. ret ())
      else publish_new http pb fresh d digest sz mt content pre_commit) (\<lambda>_. ?Q)"
    using keeping_publish_new [OF assms] by simp
  then show ?case unfolding eq by (rule keeping_sbind_post) (auto intro: keeping_lift)
qed

lemma keeping_publish_bytes:
  assumes "safe_id fresh" "plain_path d" "T = address (pb_base pb) (incoming_path ''publish'' fresh)" "D = address (pb_base pb) d" "T \<noteq> D"
    and "transit ok (\<lambda>b. b = payload) T D"
  shows "keeping store (\<lambda>st. \<forall>u. ok u (st u)) (publish_bytes http pb fresh d payload mt)
     (\<lambda>r st. artifact_ref (sha256_bytes payload) (int (length payload)) mt (as_posix d) = Inr r
        \<and> (\<exists>b. st D = Some b \<and> sha256_bytes b = sha256_bytes payload \<and> int (length b) = int (length payload)))"
  unfolding publish_bytes_def
proof (rule keeping_sbind_lift, goal_cases)
  case (1 relative)
  with assms(2) have "relative = d" by simp
  show ?case unfolding \<open>relative = d\<close> by (rule keeping_publish [OF assms]) (auto intro: keeping_ret)
qed

text \<open>
  The replacement of a pointer: the temporary object only ever holds the payload, and the pointer is either left alone
  or set to the payload.
\<close>

lemma keeping_atomic_replace:
  assumes fresh: "safe_id fresh" and d: "channel_pointer_path channel = Inr d"
    and T: "T = address (pb_base pb) (incoming_path ''channels'' fresh)" and D: "D = address (pb_base pb) d" and "T \<noteq> D"
    and ok: "ok T None" "\<And>b. ok T (Some b) \<longleftrightarrow> b = payload" "ok D (Some payload)"
  shows "keeping store (\<lambda>st. \<forall>u. ok u (st u)) (atomic_replace_bytes http pb fresh channel payload mt)
     (\<lambda>r st. artifact_ref (sha256_bytes payload) (int (length payload)) mt (as_posix d) = Inr r
        \<and> (\<exists>b. st D = Some b \<and> sha256_bytes b = sha256_bytes payload))"
proof -
  let ?t = "incoming_path ''channels'' fresh" and ?I = "\<lambda>st. \<forall>u. ok u (st u)" and ?g = "sha256_bytes payload" and ?n = "int (length payload)"
  let ?Q = "\<lambda>_ :: unit. \<lambda>st. \<exists>b. st D = Some b \<and> sha256_bytes b = ?g"
  have t: "plain_path ?t" by (rule incoming_plain [OF fresh]) simp
  have dp: "plain_path d" using d by (auto simp: channel_pointer_path_def plain_path_def json_suffix)
  have put: "kept store ?I (put http (pb_base pb) ?t (ret payload) mt True)"
    by (rule keeping_put [OF t, where C = "\<lambda>b. b = payload"]) (use ok T in \<open>auto intro: keeping_ret\<close>)
  have mv: "kept store ?I (move http (pb_base pb) ?t d True)"
  proof (rule keeping_move [OF t dp], unfold T [symmetric] D [symmetric], intro allI)
    fix st b u assume st: "\<forall>u. ok u (st u)" "st T = Some b"
    then have "b = payload" using ok(2) by metis
    with ok st(1) show "ok u ((st(D := Some b, T := None)) u)" by auto
  qed
  have del: "kept store I (delete http (pb_base pb) ?t True)" if "\<And>st. I st \<Longrightarrow> I (st(T := None))" for I
    using that by (intro keeping_delete [OF t]) (auto simp: T)
  have keep: "kept store ?I (delete http (pb_base pb) ?t True)" "kept store (\<lambda>st. ?I st \<and> ?Q () st) (delete http (pb_base pb) ?t True)"
    by (rule del; use ok \<open>T \<noteq> D\<close> in auto)+
  have vt: "kept store ?I (verify_remote http pb ?t ?g ?n)"
    unfolding verify_remote_def by (rule keeping_weaken [OF keeping_verify [OF t]]) simp
  have ver: "keeping store ?I (sbind (verify_remote http pb d ?g ?n) (\<lambda>_. ret ())) ?Q"
    unfolding verify_remote_def D by (rule keeping_sbind_post [OF keeping_verify [OF dp]]) (auto intro: keeping_ret)
  have body: "keeping store ?I (catch (sbind (put http (pb_base pb) ?t (ret payload) mt True) (\<lambda>_.
        sbind (verify_remote http pb ?t ?g ?n) (\<lambda>_.
        sbind (move http (pb_base pb) ?t d True) (\<lambda>_.
        sbind (verify_remote http pb d ?g ?n) (\<lambda>_. ret ())))))
       (\<lambda>e. sbind (suppress (delete http (pb_base pb) ?t True)) (\<lambda>_. raise e))) ?Q"
    by (intro keeping_catch keeping_sbind put vt mv ver keeping_suppress keep keeping_raise)
  have fin: "keeping store (\<lambda>st. ?I st \<and> ?Q x st) (sbind (suppress (delete http (pb_base pb) ?t True))
      (\<lambda>_. lift (artifact_ref ?g ?n mt (as_posix d)))) (\<lambda>r st. artifact_ref ?g ?n mt (as_posix d) = Inr r \<and> ?Q () st)" for x
    by (rule keeping_sbind [OF keeping_suppress [OF keep(2)]]) (auto intro: keeping_lift)
  show ?thesis
    unfolding atomic_replace_bytes_def Let_def d
    by (rule keeping_sbind_lift, simp, intro keeping_sbind keeping_ensure_parent dp t keeping_sbind_post [OF body fin])
qed

end

section \<open>Publication of files\<close>

text \<open>The local file system, whatever it answers, does not reach the server's objects.\<close>

locale honest_publisher = honest_server http store for http :: "'w http" and store +
  fixes os :: "'w os_env"
  assumes os_apart: "store (snd (os_open os f w)) = store w" "store (snd (os_fstat os w)) = store w"
    "store (snd (os_stat os f w)) = store w" "store (snd (os_read_all os n w)) = store w"
begin

lemma keeping_on_world:
  assumes "\<And>w. store (snd (f w)) = store w"
  shows "kept store I (on_world f)"
  using assms by (auto simp: keeping_def valid_def on_world_def Let_def split: prod.splits) (metis snd_conv)

lemma keeping_check: "kept store I (verify_source_identity os source i)"
  unfolding verify_source_identity_def
  by (auto intro!: keeping_intros keeping_on_world os_apart split: option.splits)

lemma keeping_publish_file:
  assumes "safe_id fresh" "plain_path d" "T = address (pb_base pb) (incoming_path ''publish'' fresh)" "D = address (pb_base pb) d" "T \<noteq> D"
    and "transit ok (\<lambda>_. True) T D"
  shows "kept store (\<lambda>st. \<forall>u. ok u (st u)) (publish_file http os pb fresh d source mt expected_sha expected_size)"
proof -
  have content: "keeping store I (sbind (verify_source_identity os source i) (\<lambda>_. sbind (on_world (os_read_all os n)) (\<lambda>again.
      case again of None \<Rightarrow> raise e | Some cs \<Rightarrow> ret (concat cs)))) (\<lambda>b _. True)" for I i n e
    by (auto intro!: keeping_intros keeping_check keeping_on_world os_apart split: option.splits)
  have pub: "kept store (\<lambda>st. \<forall>u. ok u (st u)) (publish http pb fresh dest digest sz mt
      (sbind (verify_source_identity os source i) (\<lambda>_. sbind (on_world (os_read_all os n)) (\<lambda>again.
         case again of None \<Rightarrow> raise e | Some cs \<Rightarrow> ret (concat cs))))
      (verify_source_identity os source i))" if "dest = d" for dest digest sz i n e
    unfolding that by (rule keeping_weaken [OF keeping_publish [OF assms content keeping_check]]) simp
  show ?thesis
    unfolding publish_file_def publish_file_via_def Let_def
    by (auto intro!: keeping_intros keeping_check keeping_on_world os_apart pub simp: assms(2) split: option.splits prod.splits)
qed

end

section \<open>Servers that keep the contract\<close>

text \<open>
  \<open>cut_http\<close> is the in-memory server behind a connection that fails for good after a number of requests; the last one
  may have taken effect (\<open>lost\<close>) although its answer never arrives.
\<close>

definition cut_http :: "bool \<Rightarrow> (nat \<times> objects) http" where
  "cut_http lost rq w = (case w of (k, st) \<Rightarrow>
     if 1 < k then (case mem_http rq st of (r, st') \<Rightarrow> (r, (k - 1, st')))
     else if k = 1 \<and> lost then (HttpError, (0, snd (mem_http rq st)))
     else (HttpError, (0, st)))"

lemma mem_effect: "snd (mem_http rq st) = effect rq st"
  by (auto simp: mem_http_def effect_def Let_def split: option.splits)

lemma mem_effectD: "mem_http rq st = (r, st') \<Longrightarrow> st' = effect rq st"
  by (metis mem_effect snd_conv)

lemma mem_truthful:
  assumes "mem_http rq st = (HttpResponse 200 rh chunks False, st')" "rq_method rq = ''GET''"
  shows "st (rq_url rq) = Some (concat chunks)"
  using assms by (auto simp: mem_http_def Let_def split: option.splits)

interpretation mem: honest_publisher mem_http "\<lambda>st. st" "demo_os b"
proof (unfold_locales, goal_cases)
  case (1 rq w r w') then show ?case by (simp add: mem_effectD)
qed (auto intro: mem_truthful simp: demo_os_def Let_def)

interpretation cut: honest_publisher "cut_http lost" snd "demo_os b"
proof (unfold_locales, goal_cases)
  case (1 rq w r w') then show ?case
    by (auto simp: cut_http_def mem_effectD split: prod.splits if_splits)
next
  case (2 rq w rh chunks w') then show ?case
    by (auto simp: cut_http_def intro: mem_truthful split: prod.splits if_splits)
qed (auto simp: demo_os_def Let_def)

end
