(* ===== verification/Bundle.thy ===== *)
theory Bundle
  imports Facade Store
begin

text \<open>
  \<open>cardrag_worker/webdav.py\<close>: \<open>WebDAVBundlePublisher.publish\<close> seals the members of a generation one after the other
  (database, vector sidecar, manifest, READY), each created once and read back, and last replaces the channel pointer.
  The client has no verification policy attached (\<open>self.verification is None\<close>), as in a run without a bound worker
  state: then \<open>verification_gate\<close> does nothing and members go through the plain immutable publisher.

  The five values of \<open>uuid.uuid4().hex\<close> are \<open>fresh 0\<close> to \<open>fresh 4\<close>.  \<open>before_pointer_replace\<close> is an operation.
\<close>

section \<open>The publisher\<close>

record PublishedBundle =
  pu_generation_id :: string
  pu_index_sha256 :: string
  pu_manifest_sha256 :: string

record bundle_client =
  bc_immutable :: publisher
  bc_channel :: string
  bc_stable_publication_approved :: bool

definition guard_v5_stable_publication :: "bundle_client \<Rightarrow> string \<Rightarrow> unit result" where
  "guard_v5_stable_publication client schema_version =
     raise_if (v5_schema schema_version \<and> bc_channel client = ''stable'' \<and> \<not> bc_stable_publication_approved client)
       (ValueError ''stable v1.0.14 publication requires explicit approval'')"

definition require_exact_artifact :: "ArtifactRef \<Rightarrow> ArtifactRef \<Rightarrow> string \<Rightarrow> unit result" where
  "require_exact_artifact actual expected label =
     raise_if (actual \<noteq> expected) (WebDAVError (label @ '' publisher returned a mismatched artifact identity''))"

definition publish_generation_file ::
  "'w http \<Rightarrow> 'w os_env \<Rightarrow> bundle_client \<Rightarrow> string \<Rightarrow> ArtifactRef \<Rightarrow> string \<Rightarrow> ('w, ArtifactRef) dav_op"
where
  "publish_generation_file http os client fresh reference source =
     publish_file http os (bc_immutable client) fresh (posix_path (ar_path reference)) source (ar_media_type reference)
       (Some (ar_sha256 reference)) (Some (ar_size_bytes reference))"

text \<open>Everything \<open>publish\<close> computes before its first request.\<close>

record bundle_plan =
  bp_manifest :: GenerationManifest
  bp_manifest_body :: bytes
  bp_vector_artifact :: "ArtifactRef option"
  bp_ready :: GenerationReady
  bp_ready_body :: bytes

definition plan_sidecar :: "string \<Rightarrow> GenerationManifest \<Rightarrow> string option \<Rightarrow> ArtifactRef option result" where
  "plan_sidecar generation_id m vectors =
     (if v5_schema (gm_schema_version m) then
        (case (vectors, gm_vector_sidecar m) of
           (Some _, Some sidecar) \<Rightarrow>
             let artifact = sc_artifact sidecar in
             rbind (generation_vectors_path generation_id) (\<lambda>p.
             rbind (raise_if (ar_path artifact \<noteq> as_posix p \<or> ar_media_type artifact \<noteq> ''application/octet-stream'')
               (ValueError ''manifest vector_sidecar is not bound to vectors.f32'')) (\<lambda>_.
             Inr (Some artifact)))
         | _ \<Rightarrow> Inl (ValueError ''v5 publication requires a vector sidecar''))
      else rbind (raise_if (vectors \<noteq> None \<or> gm_vector_sidecar m \<noteq> None)
             (ValueError ''legacy generation publication cannot contain a vector sidecar'')) (\<lambda>_. Inr None))"

definition plan_publication ::
  "pydantic \<Rightarrow> bundle_client \<Rightarrow> string \<Rightarrow> pyval \<Rightarrow> string option \<Rightarrow> bundle_plan result"
where
  "plan_publication px client generation_id manifest vectors =
     rbind (canonical_json_bytes manifest) (\<lambda>manifest_body.
     rbind (case px_manifest px manifest_body of None \<Rightarrow> Inl (ValueError ''GenerationManifest'') | Some m \<Rightarrow> Inr m) (\<lambda>m.
     rbind (raise_if (gm_generation_id m \<noteq> generation_id)
       (ValueError ''generation manifest ID does not match publication target'')) (\<lambda>_.
     rbind (guard_v5_stable_publication client (gm_schema_version m)) (\<lambda>_.
     rbind (generation_database_path generation_id) (\<lambda>database_path.
     rbind (raise_if (ar_path (gm_serving_database m) \<noteq> as_posix database_path
         \<or> ar_media_type (gm_serving_database m) \<noteq> ''application/vnd.sqlite3'')
       (ValueError ''manifest serving_database is not bound to index.sqlite3'')) (\<lambda>_.
     rbind (plan_sidecar generation_id m vectors) (\<lambda>vector_artifact.
     rbind (generation_ready
       \<lparr>gr_schema_version = ''cardrag.generation-ready.v1'', gr_generation_id = generation_id,
        gr_manifest_sha256 = sha256_bytes manifest_body,
        gr_serving_database_sha256 = ar_sha256 (gm_serving_database m),
        gr_serving_database_size_bytes = ar_size_bytes (gm_serving_database m),
        gr_vector_sidecar_sha256 = map_option ar_sha256 vector_artifact,
        gr_vector_sidecar_size_bytes = map_option ar_size_bytes vector_artifact\<rparr>) (\<lambda>ready.
     rbind (canonical_bytes px (MReady ready)) (\<lambda>ready_body.
     Inr \<lparr>bp_manifest = m, bp_manifest_body = manifest_body, bp_vector_artifact = vector_artifact, bp_ready = ready,
          bp_ready_body = ready_body\<rparr>)))))))))"

definition seal_members ::
  "'w http \<Rightarrow> 'w os_env \<Rightarrow> bundle_client \<Rightarrow> (nat \<Rightarrow> string) \<Rightarrow> bundle_plan \<Rightarrow> string \<Rightarrow> string option \<Rightarrow> ('w, unit) dav_op"
where
  "seal_members http os client fresh p database vectors =
     (let database_artifact = gm_serving_database (bp_manifest p) in
     sbind (publish_generation_file http os client (fresh 0) database_artifact database) (\<lambda>published_database.
     sbind (lift (require_exact_artifact published_database database_artifact ''serving database'')) (\<lambda>_.
     case vectors of None \<Rightarrow> ret ()
     | Some source \<Rightarrow>
         (case bp_vector_artifact p of None \<Rightarrow> raise AssertionError
          | Some artifact \<Rightarrow>
              sbind (publish_generation_file http os client (fresh 1) artifact source) (\<lambda>published_vectors.
              lift (require_exact_artifact published_vectors artifact ''vector sidecar''))))))"

text \<open>A control object is published as canonical bytes, and the reference that comes back is compared.\<close>

definition seal_control ::
  "'w http \<Rightarrow> bundle_client \<Rightarrow> string \<Rightarrow> path result \<Rightarrow> bytes \<Rightarrow> string \<Rightarrow> ('w, ArtifactRef) dav_op"
where
  "seal_control http client fresh path body label =
     sbind (lift path) (\<lambda>p.
     sbind (lift (artifact_ref (sha256_bytes body) (int (length body)) ''application/json'' (as_posix p))) (\<lambda>expected.
     sbind (publish_bytes http (bc_immutable client) fresh p body ''application/json'') (\<lambda>published.
     sbind (lift (require_exact_artifact published expected label)) (\<lambda>_.
     ret expected))))"

definition bundle_pointer :: "string \<Rightarrow> string \<Rightarrow> string \<Rightarrow> GenerationPointer" where
  "bundle_pointer generation_id manifest_sha256 ready_sha256 =
     \<lparr>gt_schema_version = ''cardrag.generation-pointer.v1'', gt_generation_id = generation_id,
      gt_manifest_sha256 = manifest_sha256, gt_ready_sha256 = ready_sha256\<rparr>"

definition switch_pointer ::
  "pydantic \<Rightarrow> 'w http \<Rightarrow> bundle_client \<Rightarrow> string \<Rightarrow> GenerationPointer \<Rightarrow> ('w, unit) dav_op option \<Rightarrow> ('w, unit) dav_op"
where
  "switch_pointer px http client fresh pointer before_pointer_replace =
     sbind (lift (generation_pointer pointer)) (\<lambda>_.
     sbind (lift (canonical_bytes px (MPointer pointer))) (\<lambda>pointer_body.
     sbind (lift (channel_pointer_path (bc_channel client))) (\<lambda>path.
     sbind (lift (artifact_ref (sha256_bytes pointer_body) (int (length pointer_body)) ''application/json'' (as_posix path))) (\<lambda>expected.
     sbind (case before_pointer_replace of None \<Rightarrow> ret () | Some guard \<Rightarrow> guard) (\<lambda>_.
     sbind (atomic_replace_bytes http (bc_immutable client) fresh (bc_channel client) pointer_body ''application/json'') (\<lambda>published.
     lift (require_exact_artifact published expected ''channel pointer'')))))))"

definition publish_bundle ::
  "pydantic \<Rightarrow> 'w http \<Rightarrow> 'w os_env \<Rightarrow> bundle_client \<Rightarrow> (nat \<Rightarrow> string) \<Rightarrow> string \<Rightarrow> string \<Rightarrow> pyval \<Rightarrow> string option
   \<Rightarrow> ('w, unit) dav_op option \<Rightarrow> ('w, PublishedBundle) dav_op"
where
  "publish_bundle px http os client fresh generation_id database manifest vectors before_pointer_replace =
     sbind (lift (plan_publication px client generation_id manifest vectors)) (\<lambda>p.
     sbind (seal_members http os client fresh p database vectors) (\<lambda>_.
     sbind (seal_control http client (fresh 2) (generation_manifest_path generation_id) (bp_manifest_body p) ''generation manifest'') (\<lambda>_.
     sbind (seal_control http client (fresh 3) (generation_ready_path generation_id) (bp_ready_body p) ''generation READY'') (\<lambda>expected_ready.
     sbind (switch_pointer px http client (fresh 4)
       (bundle_pointer generation_id (sha256_bytes (bp_manifest_body p)) (ar_sha256 expected_ready)) before_pointer_replace) (\<lambda>_.
     ret \<lparr>pu_generation_id = generation_id, pu_index_sha256 = ar_sha256 (gm_serving_database (bp_manifest p)),
          pu_manifest_sha256 = sha256_bytes (bp_manifest_body p)\<rparr>)))))"

section \<open>What a publication may do to the objects\<close>

text \<open>
  \<open>allowed st0 loose exact u x\<close>: the object at \<open>u\<close> is still what it was in \<open>st0\<close>, or it was absent there and is now
  either one of the \<open>loose\<close> objects (any content) or has the one content \<open>exact\<close> gives it.
\<close>

definition allowed :: "objects \<Rightarrow> string set \<Rightarrow> objects \<Rightarrow> string \<Rightarrow> bytes option \<Rightarrow> bool" where
  "allowed st0 loose exact u x \<longleftrightarrow> x = st0 u \<or> st0 u = None \<and> (u \<in> loose \<or> x \<noteq> None \<and> x = exact u)"

definition pinned :: "string \<Rightarrow> (bytes \<Rightarrow> bool) \<Rightarrow> (string \<Rightarrow> bytes option \<Rightarrow> bool) \<Rightarrow> string \<Rightarrow> bytes option \<Rightarrow> bool" where
  "pinned m K ok u x \<longleftrightarrow> ok u x \<and> (u = m \<longrightarrow> (\<exists>b. x = Some b \<and> K b))"

lemma pinned_all: "(\<forall>u. pinned m K ok u (st u)) \<longleftrightarrow> (\<forall>u. ok u (st u)) \<and> (\<exists>b. st m = Some b \<and> K b)"
  by (auto simp: pinned_def)

lemma transit_pinned: "transit ok C T D \<Longrightarrow> T \<noteq> m \<Longrightarrow> D \<noteq> m \<Longrightarrow> transit (pinned m K ok) C T D"
  by (auto simp: transit_def pinned_def)

lemma transit_loose: "st0 T = None \<Longrightarrow> T \<in> loose \<Longrightarrow> D \<in> loose \<Longrightarrow> transit (allowed st0 loose exact) C T D"
  by (auto simp: transit_def allowed_def)

lemma transit_exact:
  assumes "st0 T = None" "T \<notin> loose" "exact T = Some b" "exact D = Some b"
  shows "transit (allowed st0 loose exact) (\<lambda>x. x = b) T D"
  using assms by (auto simp: transit_def allowed_def)

lemma allowed_existing: "allowed st0 loose exact u x \<Longrightarrow> st0 u = Some b \<Longrightarrow> x = Some b"
  by (auto simp: allowed_def)

lemma keeping_then_last:
  assumes "keeping store I m R" "\<And>x st. I st \<Longrightarrow> R x st \<Longrightarrow> J x st" "\<And>x. keeping store (J x) (f x) Q"
    and "sbind m f s = (r, s')" "I (store (dav_world s))"
  shows "I (store (dav_world s')) \<and> (\<exists>e. r = Inl e) \<or> (\<exists>x. J x (store (dav_world s')) \<and> (\<forall>y. r = Inr y \<longrightarrow> Q y (store (dav_world s'))))"
proof (cases "m s")
  case (Pair r1 s1)
  show ?thesis
  proof (cases r1)
    case (Inl e)
    with Pair assms(4) have "r = Inl e" "s' = s1" by (auto simp: sbind_def)
    with keepingD [OF assms(1) Pair assms(5)] show ?thesis by blast
  next
    case (Inr x)
    with Pair assms(4) have "f x s1 = (r, s')" by (auto simp: sbind_def)
    moreover have "J x (store (dav_world s1))" using keepingD [OF assms(1) Pair assms(5)] Inr assms(2) by blast
    ultimately show ?thesis using keepingD [OF assms(3)] by metis
  qed
qed

lemma address_eq: "plain_path p \<Longrightarrow> plain_path q \<Longrightarrow> address base p = address base q \<longleftrightarrow> p = q"
  using address_inj by blast

definition generation_file :: "string \<Rightarrow> string \<Rightarrow> path" where
  "generation_file g f = [''v1'', ''generations'', g, f]"

definition generation_files :: "string list" where
  "generation_files = [''index.sqlite3'', ''vectors.f32'', ''manifest.json'', ''READY.json'']"

lemma generation_file_plain: "safe_id g \<Longrightarrow> f \<in> set generation_files \<Longrightarrow> plain_path (generation_file g f)"
  by (auto simp: generation_file_def generation_files_def plain_path_def safe_id_segment)

text \<open>The names of the temporary objects: five safe names, no two alike, and none of the objects exists yet.\<close>

definition unused_names :: "base_url \<Rightarrow> (nat \<Rightarrow> string) \<Rightarrow> objects \<Rightarrow> bool" where
  "unused_names base fresh st \<longleftrightarrow> list_all (\<lambda>i. safe_id (fresh i)) [0, 1, 2, 3, 4] \<and> distinct (map fresh [0, 1, 2, 3])
     \<and> list_all (\<lambda>i. st (address base (incoming_path ''publish'' (fresh i))) = None) [0, 1, 2, 3]
     \<and> st (address base (incoming_path ''channels'' (fresh 4))) = None"

definition loose_objects :: "base_url \<Rightarrow> (nat \<Rightarrow> string) \<Rightarrow> string \<Rightarrow> string set" where
  "loose_objects base fresh g = address base ` {incoming_path ''publish'' (fresh 0), incoming_path ''publish'' (fresh 1),
     generation_file g ''index.sqlite3'', generation_file g ''vectors.f32''}"

definition control_objects :: "base_url \<Rightarrow> (nat \<Rightarrow> string) \<Rightarrow> string \<Rightarrow> bytes \<Rightarrow> bytes \<Rightarrow> bytes \<Rightarrow> objects" where
  "control_objects base fresh g manifest_body ready_body pointer_body =
     [address base (incoming_path ''publish'' (fresh 2)) \<mapsto> manifest_body, address base (generation_file g ''manifest.json'') \<mapsto> manifest_body,
      address base (incoming_path ''publish'' (fresh 3)) \<mapsto> ready_body, address base (generation_file g ''READY.json'') \<mapsto> ready_body,
      address base (incoming_path ''channels'' (fresh 4)) \<mapsto> pointer_body]"

lemma stage_transits:
  assumes names: "unused_names base fresh st0" and g: "safe_id g"
  shows "transit (allowed st0 (loose_objects base fresh g) exact) C (address base (incoming_path ''publish'' (fresh 0))) (address base (generation_file g ''index.sqlite3''))"
    and "transit (allowed st0 (loose_objects base fresh g) exact) C (address base (incoming_path ''publish'' (fresh 1))) (address base (generation_file g ''vectors.f32''))"
  using names by (auto intro!: transit_loose simp: unused_names_def loose_objects_def)

lemma control_transits:
  fixes m r b :: bytes
  assumes names: "unused_names base fresh st0" and g: "safe_id g"
  defines "ok \<equiv> allowed st0 (loose_objects base fresh g) (control_objects base fresh g m r b)"
  shows "transit ok (\<lambda>x. x = m) (address base (incoming_path ''publish'' (fresh 2))) (address base (generation_file g ''manifest.json''))"
    and "transit ok (\<lambda>x. x = r) (address base (incoming_path ''publish'' (fresh 3))) (address base (generation_file g ''READY.json''))"
    and "ok (address base (incoming_path ''channels'' (fresh 4))) None" "ok (address base (incoming_path ''channels'' (fresh 4))) (Some x) \<longleftrightarrow> x = b"
    and "ok (address base (generation_file g ''manifest.json'')) (Some x) \<Longrightarrow> st0 (address base (generation_file g ''manifest.json'')) = Some x \<or> x = m"
    and "ok (address base (generation_file g ''READY.json'')) (Some x) \<Longrightarrow> st0 (address base (generation_file g ''READY.json'')) = Some x \<or> x = r"
proof -
  have t: "plain_path (incoming_path ''publish'' (fresh 0))" "plain_path (incoming_path ''publish'' (fresh 1))"
    "plain_path (incoming_path ''publish'' (fresh 2))" "plain_path (incoming_path ''publish'' (fresh 3))"
    "plain_path (incoming_path ''channels'' (fresh 4))"
    using names by (auto simp: unused_names_def intro!: incoming_plain)
  have d: "plain_path (generation_file g ''index.sqlite3'')" "plain_path (generation_file g ''vectors.f32'')"
    "plain_path (generation_file g ''manifest.json'')" "plain_path (generation_file g ''READY.json'')"
    using g by (auto intro!: generation_file_plain simp: generation_files_def)
  note eq = address_eq [OF t(1)] address_eq [OF t(2)] address_eq [OF t(3)] address_eq [OF t(4)] address_eq [OF t(5)]
    address_eq [OF d(1)] address_eq [OF d(2)] address_eq [OF d(3)] address_eq [OF d(4)]
  note facts = t [unfolded incoming_path_def] d [unfolded generation_file_def] eq [unfolded incoming_path_def generation_file_def]
    loose_objects_def control_objects_def incoming_path_def generation_file_def unused_names_def
  show "transit ok (\<lambda>x. x = m) (address base (incoming_path ''publish'' (fresh 2))) (address base (generation_file g ''manifest.json''))"
    unfolding ok_def by (rule transit_exact) (use names in \<open>auto simp: facts simp del: One_nat_def\<close>)
  show "transit ok (\<lambda>x. x = r) (address base (incoming_path ''publish'' (fresh 3))) (address base (generation_file g ''READY.json''))"
    unfolding ok_def by (rule transit_exact) (use names in \<open>auto simp: facts simp del: One_nat_def\<close>)
  show "ok (address base (incoming_path ''channels'' (fresh 4))) None" "ok (address base (incoming_path ''channels'' (fresh 4))) (Some x) \<longleftrightarrow> x = b"
    using names by (auto simp: facts allowed_def ok_def simp del: One_nat_def)
  show "ok (address base (generation_file g ''manifest.json'')) (Some x) \<Longrightarrow> st0 (address base (generation_file g ''manifest.json'')) = Some x \<or> x = m"
    "ok (address base (generation_file g ''READY.json'')) (Some x) \<Longrightarrow> st0 (address base (generation_file g ''READY.json'')) = Some x \<or> x = r"
    using names by (auto simp: facts allowed_def ok_def simp del: One_nat_def)
qed

section \<open>The stages on an honest server\<close>

context honest_publisher
begin

lemma keeping_generation_file:
  assumes "safe_id fresh" "plain_path d" "ar_path reference = as_posix d" "take 2 d = [''v1'', ''generations'']"
    and "transit ok (\<lambda>_. True) (address (pb_base (bc_immutable client)) (incoming_path ''publish'' fresh)) (address (pb_base (bc_immutable client)) d)"
  shows "kept store (\<lambda>st. \<forall>u. ok u (st u)) (publish_generation_file http os client fresh reference source)"
proof -
  have "incoming_path ''publish'' fresh \<noteq> d" using assms(4) by (auto simp: incoming_path_def)
  then have "address (pb_base (bc_immutable client)) (incoming_path ''publish'' fresh) \<noteq> address (pb_base (bc_immutable client)) d"
    using address_inj incoming_plain [OF assms(1), of "''publish''"] assms(2) by blast
  then show ?thesis
    unfolding publish_generation_file_def posix_path_def assms(3) plain_path_split [OF assms(2)]
    by (rule keeping_publish_file [OF assms(1,2) refl refl _ assms(5)])
qed

lemma keeping_seal_control:
  assumes "safe_id fresh" "path = Inr d" "plain_path d" "take 2 d = [''v1'', ''generations'']"
    and D: "D = address (pb_base (bc_immutable client)) d"
    and "transit ok (\<lambda>b. b = body) (address (pb_base (bc_immutable client)) (incoming_path ''publish'' fresh)) D"
  shows "keeping store (\<lambda>st. \<forall>u. ok u (st u)) (seal_control http client fresh path body label)
     (\<lambda>r st. ar_sha256 r = sha256_bytes body \<and> (\<exists>b. st D = Some b \<and> sha256_bytes b = sha256_bytes body))"
proof -
  have "incoming_path ''publish'' fresh \<noteq> d" using assms(4) by (auto simp: incoming_path_def)
  then have ne: "address (pb_base (bc_immutable client)) (incoming_path ''publish'' fresh) \<noteq> D"
    using address_inj incoming_plain [OF assms(1), of "''publish''"] assms(3) D by blast
  show ?thesis
    unfolding seal_control_def assms(2)
  proof (rule keeping_sbind_lift, rule keeping_sbind_lift, clarify)
    fix expected assume e: "artifact_ref (sha256_bytes body) (int (length body)) ''application/json'' (as_posix d) = Inr expected"
    have "ar_sha256 expected = sha256_bytes body" by (rule artifact_ref_fields(1) [OF e sha256_bytes_hex assms(3)])
    then show "keeping store (\<lambda>st. \<forall>u. ok u (st u)) (sbind (publish_bytes http (bc_immutable client) fresh d body ''application/json'')
        (\<lambda>published. sbind (lift (require_exact_artifact published expected label)) (\<lambda>_. ret expected)))
        (\<lambda>r st. ar_sha256 r = sha256_bytes body \<and> (\<exists>b. st D = Some b \<and> sha256_bytes b = sha256_bytes body))"
      by (intro keeping_sbind_post [OF keeping_publish_bytes [OF assms(1,3) refl D ne assms(6)]])
        (auto intro!: keeping_sbind_lift keeping_ret)
  qed
qed

lemma keeping_switch:
  assumes fresh: "safe_id fresh" and d: "channel_pointer_path (bc_channel client) = Inr d"
    and T: "T = address (pb_base (bc_immutable client)) (incoming_path ''channels'' fresh)" and D: "D = address (pb_base (bc_immutable client)) d"
    and body: "canonical_bytes px (MPointer pointer) = Inr payload"
    and guard: "\<And>m I. guard = Some m \<Longrightarrow> kept store I m"
    and ok: "ok T None" "\<And>b. ok T (Some b) \<longleftrightarrow> b = payload" "ok D (Some payload)"
  shows "keeping store (\<lambda>st. \<forall>u. ok u (st u)) (switch_pointer px http client fresh pointer guard)
     (\<lambda>_ st. \<exists>b. st D = Some b \<and> sha256_bytes b = sha256_bytes payload)"
proof -
  have dp: "plain_path d" "incoming_path ''channels'' fresh \<noteq> d"
    using d by (auto simp: channel_pointer_path_def plain_path_def json_suffix incoming_path_def)
  then have "T \<noteq> D" using address_inj incoming_plain [OF fresh, of "''channels''"] T D by blast
  then have swap: "keeping store (\<lambda>st. \<forall>u. ok u (st u)) (sbind (atomic_replace_bytes http (bc_immutable client) fresh (bc_channel client) payload mt)
      (\<lambda>published. lift (require_exact_artifact published expected label))) (\<lambda>_ st. \<exists>b. st D = Some b \<and> sha256_bytes b = sha256_bytes payload)"
    for mt expected label
    by (intro keeping_sbind_post [OF keeping_atomic_replace [OF fresh d T D _ ok]]) (auto intro: keeping_lift)
  have "kept store I (case guard of None \<Rightarrow> ret () | Some m \<Rightarrow> m)" for I
    by (cases guard) (auto intro: keeping_ret guard)
  then show ?thesis
    unfolding switch_pointer_def body d
    by (rule keeping_sbind_lift [OF keeping_sbind_lift [OF keeping_sbind_lift [OF keeping_sbind_lift [OF keeping_sbind]]]]) (auto intro: swap)
qed

end

lemma plan_fields:
  assumes "plan_publication px client g manifest vectors = Inr p"
  shows "safe_id g" "gm_generation_id (bp_manifest p) = g" "px_manifest px (bp_manifest_body p) = Some (bp_manifest p)"
    "ar_path (gm_serving_database (bp_manifest p)) = as_posix (generation_file g ''index.sqlite3'')"
    "plan_sidecar g (bp_manifest p) vectors = Inr (bp_vector_artifact p)"
    "bp_ready p = \<lparr>gr_schema_version = ''cardrag.generation-ready.v1'', gr_generation_id = g,
        gr_manifest_sha256 = sha256_bytes (bp_manifest_body p),
        gr_serving_database_sha256 = ar_sha256 (gm_serving_database (bp_manifest p)),
        gr_serving_database_size_bytes = ar_size_bytes (gm_serving_database (bp_manifest p)),
        gr_vector_sidecar_sha256 = map_option ar_sha256 (bp_vector_artifact p),
        gr_vector_sidecar_size_bytes = map_option ar_size_bytes (bp_vector_artifact p)\<rparr>"
    "canonical_bytes px (MReady (bp_ready p)) = Inr (bp_ready_body p)"
  using assms by (auto simp: plan_publication_def generation_ready_def generation_database_path_def generation_root_path_Inr
      generation_file_def split: option.splits)

lemma plan_vectors:
  assumes "plan_publication px client g manifest vectors = Inr p" "bp_vector_artifact p = Some a"
  shows "ar_path a = as_posix (generation_file g ''vectors.f32'')"
  using plan_fields(5) [OF assms(1)] assms(2)
  by (auto simp: plan_sidecar_def generation_vectors_path_def generation_root_path_Inr generation_file_def Let_def split: if_splits option.splits)

definition seal :: "'w http \<Rightarrow> 'w os_env \<Rightarrow> bundle_client \<Rightarrow> (nat \<Rightarrow> string) \<Rightarrow> string \<Rightarrow> bundle_plan \<Rightarrow> string \<Rightarrow> string option
   \<Rightarrow> ('w, ArtifactRef) dav_op" where
  "seal http os client fresh g p database vectors =
     sbind (seal_members http os client fresh p database vectors) (\<lambda>_.
     sbind (seal_control http client (fresh 2) (generation_manifest_path g) (bp_manifest_body p) ''generation manifest'') (\<lambda>_.
     seal_control http client (fresh 3) (generation_ready_path g) (bp_ready_body p) ''generation READY''))"

lemma publish_bundle_stages:
  "publish_bundle px http os client fresh g database manifest vectors guard =
     sbind (lift (plan_publication px client g manifest vectors)) (\<lambda>p.
     sbind (seal http os client fresh g p database vectors) (\<lambda>expected_ready.
     sbind (switch_pointer px http client (fresh 4) (bundle_pointer g (sha256_bytes (bp_manifest_body p)) (ar_sha256 expected_ready)) guard) (\<lambda>_.
     ret \<lparr>pu_generation_id = g, pu_index_sha256 = ar_sha256 (gm_serving_database (bp_manifest p)),
          pu_manifest_sha256 = sha256_bytes (bp_manifest_body p)\<rparr>)))"
  by (simp add: publish_bundle_def seal_def sbind_assoc)

context honest_publisher
begin

lemma keeping_seal:
  fixes client :: bundle_client and p :: bundle_plan and pointer_body :: bytes
  defines "base \<equiv> pb_base (bc_immutable client)"
  assumes plan: "plan_publication px client g manifest vectors = Inr p" and names: "unused_names base fresh st0"
  defines "ok \<equiv> allowed st0 (loose_objects base fresh g) (control_objects base fresh g (bp_manifest_body p) (bp_ready_body p) pointer_body)"
  shows "keeping store (\<lambda>st. \<forall>u. ok u (st u)) (seal http os client fresh g p database vectors)
     (\<lambda>r st. ar_sha256 r = sha256_bytes (bp_ready_body p)
        \<and> (\<exists>b. st (address base (generation_file g ''manifest.json'')) = Some b \<and> sha256_bytes b = sha256_bytes (bp_manifest_body p))
        \<and> (\<exists>b. st (address base (generation_file g ''READY.json'')) = Some b \<and> sha256_bytes b = sha256_bytes (bp_ready_body p)))"
proof -
  have g: "safe_id g" by (rule plan_fields(1) [OF plan])
  have f: "safe_id (fresh 0)" "safe_id (fresh 1)" "safe_id (fresh 2)" "safe_id (fresh 3)" using names by (auto simp: unused_names_def)
  have d: "plain_path (generation_file g ''index.sqlite3'')" "plain_path (generation_file g ''vectors.f32'')"
    "plain_path (generation_file g ''manifest.json'')" "plain_path (generation_file g ''READY.json'')"
    using g by (auto intro!: generation_file_plain simp: generation_files_def)
  have dir: "take 2 (generation_file g f) = [''v1'', ''generations'']" for f by (simp add: generation_file_def)
  have paths: "generation_manifest_path g = Inr (generation_file g ''manifest.json'')" "generation_ready_path g = Inr (generation_file g ''READY.json'')"
    using g by (auto simp: generation_manifest_path_def generation_ready_path_def generation_root_path_Inr generation_file_def)
  note loose = stage_transits [OF names g] and ctl = control_transits [OF names g, of "bp_manifest_body p" "bp_ready_body p" pointer_body, folded ok_def]
  let ?M = "address base (generation_file g ''manifest.json'')" and ?K = "\<lambda>b. sha256_bytes b = sha256_bytes (bp_manifest_body p)"
  have db: "kept store (\<lambda>st. \<forall>u. allowed st0 (loose_objects base fresh g) e u (st u))
      (publish_generation_file http os client (fresh 0) (gm_serving_database (bp_manifest p)) database)" for e
    by (rule keeping_generation_file [OF f(1) d(1) plan_fields(4) [OF plan] dir loose(1) [unfolded base_def], folded base_def])
  have vec: "kept store (\<lambda>st. \<forall>u. allowed st0 (loose_objects base fresh g) e u (st u))
      (publish_generation_file http os client (fresh 1) a source)" if "bp_vector_artifact p = Some a" for e a source
    by (rule keeping_generation_file [OF f(2) d(2) plan_vectors [OF plan that] dir loose(2) [unfolded base_def], folded base_def])
  have members: "kept store (\<lambda>st. \<forall>u. ok u (st u)) (seal_members http os client fresh p database vectors)"
    unfolding seal_members_def Let_def ok_def
    by (auto intro!: keeping_intros db vec split: option.split simp del: One_nat_def)
  have M: "keeping store (\<lambda>st. \<forall>u. ok u (st u)) (seal_control http client (fresh 2) (generation_manifest_path g) (bp_manifest_body p) l)
      (\<lambda>r st. ar_sha256 r = sha256_bytes (bp_manifest_body p) \<and> (\<exists>b. st ?M = Some b \<and> ?K b))" for l
    by (rule keeping_seal_control [OF f(3) paths(1) d(3) dir]) (use ctl(1) in \<open>simp_all add: base_def\<close>)
  have t: "plain_path (incoming_path ''publish'' (fresh 3))" using f by (auto intro: incoming_plain)
  have "transit (pinned ?M ?K ok) (\<lambda>b. b = bp_ready_body p) (address base (incoming_path ''publish'' (fresh 3))) (address base (generation_file g ''READY.json''))"
    by (rule transit_pinned [OF ctl(2)]) (auto simp: address_eq t d, auto simp: generation_file_def incoming_path_def)
  then have R: "keeping store (\<lambda>st. \<forall>u. pinned ?M ?K ok u (st u)) (seal_control http client (fresh 3) (generation_ready_path g) (bp_ready_body p) l)
      (\<lambda>r st. ar_sha256 r = sha256_bytes (bp_ready_body p) \<and> (\<exists>b. st (address base (generation_file g ''READY.json'')) = Some b \<and> sha256_bytes b = sha256_bytes (bp_ready_body p)))" for l
    by (intro keeping_seal_control [OF f(4) paths(2) d(4) dir]) (simp_all add: base_def)
  show ?thesis
    unfolding seal_def
    by (rule keeping_sbind [OF members], rule keeping_sbind_post [OF keeping_weaken [OF M conjunct2]], assumption)
      (rule keeping_weaken [OF R [unfolded pinned_all]], auto)
qed

end

section \<open>Publication as one step of the channel\<close>

text \<open>
  For a reader the channel is one register: the generation it can read, or nothing.  \<open>switched\<close> is the abstract
  publication: it leaves the register alone and fails, or sets it to the new generation.
\<close>

definition visible :: "pydantic \<Rightarrow> base_url \<Rightarrow> path \<Rightarrow> objects \<Rightarrow> CurrentGeneration option" where
  "visible px base pointer_path st = (case view px base pointer_path st of Inr c \<Rightarrow> Some c | Inl _ \<Rightarrow> None)"

definition switched :: "CurrentGeneration option \<Rightarrow> CurrentGeneration \<Rightarrow> 'a result \<Rightarrow> CurrentGeneration option \<Rightarrow> bool" where
  "switched old new r now \<longleftrightarrow> now = old \<and> (\<exists>e. r = Inl e) \<or> now = Some new"

definition published_generation :: "string \<Rightarrow> bundle_plan \<Rightarrow> CurrentGeneration" where
  "published_generation g p =
     \<lparr>cg_pointer = bundle_pointer g (sha256_bytes (bp_manifest_body p)) (sha256_bytes (bp_ready_body p)),
      cg_ready = bp_ready p, cg_manifest = bp_manifest p\<rparr>"

text \<open>
  What pydantic and the caller contribute: the models the publisher dumps are read back as they were, the manifest it
  was given is the dump of a manifest, and no control file is larger than a reader accepts.
\<close>

definition reads_back :: "pydantic \<Rightarrow> string \<Rightarrow> bundle_plan \<Rightarrow> bytes \<Rightarrow> bool" where
  "reads_back px g p pointer_body \<longleftrightarrow>
     canonical_bytes px (MPointer (cg_pointer (published_generation g p))) = Inr pointer_body
     \<and> px_pointer px pointer_body = Some (cg_pointer (published_generation g p))
     \<and> px_ready px (bp_ready_body p) = Some (bp_ready p)
     \<and> canonical_bytes px (MManifest (bp_manifest p)) = Inr (bp_manifest_body p)
     \<and> list_all (\<lambda>b. int (length b) \<le> control_file_limit) [pointer_body, bp_ready_body p, bp_manifest_body p]"

text \<open>An object with the digest of \<open>b\<close> is \<open>b\<close>.\<close>

definition no_collision :: "objects \<Rightarrow> string \<Rightarrow> bytes \<Rightarrow> bool" where
  "no_collision st u b \<longleftrightarrow> (case st u of None \<Rightarrow> True | Some b' \<Rightarrow> sha256_bytes b' = sha256_bytes b \<longrightarrow> b' = b)"

text \<open>The callback before the replacement leaves the objects alone.\<close>

definition quiet_guard :: "('w \<Rightarrow> objects) \<Rightarrow> ('w, unit) dav_op option \<Rightarrow> bool" where
  "quiet_guard store guard \<longleftrightarrow> (case guard of None \<Rightarrow> True | Some m \<Rightarrow> \<forall>I. kept store I m)"

lemma plan_binds:
  assumes "plan_publication px client g manifest vectors = Inr p"
  shows "check_sidecar_binding (bp_ready p) (bp_manifest p) = Inr ()"
proof -
  have "posix_path (as_posix (generation_file g ''vectors.f32'')) = generation_file g ''vectors.f32''"
    unfolding posix_path_def by (rule plain_path_split, rule generation_file_plain) (use plan_fields(1) [OF assms] in \<open>simp_all add: generation_files_def\<close>)
  moreover have "generation_vectors_path g = Inr (generation_file g ''vectors.f32'')"
    using plan_fields(1) [OF assms] by (auto simp: generation_vectors_path_def generation_root_path_Inr generation_file_def)
  moreover have "bp_vector_artifact p = (if v5_schema (gm_schema_version (bp_manifest p)) then map_option sc_artifact (gm_vector_sidecar (bp_manifest p)) else None)"
    "v5_schema (gm_schema_version (bp_manifest p)) = (gm_vector_sidecar (bp_manifest p) \<noteq> None)"
    using plan_fields(5) [OF assms] by (auto simp: plan_sidecar_def Let_def split: option.splits if_splits)
  ultimately show ?thesis
    using plan_fields(2,6) [OF assms] plan_vectors [OF assms]
    by (auto simp: check_sidecar_binding_def split: option.splits)
qed

lemma view_published:
  assumes plan: "plan_publication px client g manifest vectors = Inr p" and rb: "reads_back px g p pointer_body"
    and "st (address base pp) = Some pointer_body"
    and "st (address base (generation_file g ''manifest.json'')) = Some (bp_manifest_body p)"
    and "st (address base (generation_file g ''READY.json'')) = Some (bp_ready_body p)"
  shows "view px base pp st = Inr (published_generation g p)"
proof -
  note f = plan_fields [OF plan]
  have paths: "generation_manifest_path g = Inr (generation_file g ''manifest.json'')" "generation_ready_path g = Inr (generation_file g ''READY.json'')"
    using f(1) by (auto simp: generation_manifest_path_def generation_ready_path_def generation_root_path_Inr generation_file_def)
  have "binds px pointer_body (bp_ready_body p) (bp_manifest_body p) (published_generation g p)"
    using rb f(2,3,7) plan_binds [OF plan]
    by (simp add: binds_def reads_back_def published_generation_def bundle_pointer_def parse_canonical_def f(6))
  with assms(3-5) rb paths show ?thesis
    unfolding view_Inr by (auto simp: control_at_def reads_back_def published_generation_def bundle_pointer_def)
qed

lemma visible_unchanged:
  assumes pp: "channel_pointer_path ch = Inr pp" and cur: "view px base pp st0 = Inr cur \<or> st0 (address base pp) = None"
    and "st (address base pp) = st0 (address base pp)" "\<And>u b. u \<noteq> address base pp \<Longrightarrow> st0 u = Some b \<Longrightarrow> st u = Some b"
  shows "visible px base pp st = visible px base pp st0"
  using cur
proof
  assume v: "view px base pp st0 = Inr cur"
  have "view px base pp st = Inr cur"
    by (rule view_mono [OF v pp]) (use assms(3,4) in metis)
  with v show ?thesis by (simp add: visible_def)
next
  assume "st0 (address base pp) = None"
  with assms(3) show ?thesis by (simp add: visible_def view_def control_at_def)
qed

lemma keeping_pure: "(c \<Longrightarrow> keeping store I m Q) \<Longrightarrow> keeping store (\<lambda>st. c \<and> I st) m Q"
  by (cases c) (auto simp: keeping_def valid_def)

lemma sealed_content:
  assumes "\<forall>u. ok u (st u)" "\<exists>b. st D = Some b \<and> sha256_bytes b = sha256_bytes body" "no_collision st0 D body"
    and "\<And>x. ok D (Some x) \<Longrightarrow> st0 D = Some x \<or> x = body"
  shows "st D = Some body"
proof -
  from assms(2) obtain b where b: "st D = Some b" "sha256_bytes b = sha256_bytes body" by blast
  with assms(1) have "ok D (Some b)" by metis
  from assms(4) [OF this] b assms(3) show ?thesis by (auto simp: no_collision_def)
qed

text \<open>While the pointer is replaced, the control objects stay what was sealed.\<close>

definition replacing :: "base_url \<Rightarrow> (nat \<Rightarrow> string) \<Rightarrow> string \<Rightarrow> bundle_plan \<Rightarrow> objects \<Rightarrow> string \<Rightarrow> bytes \<Rightarrow> string \<Rightarrow> bytes option \<Rightarrow> bool" where
  "replacing base fresh g p st0 P pointer_body u x \<longleftrightarrow>
     (if u = P then x = st0 P \<or> x = Some pointer_body
      else pinned (address base (generation_file g ''manifest.json'')) (\<lambda>b. b = bp_manifest_body p)
        (pinned (address base (generation_file g ''READY.json'')) (\<lambda>b. b = bp_ready_body p)
          (allowed st0 (loose_objects base fresh g) (control_objects base fresh g (bp_manifest_body p) (bp_ready_body p) pointer_body))) u x)"

lemma pointer_apart:
  assumes pp: "channel_pointer_path ch = Inr pp" and names: "unused_names base fresh st0" and g: "safe_id g"
  shows "address base pp \<notin> loose_objects base fresh g" "control_objects base fresh g m r b (address base pp) = None"
    "address base (incoming_path ''channels'' (fresh 4)) \<noteq> address base pp"
    "\<And>f. f \<in> set generation_files \<Longrightarrow> address base (generation_file g f) \<noteq> address base pp"
    "\<And>f. f \<in> set generation_files \<Longrightarrow> address base (incoming_path ''channels'' (fresh 4)) \<noteq> address base (generation_file g f)"
proof -
  have p: "plain_path pp" "take 2 pp = [''v1'', ''channels'']"
    using pp by (auto simp: channel_pointer_path_def plain_path_def json_suffix)
  have t: "plain_path (incoming_path ''publish'' (fresh 0))" "plain_path (incoming_path ''publish'' (fresh 1))"
    "plain_path (incoming_path ''publish'' (fresh 2))" "plain_path (incoming_path ''publish'' (fresh 3))"
    "plain_path (incoming_path ''channels'' (fresh 4))"
    using names by (auto simp: unused_names_def intro!: incoming_plain)
  have inc: "incoming_path a f \<noteq> pp" "pp \<noteq> incoming_path a f" "generation_file g x \<noteq> pp" "pp \<noteq> generation_file g x"
    "incoming_path a f \<noteq> generation_file g x" for a f x
    using p(2) by (auto simp: incoming_path_def generation_file_def)
  note d = generation_file_plain [OF g]
  have eq: "address base (incoming_path a f) \<noteq> address base pp" if "plain_path (incoming_path a f)" for a f
    using address_inj [OF that p(1)] inc by blast
  have eq': "address base (generation_file g x) \<noteq> address base pp" if "x \<in> set generation_files" for x
    using address_inj [OF d [OF that] p(1)] inc by blast
  show "address base pp \<notin> loose_objects base fresh g" "control_objects base fresh g m r b (address base pp) = None"
    using eq [OF t(1)] eq [OF t(2)] eq [OF t(3)] eq [OF t(4)] eq [OF t(5)] eq' [of "''index.sqlite3''"] eq' [of "''vectors.f32''"]
      eq' [of "''manifest.json''"] eq' [of "''READY.json''"]
    by (auto simp: loose_objects_def control_objects_def generation_files_def)
  show "address base (incoming_path ''channels'' (fresh 4)) \<noteq> address base pp" by (rule eq [OF t(5)])
  show "\<And>f. f \<in> set generation_files \<Longrightarrow> address base (generation_file g f) \<noteq> address base pp" by (rule eq')
  show "\<And>f. f \<in> set generation_files \<Longrightarrow> address base (incoming_path ''channels'' (fresh 4)) \<noteq> address base (generation_file g f)"
    using address_inj [OF t(5) d] inc by blast
qed

context honest_publisher
begin

lemma bundle_run:
  fixes client :: bundle_client
  defines "base \<equiv> pb_base (bc_immutable client)"
  assumes plan: "plan_publication px client g manifest vectors = Inr p" and rb: "reads_back px g p pointer_body"
    and pp: "channel_pointer_path (bc_channel client) = Inr pp" and names: "unused_names base fresh st0"
    and M: "no_collision st0 (address base (generation_file g ''manifest.json'')) (bp_manifest_body p)"
    and R: "no_collision st0 (address base (generation_file g ''READY.json'')) (bp_ready_body p)"
    and quiet: "quiet_guard store guard"
    and run: "publish_bundle px http os client fresh g database manifest vectors guard s = (r, s')" and st0: "store (dav_world s) = st0"
  shows "(\<forall>u. allowed st0 (loose_objects base fresh g) (control_objects base fresh g (bp_manifest_body p) (bp_ready_body p) pointer_body) u
        (store (dav_world s') u)) \<and> (\<exists>e. r = Inl e)
    \<or> (\<forall>u. replacing base fresh g p st0 (address base pp) pointer_body u (store (dav_world s') u))
        \<and> (\<forall>y. r = Inr y \<longrightarrow> (\<exists>b. store (dav_world s') (address base pp) = Some b \<and> sha256_bytes b = sha256_bytes pointer_body))"
proof -
  let ?A = "address base" and ?ok = "replacing base fresh g p st0 (address base pp) pointer_body"
  let ?al = "allowed st0 (loose_objects base fresh g) (control_objects base fresh g (bp_manifest_body p) (bp_ready_body p) pointer_body)"
  have g: "safe_id g" by (rule plan_fields(1) [OF plan])
  note apart = pointer_apart [OF pp names g] and ctl = control_transits(3-6) [OF names g, of "bp_manifest_body p" "bp_ready_body p" pointer_body]
  have guard: "kept store I m" if "guard = Some m" for m I using quiet that by (simp add: quiet_guard_def)
  have files: "''manifest.json'' \<in> set generation_files" "''READY.json'' \<in> set generation_files" by (simp_all add: generation_files_def)
  have f: "safe_id (fresh 4)" using names by (simp add: unused_names_def)
  have T: "?ok (?A (incoming_path ''channels'' (fresh 4))) x \<longleftrightarrow> ?al (?A (incoming_path ''channels'' (fresh 4))) x" for x
    using apart(3) apart(5) [OF files(1)] apart(5) [OF files(2)] by (simp add: replacing_def pinned_def)
  have sw: "keeping store (\<lambda>st. ar_sha256 x = sha256_bytes (bp_ready_body p) \<and> (\<forall>u. ?ok u (st u)))
      (sbind (switch_pointer px http client (fresh 4) (bundle_pointer g (sha256_bytes (bp_manifest_body p)) (ar_sha256 x)) guard) (\<lambda>_. ret y))
      (\<lambda>_ st. \<exists>b. st (?A pp) = Some b \<and> sha256_bytes b = sha256_bytes pointer_body)" for x y
  proof (rule keeping_pure)
    assume "ar_sha256 x = sha256_bytes (bp_ready_body p)"
    then have "canonical_bytes px (MPointer (bundle_pointer g (sha256_bytes (bp_manifest_body p)) (ar_sha256 x))) = Inr pointer_body"
      using rb by (simp add: reads_back_def published_generation_def)
    then show "keeping store (\<lambda>st. \<forall>u. ?ok u (st u))
      (sbind (switch_pointer px http client (fresh 4) (bundle_pointer g (sha256_bytes (bp_manifest_body p)) (ar_sha256 x)) guard) (\<lambda>_. ret y))
      (\<lambda>_ st. \<exists>b. st (?A pp) = Some b \<and> sha256_bytes b = sha256_bytes pointer_body)"
      using ctl T unfolding base_def
      by (intro keeping_sbind_post [OF keeping_switch [OF f pp refl refl _ guard]]) (auto intro: keeping_ret simp: replacing_def)
  qed
  have sealed: "ar_sha256 x = sha256_bytes (bp_ready_body p) \<and> (\<forall>u. ?ok u (st u))"
    if "\<forall>u. ?al u (st u)" and Q: "ar_sha256 x = sha256_bytes (bp_ready_body p)
        \<and> (\<exists>b. st (?A (generation_file g ''manifest.json'')) = Some b \<and> sha256_bytes b = sha256_bytes (bp_manifest_body p))
        \<and> (\<exists>b. st (?A (generation_file g ''READY.json'')) = Some b \<and> sha256_bytes b = sha256_bytes (bp_ready_body p))" for x st
  proof -
    have m: "st (?A (generation_file g ''manifest.json'')) = Some (bp_manifest_body p)"
      by (rule sealed_content [where ok = ?al, OF that(1) _ M ctl(3)]) (use Q in auto)
    have r: "st (?A (generation_file g ''READY.json'')) = Some (bp_ready_body p)"
      by (rule sealed_content [where ok = ?al, OF that(1) _ R ctl(4)]) (use Q in auto)
    have "st (?A pp) = st0 (?A pp)" using that(1) apart(1,2) by (metis allowed_def)
    with m r that(1) Q show ?thesis by (auto simp: replacing_def pinned_def)
  qed
  from run plan have "sbind (seal http os client fresh g p database vectors) (\<lambda>x.
     sbind (switch_pointer px http client (fresh 4) (bundle_pointer g (sha256_bytes (bp_manifest_body p)) (ar_sha256 x)) guard) (\<lambda>_.
     ret \<lparr>pu_generation_id = g, pu_index_sha256 = ar_sha256 (gm_serving_database (bp_manifest p)),
          pu_manifest_sha256 = sha256_bytes (bp_manifest_body p)\<rparr>)) s = (r, s')"
    unfolding publish_bundle_stages by (simp add: sbind_def lift_def)
  note last = keeping_then_last [where I = "\<lambda>st. \<forall>u. ?al u (st u)" and J = "\<lambda>x st. ar_sha256 x = sha256_bytes (bp_ready_body p) \<and> (\<forall>u. ?ok u (st u))",
    OF keeping_seal [OF plan names [unfolded base_def], folded base_def] sealed sw this]
  have "\<forall>u. ?al u (store (dav_world s) u)" by (simp add: st0 allowed_def)
  from last [OF _ _ this] show ?thesis by blast
qed

end

lemma replacing_pins:
  assumes "\<forall>u. replacing base fresh g p st0 P pointer_body u (st u)"
    and "address base (generation_file g ''manifest.json'') \<noteq> P" "address base (generation_file g ''READY.json'') \<noteq> P"
  shows "st (address base (generation_file g ''manifest.json'')) = Some (bp_manifest_body p)"
    "st (address base (generation_file g ''READY.json'')) = Some (bp_ready_body p)"
    "st P = st0 P \<or> st P = Some pointer_body" "u \<noteq> P \<Longrightarrow> st0 u = Some b \<Longrightarrow> st u = Some b"
  using assms(2,3) spec [OF assms(1), of "address base (generation_file g ''manifest.json'')"]
    spec [OF assms(1), of "address base (generation_file g ''READY.json'')"] spec [OF assms(1), of P] spec [OF assms(1), of u]
  by (auto simp: replacing_def pinned_def dest: allowed_existing)


section \<open>A publication that succeeds\<close>

lemma runs_publish_file:
  assumes d: "plain_path d" "2 \<le> length d" "take 2 d \<noteq> [''v1'', ''.incoming'']" "safe_id fresh" "\<not> pb_final_only pb"
    and ref: "artifact_ref (sha256_bytes b) (int (length b)) mt (as_posix d) = Inr ref"
    and w: "w (address (pb_base pb) d) = None \<or> w (address (pb_base pb) d) = Some b" "w (address (pb_base pb) (incoming_path ''publish'' fresh)) = None"
  shows "runs (publish_file mem_http (demo_os b) pb fresh d source mt (Some (sha256_bytes b)) (Some (int (length b)))) w
     (Inr ref) (w(address (pb_base pb) d := Some b))"
proof -
  let ?check = "verify_source_identity (demo_os b) source (1, 2, int (length b), 3, 4)"
  have chk: "runs ?check w (Inr ()) w" for w :: objects by (rule demo_check)
  let ?content = "sbind ?check (\<lambda>_. sbind (on_world (os_read_all (demo_os b) (pb_chunk pb))) (\<lambda>again.
     case again of None \<Rightarrow> raise (WebDAVIntegrityError ''publication source could not be read safely'')
     | Some cs \<Rightarrow> ret (concat cs)))"
  have os: "os_open (demo_os b) f w = (True, w)" "os_read_all (demo_os b) n w = (Some [b], w)"
    "os_fstat (demo_os b) w = (Some \<lparr>fs_regular = True, fs_dev = 1, fs_ino = 2, fs_size = int (length b), fs_mtime_ns = 3, fs_ctime_ns = 4\<rparr>, w)"
    for f n and w :: objects
    by (simp_all add: demo_os_def Let_def)
  have c: "runs ?content w (Inr b) w" for w :: objects
    by (rule runs_sbind [OF chk], rule runs_sbind [OF runs_on_world [OF os(2)]]) (simp add: runs_ret)
  have "runs (publish mem_http pb fresh d (sha256_bytes b) (int (length b)) mt ?content ?check) w (Inr ref) (w(address (pb_base pb) d := Some b))"
    by (rule runs_publish [OF d ref w c chk])
  then have p: "runs (sbind (publish mem_http pb fresh d (sha256_bytes b) (int (length b)) mt ?content ?check)
      (\<lambda>reference. sbind ?check (\<lambda>_. ret reference))) w (Inr ref) (w(address (pb_base pb) d := Some b))"
    using chk by (auto intro!: runs_sbind runs_ret)
  show ?thesis
    unfolding publish_file_def publish_file_via_def Let_def
    apply (rule runs_validated [OF d(1)], rule runs_sbind_lift, simp, rule runs_sbind_lift, simp add: validate_expected_size_def)
    apply (rule runs_sbind [OF runs_on_world [OF os(1)]], rule runs_sbind_lift, simp)
    apply (rule runs_sbind [OF runs_on_world [OF os(3)]], simp only: option.case, rule runs_sbind_lift, simp)
    apply (rule runs_sbind [OF runs_on_world [OF os(2)]], simp only: option.case sha256_chunks_eq prod.case, simp add: file_identity_def)
    apply (rule runs_sbind [OF chk], rule runs_sbind_lift [where x = "()"], simp)
    apply (rule runs_sbind_lift [where x = "()"], simp)
    apply (rule runs_sbind_lift [where x = "()"], simp)
    apply (rule runs_sbind_lift [where x = d], simp only: rbind_simps validate_path_plain [OF d(1)])
    using p apply simp
    done
qed

lemma runs_atomic_replace:
  assumes fresh: "safe_id fresh" and d: "channel_pointer_path channel = Inr d" and w: "w (address (pb_base pb) (incoming_path ''channels'' fresh)) = None"
    and ref: "artifact_ref (sha256_bytes b) (int (length b)) mt (as_posix d) = Inr ref"
  shows "runs (atomic_replace_bytes mem_http pb fresh channel b mt) w (Inr ref) (w(address (pb_base pb) d := Some b))"
proof -
  let ?t = "incoming_path ''channels'' fresh" and ?u = "address (pb_base pb)"
  have t: "plain_path ?t" "2 \<le> length ?t" using incoming_plain [OF fresh] by (auto simp: incoming_path_def)
  have dp: "plain_path d" "2 \<le> length d" "?t \<noteq> d"
    using d by (auto simp: channel_pointer_path_def plain_path_def json_suffix incoming_path_def)
  have ne: "?u ?t \<noteq> ?u d" using address_inj [OF t(1) dp(1)] dp(3) by blast
  let ?w1 = "w(?u ?t := Some b)" and ?w2 = "w(?u ?t := Some b, ?u d := Some b, ?u ?t := None)"
  have vt: "\<exists>x. runs (verify_remote mem_http pb ?t (sha256_bytes b) (int (length b))) ?w1 (Inr x) ?w1"
    unfolding verify_remote_def using runs_verify_ok [OF t(1), where w = ?w1] by auto
  have c: "runs (sbind (move mem_http (pb_base pb) ?t d True) (\<lambda>_.
        sbind (verify_remote mem_http pb d (sha256_bytes b) (int (length b))) (\<lambda>_. ret ()))) ?w1 (Inr ()) ?w2"
    using runs_commit [OF t(1) dp(1,3), where ov = True and b = b and w = ?w1 and pb = pb, OF _ refl] by simp
  have w2: "?w2(?u ?t := None) = w(?u d := Some b)" using ne w by auto
  have drop: "runs (suppress (delete mem_http (pb_base pb) ?t True)) ?w2 (Inr ()) (w(?u d := Some b))"
    using runs_suppress [OF runs_delete [OF t(1), of "pb_base pb" ?w2]] unfolding w2 .
  have body: "runs (sbind (put mem_http (pb_base pb) ?t (ret b) mt True) (\<lambda>_.
        sbind (verify_remote mem_http pb ?t (sha256_bytes b) (int (length b))) (\<lambda>_.
        sbind (move mem_http (pb_base pb) ?t d True) (\<lambda>_.
        sbind (verify_remote mem_http pb d (sha256_bytes b) (int (length b))) (\<lambda>_. ret ()))))) w (Inr ()) ?w2"
    by (rule runs_seq [OF runs_put [OF t(1), where w = w, OF w runs_ret]], rule runs_seq [OF vt], rule c)
  show ?thesis
    unfolding atomic_replace_bytes_def Let_def d
    by (rule runs_sbind_lift [OF refl], rule runs_sbind [OF runs_ensure_parent [OF dp(1,2)]], rule runs_sbind [OF runs_ensure_parent [OF t]],
        rule runs_sbind [OF runs_catch [OF body]], rule runs_sbind [OF drop])
      (simp add: runs_def lift_def ref)
qed

lemma runs_seal_control:
  assumes "safe_id fresh" "path = Inr (generation_file g f)" "safe_id g" "f \<in> set generation_files" "\<not> pb_final_only (bc_immutable client)"
    and "artifact_ref (sha256_bytes body) (int (length body)) ''application/json'' (as_posix (generation_file g f)) = Inr ref"
    and "w (address (pb_base (bc_immutable client)) (generation_file g f)) = None"
    and "w (address (pb_base (bc_immutable client)) (incoming_path ''publish'' fresh)) = None"
  shows "runs (seal_control mem_http client fresh path body label) w (Inr ref)
     (w(address (pb_base (bc_immutable client)) (generation_file g f) := Some body))"
proof -
  have d: "plain_path (generation_file g f)" "2 \<le> length (generation_file g f)" "take 2 (generation_file g f) \<noteq> [''v1'', ''.incoming'']"
    using generation_file_plain [OF assms(3,4)] by (auto simp: generation_file_def)
  have "runs (publish_bytes mem_http (bc_immutable client) fresh (generation_file g f) body ''application/json'') w (Inr ref)
     (w(address (pb_base (bc_immutable client)) (generation_file g f) := Some body))"
    by (rule runs_publish_bytes [OF d assms(1,5,6)]) (use assms(7,8) in auto)
  then show ?thesis
    unfolding seal_control_def assms(2)
    by (intro runs_sbind_lift [OF refl] runs_sbind_lift [OF assms(6)] runs_sbind)
      (auto intro!: runs_sbind_lift [where x = "()"] runs_ret runs_lifted simp: require_exact_artifact_def)
qed

text \<open>The reference of an object whose path is one of the layout's.\<close>

lemma artifact_ref_plain:
  assumes "plain_path p" "take 3 p \<noteq> [''v1'', ''objects'', ''sha256'']" "strip mt = mt" "mt \<noteq> []"
  shows "artifact_ref (sha256_bytes b) (int (length b)) mt (as_posix p)
    = Inr \<lparr>ar_sha256 = sha256_bytes b, ar_size_bytes = int (length b), ar_media_type = mt, ar_path = as_posix p\<rparr>"
  using assms by (auto simp: artifact_ref_def Let_def validate_relative_path_iff object_path_def)

lemma json_media: "strip ''application/json'' = ''application/json''" "strip ''application/vnd.sqlite3'' = ''application/vnd.sqlite3''"
  by code_simp+

lemma generation_files_apart:
  assumes "safe_id g" "f \<in> set generation_files" "f' \<in> set generation_files" "f \<noteq> f'"
  shows "address base (generation_file g f) \<noteq> address base (generation_file g f')"
  using address_inj [OF generation_file_plain [OF assms(1,2)] generation_file_plain [OF assms(1,3)]] assms(4) by (auto simp: generation_file_def)

lemma temporary_apart:
  assumes "safe_id g" "f \<in> set generation_files" "safe_id fresh"
  shows "address base (incoming_path ''publish'' fresh) \<noteq> address base (generation_file g f)"
  using address_inj [OF incoming_plain [OF assms(3)] generation_file_plain [OF assms(1,2)]] by (auto simp: incoming_path_def generation_file_def)

lemma runs_seal_members:
  assumes plan: "plan_publication px client g manifest None = Inr p" and fresh: "safe_id (fresh 0)" and base: "base = pb_base (bc_immutable client)"
    and plain: "\<not> pb_final_only (bc_immutable client)"
    and w: "w (address base (generation_file g ''index.sqlite3'')) = None" "w (address base (incoming_path ''publish'' (fresh 0))) = None"
    and sealed: "ar_sha256 (gm_serving_database (bp_manifest p)) = sha256_bytes b" "ar_size_bytes (gm_serving_database (bp_manifest p)) = int (length b)"
  shows "runs (seal_members mem_http (demo_os b) client fresh p source None) w (Inr ()) (w(address base (generation_file g ''index.sqlite3'') := Some b))"
proof -
  let ?db = "gm_serving_database (bp_manifest p)" and ?d = "generation_file g ''index.sqlite3''"
  have d: "plain_path ?d" "2 \<le> length ?d" "take 2 ?d \<noteq> [''v1'', ''.incoming'']" "take 3 ?d \<noteq> [''v1'', ''objects'', ''sha256'']"
    using generation_file_plain [OF plan_fields(1) [OF plan], of "''index.sqlite3''"] by (simp_all add: generation_file_def generation_files_def)
  have media: "ar_media_type ?db = ''application/vnd.sqlite3''" using plan by (auto simp: plan_publication_def split: option.splits)
  have ref: "artifact_ref (sha256_bytes b) (int (length b)) ''application/vnd.sqlite3'' (as_posix ?d) = Inr ?db"
    using artifact_ref_plain [OF d(1,4) json_media(2), of b] sealed media plan_fields(4) [OF plan] by simp
  have "runs (publish_generation_file mem_http (demo_os b) client (fresh 0) ?db source) w (Inr ?db) (w(address base ?d := Some b))"
    unfolding publish_generation_file_def posix_path_def plan_fields(4) [OF plan] plain_path_split [OF d(1)] sealed media base
    by (rule runs_publish_file [OF d(1,2,3) fresh plain ref]) (use w base in simp_all)
  then show ?thesis
    unfolding seal_members_def Let_def
    by (rule runs_sbind) (auto intro!: runs_sbind_lift [where x = "()"] runs_ret simp: require_exact_artifact_def)
qed

lemma runs_switch:
  assumes "safe_id fresh" "channel_pointer_path (bc_channel client) = Inr pp" "generation_pointer pointer = Inr pointer"
    and "canonical_bytes px (MPointer pointer) = Inr body" "w (address (pb_base (bc_immutable client)) (incoming_path ''channels'' fresh)) = None"
  shows "runs (switch_pointer px mem_http client fresh pointer None) w (Inr ()) (w(address (pb_base (bc_immutable client)) pp := Some body))"
proof -
  have pp: "plain_path pp" "take 3 pp \<noteq> [''v1'', ''objects'', ''sha256'']"
    using assms(2) by (auto simp: channel_pointer_path_def plain_path_def json_suffix)
  note ref = artifact_ref_plain [OF pp json_media(1), of body, simplified]
  show ?thesis
    unfolding switch_pointer_def
    by (rule runs_sbind_lift [OF assms(3)], rule runs_sbind_lift [OF assms(4)], rule runs_sbind_lift [OF assms(2)], rule runs_sbind_lift [OF ref],
        simp only: option.case, rule runs_sbind [OF runs_ret], rule runs_sbind [OF runs_atomic_replace [where w = w, OF assms(1,2,5) ref]])
      (simp add: require_exact_artifact_def runs_lifted)
qed

lemma publication_runs:
  assumes plan: "plan_publication px client g manifest None = Inr p" and reads: "reads_back px g p pointer_body"
    and channel: "channel_pointer_path (bc_channel client) = Inr pp" and base: "base = pb_base (bc_immutable client)"
    and plain: "\<not> pb_final_only (bc_immutable client)" and names: "unused_names base fresh w"
    and free: "list_all (\<lambda>f. w (address base (generation_file g f)) = None) generation_files"
    and sealed: "ar_sha256 (gm_serving_database (bp_manifest p)) = sha256_bytes b" "ar_size_bytes (gm_serving_database (bp_manifest p)) = int (length b)"
  shows "runs (publish_bundle px mem_http (demo_os b) client fresh g source manifest None None) w
     (Inr \<lparr>pu_generation_id = g, pu_index_sha256 = sha256_bytes b, pu_manifest_sha256 = sha256_bytes (bp_manifest_body p)\<rparr>)
     (w(address base (generation_file g ''index.sqlite3'') := Some b, address base (generation_file g ''manifest.json'') := Some (bp_manifest_body p),
        address base (generation_file g ''READY.json'') := Some (bp_ready_body p), address base pp := Some pointer_body))"
proof -
  let ?A = "\<lambda>f. address base (generation_file g f)" and ?T = "\<lambda>i. address base (incoming_path ''publish'' (fresh i))"
  have g: "safe_id g" by (rule plan_fields(1) [OF plan])
  have fr: "safe_id (fresh 0)" "safe_id (fresh 2)" "safe_id (fresh 3)" "safe_id (fresh 4)" using names by (simp_all add: unused_names_def)
  have files: "''index.sqlite3'' \<in> set generation_files" "''manifest.json'' \<in> set generation_files" "''READY.json'' \<in> set generation_files"
    by (simp_all add: generation_files_def)
  have free': "w (?A f) = None" if "f \<in> set generation_files" for f using free that by (simp add: list_all_iff)
  have tmp: "w (?T 0) = None" "w (?T 2) = None" "w (?T 3) = None" "w (address base (incoming_path ''channels'' (fresh 4))) = None"
    using names by (simp_all add: unused_names_def)
  note apart = pointer_apart [OF channel names g] and neF = generation_files_apart [OF g] and neT = temporary_apart [OF g]
  have top: "take 3 (generation_file g f) \<noteq> [''v1'', ''objects'', ''sha256'']" for f by (simp add: generation_file_def)
  note ref = artifact_ref_plain [OF generation_file_plain [OF g] top json_media(1)]
  let ?w1 = "w(?A ''index.sqlite3'' := Some b)" and ?w2 = "w(?A ''index.sqlite3'' := Some b, ?A ''manifest.json'' := Some (bp_manifest_body p))"
  let ?w3 = "w(?A ''index.sqlite3'' := Some b, ?A ''manifest.json'' := Some (bp_manifest_body p), ?A ''READY.json'' := Some (bp_ready_body p))"
  have paths: "generation_manifest_path g = Inr (generation_file g ''manifest.json'')" "generation_ready_path g = Inr (generation_file g ''READY.json'')"
    using g by (auto simp: generation_manifest_path_def generation_ready_path_def generation_root_path_Inr generation_file_def)
  have s2: "\<exists>x. runs (seal_control mem_http client (fresh 2) (generation_manifest_path g) (bp_manifest_body p) l) ?w1 (Inr x) ?w2" for l
    unfolding base
    by (rule exI, rule runs_seal_control [OF fr(2) paths(1) g files(2) plain ref [OF files(2)]])
      (use neF [OF files(2,1)] neT [OF files(1) fr(2)] free' [OF files(2)] tmp(2) base in auto)
  have s3: "runs (seal_control mem_http client (fresh 3) (generation_ready_path g) (bp_ready_body p) l) ?w2
      (Inr \<lparr>ar_sha256 = sha256_bytes (bp_ready_body p), ar_size_bytes = int (length (bp_ready_body p)), ar_media_type = ''application/json'',
         ar_path = as_posix (generation_file g ''READY.json'')\<rparr>) ?w3" for l
    unfolding base
    by (rule runs_seal_control [OF fr(3) paths(2) g files(3) plain ref [OF files(3)]])
      (use neF [OF files(3,1)] neF [OF files(3,2)] neT [OF files(1) fr(3)] neT [OF files(2) fr(3)] free' [OF files(3)] tmp(3) base in auto)
  have s4: "runs (switch_pointer px mem_http client (fresh 4) (bundle_pointer g (sha256_bytes (bp_manifest_body p)) (sha256_bytes (bp_ready_body p))) None)
      ?w3 (Inr ()) (?w3(address base pp := Some pointer_body))"
    unfolding base
    by (rule runs_switch [OF fr(4) channel])
      (use g reads apart(5) [OF files(1)] apart(5) [OF files(2)] apart(5) [OF files(3)] tmp(4) base in
        \<open>auto simp: generation_pointer_def bundle_pointer_def reads_back_def published_generation_def\<close>)
  show ?thesis
    unfolding publish_bundle_def sealed
    by (rule runs_sbind_lift [OF plan], rule runs_sbind [OF runs_seal_members [where w = w and fresh = fresh, OF plan fr(1) base plain free' [OF files(1)] tmp(1) sealed]],
        rule runs_seq [OF s2], rule runs_sbind [OF s3], unfold ArtifactRef.select_convs, rule runs_sbind [OF s4])
      (simp add: runs_ret sealed)
qed

lemma runs_verify_database:
  assumes cur: "view px base pp w = Inr c" and pp: "plain_path pp" and g: "safe_id (gm_generation_id (cg_manifest c))"
    and db: "ar_path (gm_serving_database (cg_manifest c)) = as_posix (generation_file (gm_generation_id (cg_manifest c)) ''index.sqlite3'')"
    and held: "w (address base (generation_file (gm_generation_id (cg_manifest c)) ''index.sqlite3'')) = Some b"
      "ar_sha256 (gm_serving_database (cg_manifest c)) = sha256_bytes b" "ar_size_bytes (gm_serving_database (cg_manifest c)) = int (length b)"
  shows "\<exists>v. runs (verify_serving_database px mem_http base pp None) w (Inr v) w"
proof -
  let ?d = "generation_file (gm_generation_id (cg_manifest c)) ''index.sqlite3''"
  have d: "plain_path ?d" by (rule generation_file_plain [OF g]) (simp add: generation_files_def)
  have path: "posix_path (as_posix ?d) = ?d" unfolding posix_path_def by (rule plain_path_split [OF d])
  have check: "check_database_path c = Inr (gm_serving_database (cg_manifest c))"
    using g path by (auto simp: check_database_path_def generation_database_path_def generation_root_path_Inr db generation_file_def)
  obtain v where "runs (verify mem_http base ?d (sha256_bytes b) (int (length b)) None) w (Inr v) w"
    using runs_verify_ok [where w = w, OF d held(1)] by blast
  then have "runs (sbind (lift (check_database_path c)) (\<lambda>database. verify_member mem_http base database)) w (Inr v) w"
    by (intro runs_sbind_lift [OF check]) (simp add: verify_member_def db path held(2,3))
  then show ?thesis
    unfolding verify_serving_database_def selected_def option.case
    by (intro exI [of _ v] runs_sbind [OF runs_read_current [OF pp, of px base w, unfolded cur]])
qed


section \<open>A small publication\<close>

definition bundle_manifest :: GenerationManifest where
  "bundle_manifest = demo_manifest\<lparr>gm_serving_database := \<lparr>ar_sha256 = sha256_bytes ''db'', ar_size_bytes = 2,
     ar_media_type = ''application/vnd.sqlite3'', ar_path = ''v1/generations/g2/index.sqlite3''\<rparr>\<rparr>"

definition bundle_dump :: pyval where
  "bundle_dump = PDict [(PStr ''kind'', PStr ''manifest'')]"

definition bundle_body :: bytes where
  "bundle_body = CHR ''{'' # CHR 0x22 # ''kind'' @ [CHR 0x22, CHR '':'', CHR 0x22] @ ''manifest'' @ [CHR 0x22, CHR ''}'']"

definition bundle_ready :: GenerationReady where
  "bundle_ready = \<lparr>gr_schema_version = ''cardrag.generation-ready.v1'', gr_generation_id = ''g2'', gr_manifest_sha256 = sha256_bytes bundle_body,
     gr_serving_database_sha256 = sha256_bytes ''db'', gr_serving_database_size_bytes = 2, gr_vector_sidecar_sha256 = None,
     gr_vector_sidecar_size_bytes = None\<rparr>"

text \<open>A stand-in for pydantic that knows the three models of this publication.\<close>

definition bundle_pydantic :: pydantic where
  "bundle_pydantic = demo_pydantic\<lparr>px_dump := (\<lambda>m. case m of MManifest _ \<Rightarrow> bundle_dump | MReady _ \<Rightarrow> PInt 1 | MPointer _ \<Rightarrow> PInt 2 | _ \<Rightarrow> PNone),
     px_manifest := (\<lambda>b. if b = bundle_body then Some bundle_manifest else None),
     px_ready := (\<lambda>b. if b = ''1'' then Some bundle_ready else None),
     px_pointer := (\<lambda>b. if b = ''2'' then Some (bundle_pointer ''g2'' (sha256_bytes bundle_body) (sha256_bytes ''1'')) else None)\<rparr>"

definition bundle_plan_demo :: bundle_plan where
  "bundle_plan_demo = \<lparr>bp_manifest = bundle_manifest, bp_manifest_body = bundle_body, bp_vector_artifact = None, bp_ready = bundle_ready, bp_ready_body = ''1''\<rparr>"

definition bundle_client_demo :: bundle_client where
  "bundle_client_demo = \<lparr>bc_immutable = demo_publisher, bc_channel = ''stable'', bc_stable_publication_approved = False\<rparr>"

definition bundle_names :: "nat \<Rightarrow> string" where
  "bundle_names i = replicate (Suc i) (CHR ''f'')"

lemma bundle_bodies: "canonical_json_bytes bundle_dump = Inr bundle_body" "canonical_json_bytes (PModel bundle_dump) = Inr bundle_body"
  "canonical_json_bytes (PModel (PInt 1)) = Inr ''1''" "canonical_json_bytes (PModel (PInt 2)) = Inr ''2''"
  by code_simp+

lemma bundle_planned: "plan_publication bundle_pydantic bundle_client_demo ''g2'' bundle_dump None = Inr bundle_plan_demo"
proof -
  have "generation_database_path ''g2'' = Inr [''v1'', ''generations'', ''g2'', ''index.sqlite3'']"
    "as_posix [''v1'', ''generations'', ''g2'', ''index.sqlite3''] = ''v1/generations/g2/index.sqlite3''"
    "\<not> v5_schema ''cardrag.generation.v4''" "safe_id ''g2''" by code_simp+
  then show ?thesis
    by (simp add: plan_publication_def bundle_bodies bundle_pydantic_def bundle_manifest_def demo_manifest_def guard_v5_stable_publication_def
        plan_sidecar_def generation_ready_def canonical_bytes_def bundle_plan_demo_def bundle_ready_def optional_def)
qed

lemma bundle_reads_back: "reads_back bundle_pydantic ''g2'' bundle_plan_demo ''2''"
  by (simp add: reads_back_def canonical_bytes_def bundle_pydantic_def published_generation_def bundle_plan_demo_def bundle_bodies
      control_file_limit_def) (simp add: bundle_body_def)

lemma bundle_channel: "channel_pointer_path (bc_channel bundle_client_demo) = Inr [''v1'', ''channels'', ''stable.json'']"
  by code_simp

lemma bundle_unused: "unused_names base bundle_names Map.empty"
proof -
  have "list_all (\<lambda>i. safe_id (bundle_names i)) [0, 1, 2, 3, 4]" "distinct (map bundle_names [0, 1, 2, 3])" by code_simp+
  then show ?thesis by (simp add: unused_names_def)
qed



end
