(* ===== verification/Quota.thy ===== *)
theory Quota
  imports Paths Json Effects
begin

text \<open>
  \<open>cardrag_mcp/quota.py\<close>: the byte quota of the server's state directory, shared by all its processes.  A writer either holds
  the quota lock for a check and its write (\<open>state_quota_guard\<close>), or publishes a durable reservation, writes without the
  lock and releases the reservation.

  Every transaction runs under one cross-process lock, so that a run is a sequence of transactions and writes.  The state
  directory is a tree of entries, each directory in name order; the policy and the reservations live in its coordination
  directory and are counted after the other files.  A lease (the \<open>flock\<close> of a reservation's creator) is the membership of its token in
  \<open>qs_leases\<close>.  Temporary files of an interrupted publication, which the next transaction removes, the checks of link counts and
  inodes, and the registry of policies in the memory of a process are left out, with the usage of a subtree and of the audit jobs.
\<close>

section \<open>Byte counts\<close>

definition max_safe_bytes :: int where
  "max_safe_bytes = 2 ^ 63 - 1"

definition validate_byte_limit :: "int \<Rightarrow> string \<Rightarrow> bool \<Rightarrow> int result" where
  "validate_byte_limit value label allow_zero =
     rbind (raise_if (value < (if allow_zero then 0 else 1) \<or> max_safe_bytes < value)
       (ValueError (label @ '' must be a '' @ (if allow_zero then ''non-negative'' else ''positive'') @ '' bounded integer''))) (\<lambda>_.
     Inr value)"

definition validate_count_limit :: "int \<Rightarrow> string \<Rightarrow> int result" where
  "validate_count_limit value label =
     rbind (raise_if (value < 1 \<or> max_safe_bytes < value) (ValueError (label @ '' must be a positive bounded integer''))) (\<lambda>_. Inr value)"

definition checked_add :: "int \<Rightarrow> int \<Rightarrow> string \<Rightarrow> int result" where
  "checked_add left right label =
     rbind (validate_byte_limit left label True) (\<lambda>_.
     rbind (validate_byte_limit right label True) (\<lambda>_.
     rbind (raise_if (max_safe_bytes - left < right) (StorageQuotaError (label @ '' exceeds the supported byte range''))) (\<lambda>_.
     Inr (left + right))))"

lemma validate_byte_limit_Inr [simp]:
  "validate_byte_limit v label z = Inr w \<longleftrightarrow> (if z then 0 else 1) \<le> v \<and> v \<le> max_safe_bytes \<and> w = v"
  by (auto simp: validate_byte_limit_def)

lemma checked_add_Inr [simp]:
  "checked_add l r label = Inr t \<longleftrightarrow> 0 \<le> l \<and> 0 \<le> r \<and> l + r \<le> max_safe_bytes \<and> t = l + r"
  by (auto simp: checked_add_def)

section \<open>The policy\<close>

record StateQuotaPolicy =
  qp_maximum_state_bytes :: int
  qp_reserved_free_space_bytes :: int
  qp_exhaustive_audit_max_jobs :: int
  qp_exhaustive_audit_max_total_bytes :: int
  qp_exhaustive_audit_max_artifact_bytes :: int
  qp_reranker_audit_max_jobs :: int
  qp_reranker_audit_max_total_bytes :: int
  qp_reranker_audit_max_artifact_bytes :: int

definition default_policy :: StateQuotaPolicy where
  "default_policy = \<lparr>qp_maximum_state_bytes = 128 * 1024 ^ 3, qp_reserved_free_space_bytes = 2 * 1024 ^ 3, qp_exhaustive_audit_max_jobs = 32,
     qp_exhaustive_audit_max_total_bytes = 2 * 1024 ^ 3, qp_exhaustive_audit_max_artifact_bytes = 256 * 1024 ^ 2, qp_reranker_audit_max_jobs = 1024,
     qp_reranker_audit_max_total_bytes = 512 * 1024 ^ 2, qp_reranker_audit_max_artifact_bytes = 8 * 1024 ^ 2\<rparr>"

definition make_policy :: "StateQuotaPolicy \<Rightarrow> StateQuotaPolicy result" where
  "make_policy p =
     rbind (validate_byte_limit (qp_maximum_state_bytes p) ''maximum state bytes'' False) (\<lambda>_.
     rbind (validate_byte_limit (qp_reserved_free_space_bytes p) ''reserved free-space bytes'' True) (\<lambda>_.
     rbind (validate_count_limit (qp_exhaustive_audit_max_jobs p) ''maximum exhaustive audit jobs'') (\<lambda>_.
     rbind (validate_byte_limit (qp_exhaustive_audit_max_total_bytes p) ''maximum exhaustive audit total bytes'' False) (\<lambda>_.
     rbind (validate_byte_limit (qp_exhaustive_audit_max_artifact_bytes p) ''maximum exhaustive audit artifact bytes'' False) (\<lambda>_.
     rbind (validate_count_limit (qp_reranker_audit_max_jobs p) ''maximum reranker audit jobs'') (\<lambda>_.
     rbind (validate_byte_limit (qp_reranker_audit_max_total_bytes p) ''maximum reranker audit total bytes'' False) (\<lambda>_.
     rbind (validate_byte_limit (qp_reranker_audit_max_artifact_bytes p) ''maximum reranker audit artifact bytes'' False) (\<lambda>_.
     rbind (raise_if (qp_exhaustive_audit_max_total_bytes p < qp_exhaustive_audit_max_artifact_bytes p)
       (ValueError ''exhaustive audit artifact cap exceeds its total quota'')) (\<lambda>_.
     rbind (raise_if (qp_maximum_state_bytes p < qp_exhaustive_audit_max_total_bytes p)
       (ValueError ''exhaustive audit total quota exceeds the MCP state quota'')) (\<lambda>_.
     rbind (raise_if (qp_reranker_audit_max_total_bytes p < qp_reranker_audit_max_artifact_bytes p)
       (ValueError ''reranker audit artifact cap exceeds its total quota'')) (\<lambda>_.
     rbind (raise_if (qp_maximum_state_bytes p < qp_reranker_audit_max_total_bytes p)
       (ValueError ''reranker audit total quota exceeds the MCP state quota'')) (\<lambda>_. Inr p))))))))))))"

section \<open>Coordination files\<close>

definition canonical_json :: "json \<Rightarrow> bytes" where
  "canonical_json v = dumps True v @ [CHR 0x0A]"

text \<open>
  A repeated key is refused here by the comparison with the canonical bytes, where the source refuses it while parsing; both raise
  \<open>StorageQuotaError\<close>.  After the comparison the keys of the object are distinct.
\<close>

definition strict_json_file :: "bytes \<Rightarrow> (string, json) dict result" where
  "strict_json_file encoded =
     rbind (raise_if (length encoded < 1 \<or> 16 * 1024 < length encoded) (StorageQuotaError ''state quota coordination file has an invalid size'')) (\<lambda>_.
     case loads encoded of
       Inl _ \<Rightarrow> Inl (StorageQuotaError ''state quota coordination file is not strict JSON'')
     | Inr (JObj kvs) \<Rightarrow>
         rbind (raise_if (encoded \<noteq> canonical_json (JObj kvs)) (StorageQuotaError ''state quota coordination file is not canonical JSON'')) (\<lambda>_. Inr kvs)
     | Inr _ \<Rightarrow> Inl (StorageQuotaError ''state quota coordination file is not canonical JSON''))"

definition policy_payload :: "StateQuotaPolicy \<Rightarrow> json" where
  "policy_payload p = JObj [(''schema_version'', JStr ''cardrag.mcp-state-quota-policy.v1''), (''values'', JArr (map JInt
     [qp_maximum_state_bytes p, qp_reserved_free_space_bytes p, qp_exhaustive_audit_max_jobs p, qp_exhaustive_audit_max_total_bytes p,
      qp_exhaustive_audit_max_artifact_bytes p, qp_reranker_audit_max_jobs p, qp_reranker_audit_max_total_bytes p, qp_reranker_audit_max_artifact_bytes p]))]"

text \<open>The last comparison of the source, with the payload of the parsed policy, repeats what the checks before it have established.\<close>

definition parse_policy_payload :: "(string, json) dict \<Rightarrow> StateQuotaPolicy result" where
  "parse_policy_payload parsed =
     (let invalid = StorageQuotaError ''state quota policy is invalid'' in
      rbind (raise_if (set (keys parsed) \<noteq> {''schema_version'', ''values''}) (StorageQuotaError ''state quota policy fields are invalid'')) (\<lambda>_.
      case map_of parsed ''values'' of
        Some (JArr values) \<Rightarrow>
          rbind (raise_if (map_of parsed ''schema_version'' \<noteq> Some (JStr ''cardrag.mcp-state-quota-policy.v1'') \<or> length values \<noteq> 8)
            (StorageQuotaError ''state quota policy schema is invalid'')) (\<lambda>_.
          case values of
            [JInt a, JInt b, JInt c, JInt d, JInt e, JInt f, JInt g, JInt h] \<Rightarrow>
              (case make_policy \<lparr>qp_maximum_state_bytes = a, qp_reserved_free_space_bytes = b, qp_exhaustive_audit_max_jobs = c,
                 qp_exhaustive_audit_max_total_bytes = d, qp_exhaustive_audit_max_artifact_bytes = e, qp_reranker_audit_max_jobs = f,
                 qp_reranker_audit_max_total_bytes = g, qp_reranker_audit_max_artifact_bytes = h\<rparr> of
                 Inl _ \<Rightarrow> Inl invalid | Inr p \<Rightarrow> Inr p)
          | _ \<Rightarrow> Inl invalid)
      | _ \<Rightarrow> Inl (StorageQuotaError ''state quota policy schema is invalid'')))"

definition reservation_payload :: "string \<Rightarrow> int \<Rightarrow> int \<Rightarrow> json" where
  "reservation_payload token logical peak = JObj [(''schema_version'', JStr ''cardrag.mcp-state-quota-reservation.v2''), (''token'', JStr token),
     (''lease'', JStr ''exclusive-flock-v1''), (''logical'', JInt logical), (''peak'', JInt peak)]"

text \<open>The name of a reservation file is \<open>reservation-TOKEN.json\<close> with 64 hexadecimal digits; the dictionary is keyed by the token.\<close>

definition parse_reservation_payload :: "string \<Rightarrow> (string, json) dict \<Rightarrow> (int \<times> int) result" where
  "parse_reservation_payload name_token parsed =
     (let values = StorageQuotaError ''state quota reservation values are invalid'' in
      rbind (raise_if (\<not> sha256_hex name_token \<or> set (keys parsed) \<noteq> {''schema_version'', ''token'', ''lease'', ''logical'', ''peak''})
        (StorageQuotaError ''state quota reservation fields are invalid'')) (\<lambda>_.
      rbind (raise_if (map_of parsed ''schema_version'' \<noteq> Some (JStr ''cardrag.mcp-state-quota-reservation.v2'') \<or> map_of parsed ''token'' \<noteq> Some (JStr name_token)
          \<or> map_of parsed ''lease'' \<noteq> Some (JStr ''exclusive-flock-v1'')) (StorageQuotaError ''state quota reservation identity is invalid'')) (\<lambda>_.
      case (map_of parsed ''logical'', map_of parsed ''peak'') of
        (Some (JInt logical), Some (JInt peak)) \<Rightarrow>
          (case validate_byte_limit logical ''reserved logical state growth'' True of Inl _ \<Rightarrow> Inl values
           | Inr _ \<Rightarrow> (case validate_byte_limit peak ''reserved peak state growth'' True of Inl _ \<Rightarrow> Inl values
             | Inr _ \<Rightarrow> rbind (raise_if (peak < logical) (StorageQuotaError ''state quota reservation peak is invalid'')) (\<lambda>_. Inr (logical, peak))))
      | _ \<Rightarrow> Inl values)))"

definition read_reservation :: "string \<Rightarrow> bytes \<Rightarrow> (int \<times> int) result" where
  "read_reservation token encoded = rbind (strict_json_file encoded) (parse_reservation_payload token)"

definition read_policy :: "bytes \<Rightarrow> StateQuotaPolicy result" where
  "read_policy encoded = rbind (strict_json_file encoded) parse_policy_payload"

section \<open>Usage of the state directory\<close>

datatype fs_entry = RegularEntry nat | DirectoryEntry "(string \<times> fs_entry) list" | SymlinkEntry | IrregularEntry

fun entry_usage :: "fs_entry \<Rightarrow> int result" and directory_usage :: "int \<Rightarrow> (string \<times> fs_entry) list \<Rightarrow> int result" where
  "entry_usage (RegularEntry n) = Inr (int n)"
| "entry_usage (DirectoryEntry es) = directory_usage 0 es"
| "entry_usage SymlinkEntry = Inl (StorageQuotaError ''storage quota tree contains a symlink'')"
| "entry_usage IrregularEntry = Inl (StorageQuotaError ''storage quota tree contains a non-regular entry'')"
| "directory_usage sofar [] = Inr sofar"
| "directory_usage sofar ((_, e) # es) =
     rbind (entry_usage e) (\<lambda>amount. rbind (checked_add sofar amount ''storage quota usage'') (\<lambda>t. directory_usage t es))"

fun file_bytes :: "fs_entry \<Rightarrow> int" and tree_bytes :: "(string \<times> fs_entry) list \<Rightarrow> int" where
  "file_bytes (RegularEntry n) = int n"
| "file_bytes (DirectoryEntry es) = tree_bytes es"
| "file_bytes _ = 0"
| "tree_bytes [] = 0"
| "tree_bytes ((_, e) # es) = file_bytes e + tree_bytes es"

fun plain_entry :: "fs_entry \<Rightarrow> bool" and plain_tree :: "(string \<times> fs_entry) list \<Rightarrow> bool" where
  "plain_entry (RegularEntry _) = True"
| "plain_entry (DirectoryEntry es) = plain_tree es"
| "plain_entry _ = False"
| "plain_tree [] = True"
| "plain_tree ((_, e) # es) = (plain_entry e \<and> plain_tree es)"

lemma tree_bytes_nonneg: "0 \<le> file_bytes e" "0 \<le> tree_bytes es"
  by (induction e and es rule: file_bytes_tree_bytes.induct) simp_all

text \<open>The traversal counts the regular files exactly, or raises: on a link, on a special file, or beyond the supported range.\<close>

lemma usage_exact:
  "entry_usage e = Inr u \<Longrightarrow> plain_entry e \<and> u = file_bytes e"
  "directory_usage sofar es = Inr u \<Longrightarrow> plain_tree es \<and> u = sofar + tree_bytes es"
  by (induction e and sofar es arbitrary: u and u rule: entry_usage_directory_usage.induct) (auto, fastforce+)

lemma usage_total:
  "plain_entry e \<Longrightarrow> file_bytes e \<le> max_safe_bytes \<Longrightarrow> entry_usage e = Inr (file_bytes e)"
  "plain_tree es \<Longrightarrow> 0 \<le> sofar \<Longrightarrow> sofar + tree_bytes es \<le> max_safe_bytes \<Longrightarrow> directory_usage sofar es = Inr (sofar + tree_bytes es)"
proof (induction e and sofar es rule: entry_usage_directory_usage.induct)
  case (6 sofar n e es)
  have nonneg: "0 \<le> file_bytes e" "0 \<le> tree_bytes es" by (rule tree_bytes_nonneg)+
  with 6 have "entry_usage e = Inr (file_bytes e)" by simp
  moreover from 6 nonneg have "checked_add sofar (file_bytes e) ''storage quota usage'' = Inr (sofar + file_bytes e)" by simp
  ultimately show ?case using 6 nonneg by (simp add: add.assoc)
qed simp_all

lemma usage_le: "directory_usage sofar es = Inr u \<Longrightarrow> sofar \<le> max_safe_bytes \<Longrightarrow> u \<le> max_safe_bytes"
proof (induction es arbitrary: sofar)
  case (Cons e es)
  then show ?case by (cases e) auto
qed simp

section \<open>State and transactions\<close>

text \<open>\<open>qs_written\<close> exists in the model only: how many bytes the holder of a reservation has written.\<close>

record QuotaState =
  qs_tree :: "(string \<times> fs_entry) list"
  qs_policy :: "bytes option"
  qs_reservations :: "(string, bytes) dict"
  qs_leases :: "string list"
  qs_free :: "int option"
  qs_written :: "(string, int) dict"

type_synonym 'a quota_op = "(QuotaState, 'a) op"

definition peek :: "(QuotaState \<Rightarrow> 'a result) \<Rightarrow> 'a quota_op" where
  "peek f s = (f s, s)"

definition coordination_bytes :: "QuotaState \<Rightarrow> int" where
  "coordination_bytes s = (case qs_policy s of None \<Rightarrow> 0 | Some b \<Rightarrow> int (length b)) + sum_list (map (int \<circ> length \<circ> snd) (qs_reservations s))"

definition used_bytes :: "QuotaState \<Rightarrow> int" where
  "used_bytes s = tree_bytes (qs_tree s) + coordination_bytes s"

definition safe_tree_usage :: "QuotaState \<Rightarrow> int result" where
  "safe_tree_usage s = rbind (directory_usage 0 (qs_tree s)) (\<lambda>u. checked_add u (coordination_bytes s) ''storage quota usage'')"

definition free_bytes :: "QuotaState \<Rightarrow> int result" where
  "free_bytes s = (case qs_free s of None \<Rightarrow> Inl (StorageQuotaError ''filesystem free space is unavailable'') | Some n \<Rightarrow> Inr n)"

definition ensure_policy_bootstrap_capacity :: "StateQuotaPolicy \<Rightarrow> int \<Rightarrow> QuotaState \<Rightarrow> unit result" where
  "ensure_policy_bootstrap_capacity policy n s =
     rbind (safe_tree_usage s) (\<lambda>usage.
     rbind (raise_if (qp_maximum_state_bytes policy < usage \<or> qp_maximum_state_bytes policy - usage < n)
       (StorageQuotaError ''MCP state quota cannot contain its durable policy'')) (\<lambda>_.
     rbind (free_bytes s) (\<lambda>free.
     rbind (checked_add n n ''state quota policy publication growth'') (\<lambda>peak.
     raise_if (free < peak \<or> free - peak < qp_reserved_free_space_bytes policy)
       (StorageQuotaError ''MCP reserved free-space gate rejected its durable policy'')))))"

definition durable_policy :: "StateQuotaPolicy option \<Rightarrow> StateQuotaPolicy quota_op" where
  "durable_policy requested =
     (let expected = (case requested of None \<Rightarrow> default_policy | Some p \<Rightarrow> p); encoded = canonical_json (policy_payload expected) in
      sbind (peek (\<lambda>s. Inr (qs_policy s))) (\<lambda>file.
      sbind (case file of
          None \<Rightarrow>
            sbind (peek (ensure_policy_bootstrap_capacity expected (int (length encoded)))) (\<lambda>_.
            sbind (peek (\<lambda>s. raise_if (qs_reservations s \<noteq> []) (StorageQuotaError ''state quota reservations exist without a durable policy''))) (\<lambda>_.
            (\<lambda>s. (Inr expected, s\<lparr>qs_policy := Some encoded\<rparr>))))
        | Some content \<Rightarrow> lift (read_policy content)) (\<lambda>durable.
      sbind (lift (raise_if (case requested of None \<Rightarrow> False | Some p \<Rightarrow> durable \<noteq> p)
        (StorageQuotaError ''state quota policy differs from the durable policy''))) (\<lambda>_.
      ret durable))))"

definition note_reservation :: "(string, int \<times> int) dict \<Rightarrow> string \<times> bytes \<Rightarrow> (string, int \<times> int) dict result" where
  "note_reservation found = (\<lambda>(token, encoded).
     rbind (raise_if (4096 \<le> length found) (StorageQuotaError ''state quota reservation count is exhausted'')) (\<lambda>_.
     rbind (read_reservation token encoded) (\<lambda>amounts. Inr (AList.update token amounts found))))"

text \<open>The coordination directory holds the lock file, the policy and the reservations.\<close>

definition entry_cap :: "QuotaState \<Rightarrow> unit result" where
  "entry_cap s = raise_if (8192 < 1 + (case qs_policy s of None \<Rightarrow> 0 | Some _ \<Rightarrow> 1) + length (qs_reservations s))
     (StorageQuotaError ''state quota coordination entry cap is exceeded'')"

definition quota_transaction :: "'a quota_op \<Rightarrow> 'a quota_op" where
  "quota_transaction body = sbind (peek entry_cap) (\<lambda>_. body)"

definition configure_state_quota :: "StateQuotaPolicy \<Rightarrow> unit quota_op" where
  "configure_state_quota policy =
     sbind (lift (make_policy policy)) (\<lambda>p. quota_transaction (sbind (durable_policy (Some p)) (\<lambda>_. ret ())))"

definition durable_reservations :: "QuotaState \<Rightarrow> (string, int \<times> int) dict result" where
  "durable_reservations s = rbind (entry_cap s) (\<lambda>_. rfold note_reservation [] (sort_key fst (qs_reservations s)))"

definition check_growth :: "int \<Rightarrow> int \<Rightarrow> unit result" where
  "check_growth logical_growth peak_growth =
     rbind (validate_byte_limit logical_growth ''logical state growth'' True) (\<lambda>_.
     rbind (validate_byte_limit peak_growth ''peak state growth'' True) (\<lambda>_.
     raise_if (peak_growth < logical_growth) (ValueError ''peak state growth cannot be smaller than logical growth'')))"

definition add_reserved :: "int \<times> int \<Rightarrow> int \<times> int \<Rightarrow> (int \<times> int) result" where
  "add_reserved = (\<lambda>(logical, peak) (l, p).
     rbind (checked_add logical l ''reserved logical state growth'') (\<lambda>logical'.
     rbind (checked_add peak p ''reserved peak state growth'') (\<lambda>peak'. Inr (logical', peak'))))"

definition ensure_global_state_growth_locked :: "int \<Rightarrow> int \<Rightarrow> unit quota_op" where
  "ensure_global_state_growth_locked logical_growth peak_growth =
     sbind (lift (check_growth logical_growth peak_growth)) (\<lambda>_.
     sbind (durable_policy None) (\<lambda>policy.
     sbind (peek safe_tree_usage) (\<lambda>usage.
     sbind (peek durable_reservations) (\<lambda>reservations.
     sbind (lift (rfold add_reserved (0, 0) (vals reservations))) (\<lambda>(reserved_logical, reserved_peak).
     sbind (lift (checked_add usage reserved_logical ''accounted state usage'')) (\<lambda>accounted.
     sbind (lift (raise_if (qp_maximum_state_bytes policy < accounted \<or> qp_maximum_state_bytes policy - accounted < logical_growth)
       (StorageQuotaError ''MCP state quota has insufficient capacity for this write''))) (\<lambda>_.
     sbind (peek free_bytes) (\<lambda>free.
     sbind (lift (checked_add reserved_peak peak_growth ''reserved filesystem growth'')) (\<lambda>required.
     lift (raise_if (free < required \<or> free - required < qp_reserved_free_space_bytes policy)
       (StorageQuotaError ''MCP reserved free-space gate rejected this write'')))))))))))"

definition ensure_global_state_growth :: "int \<Rightarrow> int \<Rightarrow> unit quota_op" where
  "ensure_global_state_growth logical_growth peak_growth = quota_transaction (ensure_global_state_growth_locked logical_growth peak_growth)"

text \<open>The bodies of the two context managers run under the lock.\<close>

definition state_quota_transaction :: "unit quota_op \<Rightarrow> unit quota_op" where
  "state_quota_transaction body =
     quota_transaction (sbind (durable_policy None) (\<lambda>_. sbind (peek durable_reservations) (\<lambda>_. body)))"

definition state_quota_guard :: "int \<Rightarrow> int \<Rightarrow> unit quota_op \<Rightarrow> unit quota_op" where
  "state_quota_guard logical_growth peak_growth body =
     quota_transaction (sbind (ensure_global_state_growth_locked logical_growth peak_growth) (\<lambda>_. body))"

text \<open>The handle its creator keeps.  A handle is released by the process that created it, while it holds the lease.\<close>

record StateQuotaReservation =
  sr_token :: string
  sr_released :: bool

text \<open>\<open>token\<close> is what \<open>secrets.token_hex(32)\<close> returns, drawn again until it is new.\<close>

definition reserve_global_state_growth :: "string \<Rightarrow> int \<Rightarrow> int \<Rightarrow> StateQuotaReservation quota_op" where
  "reserve_global_state_growth token logical peak =
     (let encoded = canonical_json (reservation_payload token logical peak); n = int (length encoded) in
      quota_transaction (sbind (lift (check_growth logical peak)) (\<lambda>_.
      sbind (peek durable_reservations) (\<lambda>reservations.
      sbind (lift (raise_if (4096 \<le> length reservations) (StorageQuotaError ''state quota reservation count is exhausted''))) (\<lambda>_.
      sbind (lift (checked_add logical n ''reserved logical state and receipt growth'')) (\<lambda>logical_growth.
      sbind (lift (checked_add n n ''reservation publication peak growth'')) (\<lambda>receipt.
      sbind (lift (checked_add peak receipt ''reserved filesystem and receipt growth'')) (\<lambda>peak_growth.
      sbind (ensure_global_state_growth_locked logical_growth peak_growth) (\<lambda>_.
      (\<lambda>s. (Inr \<lparr>sr_token = token, sr_released = False\<rparr>, s\<lparr>qs_reservations := AList.update token encoded (qs_reservations s), qs_leases := token # qs_leases s,
         qs_written := AList.update token 0 (qs_written s)\<rparr>)))))))))))"

definition drop_reservation :: "string \<Rightarrow> QuotaState \<Rightarrow> QuotaState" where
  "drop_reservation token s = s\<lparr>qs_reservations := AList.delete token (qs_reservations s), qs_leases := filter (\<lambda>t. t \<noteq> token) (qs_leases s),
     qs_written := AList.delete token (qs_written s)\<rparr>"

definition release :: "StateQuotaReservation \<Rightarrow> StateQuotaReservation quota_op" where
  "release handle =
     (if sr_released handle then ret handle
      else quota_transaction (sbind (peek durable_reservations) (\<lambda>reservations.
        sbind (lift (raise_if (map_of reservations (sr_token handle) = None) (StorageQuotaError ''state quota reservation is unavailable''))) (\<lambda>_.
        (\<lambda>s. (Inr (handle\<lparr>sr_released := True\<rparr>), drop_reservation (sr_token handle) s))))))"

definition reconcile_one :: "string \<Rightarrow> string list quota_op" where
  "reconcile_one token =
     sbind (peek (\<lambda>s. case map_of (qs_reservations s) token of None \<Rightarrow> Inl (StorageQuotaError ''state quota reservation lease is unreadable'')
       | Some encoded \<Rightarrow> Inr encoded)) (\<lambda>encoded.
     sbind (peek (\<lambda>s. Inr (token \<in> set (qs_leases s)))) (\<lambda>live.
     if live then ret []
     else
       sbind (lift (read_reservation token encoded)) (\<lambda>_.
       sbind (peek safe_tree_usage) (\<lambda>_. (\<lambda>s. (Inr [token], drop_reservation token s))))))"

fun reconcile_all :: "string list \<Rightarrow> string list quota_op" where
  "reconcile_all [] = ret []"
| "reconcile_all (t # ts) = sbind (reconcile_one t) (\<lambda>removed. sbind (reconcile_all ts) (\<lambda>rest. ret (removed @ rest)))"

definition reconcile_abandoned_state_reservations :: "string list quota_op" where
  "reconcile_abandoned_state_reservations =
     quota_transaction (sbind (durable_policy None) (\<lambda>_.
     sbind (peek durable_reservations) (\<lambda>reservations.
     reconcile_all (sort (keys reservations)))))"

section \<open>Accounting\<close>

definition reserved_of :: "string \<times> bytes \<Rightarrow> int" where
  "reserved_of = (\<lambda>(token, encoded). case read_reservation token encoded of Inl _ \<Rightarrow> 0 | Inr (logical, _) \<Rightarrow> logical)"

definition written_of :: "QuotaState \<Rightarrow> string \<Rightarrow> int" where
  "written_of s token = (case map_of (qs_written s) token of None \<Rightarrow> 0 | Some n \<Rightarrow> n)"

definition outstanding :: "QuotaState \<Rightarrow> int" where
  "outstanding s = sum_list (map (\<lambda>r. reserved_of r - written_of s (fst r)) (qs_reservations s))"

definition reservation_ok :: "QuotaState \<Rightarrow> string \<times> bytes \<Rightarrow> bool" where
  "reservation_ok s r \<longleftrightarrow> (case read_reservation (fst r) (snd r) of Inl _ \<Rightarrow> False | Inr _ \<Rightarrow> True)
     \<and> 0 \<le> written_of s (fst r) \<and> written_of s (fst r) \<le> reserved_of r"

text \<open>The promise: what is on disk plus what the reservations may still add stays within the policy.\<close>

definition quota_ok :: "QuotaState \<Rightarrow> bool" where
  "quota_ok s \<longleftrightarrow> wf_dict (qs_reservations s) \<and> list_all (reservation_ok s) (qs_reservations s) \<and> set (qs_leases s) \<subseteq> set (keys (qs_reservations s))
     \<and> (case qs_policy s of None \<Rightarrow> qs_reservations s = []
        | Some b \<Rightarrow> (case read_policy b of Inl _ \<Rightarrow> False | Inr p \<Rightarrow> used_bytes s + outstanding s \<le> qp_maximum_state_bytes p))"

lemma reservations_read:
  assumes "rfold note_reservation [] xs = Inr rs" "distinct (map fst xs)"
  shows "map (fst \<circ> snd) rs = map reserved_of xs" "keys rs = keys xs"
proof -
  have "map (fst \<circ> snd) rs = map reserved_of xs \<and> keys rs = keys xs"
    using assms(1)
  proof (rule rfold_prefix)
    fix ys x acc acc'
    assume IH: "map (fst \<circ> snd) acc = map reserved_of ys \<and> keys acc = keys ys" and x: "\<exists>zs. xs = ys @ x # zs"
      and step: "note_reservation acc x = Inr acc'"
    obtain t b where tb: "x = (t, b)" by (cases x)
    have "t \<notin> set (keys acc)" using x assms(2) IH tb by force
    with step IH show "map (fst \<circ> snd) acc' = map reserved_of (ys @ [x]) \<and> keys acc' = keys (ys @ [x])"
      by (auto simp: note_reservation_def tb reserved_of_def update_fresh)
  qed simp
  then show "map (fst \<circ> snd) rs = map reserved_of xs" "keys rs = keys xs" by simp_all
qed

lemma sum_list_sort: "sum_list (map f (sort_key k xs)) = (sum_list (map f xs) :: int)"
  by (metis mset_map mset_sort sum_mset_sum_list)

lemma durable_reservations_sum:
  assumes "durable_reservations s = Inr rs" "wf_dict (qs_reservations s)"
  shows "sum_list (map (fst \<circ> snd) rs) = sum_list (map reserved_of (qs_reservations s))" "set (keys rs) = set (keys (qs_reservations s))"
    "sort (keys rs) = sort (keys (qs_reservations s))"
proof -
  have run: "rfold note_reservation [] (sort_key fst (qs_reservations s)) = Inr rs" using assms(1) by (auto simp: durable_reservations_def)
  have dist: "distinct (map fst (sort_key fst (qs_reservations s)))"
    using assms(2) mset_eq_imp_distinct_iff [of "map fst (sort_key fst (qs_reservations s))" "keys (qs_reservations s)"] by simp
  note r = reservations_read [OF run dist]
  show "sum_list (map (fst \<circ> snd) rs) = sum_list (map reserved_of (qs_reservations s))" by (simp only: r(1) sum_list_sort)
  show "set (keys rs) = set (keys (qs_reservations s))" by (simp only: r(2) set_map set_sort)
  have "mset (keys rs) = mset (keys (qs_reservations s))" by (simp only: r(2) mset_map mset_sort)
  then show "sort (keys rs) = sort (keys (qs_reservations s))" by (metis sorted_list_of_multiset_mset)
qed

lemma add_reserved_Inr: "add_reserved (a, b) (l, p) = Inr q \<Longrightarrow> q = (a + l, b + p)"
  by (auto simp: add_reserved_def)

lemma add_reserved_sum: "rfold add_reserved (a, b) vs = Inr (x, y) \<Longrightarrow> x = a + sum_list (map fst vs)"
  by (induction vs arbitrary: a b) (fastforce dest!: add_reserved_Inr)+

lemma outstanding_le:
  assumes "list_all (reservation_ok s) (qs_reservations s)"
  shows "0 \<le> outstanding s" "outstanding s \<le> sum_list (map reserved_of (qs_reservations s))"
proof -
  have each: "0 \<le> reserved_of r - written_of s (fst r) \<and> reserved_of r - written_of s (fst r) \<le> reserved_of r" if "r \<in> set (qs_reservations s)" for r
    using assms that by (auto simp: list_all_iff reservation_ok_def)
  show "0 \<le> outstanding s" unfolding outstanding_def using each by (intro sum_list_nonneg) auto
  show "outstanding s \<le> sum_list (map reserved_of (qs_reservations s))" unfolding outstanding_def using each by (intro sum_list_mono) auto
qed

lemma usage_bytes: "safe_tree_usage s = Inr u \<Longrightarrow> u = used_bytes s"
  by (auto simp: safe_tree_usage_def used_bytes_def dest!: usage_exact(2))

section \<open>Coordination files can be read back\<close>

lemma escape_safe: "list_all safe_tail s \<Longrightarrow> concat (map escape_char s) = s"
proof (induction s)
  case (Cons c s)
  then have c: "safe_tail c" by simp
  have low: "45 \<le> (of_char c :: nat)" using c
    by (auto simp: safe_tail_def is_alnum_def is_lower_def is_upper_def is_digit_def less_eq_char_def)
  have "\<not> safe_tail (CHR 0x5C)" by code_simp
  then have "c \<noteq> CHR 0x5C" using c by blast
  moreover have "c \<noteq> CHR 0x22" "c \<noteq> CHR 0x08" "c \<noteq> CHR 0x0C" "c \<noteq> CHR 0x0A" "c \<noteq> CHR 0x0D" "c \<noteq> CHR 0x09" using low by auto
  ultimately have "escape_char c = [c]" using low by (simp add: escape_char_def)
  with Cons show ?case by simp
qed simp

lemma digits_length: "n < 10 ^ k \<Longrightarrow> 0 < k \<Longrightarrow> length (nat_digits n) \<le> k"
proof (induction k arbitrary: n)
  case (Suc k)
  show ?case
  proof (cases "n < 10")
    case False
    then have "n div 10 < 10 ^ k" "0 < k" using Suc.prems(1) by (auto simp: div_less_iff_less_mult mult.commute intro: Nat.gr0I)
    with Suc.IH have "length (nat_digits (n div 10)) \<le> k" by blast
    with False show ?thesis by (subst nat_digits.simps) simp
  qed (subst nat_digits.simps, simp)
qed simp

lemma int_length: "0 \<le> i \<Longrightarrow> i \<le> max_safe_bytes \<Longrightarrow> length (string_of_int i) \<le> 19"
proof -
  assume i: "0 \<le> i" "i \<le> max_safe_bytes"
  have "nat i < 10 ^ 19"
  proof -
    have "max_safe_bytes < 10 ^ 19" by (simp add: max_safe_bytes_def)
    with i show ?thesis by (simp add: nat_less_iff)
  qed
  with i digits_length [of "nat i" 19] show ?thesis by (simp add: string_of_int_def)
qed

lemma hex_tail: "sha256_hex t \<Longrightarrow> list_all safe_tail t \<and> length t = 64"
  unfolding sha256_hex_def by (auto simp: list_all_iff safe_tail_def dest: is_hex_alnum)

lemma read_reservation_length: "read_reservation t b = Inr v \<Longrightarrow> length b \<le> 16 * 1024"
  by (auto simp: read_reservation_def strict_json_file_def)

lemma read_policy_length: "read_policy b = Inr v \<Longrightarrow> length b \<le> 16 * 1024"
  by (auto simp: read_policy_def strict_json_file_def)

lemma reservation_roundtrip:
  assumes "sha256_hex t" "0 \<le> l" "l \<le> p" "p \<le> max_safe_bytes"
  shows "read_reservation t (canonical_json (reservation_payload t l p)) = Inr (l, p)"
proof -
  let ?kvs = "[(''lease'', JStr ''exclusive-flock-v1''), (''logical'', JInt l), (''peak'', JInt p),
    (''schema_version'', JStr ''cardrag.mcp-state-quota-reservation.v2''), (''token'', JStr t)]"
  have norm: "norm_json True (reservation_payload t l p) = JObj ?kvs" by (simp add: reservation_payload_def key_order_def insort_key_def)
  then have parsed: "loads (canonical_json (reservation_payload t l p)) = Inr (JObj ?kvs)"
    using loads_dumps_line [of "reservation_payload t l p" True] by (simp add: canonical_json_def reservation_payload_def)
  have same: "dumps True (reservation_payload t l p) = dumps True (JObj ?kvs)" by (simp add: reservation_payload_def key_order_def insort_key_def)
  have "length (string_of_int l) \<le> 19" "length (string_of_int p) \<le> 19" using assms by (auto intro: int_length)
  then have "length (canonical_json (reservation_payload t l p)) \<le> 16 * 1024"
    unfolding canonical_json_def same using hex_tail [OF assms(1)] escape_safe
    by (simp add: key_order_def insort_key_def json_quote_def) (simp add: escape_char_def)
  with parsed same have "strict_json_file (canonical_json (reservation_payload t l p)) = Inr ?kvs"
    by (simp add: strict_json_file_def canonical_json_def del: dumps.simps)
  moreover have "set (keys ?kvs) = {''schema_version'', ''token'', ''lease'', ''logical'', ''peak''}" by auto
  ultimately show ?thesis
    using assms by (simp add: read_reservation_def parse_reservation_payload_def) (simp add: validate_byte_limit_def)
qed

lemma policy_roundtrip:
  assumes "make_policy p = Inr p"
  shows "read_policy (canonical_json (policy_payload p)) = Inr p"
proof -
  let ?vs = "[qp_maximum_state_bytes p, qp_reserved_free_space_bytes p, qp_exhaustive_audit_max_jobs p, qp_exhaustive_audit_max_total_bytes p,
      qp_exhaustive_audit_max_artifact_bytes p, qp_reranker_audit_max_jobs p, qp_reranker_audit_max_total_bytes p, qp_reranker_audit_max_artifact_bytes p]"
  let ?kvs = "[(''schema_version'', JStr ''cardrag.mcp-state-quota-policy.v1''), (''values'', JArr (map JInt ?vs))]"
  have norm: "norm_json True (policy_payload p) = JObj ?kvs" "policy_payload p = JObj ?kvs"
    by (simp_all add: policy_payload_def key_order_def insort_key_def)
  then have parsed: "loads (canonical_json (policy_payload p)) = Inr (JObj ?kvs)"
    using loads_dumps_line [of "policy_payload p" True] by (simp add: canonical_json_def)
  have "list_all (\<lambda>i. 0 \<le> i \<and> i \<le> max_safe_bytes) ?vs"
    using assms by (auto simp: make_policy_def validate_count_limit_def)
  then have "list_all (\<lambda>i. length (string_of_int i) \<le> 19) ?vs" by (rule list.pred_mono_strong) (auto intro: int_length)
  then have "length (canonical_json (policy_payload p)) \<le> 16 * 1024"
    by (simp add: canonical_json_def norm(2) key_order_def insort_key_def json_quote_def) (simp add: escape_char_def)
  with parsed norm(2) have "strict_json_file (canonical_json (policy_payload p)) = Inr ?kvs"
    by (simp add: strict_json_file_def canonical_json_def del: dumps.simps)
  moreover have "make_policy \<lparr>qp_maximum_state_bytes = qp_maximum_state_bytes p, qp_reserved_free_space_bytes = qp_reserved_free_space_bytes p,
      qp_exhaustive_audit_max_jobs = qp_exhaustive_audit_max_jobs p, qp_exhaustive_audit_max_total_bytes = qp_exhaustive_audit_max_total_bytes p,
      qp_exhaustive_audit_max_artifact_bytes = qp_exhaustive_audit_max_artifact_bytes p, qp_reranker_audit_max_jobs = qp_reranker_audit_max_jobs p,
      qp_reranker_audit_max_total_bytes = qp_reranker_audit_max_total_bytes p, qp_reranker_audit_max_artifact_bytes = qp_reranker_audit_max_artifact_bytes p\<rparr> = Inr p"
    using assms by (cases p) simp
  ultimately show ?thesis by (simp add: read_policy_def parse_policy_payload_def insert_commute)
qed


section \<open>Every transaction keeps the accounting\<close>

lemma quota_op_eqs [result_simps]:
  "peek f s = (r, t) \<longleftrightarrow> f s = r \<and> t = s" "lift q s = (r, t) \<longleftrightarrow> q = r \<and> t = s" "ret x s = (r, t) \<longleftrightarrow> Inr x = r \<and> t = s"
  by (auto simp: peek_def lift_def ret_def)

lemma with_policy_simps [simp]:
  "written_of (s\<lparr>qs_policy := b\<rparr>) = written_of s" "outstanding (s\<lparr>qs_policy := b\<rparr>) = outstanding s" "reservation_ok (s\<lparr>qs_policy := b\<rparr>) = reservation_ok s"
  by (auto simp: written_of_def outstanding_def reservation_ok_def fun_eq_iff)

lemma make_default: "make_policy default_policy = Inr default_policy"
  by (simp add: make_policy_def default_policy_def validate_count_limit_def max_safe_bytes_def)

text \<open>The durable policy is published once, within its own bound, and never changes.\<close>

definition policy_kept :: "QuotaState \<Rightarrow> QuotaState \<Rightarrow> bool" where
  "policy_kept s t \<longleftrightarrow> (\<exists>b. t = s\<lparr>qs_policy := b\<rparr>) \<and> (qs_policy s \<noteq> None \<longrightarrow> t = s)"

lemma policy_kept_refl [simp]: "policy_kept s s"
  unfolding policy_kept_def by (intro conjI exI [of _ "qs_policy s"]) auto

lemma durable_policy_kept:
  assumes "durable_policy req s = (r, t)" "quota_ok s" "\<And>p. req = Some p \<Longrightarrow> make_policy p = Inr p"
  shows "policy_kept s t \<and> quota_ok t \<and> (\<forall>p. r = Inr p \<longrightarrow> (\<exists>b. qs_policy t = Some b \<and> read_policy b = Inr p))"
proof (cases "qs_policy s")
  case None
  let ?p = "case req of None \<Rightarrow> default_policy | Some p \<Rightarrow> p"
  have good: "make_policy ?p = Inr ?p" using assms(3) make_default by (cases req) auto
  consider "t = s" "\<exists>e. r = Inl e"
    | "r = Inr ?p" "t = s\<lparr>qs_policy := Some (canonical_json (policy_payload ?p))\<rparr>"
      "ensure_policy_bootstrap_capacity ?p (int (length (canonical_json (policy_payload ?p)))) s = Inr ()"
    using assms(1) None
    by (cases r; cases req) (auto simp: durable_policy_def Let_def result_simps)
  then show ?thesis
  proof cases
    case 2
    have "qs_reservations s = []" using assms(2) None by (simp add: quota_ok_def)
    moreover have "used_bytes s + int (length (canonical_json (policy_payload ?p))) \<le> qp_maximum_state_bytes ?p"
      using 2(3) by (auto simp: ensure_policy_bootstrap_capacity_def dest!: usage_bytes)
    ultimately show ?thesis
      using assms(2) None policy_roundtrip [OF good] 2(1,2)
      by (auto simp: policy_kept_def quota_ok_def used_bytes_def coordination_bytes_def outstanding_def)
  qed (use assms(2) in auto)
next
  case (Some b)
  then have "t = s" "\<And>p. r = Inr p \<Longrightarrow> read_policy b = Inr p"
    using assms(1) by (cases r; auto simp: durable_policy_def Let_def result_simps)+
  with assms(2) Some show ?thesis by auto
qed

lemma ensure_locked_kept:
  assumes "ensure_global_state_growth_locked l p s = (r, t)" "quota_ok s"
  shows "policy_kept s t \<and> quota_ok t \<and> (r = Inr () \<longrightarrow> 0 \<le> l \<and> l \<le> p \<and> p \<le> max_safe_bytes \<and>
    (\<exists>b pl. qs_policy t = Some b \<and> read_policy b = Inr pl \<and> used_bytes t + outstanding t + l \<le> qp_maximum_state_bytes pl))"
proof (cases "check_growth l p")
  case (Inr u)
  from Inr assms(1) obtain r' where dp: "durable_policy None s = (r', t)"
    by (cases r) (fastforce simp: ensure_global_state_growth_locked_def result_simps split: prod.splits)+
  note kept = durable_policy_kept [OF dp assms(2), simplified]
  have "0 \<le> l \<and> l \<le> p \<and> p \<le> max_safe_bytes \<and> (\<exists>b pl. qs_policy t = Some b \<and> read_policy b = Inr pl \<and> used_bytes t + outstanding t + l \<le> qp_maximum_state_bytes pl)"
    if "r = Inr ()"
  proof -
    have "\<exists>pl usage rs rl rp. r' = Inr pl \<and> safe_tree_usage t = Inr usage \<and> durable_reservations t = Inr rs
      \<and> rfold add_reserved (0, 0) (vals rs) = Inr (rl, rp) \<and> usage + rl + l \<le> qp_maximum_state_bytes pl"
      using Inr assms(1) dp that
      by (clarsimp simp: ensure_global_state_growth_locked_def result_simps not_less le_diff_eq)
    then obtain pl usage rs rl rp where *: "r' = Inr pl" "safe_tree_usage t = Inr usage" "durable_reservations t = Inr rs"
      "rfold add_reserved (0, 0) (vals rs) = Inr (rl, rp)" "usage + rl + l \<le> qp_maximum_state_bytes pl" by blast
    have ok: "wf_dict (qs_reservations t)" "list_all (reservation_ok t) (qs_reservations t)" using kept by (auto simp: quota_ok_def)
    have "rl = sum_list (map reserved_of (qs_reservations t))"
      using add_reserved_sum [OF *(4)] durable_reservations_sum(1) [OF *(3) ok(1)] by simp
    with outstanding_le(2) [OF ok(2)] usage_bytes [OF *(2)] *(5) have "used_bytes t + outstanding t + l \<le> qp_maximum_state_bytes pl" by linarith
    moreover have "0 \<le> l" "l \<le> p" "p \<le> max_safe_bytes" using Inr by (auto simp: check_growth_def)
    ultimately show ?thesis using kept *(1) by blast
  qed
  with kept show ?thesis by blast
qed (use assms in \<open>auto simp: ensure_global_state_growth_locked_def sbind_def lift_def\<close>)

text \<open>The frame of a reservation that is gone or new.\<close>

lemma written_of_update: "written_of (s\<lparr>qs_reservations := x, qs_leases := y, qs_written := AList.update t n (qs_written s)\<rparr>) = (written_of s)(t := n)"
  by (auto simp: written_of_def fun_eq_iff update_conv')

lemma written_of_drop: "written_of (drop_reservation t s) = (written_of s)(t := 0)"
  by (auto simp: written_of_def drop_reservation_def fun_eq_iff delete_conv')

lemma sum_without: "wf_dict d \<Longrightarrow> map_of d k = Some v \<Longrightarrow> sum_list (map f d) = f (k, v) + (sum_list (map f (AList.delete k d)) :: int)"
proof (induction d)
  case (Cons x d)
  show ?case
  proof (cases "fst x = k")
    case True
    then have "AList.delete k d = d" using Cons.prems(1) by (intro delete_id) auto
    with True Cons.prems(2) show ?thesis by (cases x) (auto simp: AList.delete_eq)
  qed (use Cons in \<open>cases x; auto\<close>)
qed simp

lemma drop_kept:
  assumes "quota_ok s" "map_of (qs_reservations s) k = Some b"
  shows "quota_ok (drop_reservation k s)"
proof -
  let ?t = "drop_reservation k s" and ?g = "\<lambda>r. reserved_of r - written_of s (fst r)"
  have wf: "wf_dict (qs_reservations s)" and each: "list_all (reservation_ok s) (qs_reservations s)"
    and leases: "set (qs_leases s) \<subseteq> set (keys (qs_reservations s))" using assms(1) by (auto simp: quota_ok_def)
  have res: "qs_reservations ?t = AList.delete k (qs_reservations s)" by (simp add: drop_reservation_def)
  have sub: "set (AList.delete k (qs_reservations s)) \<subseteq> set (qs_reservations s)" "k \<notin> set (keys (AList.delete k (qs_reservations s)))"
    by (auto simp: AList.delete_eq)
  have same: "written_of ?t (fst r) = written_of s (fst r)" if "r \<in> set (AList.delete k (qs_reservations s))" for r
    using that sub(2) by (auto simp: written_of_drop)
  have "outstanding ?t = sum_list (map ?g (AList.delete k (qs_reservations s)))" unfolding outstanding_def res using same by (simp cong: map_cong)
  moreover have "outstanding s = ?g (k, b) + sum_list (map ?g (AList.delete k (qs_reservations s)))"
    unfolding outstanding_def by (rule sum_without [OF wf assms(2)])
  moreover have "0 \<le> ?g (k, b)" using each map_of_SomeD [OF assms(2)] by (auto simp: list_all_iff reservation_ok_def)
  ultimately have "outstanding ?t \<le> outstanding s" by simp
  moreover have "used_bytes ?t \<le> used_bytes s"
    using sum_without [OF wf assms(2), of "int \<circ> length \<circ> snd"] by (simp add: used_bytes_def coordination_bytes_def drop_reservation_def)
  moreover have "list_all (reservation_ok ?t) (qs_reservations ?t)"
    using each sub(1) same unfolding res by (fastforce simp: list_all_iff reservation_ok_def)
  moreover have "wf_dict (qs_reservations ?t)" unfolding res using wf by (rule distinct_delete)
  moreover have "set (qs_leases ?t) \<subseteq> set (keys (qs_reservations ?t))" using leases by (auto simp: drop_reservation_def delete_keys)
  ultimately show ?thesis
    using assms by (auto simp: quota_ok_def drop_reservation_def split: option.splits sum.splits)
qed

lemma transaction_eqs [result_simps]:
  "quota_transaction body s = (r, t) \<longleftrightarrow> (case entry_cap s of Inl e \<Rightarrow> r = Inl e \<and> t = s | Inr _ \<Rightarrow> body s = (r, t))"
  by (auto simp: quota_transaction_def sbind_def peek_def split: sum.splits)

lemma configure_kept: "configure_state_quota p s = (r, t) \<Longrightarrow> quota_ok s \<Longrightarrow> policy_kept s t \<and> quota_ok t"
proof (cases "make_policy p")
  case (Inr q)
  assume run: "configure_state_quota p s = (r, t)" and ok: "quota_ok s"
  have q: "q = p" "make_policy q = Inr q" using Inr by (auto simp: make_policy_def)
  have "t = s \<or> (\<exists>r'. durable_policy (Some q) s = (r', t))"
    using run Inr by (cases r) (auto simp: configure_state_quota_def result_simps split: sum.splits)
  with durable_policy_kept [of "Some q"] ok q(2) show ?thesis by fastforce
qed (auto simp: configure_state_quota_def sbind_def lift_def)

lemma quota_ok_tree:
  assumes "quota_ok s" "tree_bytes tr \<le> tree_bytes (qs_tree s) + n" "qs_policy s = Some b" "read_policy b = Inr pl"
    "used_bytes s + outstanding s + n \<le> qp_maximum_state_bytes pl"
  shows "quota_ok (s\<lparr>qs_tree := tr\<rparr>)"
proof -
  have same: "written_of (s\<lparr>qs_tree := tr\<rparr>) = written_of s" by (simp add: written_of_def fun_eq_iff)
  then have "outstanding (s\<lparr>qs_tree := tr\<rparr>) = outstanding s" "reservation_ok (s\<lparr>qs_tree := tr\<rparr>) = reservation_ok s"
    by (simp_all add: outstanding_def reservation_ok_def fun_eq_iff)
  moreover have "used_bytes (s\<lparr>qs_tree := tr\<rparr>) \<le> used_bytes s + n" using assms(2) by (simp add: used_bytes_def coordination_bytes_def)
  ultimately show ?thesis using assms by (auto simp: quota_ok_def)
qed

text \<open>A body that replaces the application files and keeps to the growth it asked for.\<close>

definition write_tree :: "(string \<times> fs_entry) list \<Rightarrow> unit quota_op" where
  "write_tree tr s = (Inr (), s\<lparr>qs_tree := tr\<rparr>)"

lemma guard_kept:
  assumes "state_quota_guard l p (write_tree tr) s = (r, t)" "quota_ok s" "tree_bytes tr \<le> tree_bytes (qs_tree s) + l"
  shows "quota_ok t"
proof -
  consider "t = s" | r' where "ensure_global_state_growth_locked l p s = (r', t)"
    | u where "ensure_global_state_growth_locked l p s = (Inr (), u)" "t = u\<lparr>qs_tree := tr\<rparr>"
    using assms(1) by (cases r) (auto simp: state_quota_guard_def write_tree_def result_simps split: sum.splits)
  then show ?thesis
  proof cases
    case 3
    note kept = ensure_locked_kept [OF 3(1) assms(2), simplified]
    then have "tree_bytes tr \<le> tree_bytes (qs_tree u) + l" using assms(3) by (auto simp: policy_kept_def)
    with kept quota_ok_tree [of u tr l] 3(2) show ?thesis by blast
  qed (use assms(2) ensure_locked_kept [OF _ assms(2)] in auto)
qed

lemma quota_ok_smaller: "quota_ok s \<Longrightarrow> tree_bytes tr \<le> tree_bytes (qs_tree s) \<Longrightarrow> quota_ok (s\<lparr>qs_tree := tr\<rparr>)"
proof (cases "qs_policy s")
  case None
  assume "quota_ok s"
  with None show ?thesis by (auto simp: quota_ok_def)
next
  case (Some b)
  assume *: "quota_ok s" "tree_bytes tr \<le> tree_bytes (qs_tree s)"
  with Some obtain pl where "read_policy b = Inr pl" "used_bytes s + outstanding s \<le> qp_maximum_state_bytes pl"
    by (auto simp: quota_ok_def split: sum.splits)
  with * Some show ?thesis by (intro quota_ok_tree [of s tr 0]) auto
qed

lemma transaction_kept:
  assumes "state_quota_transaction (write_tree tr) s = (r, t)" "quota_ok s" "tree_bytes tr \<le> tree_bytes (qs_tree s)"
  shows "quota_ok t"
proof -
  consider "t = s" | r' where "durable_policy None s = (r', t)" | r' u where "durable_policy None s = (r', u)" "t = u\<lparr>qs_tree := tr\<rparr>"
    using assms(1) by (cases r) (auto simp: state_quota_transaction_def write_tree_def result_simps split: sum.splits)
  then show ?thesis
  proof cases
    case 3
    from durable_policy_kept [OF 3(1) assms(2)] assms(3) have "quota_ok u" "tree_bytes tr \<le> tree_bytes (qs_tree u)" by (auto simp: policy_kept_def)
    with 3(2) quota_ok_smaller show ?thesis by simp
  qed (use assms(2) durable_policy_kept [OF _ assms(2)] in auto)
qed

lemma reserve_kept:
  assumes "reserve_global_state_growth k l p s = (r, t)" "quota_ok s" "sha256_hex k" "k \<notin> set (keys (qs_reservations s))"
  shows "quota_ok t"
proof -
  let ?e = "canonical_json (reservation_payload k l p)" and ?n = "int (length (canonical_json (reservation_payload k l p)))"
  consider "t = s" | r' where "ensure_global_state_growth_locked (l + ?n) (p + (?n + ?n)) s = (r', t)"
    | u where "check_growth l p = Inr ()" "ensure_global_state_growth_locked (l + ?n) (p + (?n + ?n)) s = (Inr (), u)"
      "t = u\<lparr>qs_reservations := AList.update k ?e (qs_reservations u), qs_leases := k # qs_leases u, qs_written := AList.update k 0 (qs_written u)\<rparr>"
    using assms(1) by (cases r) (auto simp: reserve_global_state_growth_def Let_def result_simps split: sum.splits)
  then show ?thesis
  proof cases
    case 3
    note kept = ensure_locked_kept [OF 3(2) assms(2), simplified]
    have same: "qs_reservations u = qs_reservations s" "qs_leases u = qs_leases s" "written_of u = written_of s"
      using kept by (auto simp: policy_kept_def)
    have read: "read_reservation k ?e = Inr (l, p)" using assms(3) 3(1) by (intro reservation_roundtrip) (auto simp: check_growth_def)
    have pos: "0 \<le> l" using 3(1) by (auto simp: check_growth_def)
    have res: "qs_reservations t = qs_reservations u @ [(k, ?e)]" using 3(3) same(1) assms(4) by (simp add: update_fresh)
    have written: "written_of t = (written_of u)(k := 0)" unfolding 3(3) by (rule written_of_update)
    then have frame: "written_of t (fst x) = written_of u (fst x)" if "x \<in> set (qs_reservations u)" for x
      using that assms(4) same(1) by auto
    then have "sum_list (map (\<lambda>x. reserved_of x - written_of t (fst x)) (qs_reservations u)) = outstanding u"
      unfolding outstanding_def by (intro arg_cong [of _ _ sum_list] map_cong refl) simp
    moreover have "reserved_of (k, ?e) = l" "written_of t k = 0" using read written by (simp_all add: reserved_of_def)
    ultimately have "outstanding t = outstanding u + l" unfolding outstanding_def [of t] res by simp
    moreover have "used_bytes t = used_bytes u + ?n" unfolding used_bytes_def coordination_bytes_def res by (simp add: 3(3))
    moreover have "list_all (reservation_ok t) (qs_reservations t)"
    proof -
      have "list_all (reservation_ok u) (qs_reservations u)" using kept by (simp add: quota_ok_def)
      with frame have "list_all (reservation_ok t) (qs_reservations u)" by (fastforce simp: list_all_iff reservation_ok_def)
      moreover have "reservation_ok t (k, ?e)" using read written pos by (simp add: reservation_ok_def reserved_of_def)
      ultimately show ?thesis by (simp add: res)
    qed
    moreover have "wf_dict (qs_reservations t)" using kept res same(1) assms(4) by (simp add: quota_ok_def)
    moreover have "set (qs_leases t) \<subseteq> set (keys (qs_reservations t))" using kept res 3(3) by (auto simp: quota_ok_def)
    moreover have "qs_policy t = qs_policy u" by (simp add: 3(3))
    ultimately show ?thesis using kept by (auto simp: quota_ok_def)
  qed (use assms(2) ensure_locked_kept [OF _ assms(2)] in auto)
qed

lemma release_kept:
  assumes "release h s = (r, t)" "quota_ok s"
  shows "quota_ok t"
proof -
  consider "t = s" | rs where "durable_reservations s = Inr rs" "map_of rs (sr_token h) \<noteq> None" "t = drop_reservation (sr_token h) s"
    using assms(1) by (cases r) (auto simp: release_def result_simps split: if_splits sum.splits)
  then show ?thesis
  proof cases
    case 2
    then have "sr_token h \<in> set (keys (qs_reservations s))"
      using durable_reservations_sum(2) [OF 2(1)] assms(2) by (auto simp: quota_ok_def map_of_eq_None_iff)
    then obtain b where "map_of (qs_reservations s) (sr_token h) = Some b" by (auto dest: weak_map_of_SomeI)
    with 2(3) drop_kept [OF assms(2)] show ?thesis by simp
  qed (use assms(2) in simp)
qed

text \<open>Reconciliation removes the reservations without a lease, and only those.\<close>

lemma reconcile_one_spec:
  assumes "reconcile_one k s = (r, t)" "quota_ok s"
  shows "quota_ok t \<and> (t = s \<or> k \<notin> set (qs_leases s) \<and> t = drop_reservation k s)
    \<and> (\<forall>ks. r = Inr ks \<longrightarrow> (if k \<in> set (qs_leases s) then ks = [] \<and> t = s else ks = [k] \<and> t = drop_reservation k s))"
proof -
  consider "t = s" "\<exists>e. r = Inl e" | "t = s" "k \<in> set (qs_leases s)" "r = Inr []"
    | b where "map_of (qs_reservations s) k = Some b" "k \<notin> set (qs_leases s)" "r = Inr [k]" "t = drop_reservation k s"
    using assms(1) by (cases r) (auto simp: reconcile_one_def result_simps split: if_splits option.splits)
  then show ?thesis using assms(2) drop_kept [OF assms(2)] by cases auto
qed

lemma dropped_leases: "k \<notin> set (qs_leases s) \<Longrightarrow> qs_leases (drop_reservation k s) = qs_leases s"
  by (auto simp: drop_reservation_def filter_id_conv)

lemma reconcile_all_kept: "reconcile_all ks s = (r, t) \<Longrightarrow> quota_ok s \<Longrightarrow> quota_ok t"
proof (induction ks arbitrary: s r)
  case (Cons k ks)
  obtain r1 u where one: "reconcile_one k s = (r1, u)" by (cases "reconcile_one k s")
  have "t = u \<or> (\<exists>r2. reconcile_all ks u = (r2, t))"
    using Cons.prems(1) one by (cases r) (auto simp: result_simps)
  with Cons.IH reconcile_one_spec [OF one Cons.prems(2)] show ?case by blast
qed (simp add: ret_def)

lemma reconcile_all_removed:
  "reconcile_all ks s = (Inr removed, t) \<Longrightarrow> quota_ok s \<Longrightarrow>
     removed = filter (\<lambda>k. k \<notin> set (qs_leases s)) ks \<and> qs_tree t = qs_tree s \<and> qs_policy t = qs_policy s \<and> qs_leases t = qs_leases s
     \<and> qs_reservations t = filter (\<lambda>x. fst x \<notin> set removed) (qs_reservations s)"
proof (induction ks arbitrary: s removed)
  case (Cons k ks)
  from Cons.prems(1) obtain r1 u r2 where one: "reconcile_one k s = (Inr r1, u)" and rest: "reconcile_all ks u = (Inr r2, t)" "removed = r1 @ r2"
    by (auto simp: result_simps)
  note step = reconcile_one_spec [OF one Cons.prems(2)]
  note IH = Cons.IH [OF rest(1)]
  show ?case
  proof (cases "k \<in> set (qs_leases s)")
    case True
    with step IH rest(2) Cons.prems(2) show ?thesis by auto
  next
    case False
    with step have u: "u = drop_reservation k s" "r1 = [k]" "quota_ok u" by auto
    then have "qs_leases u = qs_leases s" "qs_tree u = qs_tree s" "qs_policy u = qs_policy s" "qs_reservations u = filter (\<lambda>x. fst x \<noteq> k) (qs_reservations s)"
      using dropped_leases [OF False] by (auto simp: drop_reservation_def AList.delete_eq split_def intro: filter_cong)
    with IH u rest(2) False show ?thesis by (auto intro!: filter_cong)
  qed
qed (simp add: ret_def)

lemma reconcile_kept:
  assumes "reconcile_abandoned_state_reservations s = (r, t)" "quota_ok s"
  shows "quota_ok t"
proof -
  consider "t = s" | r' where "durable_policy None s = (r', t)" | r' u ks r2 where "durable_policy None s = (r', u)" "reconcile_all ks u = (r2, t)"
    using assms(1) by (cases r) (auto simp: reconcile_abandoned_state_reservations_def result_simps split: sum.splits)
  then show ?thesis
  proof cases
    case 3
    with durable_policy_kept [OF 3(1) assms(2)] reconcile_all_kept show ?thesis by auto
  qed (use assms(2) durable_policy_kept [OF _ assms(2)] in auto)
qed

section \<open>Interleavings\<close>

text \<open>
  What the processes of the server do to one state directory.  A guarded write runs under the lock and grows the files by at most what it
  asked for; a writer with a reservation writes without the lock, in any number of portions that together stay within its logical growth; a
  process may die at any moment, which ends its lease; files may be removed at any time; the free space is not ours.
\<close>

inductive quota_step :: "QuotaState \<Rightarrow> QuotaState \<Rightarrow> bool" where
  configure: "configure_state_quota p s = (r, t) \<Longrightarrow> quota_step s t"
| ensure: "ensure_global_state_growth l p s = (r, t) \<Longrightarrow> quota_step s t"
| guarded: "state_quota_guard l p (write_tree tr) s = (r, t) \<Longrightarrow> tree_bytes tr \<le> tree_bytes (qs_tree s) + l \<Longrightarrow> quota_step s t"
| shrinking: "state_quota_transaction (write_tree tr) s = (r, t) \<Longrightarrow> tree_bytes tr \<le> tree_bytes (qs_tree s) \<Longrightarrow> quota_step s t"
| reserve: "reserve_global_state_growth k l p s = (r, t) \<Longrightarrow> sha256_hex k \<Longrightarrow> k \<notin> set (keys (qs_reservations s)) \<Longrightarrow> quota_step s t"
| portion: "k \<in> set (qs_leases s) \<Longrightarrow> map_of (qs_reservations s) k = Some b \<Longrightarrow> read_reservation k b = Inr (l, p) \<Longrightarrow> 0 \<le> n
    \<Longrightarrow> written_of s k + n \<le> l \<Longrightarrow> tree_bytes tr \<le> tree_bytes (qs_tree s) + n
    \<Longrightarrow> quota_step s (s\<lparr>qs_tree := tr, qs_written := AList.update k (written_of s k + n) (qs_written s)\<rparr>)"
| release: "release h s = (r, t) \<Longrightarrow> quota_step s t"
| crash: "quota_step s (s\<lparr>qs_leases := filter (\<lambda>k'. k' \<noteq> k) (qs_leases s)\<rparr>)"
| reconcile: "reconcile_abandoned_state_reservations s = (r, t) \<Longrightarrow> quota_step s t"
| remove: "tree_bytes tr \<le> tree_bytes (qs_tree s) \<Longrightarrow> quota_step s (s\<lparr>qs_tree := tr\<rparr>)"
| free_space: "quota_step s (s\<lparr>qs_free := n\<rparr>)"

lemma portion_kept:
  assumes "quota_ok s" "map_of (qs_reservations s) k = Some b" "read_reservation k b = Inr (l, p)" "0 \<le> n"
    "written_of s k + n \<le> l" "tree_bytes tr \<le> tree_bytes (qs_tree s) + n"
  shows "quota_ok (s\<lparr>qs_tree := tr, qs_written := AList.update k (written_of s k + n) (qs_written s)\<rparr>)" (is "quota_ok ?t")
proof -
  let ?g = "\<lambda>x. reserved_of x - written_of s (fst x)" and ?d = "AList.delete k (qs_reservations s)"
  have wf: "wf_dict (qs_reservations s)" and each: "list_all (reservation_ok s) (qs_reservations s)" using assms(1) by (auto simp: quota_ok_def)
  have written: "written_of ?t = (written_of s)(k := written_of s k + n)" by (auto simp: written_of_def fun_eq_iff update_conv')
  have res: "qs_reservations ?t = qs_reservations s" "qs_policy ?t = qs_policy s" "qs_leases ?t = qs_leases s" by simp_all
  have mine: "reserved_of (k, b) = l" by (simp add: reserved_of_def assms(3))
  have "sum_list (map (\<lambda>x. reserved_of x - written_of ?t (fst x)) ?d) = sum_list (map ?g ?d)"
    unfolding written by (intro arg_cong [of _ _ sum_list] map_cong refl) (auto simp: AList.delete_eq)
  moreover have "written_of ?t k = written_of s k + n" by (simp add: written)
  ultimately have "outstanding ?t = ?g (k, b) - n + sum_list (map ?g ?d)"
    using sum_without [OF wf assms(2), of "\<lambda>x. reserved_of x - written_of ?t (fst x)"] unfolding outstanding_def res(1) by simp
  moreover have "outstanding s = ?g (k, b) + sum_list (map ?g ?d)" unfolding outstanding_def by (rule sum_without [OF wf assms(2)])
  moreover have "used_bytes ?t \<le> used_bytes s + n" using assms(6) by (simp add: used_bytes_def coordination_bytes_def)
  ultimately have total: "used_bytes ?t + outstanding ?t \<le> used_bytes s + outstanding s" by linarith
  have "reservation_ok ?t x" if "x \<in> set (qs_reservations s)" for x
  proof (cases "fst x = k")
    case True
    then have "x = (k, b)" using that assms(2) wf by (metis map_of_is_SomeI option.inject prod.collapse)
    with each that assms(3,4,5) show ?thesis unfolding reservation_ok_def written by (auto simp: list_all_iff reservation_ok_def mine)
  qed (use each that in \<open>auto simp: reservation_ok_def written list_all_iff\<close>)
  then have "list_all (reservation_ok ?t) (qs_reservations ?t)" by (simp add: list_all_iff)
  with assms(1,2) total show ?thesis unfolding quota_ok_def res by (auto split: option.splits sum.splits)
qed

lemma quota_ok_frame:
  assumes "quota_ok s" "set ls \<subseteq> set (qs_leases s)"
  shows "quota_ok (s\<lparr>qs_leases := ls, qs_free := n\<rparr>)"
proof -
  have "written_of (s\<lparr>qs_leases := ls, qs_free := n\<rparr>) = written_of s" by (simp add: written_of_def fun_eq_iff)
  then have "reservation_ok (s\<lparr>qs_leases := ls, qs_free := n\<rparr>) = reservation_ok s" "outstanding (s\<lparr>qs_leases := ls, qs_free := n\<rparr>) = outstanding s"
    by (simp_all add: reservation_ok_def outstanding_def fun_eq_iff)
  with assms show ?thesis by (auto simp: quota_ok_def used_bytes_def coordination_bytes_def split: option.splits sum.splits)
qed

lemma quota_step_kept: "quota_step s t \<Longrightarrow> quota_ok s \<Longrightarrow> quota_ok t"
proof (induction rule: quota_step.induct)
  case (ensure l p s r t)
  then have "t = s \<or> ensure_global_state_growth_locked l p s = (r, t)" by (auto simp: ensure_global_state_growth_def result_simps split: sum.splits)
  with ensure_locked_kept ensure.prems show ?case by blast
next
  case (crash s k)
  then show ?case using quota_ok_frame [of s "filter (\<lambda>k'. k' \<noteq> k) (qs_leases s)" "qs_free s"] by auto
next
  case (free_space s n)
  then show ?case using quota_ok_frame [of s "qs_leases s" n] by simp
qed (auto dest: configure_kept guard_kept transaction_kept reserve_kept release_kept reconcile_kept quota_ok_smaller intro: portion_kept)

definition fresh_state :: "QuotaState \<Rightarrow> bool" where
  "fresh_state s \<longleftrightarrow> qs_policy s = None \<and> qs_reservations s = [] \<and> qs_leases s = []"

interpretation growth: inv_system fresh_state quota_step quota_ok
proof
  show "quota_ok s" if "fresh_state s" for s using that by (simp add: fresh_state_def quota_ok_def)
qed (use quota_step_kept in blast)

text \<open>
  C8. The state directory stays within its quota: in every interleaving of guarded writes, reservations, unlocked writes under a reservation,
  releases, crashes, reconciliations and removals, once the durable policy exists it is readable, and the bytes on disk together with everything
  the open reservations may still write are at most its \<open>maximum_state_bytes\<close>.
\<close>

theorem state_bytes_within_quota:
  assumes "fresh_state s" "quota_step\<^sup>*\<^sup>* s t" "qs_policy t = Some b"
  shows "\<exists>p. read_policy b = Inr p \<and> 0 \<le> outstanding t \<and> used_bytes t + outstanding t \<le> qp_maximum_state_bytes p"
proof -
  have ok: "quota_ok t" using growth.reach_inv assms(1,2) by blast
  then have "0 \<le> outstanding t" by (intro outstanding_le) (simp add: quota_ok_def)
  with ok assms(3) show ?thesis by (auto simp: quota_ok_def split: sum.splits)
qed

text \<open>
  C39. The usage traversal computes the number of bytes in the regular files of the tree, and succeeds exactly when the tree has only
  directories and regular files and its total is representable; a link, a special file or an overflow is an error.
\<close>

theorem directory_usage_exact:
  "directory_usage 0 es = Inr u \<longleftrightarrow> plain_tree es \<and> tree_bytes es \<le> max_safe_bytes \<and> u = tree_bytes es"
  using usage_exact(2) [of 0 es u] usage_total(2) [of es 0] usage_le [of 0 es u] by (auto simp: max_safe_bytes_def)

text \<open>
  C38. Reconciliation removes exactly the reservations whose creator is gone: it returns their tokens in order, keeps every reservation with a
  live lease, the leases, the policy and the files, and leaves the accounting within the quota.
\<close>

theorem reconcile_removes_abandoned:
  assumes "quota_ok s" "qs_policy s \<noteq> None" "reconcile_abandoned_state_reservations s = (Inr removed, t)"
  shows "removed = filter (\<lambda>k. k \<notin> set (qs_leases s)) (sort (keys (qs_reservations s)))
    \<and> qs_reservations t = filter (\<lambda>x. fst x \<in> set (qs_leases s)) (qs_reservations s)
    \<and> qs_leases t = qs_leases s \<and> qs_policy t = qs_policy s \<and> qs_tree t = qs_tree s \<and> quota_ok t"
proof -
  from assms obtain rs where rs: "durable_reservations s = Inr rs" "reconcile_all (sort (keys rs)) s = (Inr removed, t)"
    using durable_policy_kept [of None s] by (fastforce simp: reconcile_abandoned_state_reservations_def result_simps policy_kept_def split: sum.splits)
  have wf: "wf_dict (qs_reservations s)" using assms(1) by (simp add: quota_ok_def)
  note same = durable_reservations_sum(3) [OF rs(1) wf]
  note all = reconcile_all_removed [OF rs(2) assms(1)]
  then have "removed = filter (\<lambda>k. k \<notin> set (qs_leases s)) (sort (keys (qs_reservations s)))" by (simp add: same)
  moreover from this all have "qs_reservations t = filter (\<lambda>x. fst x \<in> set (qs_leases s)) (qs_reservations s)" by (auto intro!: filter_cong)
  ultimately show ?thesis using all reconcile_kept [OF assms(3,1)] by simp
qed


section \<open>An example run\<close>

definition example_token :: string where
  "example_token = replicate 64 (CHR ''a'')"

definition example_start :: QuotaState where
  "example_start = \<lparr>qs_tree = [(''notes'', RegularEntry 7)], qs_policy = None, qs_reservations = [], qs_leases = [], qs_free = Some (1024 ^ 4), qs_written = []\<rparr>"

abbreviation policy_file :: bytes where
  "policy_file \<equiv> canonical_json (policy_payload default_policy)"

abbreviation receipt_file :: bytes where
  "receipt_file \<equiv> canonical_json (reservation_payload example_token 5 9)"

lemma example_hex: "sha256_hex example_token"
  by code_simp

lemma default_fields: "qp_maximum_state_bytes default_policy = 137438953472" "qp_reserved_free_space_bytes default_policy = 2147483648"
  by (simp_all add: default_policy_def)

lemma example_reads: "read_policy policy_file = Inr default_policy" "read_reservation example_token receipt_file = Inr (5, 9)"
  using policy_roundtrip [OF make_default] reservation_roundtrip [OF example_hex, of 5 9] by (simp_all add: max_safe_bytes_def)

lemma example_sizes: "length policy_file \<le> 16 * 1024" "length receipt_file \<le> 16 * 1024"
  by (rule read_policy_length [OF example_reads(1)], rule read_reservation_length [OF example_reads(2)])

definition example_configured :: QuotaState where
  "example_configured = example_start\<lparr>qs_policy := Some policy_file\<rparr>"

definition example_reserved :: QuotaState where
  "example_reserved = example_configured\<lparr>qs_reservations := [(example_token, receipt_file)], qs_leases := [example_token], qs_written := [(example_token, 0)]\<rparr>"

lemmas example_simps = quota_transaction_def entry_cap_def durable_policy_def Let_def sbind_def lift_def peek_def ret_def safe_tree_usage_def
  coordination_bytes_def checked_add_def validate_byte_limit_def free_bytes_def example_start_def example_configured_def default_fields
  max_safe_bytes_def example_reads make_default

lemma example_configure: "configure_state_quota default_policy example_start = (Inr (), example_configured)"
  using example_sizes by (simp add: configure_state_quota_def ensure_policy_bootstrap_capacity_def example_simps)

lemma example_reserve: "reserve_global_state_growth example_token 5 9 example_configured = (Inr \<lparr>sr_token = example_token, sr_released = False\<rparr>, example_reserved)"
  using example_sizes
  by (simp add: reserve_global_state_growth_def ensure_global_state_growth_locked_def check_growth_def durable_reservations_def add_reserved_def
      example_reserved_def example_simps)

definition example_crashed :: QuotaState where
  "example_crashed = example_reserved\<lparr>qs_leases := []\<rparr>"

lemma example_reconcile: "reconcile_abandoned_state_reservations example_crashed = (Inr [example_token], drop_reservation example_token example_crashed)"
  using example_sizes
  by (simp add: reconcile_abandoned_state_reservations_def reconcile_one_def durable_reservations_def note_reservation_def
      example_crashed_def example_reserved_def example_simps)

lemma example_run: "quota_step\<^sup>*\<^sup>* example_start example_reserved" "fresh_state example_start" "quota_ok example_crashed"
proof -
  have "quota_step example_start example_configured" by (rule quota_step.configure [OF example_configure])
  moreover have "quota_step example_configured example_reserved"
    by (rule quota_step.reserve [OF example_reserve example_hex]) (simp add: example_configured_def example_start_def)
  ultimately show steps: "quota_step\<^sup>*\<^sup>* example_start example_reserved" by (meson r_into_rtranclp rtranclp_trans)
  show fresh: "fresh_state example_start" by (simp add: fresh_state_def example_start_def)
  have "quota_ok example_reserved" using growth.reach_inv fresh steps by blast
  then show "quota_ok example_crashed" using quota_ok_frame [of example_reserved "[]" "qs_free example_reserved"] by (simp add: example_crashed_def)
qed

theorem state_bytes_within_quota_witness:
  "fresh_state example_start \<and> quota_step\<^sup>*\<^sup>* example_start example_reserved \<and> qs_policy example_reserved = Some policy_file
   \<and> (\<exists>p. read_policy policy_file = Inr p \<and> 0 \<le> outstanding example_reserved \<and> used_bytes example_reserved + outstanding example_reserved \<le> qp_maximum_state_bytes p)"
proof -
  have "qs_policy example_reserved = Some policy_file" by (simp add: example_reserved_def example_configured_def)
  with state_bytes_within_quota [OF example_run(2,1)] example_run show ?thesis by blast
qed

theorem reconcile_removes_abandoned_witness:
  "[example_token] = filter (\<lambda>k. k \<notin> set (qs_leases example_crashed)) (sort (keys (qs_reservations example_crashed)))
   \<and> quota_ok (drop_reservation example_token example_crashed) \<and> qs_reservations (drop_reservation example_token example_crashed) = []"
proof -
  have "qs_policy example_crashed \<noteq> None" "qs_leases example_crashed = []"
    by (simp_all add: example_crashed_def example_reserved_def example_configured_def)
  with reconcile_removes_abandoned [OF example_run(3) _ example_reconcile] show ?thesis by simp
qed

end
