(* ===== verification/GenStore.thy ===== *)
theory GenStore
  imports Quota
begin

text \<open>
  \<open>cardrag_mcp/store.py\<close>: the local generations of the server.  \<open>GenerationStore\<close> owns the last good generation, hands
  out pinned handles to requests, keeps durable roots for long jobs, and removes generations and PDF objects that
  nothing holds any more.

  One process is modelled.  Every public operation runs under \<open>self._lock\<close> (most also under the lifecycle file lock),
  so that a run is a sequence of operations; a context manager is two of them, entry and exit.  The entries of the
  handle table are objects that a request keeps while the table changes, so they live in an explicit heap and are
  named by address.  Below the generation root only plain directories and regular files are modelled, temporary files
  of a crashed writer are invisible, and deletions succeed.  Parameters are what the code reads through SQLite, numpy and
  the quota ledger: \<open>dbs g\<close>, the content of a generation's database with the outcomes of its schema and vector checks,
  and \<open>quota\<close>, whose value in the code is \<open>quota_at\<close> of the ledger of \<open>Quota\<close>.  The operations take \<open>refs\<close> and \<open>load\<close> as arguments; \<open>database_pdfs dbs\<close> and \<open>load_and_verify dbs\<close> are the
  code's.
\<close>

section \<open>State\<close>

record GenerationHandle =
  gh_generation_id :: string
  gh_inside :: bool
  gh_resident_vector_bytes :: nat

record HandleEntry =
  he_handle :: GenerationHandle
  he_references :: int

datatype pointer_file = NoPointer | SymlinkPointer | IrregularPointer | PointerFile bytes

record GenerationStore =
  gs_retention :: nat
  gs_maximum_resident_vector_bytes :: nat
  gs_maximum_database_bytes :: nat
  gs_maximum_pdf_bytes :: nat
  gs_audit_max_total_bytes :: int
  gs_audit_max_jobs :: int
  gs_heap :: "HandleEntry list"
  gs_entries :: "(string, nat) dict"
  gs_active :: "nat option"
  gs_current :: pointer_file
  gs_generations :: "(string, int) dict"
  gs_roots :: "(string, bytes) dict"
  gs_objects :: "(string, bytes) dict"
  gs_pins :: "nat list"

text \<open>\<open>gs_generations\<close> maps a directory below the root to its \<open>st_mtime_ns\<close>; \<open>gs_pins\<close> lists the open contexts.\<close>

type_synonym 'a store_op = "(GenerationStore, 'a) op"
type_synonym quota = "int \<Rightarrow> int \<Rightarrow> unit result"

definition quota_at :: "QuotaState \<Rightarrow> quota" where
  "quota_at ledger logical peak = fst (ensure_global_state_growth logical peak ledger)"

lemma quota_at_capacity:
  assumes "quota_ok ledger" "quota_at ledger logical peak = Inr ()"
  shows "\<exists>b p. read_policy b = Inr p \<and> used_bytes ledger + outstanding ledger + logical \<le> qp_maximum_state_bytes p"
proof -
  obtain t where "ensure_global_state_growth logical peak ledger = (Inr (), t)"
    using assms(2) by (cases "ensure_global_state_growth logical peak ledger") (simp add: quota_at_def)
  then have "ensure_global_state_growth_locked logical peak ledger = (Inr (), t)"
    by (auto simp: ensure_global_state_growth_def transaction_eqs split: sum.splits)
  from ensure_locked_kept [OF this assms(1)] obtain b p where
    kept: "policy_kept ledger t" and p: "read_policy b = Inr p" "used_bytes t + outstanding t + logical \<le> qp_maximum_state_bytes p" by auto
  have "used_bytes ledger \<le> used_bytes t" "outstanding t = outstanding ledger"
    using kept by (cases "qs_policy ledger"; auto simp: policy_kept_def used_bytes_def coordination_bytes_def split: option.split)+
  with p show ?thesis by (intro exI [of _ b] exI [of _ p]) linarith
qed

definition local_pointer_schema :: string where
  "local_pointer_schema = ''cardrag.mcp-local-pointer.v1''"

definition generation_gc_root_schema :: string where
  "generation_gc_root_schema = ''cardrag.mcp-generation-gc-root.v1''"

definition gc_root_owner :: "string \<Rightarrow> bool" where
  "gc_root_owner v \<longleftrightarrow> take 11 v = ''map-reduce-'' \<and> sha256_hex (drop 11 v)"

definition read_state :: "(GenerationStore \<Rightarrow> 'a) \<Rightarrow> 'a store_op" where
  "read_state f s = (Inr (f s), s)"

definition change :: "(GenerationStore \<Rightarrow> GenerationStore) \<Rightarrow> unit store_op" where
  "change f s = (Inr (), f s)"

definition entry_id :: "GenerationStore \<Rightarrow> nat \<Rightarrow> string" where
  "entry_id s a = gh_generation_id (he_handle (gs_heap s ! a))"

definition active_generation_id :: "GenerationStore \<Rightarrow> string option" where
  "active_generation_id s = map_option (entry_id s) (gs_active s)"

definition resident_vector_bytes :: "GenerationStore \<Rightarrow> nat" where
  "resident_vector_bytes s = sum_list (map (\<lambda>(_, a). gh_resident_vector_bytes (he_handle (gs_heap s ! a))) (gs_entries s))"

definition add_references :: "int \<Rightarrow> nat \<Rightarrow> GenerationStore \<Rightarrow> GenerationStore" where
  "add_references d a s = s\<lparr>gs_heap := (gs_heap s)[a := (gs_heap s ! a)\<lparr>he_references := he_references (gs_heap s ! a) + d\<rparr>]\<rparr>"

text \<open>\<open>_HandleEntry(handle)\<close> stored under its generation: a new object at a fresh address.\<close>

definition add_entry :: "GenerationHandle \<Rightarrow> GenerationStore \<Rightarrow> GenerationStore" where
  "add_entry h s = s\<lparr>gs_heap := gs_heap s @ [\<lparr>he_handle = h, he_references = 0\<rparr>],
     gs_entries := AList.update (gh_generation_id h) (length (gs_heap s)) (gs_entries s)\<rparr>"

section \<open>Loading a generation\<close>

record PdfRow =
  pr_sha256 :: string
  pr_size_bytes :: nat

record ServingDatabase =
  sd_size :: nat
  sd_schema_check :: "unit result"
  sd_schema_id :: string
  sd_generation_id :: string
  sd_embedding_model :: string
  sd_embedding_count :: nat
  sd_embedding_dimension :: nat
  sd_vector_check :: "unit result"
  sd_documents :: "PdfRow list"
  sd_failed :: "PdfRow list option"

type_synonym databases = "string \<Rightarrow> ServingDatabase option"

definition sidecar_schema :: "string \<Rightarrow> bool" where
  "sidecar_schema v \<longleftrightarrow> v \<in> {''cardrag.serving-db.v5'', ''cardrag.serving-db.v6''}"

definition resident_bytes :: "ServingDatabase \<Rightarrow> nat" where
  "resident_bytes d = sd_embedding_count d * 4
     + (if sidecar_schema (sd_schema_id d) then 0 else sd_embedding_count d * sd_embedding_dimension d * 4)"

definition differs :: "'a option \<Rightarrow> 'a \<Rightarrow> bool" where
  "differs expected v \<longleftrightarrow> expected \<noteq> None \<and> expected \<noteq> Some v"

definition load_generation_handle ::
  "nat \<Rightarrow> nat \<Rightarrow> databases \<Rightarrow> string option \<Rightarrow> string option \<Rightarrow> nat option \<Rightarrow> string \<Rightarrow> GenerationHandle result"
where
  "load_generation_handle maximum_database resident_limit dbs expected_generation_id expected_embedding_model expected_embedding_count g =
     rbind (raise_if (\<not> safe_id g) (RuntimeError ''invalid local generation ID'')) (\<lambda>_.
     case dbs g of None \<Rightarrow> Inl (RuntimeError ''generation database is missing or unsafe'')
     | Some d \<Rightarrow>
       rbind (raise_if (maximum_database < sd_size d) (RuntimeError ''generation database exceeds the configured hard cap'')) (\<lambda>_.
       rbind (sd_schema_check d) (\<lambda>_.
       rbind (raise_if (sd_generation_id d \<noteq> g) (RuntimeError ''database generation ID differs from its directory'')) (\<lambda>_.
       rbind (raise_if (differs expected_generation_id (sd_generation_id d)) (RuntimeError ''database generation ID differs from manifest'')) (\<lambda>_.
       rbind (raise_if (differs expected_embedding_model (sd_embedding_model d)) (RuntimeError ''database embedding model differs from manifest'')) (\<lambda>_.
       rbind (raise_if (differs expected_embedding_count (sd_embedding_count d)) (RuntimeError ''database embedding count differs from manifest'')) (\<lambda>_.
       rbind (raise_if (resident_limit < resident_bytes d) (RuntimeError ''generation vector arrays exceed the configured resident memory limit'')) (\<lambda>_.
       rbind (sd_vector_check d) (\<lambda>_.
       Inr \<lparr>gh_generation_id = g, gh_inside = True, gh_resident_vector_bytes = resident_bytes d\<rparr>)))))))))"

definition verify_pdf_for_handle :: "nat \<Rightarrow> (string, bytes) dict \<Rightarrow> PdfRow \<Rightarrow> unit result" where
  "verify_pdf_for_handle maximum_bytes objects row =
     rbind (raise_if (maximum_bytes < pr_size_bytes row) (RuntimeError ''PDF exceeds the configured 100 MiB bound'')) (\<lambda>_.
     rbind (raise_if (\<not> sha256_hex (pr_sha256 row)) (ValueError ''invalid CAS digest'')) (\<lambda>_.
     case map_of objects (pr_sha256 row) of None \<Rightarrow> Inl (OSError ''No such file or directory'')
     | Some content \<Rightarrow>
       rbind (raise_if (length content \<noteq> pr_size_bytes row) (RuntimeError ''PDF size differs from serving metadata'')) (\<lambda>_.
       rbind (raise_if (take 5 content \<noteq> ''%PDF-'') (RuntimeError ''source object is not application/pdf'')) (\<lambda>_.
       raise_if (sha256_bytes content \<noteq> pr_sha256 row) (RuntimeError ''PDF hash differs from serving metadata'')))))"

text \<open>The rows of \<open>verify_handle_pdfs\<close>; the join with the lineages drops no revision (a foreign key of the schema).\<close>

definition handle_rows :: "ServingDatabase \<Rightarrow> PdfRow list" where
  "handle_rows d = sd_documents d @
     (if sd_schema_id d = ''cardrag.serving-db.v4'' \<or> sidecar_schema (sd_schema_id d)
      then (case sd_failed d of None \<Rightarrow> [] | Some rows \<Rightarrow> rows) else [])"

definition verify_handle_pdfs :: "nat \<Rightarrow> (string, bytes) dict \<Rightarrow> ServingDatabase \<Rightarrow> unit result" where
  "verify_handle_pdfs maximum_pdf objects d = rfold (\<lambda>_ row. verify_pdf_for_handle maximum_pdf objects row) () (handle_rows d)"

definition database_pdfs :: "databases \<Rightarrow> string \<Rightarrow> string list option" where
  "database_pdfs dbs g = map_option (\<lambda>d. map pr_sha256 (sd_documents d @ (case sd_failed d of None \<Rightarrow> [] | Some rows \<Rightarrow> rows))) (dbs g)"

definition load_and_verify :: "databases \<Rightarrow> GenerationStore \<Rightarrow> string \<Rightarrow> nat option" where
  "load_and_verify dbs s g =
     (case load_generation_handle (gs_maximum_database_bytes s) (gs_maximum_resident_vector_bytes s) dbs (Some g) None None g of
        Inl _ \<Rightarrow> None
      | Inr h \<Rightarrow>
        (case verify_handle_pdfs (gs_maximum_pdf_bytes s) (gs_objects s) (the (dbs g)) of
           Inl _ \<Rightarrow> None | Inr _ \<Rightarrow> Some (gh_resident_vector_bytes h)))"

section \<open>Durable roots\<close>

definition gc_root_payload :: "string \<Rightarrow> string \<Rightarrow> json" where
  "gc_root_payload owner_id generation_id = JObj
     [(''schema_version'', JStr generation_gc_root_schema), (''owner_id'', JStr owner_id), (''generation_id'', JStr generation_id)]"

definition canonical_generation_gc_root :: "json \<Rightarrow> bytes" where
  "canonical_generation_gc_root v = dumps True v @ [CHR 0x0A]"

text \<open>
  A value that is not a string is turned into one by the code and then differs from the file, and so does a file with
  a repeated key; both end in the canonical check here.
\<close>

definition read_generation_gc_root :: "string \<Rightarrow> bytes \<Rightarrow> (string \<times> string) result" where
  "read_generation_gc_root name encoded =
     rbind (raise_if (length encoded < 1 \<or> 4 * 1024 < length encoded) (RuntimeError ''generation GC root has an invalid size or type'')) (\<lambda>_.
     case loads encoded of
       Inr (JObj kvs) \<Rightarrow>
         rbind (raise_if (set (keys kvs) \<noteq> {''schema_version'', ''owner_id'', ''generation_id''})
           (RuntimeError ''generation GC root is not strict JSON'')) (\<lambda>_.
         case (map_of kvs ''schema_version'', map_of kvs ''owner_id'', map_of kvs ''generation_id'') of
           (Some (JStr schema), Some (JStr owner_id), Some (JStr generation_id)) \<Rightarrow>
             rbind (raise_if (encoded \<noteq> canonical_generation_gc_root (JObj kvs))
               (RuntimeError ''generation GC root is not canonical JSON'')) (\<lambda>_.
             rbind (raise_if (schema \<noteq> generation_gc_root_schema \<or> \<not> gc_root_owner owner_id \<or> \<not> safe_id generation_id
                 \<or> name \<noteq> owner_id @ ''.json'')
               (RuntimeError ''generation GC root identity is invalid'')) (\<lambda>_.
             Inr (owner_id, generation_id)))
         | _ \<Rightarrow> Inl (RuntimeError ''generation GC root is not canonical JSON''))
     | _ \<Rightarrow> Inl (RuntimeError ''generation GC root is not strict JSON''))"

definition durable_root :: "GenerationStore \<Rightarrow> (string, string) dict \<Rightarrow> string \<times> bytes \<Rightarrow> (string, string) dict result" where
  "durable_root s roots = (\<lambda>(name, encoded).
     rbind (read_generation_gc_root name encoded) (\<lambda>(owner_id, generation_id).
     rbind (raise_if (generation_id \<notin> set (keys (gs_generations s)))
       (RuntimeError ''generation GC root references a missing generation'')) (\<lambda>_.
     Inr (AList.update owner_id generation_id roots))))"

definition durable_generation_roots :: "GenerationStore \<Rightarrow> (string, string) dict result" where
  "durable_generation_roots s = rfold (durable_root s) [] (sort_key fst (gs_roots s))"

definition durable_roots :: "(string, string) dict store_op" where
  "durable_roots s = (durable_generation_roots s, s)"

section \<open>Pruning\<close>

definition newest_generations :: "GenerationStore \<Rightarrow> string list" where
  "newest_generations s = map snd (rev (sort (map (\<lambda>(name, mtime). (mtime, name)) (filter (\<lambda>(name, _). safe_id name) (gs_generations s)))))"

definition is_pinned :: "GenerationStore \<Rightarrow> string \<Rightarrow> bool" where
  "is_pinned s g = (case map_of (gs_entries s) g of None \<Rightarrow> False | Some a \<Rightarrow> 0 < he_references (gs_heap s ! a))"

definition drop_entry :: "string \<Rightarrow> GenerationStore \<Rightarrow> GenerationStore" where
  "drop_entry g s = s\<lparr>gs_entries := AList.delete g (gs_entries s)\<rparr>"

definition prune_one :: "string set \<Rightarrow> string \<Rightarrow> GenerationStore \<Rightarrow> GenerationStore" where
  "prune_one retained g s =
     (let p = is_pinned s g;
          s1 = (case map_of (gs_entries s) g of None \<Rightarrow> s | Some a \<Rightarrow> if gs_active s \<noteq> Some a \<and> \<not> p then drop_entry g s else s)
      in if g \<in> retained \<or> p then s1
         else drop_entry g (s1\<lparr>gs_generations := AList.delete g (gs_generations s1)\<rparr>))"

text \<open>
  \<open>_prune_cas_locked\<close>: an object goes only if every remaining database could be read and none refers to it.
\<close>

definition prune_cas :: "(string \<Rightarrow> string list option) \<Rightarrow> GenerationStore \<Rightarrow> GenerationStore" where
  "prune_cas refs s =
     (let gens = filter safe_id (keys (gs_generations s)) in
      if list_ex (\<lambda>g. refs g = None) gens then s
      else s\<lparr>gs_objects := filter (\<lambda>(d, _). sha256_hex d \<longrightarrow> list_ex (\<lambda>g. d \<in> set (the (refs g))) gens) (gs_objects s)\<rparr>)"

definition retained_generations :: "(string, string) dict \<Rightarrow> GenerationStore \<Rightarrow> string set" where
  "retained_generations roots s =
     set (take (gs_retention s) (newest_generations s)) \<union> set_option (active_generation_id s) \<union> set (map snd roots)"

definition prune :: "(string \<Rightarrow> string list option) \<Rightarrow> (string, string) dict \<Rightarrow> GenerationStore \<Rightarrow> GenerationStore" where
  "prune refs roots s = prune_cas refs (fold (prune_one (retained_generations roots s)) (newest_generations s) s)"

definition prune_locked :: "(string \<Rightarrow> string list option) \<Rightarrow> (string, string) dict option \<Rightarrow> unit store_op" where
  "prune_locked refs roots =
     sbind (case roots of None \<Rightarrow> durable_roots | Some rs \<Rightarrow> ret rs) (\<lambda>rs. change (prune refs rs))"

section \<open>Pins\<close>

definition enter_pin :: "nat \<Rightarrow> GenerationStore \<Rightarrow> GenerationStore" where
  "enter_pin a s = (add_references 1 a s)\<lparr>gs_pins := a # gs_pins s\<rparr>"

definition exit_pin :: "nat \<Rightarrow> GenerationStore \<Rightarrow> GenerationStore" where
  "exit_pin a s = (add_references (- 1) a s)\<lparr>gs_pins := remove1 a (gs_pins s)\<rparr>"

definition pin :: "nat store_op" where
  "pin = sbind (read_state gs_active) (\<lambda>active.
     case active of None \<Rightarrow> raise (RuntimeError ''no serving generation is active'')
     | Some a \<Rightarrow> sbind (change (enter_pin a)) (\<lambda>_. ret a))"

definition unpin :: "(string \<Rightarrow> string list option) \<Rightarrow> nat \<Rightarrow> unit store_op" where
  "unpin refs a =
     sbind (change (exit_pin a)) (\<lambda>_.
     sbind (read_state (\<lambda>s. gs_active s \<noteq> Some a \<and> he_references (gs_heap s ! a) = 0)) (\<lambda>drained.
     if drained then prune_locked refs None else ret ()))"

definition pin_generation :: "(GenerationStore \<Rightarrow> string \<Rightarrow> nat option) \<Rightarrow> string \<Rightarrow> nat store_op" where
  "pin_generation load generation_id =
     sbind (lift (raise_if (\<not> safe_id generation_id) (RuntimeError ''requested generation ID is invalid''))) (\<lambda>_.
     sbind (read_state (\<lambda>s. map_of (gs_entries s) generation_id)) (\<lambda>found.
     sbind (case found of Some a \<Rightarrow> ret a
       | None \<Rightarrow>
         sbind (read_state (\<lambda>s. generation_id \<in> set (keys (gs_generations s)))) (\<lambda>there.
         sbind (lift (raise_if (\<not> there) (RuntimeError ''requested generation is missing or unsafe''))) (\<lambda>_.
         sbind (read_state (\<lambda>s. load s generation_id)) (\<lambda>loaded.
         case loaded of
           None \<Rightarrow> raise (RuntimeError ''requested generation failed exact validation'')
         | Some resident \<Rightarrow>
           sbind (read_state (\<lambda>s. resident_vector_bytes s + resident > gs_maximum_resident_vector_bytes s)) (\<lambda>over.
           sbind (lift (raise_if over (RuntimeError ''requested generation exceeds the resident vector memory limit''))) (\<lambda>_.
           sbind (read_state (\<lambda>s. length (gs_heap s))) (\<lambda>a.
           sbind (change (add_entry \<lparr>gh_generation_id = generation_id, gh_inside = True, gh_resident_vector_bytes = resident\<rparr>)) (\<lambda>_.
           ret a)))))))) (\<lambda>a.
     sbind (change (enter_pin a)) (\<lambda>_. ret a))))"

section \<open>Roots of jobs\<close>

definition acquire_gc_root_locked ::
  "quota \<Rightarrow> (string \<Rightarrow> int \<times> int) \<Rightarrow> string \<Rightarrow> string \<Rightarrow> (string, string) dict \<Rightarrow> unit store_op"
where
  "acquire_gc_root_locked quota audit_usage owner_id generation_id roots =
     (let encoded = canonical_generation_gc_root (gc_root_payload owner_id generation_id); n = int (length encoded) in
     sbind (read_state (\<lambda>s. generation_id \<in> set (keys (gs_generations s)))) (\<lambda>there.
     sbind (lift (raise_if (\<not> there) (RuntimeError ''generation GC root references a missing generation''))) (\<lambda>_.
     sbind (read_state (\<lambda>s. map_of (gs_roots s) (owner_id @ ''.json''))) (\<lambda>existing.
     case existing of
       Some file \<Rightarrow>
         lift (rbind (read_generation_gc_root (owner_id @ ''.json'') file) (\<lambda>found.
           raise_if (found \<noteq> (owner_id, generation_id) \<or> map_of roots owner_id \<noteq> Some generation_id)
             (RuntimeError ''generation GC root already binds another generation'')))
     | None \<Rightarrow>
         sbind (lift (case quota n (2 * n) of Inl (StorageQuotaError _) \<Rightarrow> Inl (RuntimeError ''MCP state quota rejected generation GC root'') | r \<Rightarrow> r)) (\<lambda>_.
         let (total, jobs) = audit_usage owner_id in
         sbind (read_state (\<lambda>s. (gs_audit_max_total_bytes s, gs_audit_max_jobs s))) (\<lambda>(max_total, max_jobs).
         sbind (lift (raise_if (total > max_total \<or> n > max_total - total \<or> 2 * n > max_total - total)
           (RuntimeError ''shared exhaustive audit total quota rejected generation root''))) (\<lambda>_.
         sbind (lift (raise_if (jobs > max_jobs) (RuntimeError ''shared exhaustive audit job quota rejected generation root''))) (\<lambda>_.
         change (\<lambda>s. s\<lparr>gs_roots := AList.update (owner_id @ ''.json'') encoded (gs_roots s)\<rparr>)))))))))"

definition acquire_generation_gc_root ::
  "quota \<Rightarrow> (string \<Rightarrow> int \<times> int) \<Rightarrow> string \<Rightarrow> string \<Rightarrow> unit store_op"
where
  "acquire_generation_gc_root quota audit_usage owner_id generation_id =
     sbind (lift (raise_if (\<not> gc_root_owner owner_id) (RuntimeError ''generation GC root owner is invalid''))) (\<lambda>_.
     sbind (lift (raise_if (\<not> safe_id generation_id) (RuntimeError ''generation GC root generation is invalid''))) (\<lambda>_.
     sbind durable_roots (\<lambda>roots.
     acquire_gc_root_locked quota audit_usage owner_id generation_id roots)))"

definition pointer_payload :: "string \<Rightarrow> json" where
  "pointer_payload generation_id = JObj [(''schema_version'', JStr local_pointer_schema), (''generation_id'', JStr generation_id)]"

definition pointer_bytes :: "string \<Rightarrow> bytes" where
  "pointer_bytes generation_id = dumps True (pointer_payload generation_id) @ [CHR 0x0A]"

definition durable_current_generation_id :: "GenerationStore \<Rightarrow> string result" where
  "durable_current_generation_id s =
     (case gs_current s of
        PointerFile encoded \<Rightarrow>
          rbind (raise_if (length encoded < 1 \<or> 4 * 1024 < length encoded) (RuntimeError ''durable current generation pointer is unsafe'')) (\<lambda>_.
          case loads encoded of
            Inl _ \<Rightarrow> Inl (RuntimeError ''durable current generation pointer is not strict JSON'')
          | Inr (JObj kvs) \<Rightarrow>
              rbind (raise_if (set (keys kvs) \<noteq> {''schema_version'', ''generation_id''})
                (RuntimeError ''durable current generation pointer fields are invalid'')) (\<lambda>_.
              case map_of kvs ''generation_id'' of
                Some (JStr generation_id) \<Rightarrow>
                  rbind (raise_if (map_of kvs ''schema_version'' \<noteq> Some (JStr local_pointer_schema) \<or> \<not> safe_id generation_id
                      \<or> encoded \<noteq> dumps True (JObj kvs) @ [CHR 0x0A])
                    (RuntimeError ''durable current generation pointer identity is invalid'')) (\<lambda>_.
                  rbind (raise_if (generation_id \<notin> set (keys (gs_generations s))) (RuntimeError ''durable current generation is missing'')) (\<lambda>_.
                  Inr generation_id))
              | _ \<Rightarrow> Inl (RuntimeError ''durable current generation pointer identity is invalid''))
          | Inr _ \<Rightarrow> Inl (RuntimeError ''durable current generation pointer fields are invalid''))
      | _ \<Rightarrow> Inl (RuntimeError ''durable current generation pointer is missing or unsafe''))"

definition matching_root ::
  "(string \<Rightarrow> string) \<Rightarrow> (string, string) dict \<Rightarrow> string \<times> string \<Rightarrow> (string, string) dict result"
where
  "matching_root owner_for_generation acc = (\<lambda>(owner_id, generation_id).
     let derived = owner_for_generation generation_id in
     rbind (raise_if (\<not> gc_root_owner derived) (RuntimeError ''derived generation GC root owner is invalid'')) (\<lambda>_.
     Inr (if derived = owner_id then acc @ [(owner_id, generation_id)] else acc)))"

definition claim_current_generation_gc_root ::
  "quota \<Rightarrow> (string \<Rightarrow> int \<times> int) \<Rightarrow> (string \<Rightarrow> string) \<Rightarrow> (string \<times> string \<times> bool) store_op"
where
  "claim_current_generation_gc_root quota audit_usage owner_for_generation =
     sbind durable_roots (\<lambda>roots.
     sbind (lift (rfold (matching_root owner_for_generation) [] roots)) (\<lambda>matching.
     case matching of
       [(owner_id, generation_id)] \<Rightarrow> ret (owner_id, generation_id, False)
     | _ # _ # _ \<Rightarrow> raise (RuntimeError (''multiple durable jobs match one sealed query/profile: '' @ join_with (CHR '','') (sort (map fst matching))))
     | [] \<Rightarrow>
         sbind (read_state durable_current_generation_id) (\<lambda>current.
         sbind (lift current) (\<lambda>generation_id.
         let owner_id = owner_for_generation generation_id in
         sbind (lift (raise_if (\<not> gc_root_owner owner_id) (RuntimeError ''derived generation GC root owner is invalid''))) (\<lambda>_.
         sbind (acquire_gc_root_locked quota audit_usage owner_id generation_id roots) (\<lambda>_.
         ret (owner_id, generation_id, True)))))))"

definition verify_generation_gc_root :: "string \<Rightarrow> string \<Rightarrow> unit store_op" where
  "verify_generation_gc_root owner_id generation_id =
     sbind durable_roots (\<lambda>roots.
     lift (raise_if (map_of roots owner_id \<noteq> Some generation_id)
       (RuntimeError ''nonterminal job is missing its durable generation GC root'')))"

definition generation_for_gc_root :: "string \<Rightarrow> string option store_op" where
  "generation_for_gc_root owner_id =
     sbind (lift (raise_if (\<not> gc_root_owner owner_id) (RuntimeError ''generation GC root owner is invalid''))) (\<lambda>_.
     sbind durable_roots (\<lambda>roots. ret (map_of roots owner_id)))"

definition release_generation_gc_root :: "string \<Rightarrow> string \<Rightarrow> unit store_op" where
  "release_generation_gc_root owner_id generation_id =
     sbind durable_roots (\<lambda>roots.
     case map_of roots owner_id of
       None \<Rightarrow> ret ()
     | Some existing \<Rightarrow>
         sbind (lift (raise_if (existing \<noteq> generation_id) (RuntimeError ''generation GC root release identity is stale''))) (\<lambda>_.
         change (\<lambda>s. s\<lparr>gs_roots := AList.delete (owner_id @ ''.json'') (gs_roots s)\<rparr>)))"

section \<open>Activation and start\<close>

definition activate :: "quota \<Rightarrow> (string \<Rightarrow> string list option) \<Rightarrow> GenerationHandle \<Rightarrow> unit store_op" where
  "activate quota refs handle =
     (let g = gh_generation_id handle in
     sbind (lift (raise_if (\<not> gh_inside handle) (ValueError ''generation is outside the local generation root''))) (\<lambda>_.
     sbind durable_roots (\<lambda>roots.
     sbind (read_state (\<lambda>s. map_of (gs_entries s) g)) (\<lambda>entry.
     sbind (read_state (\<lambda>s. resident_vector_bytes (drop_entry g s)
         + gh_resident_vector_bytes (case entry of None \<Rightarrow> handle | Some a \<Rightarrow> he_handle (gs_heap s ! a))
         > gs_maximum_resident_vector_bytes s)) (\<lambda>over.
     sbind (lift (raise_if over (RuntimeError ''candidate plus resident/pinned vector memory exceeds the resident limit''))) (\<lambda>_.
     sbind (read_state gs_current) (\<lambda>current.
     sbind (lift (case current of
         SymlinkPointer \<Rightarrow> Inl (RuntimeError ''local generation pointer must not be a symlink'')
       | IrregularPointer \<Rightarrow> Inl (RuntimeError ''local generation pointer is not a regular file'')
       | NoPointer \<Rightarrow> Inr 0 | PointerFile old \<Rightarrow> Inr (int (length old)))) (\<lambda>current_size.
     let n = int (length (pointer_bytes g)) in
     sbind (lift (quota (max 0 (n - current_size)) n)) (\<lambda>_.
     sbind (change (\<lambda>s. s\<lparr>gs_current := PointerFile (pointer_bytes g)\<rparr>)) (\<lambda>_.
     sbind (case entry of Some a \<Rightarrow> ret a
       | None \<Rightarrow> sbind (read_state (\<lambda>s. length (gs_heap s))) (\<lambda>a. sbind (change (add_entry handle)) (\<lambda>_. ret a))) (\<lambda>a.
     sbind (change (\<lambda>s. s\<lparr>gs_active := Some a\<rparr>)) (\<lambda>_.
     prune_locked refs (Some roots)))))))))))))"

text \<open>
  \<open>load_current\<close> returns \<open>False\<close> on any problem and leaves the store without an active generation.  The text of a list or
  an object (\<open>str(value)\<close>) starts with a bracket and is no generation id.
\<close>

definition py_str :: "json \<Rightarrow> string option" where
  "py_str v = (case v of JStr s \<Rightarrow> Some s | JInt i \<Rightarrow> Some (string_of_int i) | JFloat r \<Rightarrow> Some r
     | JBool b \<Rightarrow> Some (if b then ''True'' else ''False'') | JNull \<Rightarrow> Some ''None'' | _ \<Rightarrow> None)"

definition current_generation :: "pointer_file \<Rightarrow> string option" where
  "current_generation p = (case p of
     PointerFile content \<Rightarrow>
       (case loads content of
          Inr (JObj kvs) \<Rightarrow>
            if set (keys kvs) = {''schema_version'', ''generation_id''} \<and> map_of kvs ''schema_version'' = Some (JStr local_pointer_schema)
            then (case Option.bind (map_of kvs ''generation_id'') py_str of Some g \<Rightarrow> if safe_id g then Some g else None | _ \<Rightarrow> None)
            else None
        | _ \<Rightarrow> None)
   | _ \<Rightarrow> None)"

definition load_current :: "(GenerationStore \<Rightarrow> string \<Rightarrow> nat option) \<Rightarrow> bool store_op" where
  "load_current load =
     sbind (read_state (\<lambda>s. case current_generation (gs_current s) of None \<Rightarrow> None
       | Some g \<Rightarrow> if g \<in> set (keys (gs_generations s)) then map_option (\<lambda>r. (g, r)) (load s g) else None)) (\<lambda>found.
     case found of None \<Rightarrow> ret False
     | Some (g, resident) \<Rightarrow>
         sbind (read_state (\<lambda>s. length (gs_heap s))) (\<lambda>a.
         sbind (change (add_entry \<lparr>gh_generation_id = g, gh_inside = True, gh_resident_vector_bytes = resident\<rparr>)) (\<lambda>_.
         sbind (change (\<lambda>s. s\<lparr>gs_active := Some a\<rparr>)) (\<lambda>_. ret True))))"

section \<open>The invariant\<close>

definition root_held :: "string set \<Rightarrow> string \<times> bytes \<Rightarrow> bool" where
  "root_held gens = (\<lambda>(name, encoded). case read_generation_gc_root name encoded of Inr (_, g) \<Rightarrow> g \<in> gens | Inl _ \<Rightarrow> False)"

definition entry_ok :: "GenerationStore \<Rightarrow> string \<times> nat \<Rightarrow> bool" where
  "entry_ok s = (\<lambda>(g, a). a < length (gs_heap s) \<and> entry_id s a = g \<and> g \<in> set (keys (gs_generations s)))"

definition held :: "GenerationStore \<Rightarrow> nat \<Rightarrow> bool" where
  "held s a \<longleftrightarrow> map_of (gs_entries s) (entry_id s a) = Some a"

definition active_ok :: "GenerationStore \<Rightarrow> bool" where
  "active_ok s = (case gs_active s of None \<Rightarrow> True | Some a \<Rightarrow> held s a \<and> current_generation (gs_current s) = Some (entry_id s a))"

definition counted :: "GenerationStore \<Rightarrow> bool" where
  "counted s = list_all (\<lambda>a. he_references (gs_heap s ! a) = int (count_list (gs_pins s) a)) [0..<length (gs_heap s)]"

text \<open>
  Everything that is held is there: the handle table, the active generation, every pin and every root refers to a
  generation directory; a reference count is the number of open pins; the resident vectors fit.
\<close>

definition store_ok :: "GenerationStore \<Rightarrow> bool" where
  "store_ok s \<longleftrightarrow> wf_dict (gs_entries s) \<and> list_all (entry_ok s) (gs_entries s)
     \<and> wf_dict (gs_roots s) \<and> list_all (root_held (set (keys (gs_generations s)))) (gs_roots s)
     \<and> active_ok s \<and> list_all (held s) (gs_pins s) \<and> counted s \<and> resident_vector_bytes s \<le> gs_maximum_resident_vector_bytes s"

lemma store_entry:
  assumes "store_ok s" "map_of (gs_entries s) g = Some a"
  shows "a < length (gs_heap s)" "entry_id s a = g" "g \<in> set (keys (gs_generations s))"
proof -
  have "list_all (entry_ok s) (gs_entries s)" using assms(1) by (simp add: store_ok_def)
  with map_of_SomeD [OF assms(2)] have "entry_ok s (g, a)" unfolding list_all_iff by blast
  then show "a < length (gs_heap s)" "entry_id s a = g" "g \<in> set (keys (gs_generations s))" by (simp_all only: entry_ok_def prod.case)
qed

lemma store_held:
  assumes "store_ok s" "held s a"
  shows "a < length (gs_heap s)" "entry_id s a \<in> set (keys (gs_generations s))"
  using store_entry [OF assms(1) assms(2) [unfolded held_def]] by simp_all

lemma store_counted: "store_ok s \<Longrightarrow> a < length (gs_heap s) \<Longrightarrow> he_references (gs_heap s ! a) = int (count_list (gs_pins s) a)"
  by (simp add: store_ok_def counted_def list_all_iff)

lemma store_pinned:
  assumes "store_ok s" "a \<in> set (gs_pins s)"
  shows "held s a" "is_pinned s (entry_id s a)"
proof -
  show h: "held s a" using assms by (simp add: store_ok_def list_all_iff)
  have "0 < count_list (gs_pins s) a" using assms(2) by (simp add: count_list_0_iff zero_less_iff_neq_zero)
  with h show "is_pinned s (entry_id s a)"
    using store_counted [OF assms(1) store_held(1) [OF assms(1) h]] by (simp add: is_pinned_def held_def)
qed

text \<open>What the invariant reads of a state, apart from the reference counts.\<close>

definition frame :: "GenerationStore \<Rightarrow> GenerationHandle list \<times> (string, nat) dict \<times> nat option \<times> string option \<times> (string, int) dict \<times> (string, bytes) dict \<times> nat" where
  "frame s = (map he_handle (gs_heap s), gs_entries s, gs_active s, current_generation (gs_current s), gs_generations s, gs_roots s, gs_maximum_resident_vector_bytes s)"

lemma frame_eqs:
  assumes "frame s = frame t"
  shows "gs_entries s = gs_entries t" "gs_active s = gs_active t" "current_generation (gs_current s) = current_generation (gs_current t)"
    "gs_generations s = gs_generations t" "gs_roots s = gs_roots t" "length (gs_heap s) = length (gs_heap t)"
    "gs_maximum_resident_vector_bytes s = gs_maximum_resident_vector_bytes t"
    "a < length (gs_heap s) \<Longrightarrow> he_handle (gs_heap s ! a) = he_handle (gs_heap t ! a)" "a < length (gs_heap s) \<Longrightarrow> entry_id s a = entry_id t a"
proof -
  have h: "map he_handle (gs_heap s) = map he_handle (gs_heap t)" using assms by (simp add: frame_def)
  then show l: "length (gs_heap s) = length (gs_heap t)" by (rule map_eq_imp_length_eq)
  show e: "a < length (gs_heap s) \<Longrightarrow> he_handle (gs_heap s ! a) = he_handle (gs_heap t ! a)"
    using arg_cong [OF h, of "\<lambda>xs. xs ! a"] l by simp
  then show "a < length (gs_heap s) \<Longrightarrow> entry_id s a = entry_id t a" by (simp add: entry_id_def)
qed (use assms in \<open>simp_all add: frame_def\<close>)

lemma store_ok_frame:
  assumes ok: "store_ok s" and f: "frame t = frame s" and pins: "\<And>a. a \<in> set (gs_pins t) \<Longrightarrow> held s a" and c: "counted t"
  shows "store_ok t"
proof -
  note eq = frame_eqs [OF f]
  have heap: "a < length (gs_heap t)" if "held s a" for a using store_held(1) [OF ok that] eq(6) by simp
  have h: "held t a" if "held s a" for a using that eq(9) [OF heap [OF that]] eq(1) by (simp add: held_def)
  have "list_all (entry_ok s) (gs_entries s)" using ok by (simp add: store_ok_def)
  then have e: "list_all (entry_ok t) (gs_entries s)" by (rule list.pred_mono_strong) (auto simp: entry_ok_def eq)
  have "map (\<lambda>(_, a). gh_resident_vector_bytes (he_handle (gs_heap t ! a))) (gs_entries s)
      = map (\<lambda>(_, a). gh_resident_vector_bytes (he_handle (gs_heap s ! a))) (gs_entries s)"
    using e by (auto simp: list_all_iff entry_ok_def eq(8))
  then have r: "resident_vector_bytes t = resident_vector_bytes s" by (simp only: resident_vector_bytes_def eq(1))
  have "active_ok t" using ok h eq(9) [OF heap] by (auto simp: store_ok_def active_ok_def eq(2,3) split: option.splits)
  moreover have "list_all (held t) (gs_pins t)" using pins h by (simp add: list_all_iff)
  ultimately show ?thesis using ok e c r by (simp add: store_ok_def eq(1,4,5,7))
qed

lemma frame_pins [simp]: "frame (enter_pin a s) = frame s" "frame (exit_pin a s) = frame s"
  by (simp_all add: frame_def enter_pin_def exit_pin_def add_references_def map_update)
    (metis list_update_id map_update HandleEntry.select_convs(1) HandleEntry.surjective HandleEntry.update_convs(2))+

lemma enter_pin_ok:
  assumes ok: "store_ok s" and a: "held s a"
  shows "store_ok (enter_pin a s)"
proof (rule store_ok_frame [OF ok frame_pins(1)])
  show "held s b" if "b \<in> set (gs_pins (enter_pin a s))" for b using that a store_pinned(1) [OF ok] by (auto simp: enter_pin_def)
  show "counted (enter_pin a s)"
    using store_counted [OF ok] by (auto simp: counted_def list_all_iff enter_pin_def add_references_def nth_list_update)
qed

lemma exit_pin_ok:
  assumes ok: "store_ok s" and a: "a \<in> set (gs_pins s)"
  shows "store_ok (exit_pin a s)"
proof (rule store_ok_frame [OF ok frame_pins(2)])
  show "held s b" if "b \<in> set (gs_pins (exit_pin a s))" for b
    using that notin_set_remove1 store_pinned(1) [OF ok] by (fastforce simp: exit_pin_def)
  have "count_list (remove1 a xs) b = count_list xs b - (if a = b then 1 else 0)" for b and xs :: "nat list" by (induction xs) auto
  moreover have "0 < count_list (gs_pins s) a" using a by (simp add: count_list_0_iff zero_less_iff_neq_zero)
  ultimately show "counted (exit_pin a s)"
    using store_counted [OF ok] by (auto simp: counted_def list_all_iff exit_pin_def add_references_def nth_list_update)
qed

lemma count_fresh: "\<forall>a \<in> set xs. a < n \<Longrightarrow> count_list xs n = 0" for xs :: "nat list"
  by (auto simp: count_list_0_iff)

text \<open>A new entry for a generation that has none.\<close>

lemma add_entry_ok:
  assumes ok: "store_ok s" and g: "map_of (gs_entries s) (gh_generation_id h) = None" "gh_generation_id h \<in> set (keys (gs_generations s))"
    and fits: "resident_vector_bytes s + gh_resident_vector_bytes h \<le> gs_maximum_resident_vector_bytes s"
  shows "store_ok (add_entry h s)" "map_of (gs_entries (add_entry h s)) (gh_generation_id h) = Some (length (gs_heap s))"
    "entry_id (add_entry h s) (length (gs_heap s)) = gh_generation_id h"
proof -
  let ?t = "add_entry h s"
  have fresh: "gh_generation_id h \<notin> set (keys (gs_entries s))" using g(1) by (simp add: map_of_eq_None_iff)
  then have ents: "gs_entries ?t = gs_entries s @ [(gh_generation_id h, length (gs_heap s))]"
    by (simp add: add_entry_def update_fresh)
  have heap: "gs_heap ?t = gs_heap s @ [\<lparr>he_handle = h, he_references = 0\<rparr>]" by (simp add: add_entry_def)
  have rest: "gs_generations ?t = gs_generations s" "gs_roots ?t = gs_roots s" "gs_active ?t = gs_active s" "gs_current ?t = gs_current s"
    "gs_pins ?t = gs_pins s" "gs_maximum_resident_vector_bytes ?t = gs_maximum_resident_vector_bytes s" by (simp_all add: add_entry_def)
  have old: "a < length (gs_heap s) \<Longrightarrow> gs_heap ?t ! a = gs_heap s ! a" for a by (simp add: heap nth_append)
  then have oldid: "a < length (gs_heap s) \<Longrightarrow> entry_id ?t a = entry_id s a" for a by (simp add: entry_id_def)
  have all: "list_all (entry_ok s) (gs_entries s)" using ok by (simp add: store_ok_def)
  show id: "entry_id ?t (length (gs_heap s)) = gh_generation_id h" by (simp add: entry_id_def heap)
  show "map_of (gs_entries ?t) (gh_generation_id h) = Some (length (gs_heap s))" using g(1) by (simp add: ents map_add_def)
  have "list_all (entry_ok ?t) (gs_entries s)"
    using all by (rule list.pred_mono_strong) (auto simp: entry_ok_def oldid rest heap)
  then have 1: "wf_dict (gs_entries ?t)" "list_all (entry_ok ?t) (gs_entries ?t)"
    using fresh ok g(2) id by (auto simp: ents entry_ok_def rest heap store_ok_def)
  have held: "held ?t a" if "held s a" for a
    using that oldid [OF store_held(1) [OF ok that]] by (simp add: held_def ents map_add_def)
  then have 2: "active_ok ?t" "list_all (held ?t) (gs_pins s)"
    using ok oldid store_held(1) [OF ok] by (auto simp: store_ok_def active_ok_def rest list_all_iff split: option.splits)
  have "\<forall>a \<in> set (gs_pins s). a < length (gs_heap s)" using store_pinned(1) [OF ok] store_held(1) [OF ok] by blast
  then have 3: "counted ?t" using store_counted [OF ok] count_fresh by (auto simp: counted_def list_all_iff heap rest nth_append)
  have "map (\<lambda>(_, a). gh_resident_vector_bytes (he_handle (gs_heap ?t ! a))) (gs_entries s)
      = map (\<lambda>(_, a). gh_resident_vector_bytes (he_handle (gs_heap s ! a))) (gs_entries s)"
    using all old by (auto simp: list_all_iff entry_ok_def)
  then have "sum_list (map (\<lambda>(_, a). gh_resident_vector_bytes (he_handle (gs_heap ?t ! a))) (gs_entries s)) = resident_vector_bytes s"
    by (simp only: resident_vector_bytes_def)
  moreover have "he_handle (gs_heap ?t ! length (gs_heap s)) = h" by (simp add: heap)
  ultimately have "resident_vector_bytes ?t = resident_vector_bytes s + gh_resident_vector_bytes h"
    by (simp add: resident_vector_bytes_def [of ?t] ents)
  with ok 1 2 3 fits show "store_ok ?t" by (simp add: store_ok_def rest)
qed

lemma activate_entry_ok:
  assumes ok: "store_ok s" and a: "held s a" and c: "current_generation p = Some (entry_id s a)"
  shows "store_ok (s\<lparr>gs_current := p, gs_active := Some a\<rparr>)"
proof -
  let ?t = "s\<lparr>gs_current := p, gs_active := Some a\<rparr>"
  have same: "entry_id ?t b = entry_id s b" "resident_vector_bytes ?t = resident_vector_bytes s" "counted ?t = counted s" for b
    by (simp_all add: entry_id_def resident_vector_bytes_def counted_def)
  then have "held ?t = held s" "entry_ok ?t = entry_ok s" by (auto simp: held_def entry_ok_def fun_eq_iff)
  with ok a c same show ?thesis by (simp add: store_ok_def active_ok_def)
qed

section \<open>Pruning keeps what is held\<close>

lemma sum_delete: "sum_list (map f (AList.delete k d)) \<le> (sum_list (map f d) :: nat)"
  by (induction d) (auto simp: AList.delete_eq)

lemma drop_entry_ok:
  assumes ok: "store_ok s" and free: "\<And>a. map_of (gs_entries s) g = Some a \<Longrightarrow> gs_active s \<noteq> Some a \<and> a \<notin> set (gs_pins s)"
  shows "store_ok (drop_entry g s)"
proof -
  let ?t = "drop_entry g s"
  have same: "entry_id ?t b = entry_id s b" "counted ?t = counted s" for b by (simp_all add: entry_id_def counted_def drop_entry_def)
  have e: "entry_ok ?t = entry_ok s" by (auto simp: entry_ok_def entry_id_def fun_eq_iff drop_entry_def)
  have held: "held ?t a" if h: "held s a" and "gs_active s = Some a \<or> a \<in> set (gs_pins s)" for a
  proof -
    have "entry_id s a \<noteq> g" using free that by (auto simp: held_def)
    with h show ?thesis by (simp add: held_def same) (simp add: drop_entry_def delete_conv')
  qed
  have fields: "gs_active ?t = gs_active s" "gs_current ?t = gs_current s" by (simp_all add: drop_entry_def)
  have "active_ok ?t" using ok held by (auto simp: store_ok_def active_ok_def same fields split: option.splits)
  moreover have "list_all (held ?t) (gs_pins s)" using ok held by (simp add: store_ok_def list_all_iff)
  moreover have "list_all (entry_ok s) (AList.delete g (gs_entries s))" using ok by (auto simp: store_ok_def list_all_iff AList.delete_eq)
  moreover have "resident_vector_bytes ?t \<le> resident_vector_bytes s" by (simp add: resident_vector_bytes_def drop_entry_def sum_delete)
  ultimately show ?thesis using ok by (simp add: store_ok_def e same(2)) (simp add: drop_entry_def distinct_delete)
qed

lemma delete_generation_ok:
  assumes ok: "store_ok s" and "map_of (gs_entries s) g = None"
    and roots: "\<And>r. r \<in> set (gs_roots s) \<Longrightarrow> root_held (set (keys (gs_generations s)) - {g}) r"
  shows "store_ok (s\<lparr>gs_generations := AList.delete g (gs_generations s)\<rparr>)"
proof -
  let ?t = "s\<lparr>gs_generations := AList.delete g (gs_generations s)\<rparr>"
  have same: "entry_id ?t b = entry_id s b" "counted ?t = counted s" "held ?t = held s" "active_ok ?t = active_ok s"
    "resident_vector_bytes ?t = resident_vector_bytes s" for b
    by (auto simp: entry_id_def counted_def held_def active_ok_def fun_eq_iff resident_vector_bytes_def split: option.splits)
  have ks: "fst ` set (AList.delete g (gs_generations s)) = fst ` set (gs_generations s) - {g}"
    by (auto simp: AList.delete_eq image_iff)
  have "list_all (entry_ok s) (gs_entries s)" using ok by (simp add: store_ok_def)
  then have "list_all (entry_ok ?t) (gs_entries s)"
    by (rule list.pred_mono_strong) (use assms(2) same(1) ks in \<open>force simp: entry_ok_def map_of_eq_None_iff\<close>)
  with ok roots show ?thesis by (simp add: store_ok_def same ks list_all_iff)
qed

lemma root_held_diff: "root_held A r \<Longrightarrow> root_held B r \<Longrightarrow> g \<notin> B \<Longrightarrow> root_held (A - {g}) r"
  by (auto simp: root_held_def split: prod.splits sum.splits)

definition protects :: "string set \<Rightarrow> GenerationStore \<Rightarrow> bool" where
  "protects retained s \<longleftrightarrow> (\<forall>g. active_generation_id s = Some g \<longrightarrow> g \<in> retained) \<and> list_all (root_held retained) (gs_roots s)"

lemma prune_one_fields [simp]:
  "gs_heap (prune_one R g s) = gs_heap s" "gs_active (prune_one R g s) = gs_active s" "gs_roots (prune_one R g s) = gs_roots s"
  "gs_pins (prune_one R g s) = gs_pins s" "gs_current (prune_one R g s) = gs_current s" "gs_objects (prune_one R g s) = gs_objects s"
  by (simp_all add: prune_one_def Let_def drop_entry_def split: option.splits)

lemma prune_one_protects [simp]: "protects R (prune_one R' g s) = protects R s"
  by (simp add: protects_def active_generation_id_def entry_id_def cong: map_option_cong)

lemma prune_one_ok:
  assumes ok: "store_ok s" and R: "protects R s"
  shows "store_ok (prune_one R g s)"
proof -
  let ?s1 = "case map_of (gs_entries s) g of None \<Rightarrow> s | Some a \<Rightarrow> if gs_active s \<noteq> Some a \<and> \<not> is_pinned s g then drop_entry g s else s"
  have drop: "store_ok (drop_entry g s)" if "gs_active s \<noteq> map_of (gs_entries s) g \<or> map_of (gs_entries s) g = None" "\<not> is_pinned s g"
  proof (rule drop_entry_ok [OF ok])
    fix a assume a: "map_of (gs_entries s) g = Some a"
    then have "a \<notin> set (gs_pins s)" using store_pinned(2) [OF ok] store_entry(2) [OF ok a] that(2) by auto
    with that a show "gs_active s \<noteq> Some a \<and> a \<notin> set (gs_pins s)" by auto
  qed
  have s1: "store_ok ?s1" using ok drop by (auto split: option.split)
  show ?thesis
  proof (cases "g \<in> R \<or> is_pinned s g")
    case True
    with s1 show ?thesis by (simp add: prune_one_def Let_def)
  next
    case False
    have notactive: "gs_active s \<noteq> Some a" if "map_of (gs_entries s) g = Some a" for a
      using R False store_entry(2) [OF ok that] by (auto simp: protects_def active_generation_id_def)
    have none: "map_of (gs_entries ?s1) g = None"
      using notactive False by (auto simp: drop_entry_def delete_conv' split: option.split)
    have "gs_roots ?s1 = gs_roots s" by (auto simp: drop_entry_def split: option.split)
    moreover have "\<And>r. r \<in> set (gs_roots ?s1) \<Longrightarrow> root_held (set (keys (gs_generations ?s1))) r"
      using s1 by (simp add: store_ok_def list_all_iff)
    ultimately have "store_ok (?s1\<lparr>gs_generations := AList.delete g (gs_generations ?s1)\<rparr>)"
      using R False by (intro delete_generation_ok [OF s1 none] root_held_diff [of _ _ R]) (auto simp: protects_def list_all_iff)
    then have "store_ok (drop_entry g (?s1\<lparr>gs_generations := AList.delete g (gs_generations ?s1)\<rparr>))"
      by (rule drop_entry_ok) (use none in simp)
    with False show ?thesis by (auto simp: prune_one_def Let_def split: option.splits)
  qed
qed

lemma prune_fold_ok: "store_ok s \<Longrightarrow> protects R s \<Longrightarrow> store_ok (fold (prune_one R) gs s)"
  by (induction gs arbitrary: s) (simp_all add: prune_one_ok)

lemma prune_cas_ok [simp]: "store_ok (prune_cas refs s) = store_ok s"
proof -
  have "store_ok (s\<lparr>gs_objects := ds\<rparr>) = store_ok s" for ds
    by (simp add: store_ok_def active_ok_def counted_def held_def [abs_def] entry_ok_def [abs_def] resident_vector_bytes_def entry_id_def [abs_def] cong: option.case_cong)
  then show ?thesis by (simp add: prune_cas_def Let_def)
qed

lemma prune_ok:
  assumes "store_ok s" "list_all (root_held (snd ` set roots)) (gs_roots s)"
  shows "store_ok (prune refs roots s)"
proof -
  have "root_held B r" if "root_held A r" "A \<subseteq> B" for A B r using that by (auto simp: root_held_def split: prod.splits sum.splits)
  then have "protects (retained_generations roots s) s"
    using assms(2) by (auto simp: protects_def retained_generations_def list_all_iff)
  with assms(1) show ?thesis by (simp add: prune_def prune_fold_ok)
qed

text \<open>The roots that were read cover every root file.\<close>

definition root_recorded :: "GenerationStore \<Rightarrow> (string, string) dict \<Rightarrow> string \<times> bytes \<Rightarrow> bool" where
  "root_recorded s acc = (\<lambda>(name, encoded). case read_generation_gc_root name encoded of Inl _ \<Rightarrow> False
     | Inr (w, g) \<Rightarrow> name = w @ ''.json'' \<and> map_of acc w = Some g \<and> g \<in> set (keys (gs_generations s)))"

lemma root_recorded_update:
  assumes "root_recorded s acc (name, c)" "name \<noteq> w @ ''.json''"
  shows "root_recorded s (AList.update w g acc) (name, c)"
  using assms by (auto simp: root_recorded_def update_conv' split: sum.splits prod.splits)

lemma durable_roots_cover:
  assumes roots: "durable_generation_roots s = Inr roots" and wf: "wf_dict (gs_roots s)"
  shows "list_all (root_held (snd ` set roots)) (gs_roots s)" "list_all (root_held (set (keys (gs_generations s)))) (gs_roots s)"
proof -
  have name: "name = w @ ''.json''" if "read_generation_gc_root name c = Inr (w, g)" for name c w g
    using that by (auto simp: read_generation_gc_root_def split: sum.splits json.splits option.splits)
  have dist: "distinct (map fst (sort_key fst (gs_roots s)))"
    using wf mset_eq_imp_distinct_iff [of "map fst (sort_key fst (gs_roots s))" "keys (gs_roots s)"] by simp
  have "list_all (root_recorded s roots) (sort_key fst (gs_roots s))"
  proof (rule rfold_prefix [OF roots [unfolded durable_generation_roots_def]], simp, goal_cases)
    case (1 ys x acc acc')
    obtain nm c where x: "x = (nm, c)" by (cases x)
    from 1(4) x obtain w g where w: "read_generation_gc_root nm c = Inr (w, g)" "g \<in> set (keys (gs_generations s))" "acc' = AList.update w g acc"
      by (auto simp: durable_root_def)
    from 1(3) dist x have new: "nm \<notin> set (map fst ys)" by force
    from 1(1) have "list_all (root_recorded s acc') ys"
      unfolding w(3) by (rule list.pred_mono_strong) (use new name [OF w(1)] in \<open>force intro: root_recorded_update\<close>)
    moreover have "root_recorded s acc' x" using w name [OF w(1)] by (simp add: root_recorded_def x update_conv')
    ultimately show ?case by simp
  qed
  then have "list_all (root_recorded s roots) (gs_roots s)" by (simp add: list_all_iff)
  then show "list_all (root_held (snd ` set roots)) (gs_roots s)" "list_all (root_held (set (keys (gs_generations s)))) (gs_roots s)"
    by (rule list.pred_mono_strong; force simp: root_recorded_def root_held_def split: sum.splits prod.splits dest: map_of_SomeD)+
qed

section \<open>Operations keep the invariant\<close>

lemmas run_simps = sbind_def read_state_def change_def lift_def raise_def ret_def durable_roots_def raise_if_def

lemma store_active: "store_ok s \<Longrightarrow> gs_active s = Some a \<Longrightarrow> held s a"
  by (simp add: store_ok_def active_ok_def)

lemma pin_ok: "store_ok s \<Longrightarrow> store_ok (snd (pin s))"
  by (auto simp: pin_def run_simps intro: enter_pin_ok store_active split: option.split)

lemma prune_locked_ok: "store_ok s \<Longrightarrow> store_ok (snd (prune_locked refs None s))"
  by (auto simp: prune_locked_def run_simps intro!: prune_ok durable_roots_cover(1) split: sum.split) (simp add: store_ok_def)

lemma unpin_ok: "store_ok s \<Longrightarrow> a \<in> set (gs_pins s) \<Longrightarrow> store_ok (snd (unpin refs a s))"
  using prune_locked_ok [OF exit_pin_ok] by (auto simp: unpin_def run_simps exit_pin_ok)

lemma pin_generation_ok: "store_ok s \<Longrightarrow> store_ok (snd (pin_generation load g s))"
proof -
  assume ok: "store_ok s"
  have old: "store_ok (enter_pin a s)" if "map_of (gs_entries s) g = Some a" for a
    using that store_entry(2) [OF ok that] by (intro enter_pin_ok [OF ok]) (simp add: held_def)
  have new: "store_ok (enter_pin (length (gs_heap s)) (add_entry \<lparr>gh_generation_id = g, gh_inside = True, gh_resident_vector_bytes = r\<rparr> s))"
    if "map_of (gs_entries s) g = None" "g \<in> set (keys (gs_generations s))" "resident_vector_bytes s + r \<le> gs_maximum_resident_vector_bytes s" for r
    using add_entry_ok [OF ok, of "\<lparr>gh_generation_id = g, gh_inside = True, gh_resident_vector_bytes = r\<rparr>"] that
    by (intro enter_pin_ok) (simp_all add: held_def)
  show ?thesis
    unfolding pin_generation_def using ok old new by (auto simp: run_simps not_less split: option.split)
qed

section \<open>The files that are written can be read\<close>

lemma safe_id_tail: "safe_id g \<Longrightarrow> list_all safe_tail g \<and> length g \<le> 128"
  by (cases g) (auto simp: safe_id_def safe_tail_def)

lemma gc_root_owner_tail: "gc_root_owner v \<Longrightarrow> list_all safe_tail v \<and> length v = 75"
proof -
  assume v: "gc_root_owner v"
  then have split: "v = ''map-reduce-'' @ drop 11 v" by (metis append_take_drop_id gc_root_owner_def)
  have d: "list_all is_hex (drop 11 v)" "length (drop 11 v) = 64" using v by (simp_all add: gc_root_owner_def sha256_hex_def)
  have "list_all safe_tail (drop 11 v)" using d(1) by (rule list.pred_mono_strong) (auto simp: safe_tail_def dest: is_hex_alnum)
  moreover have "list_all safe_tail ''map-reduce-''" by code_simp
  ultimately have "list_all safe_tail v" by (subst split) (simp only: list_all_append)
  moreover have "length v = 75" using d(2) by simp
  ultimately show ?thesis by simp
qed

lemma gc_root_roundtrip:
  assumes "gc_root_owner w" "safe_id g"
  shows "read_generation_gc_root (w @ ''.json'') (canonical_generation_gc_root (gc_root_payload w g)) = Inr (w, g)"
proof -
  let ?sorted = "[(''generation_id'', JStr g), (''owner_id'', JStr w), (''schema_version'', JStr generation_gc_root_schema)]"
  have sorted: "norm_json True (gc_root_payload w g) = JObj ?sorted"
    by (simp add: gc_root_payload_def key_order_def insort_key_def)
  have "loads (canonical_generation_gc_root (gc_root_payload w g)) = Inr (JObj ?sorted)"
    using loads_dumps_line [of "gc_root_payload w g" True] sorted by (simp add: canonical_generation_gc_root_def gc_root_payload_def)
  moreover have same: "dumps True (gc_root_payload w g) = dumps True (JObj ?sorted)"
    by (simp add: gc_root_payload_def key_order_def insort_key_def)
  moreover have "length (canonical_generation_gc_root (gc_root_payload w g)) \<le> 4096"
    unfolding canonical_generation_gc_root_def same
    using safe_id_tail [OF assms(2)] gc_root_owner_tail [OF assms(1)] escape_safe
    by (simp add: key_order_def insort_key_def json_quote_def generation_gc_root_schema_def) (simp add: escape_char_def)
  moreover have "set (keys ?sorted) = {''schema_version'', ''owner_id'', ''generation_id''}" by auto
  ultimately show ?thesis
    using assms by (auto simp: read_generation_gc_root_def canonical_generation_gc_root_def simp del: dumps.simps)
qed

lemma pointer_roundtrip: "safe_id g \<Longrightarrow> current_generation (PointerFile (pointer_bytes g)) = Some g"
proof -
  assume g: "safe_id g"
  let ?sorted = "[(''generation_id'', JStr g), (''schema_version'', JStr local_pointer_schema)]"
  have "norm_json True (pointer_payload g) = JObj ?sorted" by (simp add: pointer_payload_def key_order_def insort_key_def)
  then have "loads (pointer_bytes g) = Inr (JObj ?sorted)"
    using loads_dumps_line [of "pointer_payload g" True] by (simp add: pointer_bytes_def pointer_payload_def)
  then show ?thesis using g by (auto simp: current_generation_def py_str_def)
qed

section \<open>Roots and activation keep the invariant\<close>

lemma store_roots:
  assumes "store_ok s"
  shows "wf_dict (gs_roots s)" "list_all (root_held (set (keys (gs_generations s)))) (gs_roots s)"
  using assms by (simp_all add: store_ok_def)

lemma roots_change_ok:
  assumes "store_ok s" "wf_dict rs" "list_all (root_held (set (keys (gs_generations s)))) rs"
  shows "store_ok (s\<lparr>gs_roots := rs\<rparr>)"
proof -
  let ?t = "s\<lparr>gs_roots := rs\<rparr>"
  have "entry_id ?t = entry_id s" by (simp add: entry_id_def fun_eq_iff)
  then have "held ?t = held s" "entry_ok ?t = entry_ok s" "counted ?t = counted s" "active_ok ?t = active_ok s"
    "resident_vector_bytes ?t = resident_vector_bytes s"
    by (auto simp: held_def entry_ok_def counted_def active_ok_def resident_vector_bytes_def fun_eq_iff split: option.splits)
  with assms show ?thesis by (simp add: store_ok_def)
qed

lemma acquire_gc_root_locked_ok:
  assumes ok: "store_ok s" and w: "gc_root_owner w" "safe_id g"
  shows "store_ok (snd (acquire_gc_root_locked quota usage w g roots s))"
proof -
  have "store_ok (s\<lparr>gs_roots := AList.update (w @ ''.json'') (canonical_generation_gc_root (gc_root_payload w g)) (gs_roots s)\<rparr>)"
    if "g \<in> set (keys (gs_generations s))" "map_of (gs_roots s) (w @ ''.json'') = None"
    using that store_roots [OF ok] gc_root_roundtrip [OF w]
    by (intro roots_change_ok [OF ok] distinct_update)
      (auto simp: update_fresh map_of_eq_None_iff root_held_def)
  with ok show ?thesis
    by (auto simp: acquire_gc_root_locked_def Let_def run_simps split: option.split sum.splits prod.split)
qed

lemma acquire_generation_gc_root_ok: "store_ok s \<Longrightarrow> store_ok (snd (acquire_generation_gc_root quota usage w g s))"
  by (auto simp: acquire_generation_gc_root_def run_simps acquire_gc_root_locked_ok split: sum.split)

lemma durable_current_safe: "durable_current_generation_id s = Inr g \<Longrightarrow> safe_id g \<and> g \<in> set (keys (gs_generations s))"
  by (auto simp: durable_current_generation_id_def raise_if_def split: pointer_file.splits sum.splits json.splits option.splits if_splits)

lemma state_of_ret: "snd (case r of (Inl e, s') \<Rightarrow> (Inl e, s') | (Inr x, s') \<Rightarrow> ret v s') = snd r"
  by (auto simp: ret_def split: prod.split sum.split)

lemma claim_current_generation_gc_root_ok:
  "store_ok s \<Longrightarrow> store_ok (snd (claim_current_generation_gc_root quota usage owner_for s))"
  using acquire_gc_root_locked_ok [of s "owner_for g" g quota usage roots for g roots]
  by (auto simp: claim_current_generation_gc_root_def run_simps Let_def state_of_ret dest: durable_current_safe
      split: sum.splits list.split)

lemma release_generation_gc_root_ok: "store_ok s \<Longrightarrow> store_ok (snd (release_generation_gc_root w g s))"
proof -
  assume ok: "store_ok s"
  have "store_ok (s\<lparr>gs_roots := AList.delete k (gs_roots s)\<rparr>)" for k
    using store_roots [OF ok] by (intro roots_change_ok [OF ok]) (simp_all add: distinct_delete, simp add: list_all_iff AList.delete_eq)
  with ok show ?thesis by (auto simp: release_generation_gc_root_def run_simps split: option.split sum.split)
qed

definition point_at :: "string \<Rightarrow> nat \<Rightarrow> GenerationStore \<Rightarrow> GenerationStore" where
  "point_at g a s = s\<lparr>gs_current := PointerFile (pointer_bytes g), gs_active := Some a\<rparr>"

lemma point_at_ok: "store_ok s \<Longrightarrow> map_of (gs_entries s) g = Some a \<Longrightarrow> safe_id g \<Longrightarrow> store_ok (point_at g a s)"
  using activate_entry_ok [of s a "PointerFile (pointer_bytes g)"] store_entry(2) [of s g a]
  by (simp add: point_at_def held_def pointer_roundtrip)

text \<open>The state in which \<open>activate\<close> ends: unchanged when it raises, else pruned around the entry it points at.\<close>

definition entry_of :: "GenerationHandle \<Rightarrow> GenerationStore \<Rightarrow> nat \<times> GenerationStore" where
  "entry_of h s = (case map_of (gs_entries s) (gh_generation_id h) of Some a \<Rightarrow> (a, s) | None \<Rightarrow> (length (gs_heap s), add_entry h s))"

lemma entry_of_ok:
  assumes ok: "store_ok s" and g: "gh_generation_id h \<in> set (keys (gs_generations s))"
    and fits: "map_of (gs_entries s) (gh_generation_id h) = None \<Longrightarrow>
      resident_vector_bytes s + gh_resident_vector_bytes h \<le> gs_maximum_resident_vector_bytes s"
    and u: "entry_of h s = (a, u)"
  shows "store_ok u" "map_of (gs_entries u) (gh_generation_id h) = Some a" "gs_roots u = gs_roots s"
    "gs_generations u = gs_generations s" "gs_pins u = gs_pins s" "gs_retention u = gs_retention s" "gs_objects u = gs_objects s"
  using u ok add_entry_ok [OF ok _ g fits] by (auto simp: entry_of_def add_entry_def split: option.splits)

lemma activate_result:
  assumes run: "activate quota refs h s = (r, t)"
  shows "(\<exists>x. r = Inl x \<and> t = s) \<or>
    (\<exists>roots. r = Inr () \<and> durable_generation_roots s = Inr roots
      \<and> (map_of (gs_entries s) (gh_generation_id h) = None \<longrightarrow>
          resident_vector_bytes s + gh_resident_vector_bytes h \<le> gs_maximum_resident_vector_bytes s)
      \<and> t = prune refs roots (case entry_of h s of (a, u) \<Rightarrow> point_at (gh_generation_id h) a u))"
proof (cases "map_of (gs_entries s) (gh_generation_id h)")
  case None
  have drop: "drop_entry (gh_generation_id h) s = s" using None by (simp add: drop_entry_def delete_idem map_of_eq_None_iff)
  have e: "(add_entry h (s\<lparr>gs_current := p\<rparr>))\<lparr>gs_active := x\<rparr> = (add_entry h s)\<lparr>gs_current := p, gs_active := x\<rparr>" for p x
    by (simp add: add_entry_def)
  show ?thesis using run None
    by (auto simp: activate_def Let_def run_simps prune_locked_def point_at_def entry_of_def drop not_less e split: sum.splits pointer_file.splits if_splits)
      (metis Inl_Inr_False)+
next
  case (Some a)
  then show ?thesis using run
    by (auto simp: activate_def Let_def run_simps prune_locked_def point_at_def entry_of_def split: sum.splits pointer_file.splits if_splits)
qed

lemma activate_ok:
  assumes ok: "store_ok s" and g: "gh_generation_id h \<in> set (keys (gs_generations s))" "safe_id (gh_generation_id h)"
  shows "store_ok (snd (activate quota refs h s))"
proof -
  obtain r t where t: "activate quota refs h s = (r, t)" by fastforce
  obtain a u where u: "entry_of h s = (a, u)" by fastforce
  show ?thesis using activate_result [OF t]
  proof (elim disjE exE conjE)
    fix roots
    assume roots: "durable_generation_roots s = Inr roots" and fits: "map_of (gs_entries s) (gh_generation_id h) = None \<longrightarrow>
          resident_vector_bytes s + gh_resident_vector_bytes h \<le> gs_maximum_resident_vector_bytes s"
      and end_state: "t = prune refs roots (case entry_of h s of (a, u) \<Rightarrow> point_at (gh_generation_id h) a u)"
    note e = entry_of_ok [OF ok g(1) mp [OF fits] u]
    have "list_all (root_held (snd ` set roots)) (gs_roots u)"
      using durable_roots_cover(1) [OF roots store_roots(1) [OF ok]] e(3) by simp
    then show ?thesis
      using prune_ok [OF point_at_ok [OF e(1,2) g(2)], of roots refs] end_state u t by (simp add: point_at_def)
  qed (simp add: ok t)
qed

section \<open>Runs of the store\<close>

text \<open>
  What may happen between two operations: the updater renames a verified directory into place (\<open>Install\<close>) and the process
  may be replaced by a new one, which forgets the table and its pins and calls \<open>load_current\<close> (\<open>Restart\<close>).  An operation is
  enabled when its caller may call it: an exit follows its entry, a directory that is installed is new, and the handle
  that is activated was validated on a directory that is still there.
\<close>

datatype store_event =
    Pin | Unpin nat | PinGeneration string
  | Install string int | Activate GenerationHandle | Restart
  | AcquireRoot string string | ClaimRoot "string \<Rightarrow> string" | ReleaseRoot string string

record store_env =
  env_quota :: quota
  env_audit_usage :: "string \<Rightarrow> int \<times> int"
  env_databases :: databases

definition fresh_process :: "GenerationStore \<Rightarrow> GenerationStore" where
  "fresh_process s = s\<lparr>gs_heap := [], gs_entries := [], gs_active := None, gs_pins := []\<rparr>"

definition install :: "string \<Rightarrow> int \<Rightarrow> GenerationStore \<Rightarrow> GenerationStore" where
  "install g mtime s = s\<lparr>gs_generations := AList.update g mtime (gs_generations s)\<rparr>"

fun apply_event :: "store_env \<Rightarrow> store_event \<Rightarrow> GenerationStore \<Rightarrow> GenerationStore" where
  "apply_event env Pin s = snd (pin s)"
| "apply_event env (Unpin a) s = snd (unpin (database_pdfs (env_databases env)) a s)"
| "apply_event env (PinGeneration g) s = snd (pin_generation (load_and_verify (env_databases env)) g s)"
| "apply_event env (Install g mtime) s = install g mtime s"
| "apply_event env (Activate h) s = snd (activate (env_quota env) (database_pdfs (env_databases env)) h s)"
| "apply_event env Restart s = snd (load_current (load_and_verify (env_databases env)) (fresh_process s))"
| "apply_event env (AcquireRoot w g) s = snd (acquire_generation_gc_root (env_quota env) (env_audit_usage env) w g s)"
| "apply_event env (ClaimRoot f) s = snd (claim_current_generation_gc_root (env_quota env) (env_audit_usage env) f s)"
| "apply_event env (ReleaseRoot w g) s = snd (release_generation_gc_root w g s)"

fun enabled :: "store_event \<Rightarrow> GenerationStore \<Rightarrow> bool" where
  "enabled (Unpin a) s = (a \<in> set (gs_pins s))"
| "enabled (Install g _) s = (safe_id g \<and> g \<notin> set (keys (gs_generations s)))"
| "enabled (Activate h) s = (safe_id (gh_generation_id h) \<and> gh_generation_id h \<in> set (keys (gs_generations s)))"
| "enabled _ s = True"

inductive store_step :: "store_env \<Rightarrow> GenerationStore \<Rightarrow> GenerationStore \<Rightarrow> bool" for env where
  "enabled e s \<Longrightarrow> store_step env s (apply_event env e s)"

definition empty_store :: "GenerationStore \<Rightarrow> bool" where
  "empty_store s \<longleftrightarrow> gs_heap s = [] \<and> gs_entries s = [] \<and> gs_active s = None \<and> gs_pins s = [] \<and> gs_roots s = []"

lemma empty_store_ok: "empty_store s \<Longrightarrow> store_ok s"
  by (simp add: empty_store_def store_ok_def active_ok_def counted_def resident_vector_bytes_def)

lemma fresh_process_ok: "store_ok s \<Longrightarrow> store_ok (fresh_process s)"
  by (simp add: fresh_process_def store_ok_def active_ok_def counted_def resident_vector_bytes_def)

lemma install_ok:
  assumes ok: "store_ok s" and new: "g \<notin> set (keys (gs_generations s))"
  shows "store_ok (install g m s)"
proof -
  let ?t = "install g m s"
  have gens: "gs_generations ?t = gs_generations s @ [(g, m)]" using new by (simp add: install_def update_fresh)
  have same: "entry_id ?t b = entry_id s b" "counted ?t = counted s" "resident_vector_bytes ?t = resident_vector_bytes s"
    "held ?t = held s" "active_ok ?t = active_ok s" for b
    by (auto simp: install_def entry_id_def counted_def resident_vector_bytes_def held_def active_ok_def fun_eq_iff split: option.splits)
  have rest: "gs_entries ?t = gs_entries s" "gs_roots ?t = gs_roots s" "gs_pins ?t = gs_pins s" "gs_heap ?t = gs_heap s"
    "gs_maximum_resident_vector_bytes ?t = gs_maximum_resident_vector_bytes s" by (simp_all add: install_def)
  have "list_all (entry_ok s) (gs_entries s)" using ok by (simp add: store_ok_def)
  then have "list_all (entry_ok ?t) (gs_entries s)"
    by (rule list.pred_mono_strong) (auto simp: entry_ok_def same rest gens)
  moreover have "list_all (root_held (set (keys (gs_generations ?t)))) (gs_roots s)"
    using store_roots(2) [OF ok] by (rule list.pred_mono_strong) (auto simp: root_held_def gens split: prod.splits sum.splits)
  ultimately show ?thesis using ok by (simp add: store_ok_def same rest)
qed

lemma load_fits: "load_and_verify dbs s g = Some r \<Longrightarrow> r \<le> gs_maximum_resident_vector_bytes s"
  by (auto simp: load_and_verify_def load_generation_handle_def raise_if_def rbind_def split: sum.splits option.splits if_splits)

lemma load_current_ok:
  assumes ok: "store_ok s" and fresh: "gs_entries s = []"
  shows "store_ok (snd (load_current (load_and_verify dbs) s))"
proof -
  have "store_ok ((add_entry \<lparr>gh_generation_id = g, gh_inside = True, gh_resident_vector_bytes = r\<rparr> s)\<lparr>gs_active := Some (length (gs_heap s))\<rparr>)"
    if g: "current_generation (gs_current s) = Some g" "g \<in> set (keys (gs_generations s))" "load_and_verify dbs s g = Some r" for g r
  proof -
    let ?u = "add_entry \<lparr>gh_generation_id = g, gh_inside = True, gh_resident_vector_bytes = r\<rparr> s"
    have "store_ok ?u" "held ?u (length (gs_heap s))" "entry_id ?u (length (gs_heap s)) = g"
      using add_entry_ok [OF ok, of "\<lparr>gh_generation_id = g, gh_inside = True, gh_resident_vector_bytes = r\<rparr>"] g(2) load_fits [OF g(3)] fresh
      by (simp_all add: resident_vector_bytes_def held_def)
    moreover have "gs_current ?u = gs_current s" by (simp add: add_entry_def)
    ultimately show ?thesis
      using activate_entry_ok [of ?u "length (gs_heap s)" "gs_current s"] g(1) by (simp add: add_entry_def)
  qed
  with ok show ?thesis by (auto simp: load_current_def run_simps split: option.split)
qed

lemma restart_ok: "store_ok s \<Longrightarrow> store_ok (snd (load_current (load_and_verify dbs) (fresh_process s)))"
  by (rule load_current_ok [OF fresh_process_ok]) (simp_all add: fresh_process_def)

lemma apply_event_ok: "store_ok s \<Longrightarrow> enabled e s \<Longrightarrow> store_ok (apply_event env e s)"
  by (cases e) (simp_all add: pin_ok unpin_ok pin_generation_ok install_ok activate_ok acquire_generation_gc_root_ok
    claim_current_generation_gc_root_ok release_generation_gc_root_ok restart_ok)

interpretation serving: inv_system empty_store "store_step env" store_ok
  by unfold_locales (auto simp: empty_store_ok apply_event_ok elim: store_step.cases)

section \<open>What a prune leaves\<close>

lemma prune_one_pinned [simp]: "is_pinned (prune_one R h s) g = is_pinned s g"
  by (auto simp: is_pinned_def prune_one_def Let_def drop_entry_def delete_conv' split: option.splits)

lemma prune_one_generations:
  "gs_generations (prune_one R h s) = filter (\<lambda>(g, _). g \<noteq> h \<or> g \<in> R \<or> is_pinned s g) (gs_generations s)"
proof -
  have "filter (\<lambda>(g, _). g \<noteq> h \<or> h \<in> R \<or> is_pinned s h) d = filter (\<lambda>(g, _). g \<noteq> h \<or> g \<in> R \<or> is_pinned s g) d" for d :: "(string, int) dict"
    by (auto intro: filter_cong)
  moreover have "filter (\<lambda>(k', _). h \<noteq> k') d = filter (\<lambda>(g, _). g \<noteq> h) d" for d :: "(string, int) dict" by (auto intro: filter_cong)
  ultimately show ?thesis
    by (auto simp: prune_one_def Let_def drop_entry_def AList.delete_eq split: option.splits)
qed

lemma prune_fold_generations:
  "gs_generations (fold (prune_one R) gs s) = filter (\<lambda>(g, _). g \<notin> set gs \<or> g \<in> R \<or> is_pinned s g) (gs_generations s)"
proof (induction gs arbitrary: s)
  case (Cons h gs)
  show ?case by (auto simp: Cons.IH prune_one_generations intro: filter_cong)
qed (auto simp: filter_True)

lemma prune_fold_objects [simp]: "gs_objects (fold (prune_one R) gs s) = gs_objects s"
  by (induction gs arbitrary: s) simp_all

lemma newest_set: "set (newest_generations s) = {g \<in> set (keys (gs_generations s)). safe_id g}"
  by (force simp: newest_generations_def)

lemma prune_cas_fields [simp]: "gs_generations (prune_cas refs s) = gs_generations s" "gs_current (prune_cas refs s) = gs_current s"
  by (simp_all add: prune_cas_def Let_def)

lemma prune_generations:
  "gs_generations (prune refs roots s) =
     filter (\<lambda>(g, _). if safe_id g then g \<in> set (take (gs_retention s) (newest_generations s))
       \<or> active_generation_id s = Some g \<or> g \<in> set (map snd roots) \<or> is_pinned s g else True) (gs_generations s)"
  by (force simp: prune_def prune_fold_generations retained_generations_def newest_set intro!: filter_cong)


lemma pdf_kept:
  assumes "\<And>d. d \<in> pr_sha256 ` set rows \<Longrightarrow> map_of objects' d = map_of objects d"
  shows "rfold (\<lambda>_ row. verify_pdf_for_handle m objects' row) () rows = rfold (\<lambda>_ row. verify_pdf_for_handle m objects row) () rows"
  using assms by (induction rows) (simp_all add: verify_pdf_for_handle_def rbind_def)

lemma map_of_filter_keep: "P k \<Longrightarrow> map_of (filter (\<lambda>(k, _). P k) d) k = map_of d k"
  by (induction d) auto

lemma handle_rows_referenced:
  assumes "dbs g = Some d" "x \<in> set (handle_rows d)"
  shows "pr_sha256 x \<in> set (the (database_pdfs dbs g))"
proof -
  have "set (handle_rows d) \<subseteq> set (sd_documents d @ (case sd_failed d of None \<Rightarrow> [] | Some rows \<Rightarrow> rows))"
    unfolding handle_rows_def set_append by (intro Un_mono order_refl) (simp only: if_distrib [of set] split: if_split, simp)
  with assms(2) have "pr_sha256 x \<in> pr_sha256 ` set (sd_documents d @ (case sd_failed d of None \<Rightarrow> [] | Some rows \<Rightarrow> rows))" by blast
  with assms(1) show ?thesis by (simp only: database_pdfs_def option.map option.sel set_map)
qed

lemma prune_verifies:
  assumes "g \<in> set (keys (gs_generations (prune (database_pdfs dbs) roots s)))" "safe_id g" "dbs g = Some d"
  shows "verify_handle_pdfs m (gs_objects (prune (database_pdfs dbs) roots s)) d = verify_handle_pdfs m (gs_objects s) d"
proof -
  let ?t = "fold (prune_one (retained_generations roots s)) (newest_generations s) s"
  let ?gens = "filter safe_id (keys (gs_generations ?t))"
  have "map_of (gs_objects (prune (database_pdfs dbs) roots s)) e = map_of (gs_objects s) e" if "e \<in> pr_sha256 ` set (handle_rows d)" for e
  proof -
    have "list_ex (\<lambda>g. e \<in> set (the (database_pdfs dbs g))) ?gens"
      using assms that handle_rows_referenced [of dbs g d] by (auto simp: list_ex_iff prune_def intro!: bexI [of _ g])
    then show ?thesis
      by (simp add: prune_def prune_cas_def Let_def map_of_filter_keep [of "\<lambda>d. sha256_hex d \<longrightarrow> list_ex (\<lambda>g. d \<in> set (the (database_pdfs dbs g))) ?gens"])
  qed
  then show ?thesis unfolding verify_handle_pdfs_def by (rule pdf_kept)
qed

text \<open>
  C20.  Pruning never breaks a generation it leaves: the PDF check of a remaining generation gives the same result
  before and after.
\<close>

theorem prune_keeps_pdfs:
  assumes "g \<in> set (keys (gs_generations (prune (database_pdfs dbs) roots s)))" "safe_id g" "dbs g = Some d"
  shows "verify_handle_pdfs m (gs_objects (prune (database_pdfs dbs) roots s)) d = verify_handle_pdfs m (gs_objects s) d"
  using assms by (rule prune_verifies)

section \<open>What every run keeps\<close>

text \<open>
  C21.  The store stays well-formed: every operation that its caller may call, on every branch and with every answer of the
  databases and the quota, keeps the handle table, the pins, the roots and the pointer referring to generations that exist, the
  reference counts exact and the resident memory within its limit.
\<close>

theorem store_operations_well_formed:
  assumes "store_ok s" "enabled e s"
  shows "store_ok (apply_event env e s)"
  using assms by (rule apply_event_ok)

lemma rfold_total:
  "list_all (\<lambda>x. \<forall>acc. \<exists>acc'. f acc x = Inr acc') xs \<Longrightarrow> \<exists>acc'. rfold f acc xs = Inr acc'"
proof (induction xs arbitrary: acc)
  case (Cons x xs)
  then obtain b where b: "f acc x = Inr b" by fastforce
  from Cons obtain c where "rfold f b xs = Inr c" by auto
  with b show ?case by simp
qed simp

lemma durable_roots_total:
  assumes "store_ok s"
  obtains roots where "durable_generation_roots s = Inr roots"
proof -
  have "list_all (\<lambda>x. \<forall>acc. \<exists>acc'. durable_root s acc x = Inr acc') (gs_roots s)"
    using store_roots(2) [OF assms]
    by (rule list.pred_mono_strong) (auto simp: root_held_def durable_root_def raise_if_def split: prod.splits sum.splits)
  then have "list_all (\<lambda>x. \<forall>acc. \<exists>acc'. durable_root s acc x = Inr acc') (sort_key fst (gs_roots s))" by (simp add: list_all_iff)
  from rfold_total [OF this] that show ?thesis unfolding durable_generation_roots_def by blast
qed

lemma update_vals: "set (map snd (AList.update k v d)) \<subseteq> insert v (set (map snd d))"
  by (induction d) auto

lemma root_values_there:
  assumes "rfold (durable_root s) acc xs = Inr roots" "set (map snd acc) \<subseteq> A" "set (keys (gs_generations s)) \<subseteq> A"
  shows "set (map snd roots) \<subseteq> A"
  using assms
proof (induction xs arbitrary: acc)
  case (Cons x xs)
  obtain name c where x: "x = (name, c)" by (cases x)
  from Cons.prems(1) obtain acc' where a: "durable_root s acc x = Inr acc'" "rfold (durable_root s) acc' xs = Inr roots" by auto
  from a(1) obtain w g where "g \<in> set (keys (gs_generations s))" "acc' = AList.update w g acc" by (auto simp: durable_root_def x)
  with a(2) have "g \<in> set (keys (gs_generations s))" "rfold (durable_root s) (AList.update w g acc) xs = Inr roots" by simp_all
  moreover from this have "set (map snd (AList.update w g acc)) \<subseteq> A" using update_vals [of w g acc] Cons.prems(2,3) by blast
  ultimately show ?case using Cons.IH Cons.prems(3) by blast
qed auto


section \<open>Restart\<close>

lemma load_after_prune:
  assumes "load_and_verify dbs s g = Some r" "safe_id g"
    and t: "t = prune (database_pdfs dbs) roots u" and g: "g \<in> set (keys (gs_generations t))"
    and same: "gs_objects u = gs_objects s" "gs_maximum_database_bytes t = gs_maximum_database_bytes s"
      "gs_maximum_resident_vector_bytes t = gs_maximum_resident_vector_bytes s" "gs_maximum_pdf_bytes t = gs_maximum_pdf_bytes s"
  shows "load_and_verify dbs t g = Some r"
proof -
  obtain d where d: "dbs g = Some d"
    using assms(1) by (auto simp: load_and_verify_def load_generation_handle_def rbind_def split: sum.splits option.splits)
  have "verify_handle_pdfs m (gs_objects t) d = verify_handle_pdfs m (gs_objects s) d" for m
    using prune_verifies [of g dbs roots u d m] g t same(1) assms(2) d by simp
  with assms(1) d same show ?thesis by (auto simp: load_and_verify_def split: sum.splits)
qed

lemma prune_fold_fields:
  "gs_current (fold (prune_one R) gs s) = gs_current s" "gs_maximum_database_bytes (fold (prune_one R) gs s) = gs_maximum_database_bytes s"
  "gs_maximum_resident_vector_bytes (fold (prune_one R) gs s) = gs_maximum_resident_vector_bytes s"
  "gs_maximum_pdf_bytes (fold (prune_one R) gs s) = gs_maximum_pdf_bytes s"
  by (induction gs arbitrary: s) (simp_all add: prune_one_def Let_def drop_entry_def split: option.split)

lemma prune_fields [simp]:
  "gs_current (prune refs roots s) = gs_current s" "gs_maximum_database_bytes (prune refs roots s) = gs_maximum_database_bytes s"
  "gs_maximum_resident_vector_bytes (prune refs roots s) = gs_maximum_resident_vector_bytes s"
  "gs_maximum_pdf_bytes (prune refs roots s) = gs_maximum_pdf_bytes s"
  by (simp_all add: prune_def prune_cas_def Let_def prune_fold_fields)

lemma entry_of_fields:
  "entry_of h s = (a, u) \<Longrightarrow> gs_objects u = gs_objects s \<and> gs_maximum_database_bytes u = gs_maximum_database_bytes s
     \<and> gs_maximum_resident_vector_bytes u = gs_maximum_resident_vector_bytes s \<and> gs_maximum_pdf_bytes u = gs_maximum_pdf_bytes s"
  by (auto simp: entry_of_def add_entry_def split: option.splits)


section \<open>Concrete runs\<close>

definition run_events :: "store_env \<Rightarrow> store_event list \<Rightarrow> GenerationStore \<Rightarrow> GenerationStore" where
  "run_events env = fold (apply_event env)"

fun all_enabled :: "store_env \<Rightarrow> store_event list \<Rightarrow> GenerationStore \<Rightarrow> bool" where
  "all_enabled env [] s = True"
| "all_enabled env (e # es) s = (enabled e s \<and> all_enabled env es (apply_event env e s))"

lemma run_steps: "all_enabled env es s \<Longrightarrow> (store_step env)\<^sup>*\<^sup>* s (run_events env es s)"
  by (induction es arbitrary: s) (auto simp: run_events_def intro: store_step.intros converse_rtranclp_into_rtranclp)

definition sample_store :: GenerationStore where
  "sample_store = \<lparr>gs_retention = 2, gs_maximum_resident_vector_bytes = 1000, gs_maximum_database_bytes = 1000, gs_maximum_pdf_bytes = 1000,
     gs_audit_max_total_bytes = 100000, gs_audit_max_jobs = 10, gs_heap = [], gs_entries = [], gs_active = None, gs_current = NoPointer,
     gs_generations = [], gs_roots = [], gs_objects = [(replicate 64 (CHR ''0''), ''x'')], gs_pins = []\<rparr>"

definition sample_databases :: databases where
  "sample_databases g = (if g \<in> {''a'', ''b'', ''c'', ''d''}
     then Some \<lparr>sd_size = 10, sd_schema_check = Inr (), sd_schema_id = ''cardrag.serving-db.v5'', sd_generation_id = g, sd_embedding_model = ''m'',
       sd_embedding_count = 3, sd_embedding_dimension = 4, sd_vector_check = Inr (), sd_documents = [], sd_failed = Some []\<rparr> else None)"

definition sample_env :: store_env where
  "sample_env = \<lparr>env_quota = \<lambda>_ _. Inr (), env_audit_usage = \<lambda>_. (0, 1), env_databases = sample_databases\<rparr>"

definition sample_handle :: "string \<Rightarrow> GenerationHandle" where
  "sample_handle g = \<lparr>gh_generation_id = g, gh_inside = True, gh_resident_vector_bytes = 12\<rparr>"

definition sample_owner :: string where
  "sample_owner = ''map-reduce-'' @ replicate 64 (CHR ''0'')"

definition sample_run :: "store_event list" where
  "sample_run = [Install ''a'' 1, Activate (sample_handle ''a''), Pin, Install ''b'' 2, Activate (sample_handle ''b''), Unpin 0,
     AcquireRoot sample_owner ''a'']"

lemma sample_reached: "empty_store sample_store" "(store_step sample_env)\<^sup>*\<^sup>* sample_store (run_events sample_env sample_run sample_store)"
proof -
  show "empty_store sample_store" by code_simp
  show "(store_step sample_env)\<^sup>*\<^sup>* sample_store (run_events sample_env sample_run sample_store)"
    by (rule run_steps) code_simp
qed

lemma sample_active: "active_generation_id (run_events sample_env sample_run sample_store) = Some ''b''"
  by code_simp

theorem store_operations_well_formed_witness:
  "store_ok (apply_event sample_env (Install ''e'' 5) sample_store)"
  by (rule store_operations_well_formed [OF empty_store_ok [OF sample_reached(1)]]) code_simp


theorem prune_keeps_pdfs_witness:
  "verify_handle_pdfs 9 (gs_objects (prune (database_pdfs sample_databases) [] (install ''a'' 1 sample_store))) (the (sample_databases ''a''))
     = verify_handle_pdfs 9 (gs_objects (install ''a'' 1 sample_store)) (the (sample_databases ''a''))"
proof (rule prune_keeps_pdfs)
  show "''a'' \<in> set (keys (gs_generations (prune (database_pdfs sample_databases) [] (install ''a'' 1 sample_store))))" by code_simp
  show "safe_id ''a''" by code_simp
  show "sample_databases ''a'' = Some (the (sample_databases ''a''))" by (simp add: sample_databases_def)
qed


text \<open>
  Why \<open>enabled\<close> asks for the directory.  \<open>activate\<close> itself never looks at it, and the updater validates a directory, awaits
  the repair of its PDFs and activates: a request that ends in between prunes a directory that only its pin kept, and
  the pointer and the active handle then name a generation that is gone.
\<close>

definition stale_prefix :: "store_event list" where
  "stale_prefix = [Install ''a'' 1, Activate (sample_handle ''a''), Pin, Install ''b'' 2, Activate (sample_handle ''b''),
     Install ''c'' 3, Activate (sample_handle ''c'')]"

definition serving_view :: "GenerationStore \<Rightarrow> string option \<times> string option \<times> string list" where
  "serving_view t = (active_generation_id t, current_generation (gs_current t), keys (gs_generations t))"

lemma stale_prefix_enabled: "all_enabled sample_env (stale_prefix @ [Activate (sample_handle ''a'')]) sample_store"
  by code_simp

lemma activate_after_prune:
  "serving_view (run_events sample_env (stale_prefix @ [Unpin 0, Activate (sample_handle ''a'')]) sample_store) = (Some ''a'', Some ''a'', [''b'', ''c''])"
  by code_simp

end
