(* ===== verification/Updater.thy ===== *)
theory Updater
  imports GenStore Manifests
begin

text \<open>
  \<open>cardrag_mcp/updater.py\<close>: \<open>WebDAVUpdater\<close> follows the stable channel.  One poll reads the remote generation, checks its
  manifest against the contract and the storage limits, downloads and verifies what is missing and activates the
  generation in the local store.

  Parameters are the artifact reader (\<open>up_read\<close>, \<open>up_database\<close>, \<open>up_sidecar\<close>, \<open>up_object\<close>), SQLite (\<open>up_open\<close>: what a
  database file and its sidecar contain), pydantic and the quota ledger.  While the updater waits, requests go on:
  \<open>up_requests k\<close> are the operations that other threads complete at the \<open>k\<close>-th wait.
\<close>

section \<open>The remote generation\<close>

record RemoteArtifact =
  rx_path :: string
  rx_sha256 :: string
  rx_size_bytes :: int
  rx_media_type :: string

record RemoteDocument =
  rd_document_id :: string
  rd_issuer :: string
  rd_page_count :: int
  rd_pdf :: RemoteArtifact
  rd_ocr_sha256 :: "string option"
  rd_availability :: string
  rd_failure_reason_code :: "string option"
  rd_failure_reason :: "string option"
  rd_failure_attempts :: "int option"

record RemoteGeneration =
  rg_generation_id :: string
  rg_serving_schema :: string
  rg_corpus_sha256 :: string
  rg_contract_sha256 :: string
  rg_database :: RemoteArtifact
  rg_documents :: "RemoteDocument list"
  rg_issuer_codes :: "string list"
  rg_document_count :: int
  rg_pdf_object_count :: int
  rg_ocr_object_count :: int
  rg_chunk_count :: int
  rg_embedding_provider :: string
  rg_embedding_model :: string
  rg_embedding_dimension :: int
  rg_embedding_count :: int
  rg_issuer_ocr_counts :: "(string \<times> int \<times> int \<times> int) list"
  rg_vector_sidecar :: "RemoteArtifact option"
  rg_structure_contract :: "StructureContract option"
  rg_embedding_profiles :: "EmbeddingProfile list"
  rg_primary_embedding_profile_id :: "string option"
  rg_embedding_view_counts :: "EmbeddingViewCount list"
  rg_vector_sidecar_contract :: "EmbeddingVectorSidecar option"
  rg_parser_policy_sha256 :: "string option"
  rg_embedding_policy_sha256 :: "string option"
  rg_retrieval_policy_sha256 :: "string option"
  rg_document_aggregation_profile :: "DocumentAggregationProfile option"
  rg_document_aggregation_policy :: "string option"
  rg_sealed_profile_sha256 :: "string option"
  rg_exact_row_corpus_sha256 :: "string option"

definition schema_embedding_dimensions :: "(string, int) dict" where
  "schema_embedding_dimensions =
     [(''cardrag.serving-db.v2'', 1536), (''cardrag.serving-db.v3'', 1536), (''cardrag.serving-db.v4'', 1536),
      (''cardrag.serving-db.v5'', 4096), (''cardrag.serving-db.v6'', 4096)]"

definition available :: "RemoteDocument \<Rightarrow> bool" where
  "available d \<longleftrightarrow> rd_availability d = ''available''"

definition count_if :: "('a \<Rightarrow> bool) \<Rightarrow> 'a list \<Rightarrow> int" where
  "count_if p xs = int (length (filter p xs))"

definition distinct_count :: "'a list \<Rightarrow> int" where
  "distinct_count xs = int (length (remdups xs))"

section \<open>The manifest contract\<close>

definition check_declared_counts :: "RemoteGeneration \<Rightarrow> unit result" where
  "check_declared_counts g =
     raise_if (list_ex (\<lambda>v. v < 0) [rg_document_count g, rg_pdf_object_count g, rg_ocr_object_count g, rg_chunk_count g, rg_embedding_count g])
       (RuntimeError ''generation manifest contains an invalid count'')"

definition check_schema_dimension :: "RemoteGeneration \<Rightarrow> unit result" where
  "check_schema_dimension g =
     (case map_of schema_embedding_dimensions (rg_serving_schema g) of
        None \<Rightarrow> Inl (RuntimeError ''generation serving schema is unsupported'')
      | Some dimension \<Rightarrow> raise_if (rg_embedding_dimension g \<noteq> dimension)
          (RuntimeError ''generation embedding dimension does not match its serving schema''))"

definition check_database_artifact :: "RemoteGeneration \<Rightarrow> unit result" where
  "check_database_artifact g =
     (let d = rg_database g in
      rbind (generation_database_path (rg_generation_id g)) (\<lambda>path.
      raise_if (rx_path d \<noteq> as_posix path \<or> rx_media_type d \<noteq> ''application/vnd.sqlite3'' \<or> \<not> sha256_hex (rx_sha256 d)
          \<or> rx_size_bytes d < 1 \<or> max_safe_bytes < rx_size_bytes d)
        (RuntimeError ''generation serving database artifact is invalid'')))"

definition check_sidecar_artifact :: "RemoteGeneration \<Rightarrow> RemoteArtifact \<Rightarrow> unit result" where
  "check_sidecar_artifact g sidecar =
     rbind (generation_vectors_path (rg_generation_id g)) (\<lambda>path.
     raise_if (rx_path sidecar \<noteq> as_posix path \<or> rx_media_type sidecar \<noteq> ''application/octet-stream'' \<or> \<not> sha256_hex (rx_sha256 sidecar)
         \<or> rx_size_bytes sidecar \<noteq> rg_embedding_count g * 4096 * 4 \<or> max_safe_bytes < rx_size_bytes sidecar)
       (RuntimeError ''v5 vector sidecar artifact is invalid''))"

definition bad_digest :: "string option \<Rightarrow> bool" where
  "bad_digest v = (case v of None \<Rightarrow> True | Some d \<Rightarrow> \<not> sha256_hex d)"

definition primary_profile :: "RemoteGeneration \<Rightarrow> EmbeddingProfile option" where
  "primary_profile g =
     Option.bind (rg_primary_embedding_profile_id g) (map_of (dict_of (map (\<lambda>p. (ep_profile_id p, p)) (rg_embedding_profiles g))))"

definition semantic_inconsistent ::
  "RemoteGeneration \<Rightarrow> RemoteArtifact \<Rightarrow> StructureContract \<Rightarrow> EmbeddingVectorSidecar \<Rightarrow> EmbeddingProfile \<Rightarrow> bool"
where
  "semantic_inconsistent g sidecar structure contract primary \<longleftrightarrow>
     \<not> distinct (map ep_profile_id (rg_embedding_profiles g))
     \<or> map pp_issuer (sk_parser_profiles structure) \<noteq> rg_issuer_codes g
     \<or> rn_total (sk_revision_counts structure) \<noteq> count_if available (rg_documents g)
     \<or> mj_total (sk_major_class_counts structure) \<noteq> no_major_section (sk_node_counts structure)
     \<or> ep_provider primary \<noteq> rg_embedding_provider g \<or> ep_model primary \<noteq> rg_embedding_model g
     \<or> ep_dimension primary \<noteq> rg_embedding_dimension g \<or> sc_profile_id contract \<noteq> ep_profile_id primary
     \<or> sc_row_count contract \<noteq> rg_embedding_count g \<or> sc_dimension contract \<noteq> rg_embedding_dimension g
     \<or> sc_dtype contract \<noteq> ep_dtype primary \<or> sc_normalization contract \<noteq> ep_normalization primary
     \<or> sc_byte_order contract \<noteq> ''little-endian'' \<or> sc_layout contract \<noteq> ''row-major''
     \<or> sum_list (map vc_count (rg_embedding_view_counts g)) \<noteq> rg_embedding_count g
     \<or> (ar_path (sc_artifact contract), ar_sha256 (sc_artifact contract), ar_size_bytes (sc_artifact contract), ar_media_type (sc_artifact contract))
        \<noteq> (rx_path sidecar, rx_sha256 sidecar, rx_size_bytes sidecar, rx_media_type sidecar)"

definition check_semantic_contract :: "RemoteGeneration \<Rightarrow> RemoteArtifact \<Rightarrow> EmbeddingProfile result" where
  "check_semantic_contract g sidecar =
     (let incomplete = RuntimeError ''v5 generation semantic manifest contract is incomplete'';
          inconsistent = RuntimeError ''v5 generation semantic manifest contract is inconsistent'' in
      case (rg_structure_contract g, rg_vector_sidecar_contract g) of
        (Some structure, Some contract) \<Rightarrow>
          rbind (raise_if (rg_embedding_profiles g = [] \<or> rg_primary_embedding_profile_id g = None \<or> rg_embedding_view_counts g = []
            \<or> list_ex bad_digest [rg_parser_policy_sha256 g, rg_embedding_policy_sha256 g, rg_retrieval_policy_sha256 g]) incomplete) (\<lambda>_.
          case primary_profile g of None \<Rightarrow> Inl inconsistent
          | Some primary \<Rightarrow> rbind (raise_if (semantic_inconsistent g sidecar structure contract primary) inconsistent) (\<lambda>_. Inr primary))
      | _ \<Rightarrow> Inl incomplete)"

definition check_aggregation :: "pydantic \<Rightarrow> RemoteGeneration \<Rightarrow> EmbeddingProfile \<Rightarrow> unit result" where
  "check_aggregation px g primary =
     (let inconsistent = RuntimeError ''v5 document aggregation manifest identity is inconsistent'' in
      case (rg_document_aggregation_profile g, rg_document_aggregation_policy g, rg_sealed_profile_sha256 g, rg_exact_row_corpus_sha256 g) of
        (None, None, None, None) \<Rightarrow> Inr ()
      | (Some profile, Some policy, Some digest, Some corpus) \<Rightarrow>
          rbind (profile_sha256 px profile) (\<lambda>actual.
          rbind (raise_if (actual \<noteq> digest \<or> ag_aggregation_policy profile \<noteq> policy \<or> ag_embedding_profile_id profile \<noteq> ep_profile_id primary
            \<or> ag_exact_row_corpus_sha256 profile \<noteq> corpus) inconsistent) (\<lambda>_.
          rbind (sealed_v5_retrieval_policy px profile digest) (\<lambda>retrieval.
          rbind (canonical_sha256 retrieval) (\<lambda>expected.
          raise_if (rg_retrieval_policy_sha256 g \<noteq> Some expected) inconsistent))))
      | _ \<Rightarrow> Inl (RuntimeError ''v5 document aggregation manifest identity is all-or-nothing''))"

definition has_semantic_fields :: "RemoteGeneration \<Rightarrow> bool" where
  "has_semantic_fields g \<longleftrightarrow>
     rg_structure_contract g \<noteq> None \<or> rg_embedding_profiles g \<noteq> [] \<or> rg_primary_embedding_profile_id g \<noteq> None
     \<or> rg_embedding_view_counts g \<noteq> [] \<or> rg_vector_sidecar_contract g \<noteq> None \<or> rg_parser_policy_sha256 g \<noteq> None
     \<or> rg_embedding_policy_sha256 g \<noteq> None \<or> rg_retrieval_policy_sha256 g \<noteq> None \<or> rg_document_aggregation_profile g \<noteq> None
     \<or> rg_document_aggregation_policy g \<noteq> None \<or> rg_sealed_profile_sha256 g \<noteq> None \<or> rg_exact_row_corpus_sha256 g \<noteq> None"

definition check_vectors :: "pydantic \<Rightarrow> RemoteGeneration \<Rightarrow> unit result" where
  "check_vectors px g =
     (if sidecar_schema (rg_serving_schema g)
      then (case rg_vector_sidecar g of
          None \<Rightarrow> Inl (RuntimeError ''v5 generation requires a vector sidecar'')
        | Some sidecar \<Rightarrow>
            rbind (check_sidecar_artifact g sidecar) (\<lambda>_.
            rbind (check_semantic_contract g sidecar) (\<lambda>primary.
            check_aggregation px g primary)))
      else rbind (raise_if (rg_vector_sidecar g \<noteq> None) (RuntimeError ''legacy generation must not declare a vector sidecar'')) (\<lambda>_.
        raise_if (has_semantic_fields g) (RuntimeError ''legacy generation contains v5 semantic manifest fields'')))"

definition check_pdf_artifact :: "(string, RemoteArtifact) dict \<Rightarrow> RemoteDocument \<Rightarrow> (string, RemoteArtifact) dict result" where
  "check_pdf_artifact seen d =
     (let a = rd_pdf d; invalid = RuntimeError ''generation manifest PDF artifact is invalid'' in
      rbind (raise_if (\<not> sha256_hex (rx_sha256 a)) invalid) (\<lambda>_.
      rbind (object_path (rx_sha256 a)) (\<lambda>path.
      rbind (raise_if (rx_path a \<noteq> as_posix path \<or> rx_media_type a \<noteq> ''application/pdf'' \<or> rx_size_bytes a < 1
        \<or> max_safe_bytes < rx_size_bytes a) invalid) (\<lambda>_.
      case map_of seen (rx_sha256 a) of
        None \<Rightarrow> Inr (AList.update (rx_sha256 a) a seen)
      | Some existing \<Rightarrow>
          rbind (raise_if (existing \<noteq> a) (RuntimeError ''generation manifest reuses a PDF digest with another identity'')) (\<lambda>_. Inr seen)))))"

definition check_issuer_row :: "string \<Rightarrow> RemoteGeneration \<Rightarrow> string \<times> int \<times> int \<times> int \<Rightarrow> unit result" where
  "check_issuer_row label g = (\<lambda>(issuer, acquired, succeeded, failed).
     let matching = filter (\<lambda>d. rd_issuer d = issuer) (rg_documents g) in
     raise_if (acquired \<noteq> int (length matching) \<or> succeeded \<noteq> count_if available matching
         \<or> failed \<noteq> count_if (\<lambda>d. rd_availability d = ''ocr_failed'') matching \<or> succeeded < 1 \<or> succeeded * 100 < acquired * 95)
       (RuntimeError (label @ '' generation issuer OCR counts are invalid'')))"

definition reason_code_text :: "string \<Rightarrow> bool" where
  "reason_code_text s \<longleftrightarrow> 1 \<le> length s \<and> length s \<le> 64 \<and> list_all (\<lambda>c. is_lower c \<or> is_digit c \<or> c = CHR ''_'') s"

definition check_disposition :: "string \<Rightarrow> RemoteDocument \<Rightarrow> unit result" where
  "check_disposition label d =
     (if available d
      then raise_if (rd_ocr_sha256 d = None \<or> rd_failure_reason_code d \<noteq> None \<or> rd_failure_reason d \<noteq> None \<or> rd_failure_attempts d \<noteq> None)
        (RuntimeError (''available '' @ label @ '' document has an invalid OCR disposition''))
      else if rd_availability d = ''ocr_failed''
      then raise_if (rd_ocr_sha256 d \<noteq> None \<or>
          (case (rd_failure_reason_code d, rd_failure_reason d, rd_failure_attempts d) of
             (Some code, Some reason, Some attempts) \<Rightarrow>
               \<not> reason_code_text code \<or> reason = [] \<or> 256 < char_count reason \<or> CHR 0x0A \<in> set reason \<or> CHR 0x0D \<in> set reason \<or> attempts < 1
           | _ \<Rightarrow> True))
        (RuntimeError (''OCR-failed '' @ label @ '' document has an invalid disposition''))
      else Inl (RuntimeError (label @ '' document availability is invalid'')))"

definition check_ocr_dispositions :: "RemoteGeneration \<Rightarrow> unit result" where
  "check_ocr_dispositions g =
     (if rg_serving_schema g = ''cardrag.serving-db.v4'' \<or> sidecar_schema (rg_serving_schema g)
      then let label = (if rg_serving_schema g = ''cardrag.serving-db.v4'' then ''v4'' else ''v5'') in
        rbind (raise_if (map fst (rg_issuer_ocr_counts g) \<noteq> rg_issuer_codes g) (RuntimeError (label @ '' generation issuer OCR counts are incomplete''))) (\<lambda>_.
        rbind (rfold (\<lambda>_. check_issuer_row label g) () (rg_issuer_ocr_counts g)) (\<lambda>_.
        rfold (\<lambda>_. check_disposition label) () (rg_documents g)))
      else raise_if (rg_issuer_ocr_counts g \<noteq> [] \<or> list_ex (\<lambda>d. \<not> available d) (rg_documents g))
        (RuntimeError ''legacy generation contains v4 OCR dispositions''))"

definition verify_remote_manifest_contract :: "pydantic \<Rightarrow> RemoteGeneration \<Rightarrow> unit result" where
  "verify_remote_manifest_contract px g =
     rbind (check_declared_counts g) (\<lambda>_.
     rbind (check_schema_dimension g) (\<lambda>_.
     rbind (check_database_artifact g) (\<lambda>_.
     rbind (check_vectors px g) (\<lambda>_.
     rbind (raise_if (rg_issuer_codes g \<noteq> sorted_set (rg_issuer_codes g))
       (RuntimeError ''generation manifest issuer codes are not sorted and unique'')) (\<lambda>_.
     rbind (raise_if (rg_document_count g \<noteq> int (length (rg_documents g)))
       (RuntimeError ''generation manifest document count differs from its documents'')) (\<lambda>_.
     rbind (rfold check_pdf_artifact [] (rg_documents g)) (\<lambda>_.
     rbind (raise_if (rg_pdf_object_count g \<noteq> distinct_count (map (\<lambda>d. rx_sha256 (rd_pdf d)) (rg_documents g)))
       (RuntimeError ''generation manifest PDF object count differs from its documents'')) (\<lambda>_.
     rbind (raise_if (rg_ocr_object_count g \<noteq> distinct_count (filter (\<lambda>v. v \<noteq> None) (map rd_ocr_sha256 (rg_documents g))))
       (RuntimeError ''generation manifest OCR object count differs from its documents'')) (\<lambda>_.
     rbind (raise_if (rg_chunk_count g \<noteq> rg_embedding_count g)
       (RuntimeError ''generation manifest chunk count differs from embedding count'')) (\<lambda>_.
     rbind (raise_if (\<not> set (map rd_issuer (rg_documents g)) \<subseteq> set (rg_issuer_codes g))
       (RuntimeError ''generation document references an undeclared issuer'')) (\<lambda>_.
     check_ocr_dispositions g)))))))))))"

section \<open>Storage and memory limits\<close>

definition generation_label :: string where
  "generation_label = ''generation download bytes''"

definition note_pdf :: "int \<Rightarrow> (string, RemoteArtifact) dict \<Rightarrow> RemoteDocument \<Rightarrow> (string, RemoteArtifact) dict result" where
  "note_pdf maximum_pdf unique_pdfs d =
     rbind (raise_if (maximum_pdf < rx_size_bytes (rd_pdf d)) (RuntimeError ''referenced PDF exceeds its configured hard cap'')) (\<lambda>_.
     Inr (case map_of unique_pdfs (rx_sha256 (rd_pdf d)) of
            None \<Rightarrow> AList.update (rx_sha256 (rd_pdf d)) (rd_pdf d) unique_pdfs
          | Some _ \<Rightarrow> unique_pdfs))"

definition verify_remote_storage_contract :: "int \<Rightarrow> int \<Rightarrow> int \<Rightarrow> int \<Rightarrow> RemoteGeneration \<Rightarrow> unit result" where
  "verify_remote_storage_contract maximum_database maximum_sidecar maximum_pdf maximum_download g =
     rbind (raise_if (maximum_database < rx_size_bytes (rg_database g)) (RuntimeError ''remote serving database exceeds its configured hard cap'')) (\<lambda>_.
     rbind (raise_if (case rg_vector_sidecar g of None \<Rightarrow> False | Some a \<Rightarrow> maximum_sidecar < rx_size_bytes a)
       (RuntimeError ''v5 vector sidecar exceeds the configured file limit'')) (\<lambda>_.
     rbind (case rg_vector_sidecar g of None \<Rightarrow> Inr (rx_size_bytes (rg_database g))
       | Some a \<Rightarrow> checked_add (rx_size_bytes (rg_database g)) (rx_size_bytes a) generation_label) (\<lambda>start.
     rbind (rfold (note_pdf maximum_pdf) [] (rg_documents g)) (\<lambda>unique_pdfs.
     rbind (rfold (\<lambda>total a. checked_add total (rx_size_bytes a) generation_label) start (vals unique_pdfs)) (\<lambda>total.
     raise_if (maximum_download < total) (RuntimeError ''remote generation exceeds the aggregate download quota''))))))"

definition verify_candidate_capacity :: "int \<Rightarrow> int \<Rightarrow> int \<Rightarrow> int \<Rightarrow> RemoteGeneration \<Rightarrow> unit result" where
  "verify_candidate_capacity maximum_vector maximum_sidecar maximum_resident resident g =
     rbind (case rg_vector_sidecar g of
         None \<Rightarrow>
           rbind (raise_if (maximum_vector < rg_embedding_count g * 1536 * 4)
             (RuntimeError ''legacy inline vectors exceed the configured size limit'')) (\<lambda>_. Inr (rg_embedding_count g * (1536 * 4 + 4)))
       | Some a \<Rightarrow>
           rbind (raise_if (maximum_sidecar < rx_size_bytes a)
             (RuntimeError ''v5 vector sidecar exceeds the configured file limit'')) (\<lambda>_. Inr (rg_embedding_count g * 4))) (\<lambda>candidate.
     raise_if (maximum_resident - resident < candidate)
       (RuntimeError ''candidate plus resident/pinned vector memory exceeds the resident limit''))"

section \<open>Files\<close>

definition verify_artifact :: "int option \<Rightarrow> bytes option \<Rightarrow> RemoteArtifact \<Rightarrow> unit result" where
  "verify_artifact maximum_bytes file a =
     (case file of None \<Rightarrow> Inl (RuntimeError ''downloaded artifact is missing or unsafe'')
      | Some content \<Rightarrow>
        rbind (raise_if (case maximum_bytes of None \<Rightarrow> False | Some m \<Rightarrow> m < rx_size_bytes a)
          (RuntimeError ''artifact exceeds its configured size bound'')) (\<lambda>_.
        raise_if (sha256_bytes content \<noteq> rx_sha256 a \<or> int (length content) \<noteq> rx_size_bytes a)
          (RuntimeError ''downloaded artifact hash or size differs from its manifest'')))"

definition verify_pdf_artifact :: "int \<Rightarrow> bytes option \<Rightarrow> RemoteArtifact \<Rightarrow> unit result" where
  "verify_pdf_artifact maximum_bytes file a =
     rbind (verify_artifact (Some maximum_bytes) file a) (\<lambda>_.
     raise_if (map_option (take 5) file \<noteq> Some ''%PDF-'') (RuntimeError ''referenced CAS object is not application/pdf''))"

section \<open>The content of a database\<close>

text \<open>
  What the code reads from a database file and its sidecar.  \<open>df_core\<close> is the part that the store reads as well; the rows of
  its documents and failed products are those of \<open>df_documents\<close> and \<open>df_failed\<close> (\<open>serving_of\<close>).
\<close>

record DatabaseRow =
  dr_document_id :: string
  dr_issuer :: string
  dr_page_count :: int
  dr_pdf :: PdfRow
  dr_failure :: "(string \<times> string \<times> int) option"

type_synonym profile_row = "string \<times> string \<times> string \<times> string \<times> int \<times> string \<times> string \<times> string \<times> string \<times> int"

record DatabaseFile =
  df_core :: ServingDatabase
  df_corpus_sha256 :: string
  df_contract_sha256 :: string
  df_embedding_provider :: string
  df_sidecar_sha256 :: "string option"
  df_sidecar_size_bytes :: "int option"
  df_vector_shape :: "int \<times> int \<times> int"
  df_aggregation_status :: string
  df_aggregation_policy :: string
  df_sealed_profile_sha256 :: "string option"
  df_exact_row_corpus_sha256 :: "string option"
  df_metadata :: "(string, string) dict"
  df_profiles :: "profile_row list"
  df_view_counts :: "(string, int) dict"
  df_documents :: "DatabaseRow list"
  df_failed :: "DatabaseRow list option"
  df_issuer_codes :: "string list"
  df_products :: int
  df_pages :: int
  df_chunks :: int

definition serving_of :: "DatabaseFile \<Rightarrow> ServingDatabase" where
  "serving_of f = (df_core f)\<lparr>sd_documents := map dr_pdf (df_documents f), sd_failed := map_option (map dr_pdf) (df_failed f)\<rparr>"

definition failed_rows :: "DatabaseFile \<Rightarrow> DatabaseRow list" where
  "failed_rows f = (case df_failed f of None \<Rightarrow> [] | Some rows \<Rightarrow> rows)"

definition failed_schema :: "string \<Rightarrow> bool" where
  "failed_schema v \<longleftrightarrow> v = ''cardrag.serving-db.v4'' \<or> sidecar_schema v"

definition database_documents :: "DatabaseFile \<Rightarrow> DatabaseRow list" where
  "database_documents f =
     (if failed_schema (sd_schema_id (df_core f)) then sort_key dr_document_id (df_documents f @ failed_rows f) else df_documents f)"

definition database_counts :: "DatabaseFile \<Rightarrow> int list" where
  "database_counts f =
     (let schema = sd_schema_id (df_core f); failed = int (length (failed_rows f));
          pdfs = map (pr_sha256 \<circ> dr_pdf) (df_documents f); failed_pdfs = map (pr_sha256 \<circ> dr_pdf) (failed_rows f) in
      [int (length (df_issuer_codes f)),
       if sidecar_schema schema then int (length (df_documents f)) + failed
         else if schema = ''cardrag.serving-db.v4'' then df_products f + failed else df_products f,
       int (length (df_documents f)), df_pages f, df_chunks f,
       distinct_count (if failed_schema schema then pdfs @ failed_pdfs else pdfs)])"

section \<open>Binding a database to its manifest\<close>

definition row_differs :: "RemoteDocument \<Rightarrow> DatabaseRow \<Rightarrow> bool" where
  "row_differs d r \<longleftrightarrow>
     rd_issuer d \<noteq> dr_issuer r \<or> rd_page_count d \<noteq> dr_page_count r \<or> rx_sha256 (rd_pdf d) \<noteq> pr_sha256 (dr_pdf r)
     \<or> rx_size_bytes (rd_pdf d) \<noteq> int (pr_size_bytes (dr_pdf r)) \<or> rx_media_type (rd_pdf d) \<noteq> ''application/pdf''
     \<or> rd_availability d \<noteq> (if dr_failure r = None then ''available'' else ''ocr_failed'')
     \<or> rd_failure_reason_code d \<noteq> map_option fst (dr_failure r) \<or> rd_failure_reason d \<noteq> map_option (fst \<circ> snd) (dr_failure r)
     \<or> rd_failure_attempts d \<noteq> map_option (snd \<circ> snd) (dr_failure r)"

definition verify_identity :: "DatabaseFile \<Rightarrow> RemoteGeneration \<Rightarrow> unit result" where
  "verify_identity f g =
     (let m = df_core f in
      raise_if (sd_schema_id m \<noteq> rg_serving_schema g \<or> sd_generation_id m \<noteq> rg_generation_id g \<or> df_corpus_sha256 f \<noteq> rg_corpus_sha256 g
          \<or> df_contract_sha256 f \<noteq> rg_contract_sha256 g \<or> df_embedding_provider f \<noteq> rg_embedding_provider g
          \<or> sd_embedding_model m \<noteq> rg_embedding_model g \<or> int (sd_embedding_dimension m) \<noteq> rg_embedding_dimension g
          \<or> int (sd_embedding_count m) \<noteq> rg_embedding_count g)
        (RuntimeError ''database contract differs from generation manifest''))"

text \<open>A handle has a sidecar path exactly in the sidecar schemas.\<close>

definition verify_sidecar_binding :: "bytes option \<Rightarrow> DatabaseFile \<Rightarrow> RemoteGeneration \<Rightarrow> unit result" where
  "verify_sidecar_binding vectors f g =
     (case rg_vector_sidecar g of
        None \<Rightarrow> raise_if (sidecar_schema (sd_schema_id (df_core f)) \<or> df_sidecar_sha256 f \<noteq> None \<or> df_sidecar_size_bytes f \<noteq> None)
          (RuntimeError ''legacy database unexpectedly declares a vector sidecar'')
      | Some a \<Rightarrow>
          rbind (raise_if (\<not> sidecar_schema (sd_schema_id (df_core f)) \<or> df_sidecar_sha256 f \<noteq> Some (rx_sha256 a)
              \<or> df_sidecar_size_bytes f \<noteq> Some (rx_size_bytes a)
              \<or> df_vector_shape f \<noteq> (rg_embedding_count g, rg_embedding_dimension g, rg_embedding_count g))
            (RuntimeError ''database/handle vector sidecar differs from generation manifest'')) (\<lambda>_.
          verify_artifact None vectors a))"

definition verify_aggregation_binding :: "DatabaseFile \<Rightarrow> RemoteGeneration \<Rightarrow> unit result" where
  "verify_aggregation_binding f g =
     (case rg_document_aggregation_profile g of
        None \<Rightarrow> raise_if (df_aggregation_status f \<noteq> ''candidate_default'' \<or> df_aggregation_policy f \<noteq> ''max_child'' \<or> df_sealed_profile_sha256 f \<noteq> None)
          (RuntimeError ''unsealed v5 manifest differs from database aggregation identity'')
      | Some profile \<Rightarrow> raise_if (df_aggregation_status f \<noteq> ''sealed'' \<or> df_aggregation_policy f \<noteq> ag_aggregation_policy profile
            \<or> rg_document_aggregation_policy g \<noteq> Some (ag_aggregation_policy profile)
            \<or> df_sealed_profile_sha256 f \<noteq> rg_sealed_profile_sha256 g \<or> df_exact_row_corpus_sha256 f \<noteq> rg_exact_row_corpus_sha256 g)
          (RuntimeError ''sealed v5 manifest differs from database aggregation identity''))"

definition opt_text :: "string option \<Rightarrow> string" where
  "opt_text v = (case v of None \<Rightarrow> ''None'' | Some s \<Rightarrow> s)"

definition expected_metadata :: "RemoteGeneration \<Rightarrow> StructureContract \<Rightarrow> EmbeddingVectorSidecar \<Rightarrow> (string, string) dict" where
  "expected_metadata g structure sidecar =
     (let nodes = sk_node_counts structure; majors = sk_major_class_counts structure; revisions = sk_revision_counts structure;
          coverage = sk_source_coverage structure in
      dict_of (
        [(''parser_policy_sha256'', opt_text (rg_parser_policy_sha256 g)), (''embedding_policy_sha256'', opt_text (rg_embedding_policy_sha256 g)),
         (''retrieval_policy_sha256'', opt_text (rg_retrieval_policy_sha256 g)),
         (''primary_embedding_profile_id'', opt_text (rg_primary_embedding_profile_id g)),
         (''embedding_profile_count'', string_of_int (int (length (rg_embedding_profiles g)))),
         (''vector_sidecar_profile_id'', sc_profile_id sidecar), (''vector_sidecar_row_count'', string_of_int (sc_row_count sidecar)),
         (''vector_sidecar_dimension'', string_of_int (sc_dimension sidecar)), (''vector_sidecar_dtype'', sc_dtype sidecar),
         (''vector_sidecar_normalization'', sc_normalization sidecar), (''vector_sidecar_byte_order'', sc_byte_order sidecar),
         (''vector_sidecar_layout'', sc_layout sidecar),
         (''source_non_whitespace_count'', string_of_int (cv_source_non_whitespace_characters coverage)),
         (''covered_non_whitespace_count'', string_of_int (cv_covered_non_whitespace_characters coverage)),
         (''source_coverage_sha256'', cv_source_non_whitespace_sha256 coverage),
         (''structure_node_count'', string_of_int (no_total nodes)), (''contract_revision_count'', string_of_int (rn_total revisions)),
         (''current_revision_count'', string_of_int (rn_current revisions)), (''superseded_revision_count'', string_of_int (rn_superseded revisions)),
         (''ambiguous_revision_count'', string_of_int (rn_ambiguous revisions))]
        @ (case rg_document_aggregation_profile g of None \<Rightarrow> []
           | Some profile \<Rightarrow>
             [(''document_aggregation_status'', ''sealed''), (''document_aggregation_policy'', ag_aggregation_policy profile),
              (''sealed_profile_sha256'', opt_text (rg_sealed_profile_sha256 g)), (''exact_row_corpus_sha256'', opt_text (rg_exact_row_corpus_sha256 g))])
        @ concat (map (\<lambda>p. [(''parser_profile_id.'' @ pp_issuer p, pp_profile_id p), (''parser_profile_sha256.'' @ pp_issuer p, pp_profile_sha256 p)])
            (sk_parser_profiles structure))
        @ map (\<lambda>(t, n). (''structure_node_count.'' @ t, string_of_int n))
            [(''ROOT'', no_root nodes), (''MAJOR_SECTION'', no_major_section nodes), (''ITEM'', no_item nodes), (''PARAGRAPH'', no_paragraph nodes),
             (''LIST_ITEM'', no_list_item nodes), (''TABLE'', no_table nodes), (''TABLE_ROW'', no_table_row nodes), (''FOOTNOTE'', no_footnote nodes),
             (''BOILERPLATE'', no_boilerplate nodes), (''UNCLASSIFIED'', no_unclassified nodes)]
        @ map (\<lambda>(t, n). (''structure_major_class_count.'' @ t, string_of_int n))
            [(''BENEFIT'', mj_benefit majors), (''NOTICE'', mj_notice majors), (''MIXED'', mj_mixed majors), (''UNKNOWN'', mj_unknown majors)]
        @ map (\<lambda>v. (''embedding_view_count.'' @ vc_view_type v, string_of_int (vc_count v))) (rg_embedding_view_counts g)))"

definition profile_row :: "EmbeddingProfile \<Rightarrow> profile_row" where
  "profile_row p = (ep_profile_id p, ep_provider p, ep_model p, ep_provider_id p, ep_dimension p, ep_dtype p, ep_normalization p,
     ep_document_policy p, ep_query_policy p, ep_maximum_tokens p)"

definition same_dict :: "('k, 'v) dict \<Rightarrow> ('k, 'v) dict \<Rightarrow> bool" where
  "same_dict a b \<longleftrightarrow> list_all (\<lambda>(k, v). map_of b k = Some v) a \<and> list_all (\<lambda>(k, v). map_of a k = Some v) b"

definition verify_v5_semantic_binding :: "DatabaseFile \<Rightarrow> RemoteGeneration \<Rightarrow> unit result" where
  "verify_v5_semantic_binding f g =
     (case (rg_structure_contract g, rg_vector_sidecar_contract g) of
        (Some structure, Some sidecar) \<Rightarrow>
          rbind (raise_if (list_ex (\<lambda>(k, v). map_of (df_metadata f) k \<noteq> Some v) (expected_metadata g structure sidecar))
            (RuntimeError ''v5 database metadata differs from semantic manifest contract'')) (\<lambda>_.
          raise_if (df_profiles f \<noteq> map profile_row (rg_embedding_profiles g)
              \<or> \<not> same_dict (df_view_counts f) (filter (\<lambda>(_, n). n \<noteq> 0) (dict_of (map (\<lambda>v. (vc_view_type v, vc_count v)) (rg_embedding_view_counts g)))))
            (RuntimeError ''v5 database profiles/views differ from semantic manifest contract''))
      | _ \<Rightarrow> Inl (RuntimeError ''v5 generation semantic contract is absent''))"

definition verify_row :: "(string, RemoteDocument) dict \<Rightarrow> DatabaseRow \<Rightarrow> unit result" where
  "verify_row declared r =
     (case map_of declared (dr_document_id r) of None \<Rightarrow> Inl (KeyError (dr_document_id r))
      | Some d \<Rightarrow> raise_if (row_differs d r) (RuntimeError ''manifest and database PDF references differ''))"

definition expected_counts :: "RemoteGeneration \<Rightarrow> int list" where
  "expected_counts g =
     (let shown = filter available (rg_documents g) in
      [int (length (rg_issuer_codes g)), rg_document_count g, int (length shown), sum_list (map rd_page_count shown), rg_chunk_count g, rg_pdf_object_count g])"

definition verify_documents :: "DatabaseFile \<Rightarrow> RemoteGeneration \<Rightarrow> unit result" where
  "verify_documents f g =
     (let declared = dict_of (map (\<lambda>d. (rd_document_id d, d)) (rg_documents g)); rows = database_documents f in
      rbind (raise_if (length declared \<noteq> length (rg_documents g)) (RuntimeError ''generation manifest contains duplicate document IDs'')) (\<lambda>_.
      rbind (raise_if (set (keys declared) \<noteq> set (map dr_document_id rows)) (RuntimeError ''manifest and database document sets differ'')) (\<lambda>_.
      rbind (rfold (\<lambda>_. verify_row declared) () rows) (\<lambda>_.
      raise_if (df_issuer_codes f \<noteq> rg_issuer_codes g \<or> database_counts f \<noteq> expected_counts g)
        (RuntimeError ''manifest and database corpus counts differ'')))))"

definition verify_generation_binding :: "bytes option \<Rightarrow> DatabaseFile \<Rightarrow> RemoteGeneration \<Rightarrow> unit result" where
  "verify_generation_binding vectors f g =
     rbind (verify_identity f g) (\<lambda>_.
     rbind (verify_sidecar_binding vectors f g) (\<lambda>_.
     rbind (if sidecar_schema (rg_serving_schema g)
       then rbind (verify_aggregation_binding f g) (\<lambda>_. verify_v5_semantic_binding f g) else Inr ()) (\<lambda>_.
     verify_documents f g)))"

section \<open>A poll\<close>

text \<open>
  \<open>us_files\<close> has the files of the generation directories; a directory exists while the store lists it.  The staging directory
  is local to one poll.  \<open>up_requests k env own\<close> is what other threads do to the store at the \<open>k\<close>-th wait, while the poll
  holds the pins \<open>own\<close>.
\<close>

record UpdaterState =
  us_store :: GenerationStore
  us_files :: "(string, bytes \<times> bytes option) dict"

record WebDAVUpdater =
  up_px :: pydantic
  up_read :: "RemoteGeneration option result"
  up_database :: "RemoteGeneration \<Rightarrow> bytes result"
  up_sidecar :: "RemoteGeneration \<Rightarrow> bytes result"
  up_object :: "RemoteArtifact \<Rightarrow> bytes result"
  up_open :: "bytes \<Rightarrow> bytes option \<Rightarrow> DatabaseFile option"
  up_quota :: quota
  up_audit_usage :: "string \<Rightarrow> int \<times> int"
  up_capacity :: "int \<Rightarrow> unit result"
  up_mtime :: int
  up_maximum_vector_bytes :: int
  up_maximum_sidecar_bytes :: int
  up_maximum_pdf_bytes :: int
  up_maximum_database_bytes :: nat
  up_maximum_download_bytes :: int
  up_requests :: "nat \<Rightarrow> store_env \<Rightarrow> nat list \<Rightarrow> GenerationStore \<Rightarrow> GenerationStore"

type_synonym 'a update_op = "(UpdaterState, 'a) op"

definition opened :: "WebDAVUpdater \<Rightarrow> bytes \<times> bytes option \<Rightarrow> ServingDatabase option" where
  "opened cfg = (\<lambda>(database, vectors). map_option (\<lambda>f. (serving_of f)\<lparr>sd_size := length database\<rparr>) (up_open cfg database vectors))"

definition databases_of :: "WebDAVUpdater \<Rightarrow> (string, bytes \<times> bytes option) dict \<Rightarrow> databases" where
  "databases_of cfg files g = Option.bind (map_of files g) (opened cfg)"

definition env_of :: "WebDAVUpdater \<Rightarrow> UpdaterState \<Rightarrow> store_env" where
  "env_of cfg s = \<lparr>env_quota = up_quota cfg, env_audit_usage = up_audit_usage cfg, env_databases = databases_of cfg (us_files s)\<rparr>"

definition get :: "(UpdaterState \<Rightarrow> 'a) \<Rightarrow> 'a update_op" where
  "get f s = (Inr (f s), s)"

definition on_store :: "(databases \<Rightarrow> 'a store_op) \<Rightarrow> WebDAVUpdater \<Rightarrow> 'a update_op" where
  "on_store m cfg s = (case m (databases_of cfg (us_files s)) (us_store s) of (r, t) \<Rightarrow> (r, s\<lparr>us_store := t\<rparr>))"

definition wait :: "WebDAVUpdater \<Rightarrow> nat \<Rightarrow> nat list \<Rightarrow> unit update_op" where
  "wait cfg k own s = (Inr (), s\<lparr>us_store := up_requests cfg k (env_of cfg s) own (us_store s)\<rparr>)"

definition finally_do :: "'a update_op \<Rightarrow> unit update_op \<Rightarrow> 'a update_op" where
  "finally_do m f s = (case m s of (r, t) \<Rightarrow> (case f t of (Inl e, u) \<Rightarrow> (Inl e, u) | (Inr _, u) \<Rightarrow> (r, u)))"

definition exists_final :: "RemoteGeneration \<Rightarrow> UpdaterState \<Rightarrow> bool" where
  "exists_final g s \<longleftrightarrow> rg_generation_id g \<in> set (keys (gs_generations (us_store s)))"

definition directory :: "string \<Rightarrow> UpdaterState \<Rightarrow> (bytes \<times> bytes option) option" where
  "directory g s = (if g \<in> set (keys (gs_generations (us_store s))) then map_of (us_files s) g else None)"

definition validated_handle :: "WebDAVUpdater \<Rightarrow> RemoteGeneration \<Rightarrow> (bytes \<times> bytes option) option \<Rightarrow> UpdaterState \<Rightarrow> GenerationHandle result" where
  "validated_handle cfg g files s =
     rbind (verify_artifact (Some (int (up_maximum_database_bytes cfg))) (map_option fst files) (rg_database g)) (\<lambda>_.
     rbind (case rg_vector_sidecar g of
         None \<Rightarrow> raise_if (Option.bind files snd \<noteq> None) (RuntimeError ''legacy local generation contains a forbidden vector sidecar'')
       | Some a \<Rightarrow> verify_artifact (Some (up_maximum_sidecar_bytes cfg)) (Option.bind files snd) a) (\<lambda>_.
     rbind (verify_candidate_capacity (up_maximum_vector_bytes cfg) (up_maximum_sidecar_bytes cfg)
       (int (gs_maximum_resident_vector_bytes (us_store s))) (int (resident_vector_bytes (us_store s))) g) (\<lambda>_.
     rbind (load_generation_handle (up_maximum_database_bytes cfg) (gs_maximum_resident_vector_bytes (us_store s)) (\<lambda>_. Option.bind files (opened cfg))
       (Some (rg_generation_id g)) (Some (rg_embedding_model g)) (Some (nat (rg_embedding_count g))) (rg_generation_id g)) (\<lambda>handle.
     case Option.bind files (\<lambda>(database, vectors). up_open cfg database vectors) of
       None \<Rightarrow> Inl (RuntimeError ''generation database is missing or unsafe'')
     | Some f \<Rightarrow> rbind (verify_generation_binding (Option.bind files snd) f g) (\<lambda>_. Inr handle)))))"

definition growth_of_pdf :: "WebDAVUpdater \<Rightarrow> (string, bytes) dict \<Rightarrow> int \<Rightarrow> RemoteArtifact \<Rightarrow> int result" where
  "growth_of_pdf cfg objects growth a =
     rbind (raise_if (\<not> sha256_hex (rx_sha256 a)) (ValueError ''invalid CAS digest'')) (\<lambda>_.
     case verify_pdf_artifact (up_maximum_pdf_bytes cfg) (map_of objects (rx_sha256 a)) a of
       Inl _ \<Rightarrow> checked_add growth (rx_size_bytes a) ''prospective generation state bytes''
     | Inr _ \<Rightarrow> Inr growth)"

definition prospective_state_growth :: "WebDAVUpdater \<Rightarrow> RemoteGeneration \<Rightarrow> UpdaterState \<Rightarrow> int result" where
  "prospective_state_growth cfg g s =
     rbind (if exists_final g s then Inr 0
       else (case rg_vector_sidecar g of None \<Rightarrow> Inr (rx_size_bytes (rg_database g))
         | Some a \<Rightarrow> checked_add (rx_size_bytes (rg_database g)) (rx_size_bytes a) ''prospective generation state bytes'')) (\<lambda>growth.
     rfold (growth_of_pdf cfg (gs_objects (us_store s))) growth (vals (dict_of (map (\<lambda>d. (rx_sha256 (rd_pdf d), rd_pdf d)) (rg_documents g)))))"

definition store_object :: "string \<Rightarrow> bytes \<Rightarrow> UpdaterState \<Rightarrow> UpdaterState" where
  "store_object digest content s = s\<lparr>us_store := (us_store s)\<lparr>gs_objects := AList.update digest content (gs_objects (us_store s))\<rparr>\<rparr>"

definition sync_pdf :: "WebDAVUpdater \<Rightarrow> nat list \<Rightarrow> nat \<times> RemoteArtifact \<Rightarrow> unit update_op" where
  "sync_pdf cfg own = (\<lambda>(k, a).
     sbind (lift (raise_if (up_maximum_pdf_bytes cfg < rx_size_bytes a) (RuntimeError ''referenced PDF exceeds 100 MiB''))) (\<lambda>_.
     sbind (lift (raise_if (\<not> sha256_hex (rx_sha256 a)) (ValueError ''invalid CAS digest''))) (\<lambda>_.
     sbind (get (\<lambda>s. map_of (gs_objects (us_store s)) (rx_sha256 a))) (\<lambda>existing.
     if existing \<noteq> None \<and> verify_pdf_artifact (up_maximum_pdf_bytes cfg) existing a = Inr () then ret ()
     else
       sbind (lift (up_capacity cfg (rx_size_bytes a))) (\<lambda>_.
       sbind (lift (up_object cfg a)) (\<lambda>content.
       sbind (wait cfg k own) (\<lambda>_.
       sbind (lift (verify_pdf_artifact (up_maximum_pdf_bytes cfg) (Some content) a)) (\<lambda>_.
       sbind (get (\<lambda>s. map_of (gs_objects (us_store s)) (rx_sha256 a))) (\<lambda>present.
       if existing = None \<and> present \<noteq> None then lift (verify_pdf_artifact (up_maximum_pdf_bytes cfg) present a)
       else (\<lambda>s. (Inr (), store_object (rx_sha256 a) content s)))))))))))"

definition sync_pdfs :: "WebDAVUpdater \<Rightarrow> nat list \<Rightarrow> RemoteGeneration \<Rightarrow> unit update_op" where
  "sync_pdfs cfg own g = sfor (sync_pdf cfg own) (enumerate 20 (map rd_pdf (rg_documents g)))"

definition verify_pdfs :: "WebDAVUpdater \<Rightarrow> (bytes \<times> bytes option) option \<Rightarrow> unit update_op" where
  "verify_pdfs cfg files =
     sbind (get (\<lambda>s. case Option.bind files (opened cfg) of None \<Rightarrow> Inl (RuntimeError ''generation database is missing or unsafe'')
       | Some d \<Rightarrow> verify_handle_pdfs (gs_maximum_pdf_bytes (us_store s)) (gs_objects (us_store s)) d)) lift"

definition activate_handle :: "WebDAVUpdater \<Rightarrow> GenerationHandle \<Rightarrow> unit update_op" where
  "activate_handle cfg h = on_store (\<lambda>dbs. activate (up_quota cfg) (database_pdfs dbs) h) cfg"

definition activate_existing :: "WebDAVUpdater \<Rightarrow> RemoteGeneration \<Rightarrow> unit update_op" where
  "activate_existing cfg g =
     sbind (get (directory (rg_generation_id g))) (\<lambda>files.
     sbind (get (validated_handle cfg g files)) (\<lambda>checked.
     sbind (lift checked) (\<lambda>handle.
     sbind (wait cfg 3 []) (\<lambda>_.
     sbind (sync_pdfs cfg [] g) (\<lambda>_.
     sbind (verify_pdfs cfg files) (\<lambda>_.
     sbind (wait cfg 4 []) (\<lambda>_.
     activate_handle cfg handle)))))))"

definition download_members :: "WebDAVUpdater \<Rightarrow> RemoteGeneration \<Rightarrow> (bytes \<times> bytes option) update_op" where
  "download_members cfg g =
     sbind (lift (up_capacity cfg (rx_size_bytes (rg_database g)))) (\<lambda>_.
     sbind (lift (up_database cfg g)) (\<lambda>database.
     sbind (wait cfg 5 []) (\<lambda>_.
     sbind (lift (verify_artifact (Some (int (up_maximum_database_bytes cfg))) (Some database) (rg_database g))) (\<lambda>_.
     case rg_vector_sidecar g of
       None \<Rightarrow> ret (database, None)
     | Some a \<Rightarrow>
         sbind (lift (up_capacity cfg (rx_size_bytes a))) (\<lambda>_.
         sbind (lift (up_sidecar cfg g)) (\<lambda>vectors.
         sbind (wait cfg 6 []) (\<lambda>_.
         sbind (lift (verify_artifact (Some (up_maximum_sidecar_bytes cfg)) (Some vectors) a)) (\<lambda>_.
         ret (database, Some vectors)))))))))"

definition install_files :: "WebDAVUpdater \<Rightarrow> string \<Rightarrow> bytes \<times> bytes option \<Rightarrow> UpdaterState \<Rightarrow> UpdaterState" where
  "install_files cfg g files s = s\<lparr>us_store := install g (up_mtime cfg) (us_store s), us_files := AList.update g files (us_files s)\<rparr>"

definition activate_staged :: "WebDAVUpdater \<Rightarrow> RemoteGeneration \<Rightarrow> unit update_op" where
  "activate_staged cfg g =
     sbind (download_members cfg g) (\<lambda>files.
     sbind (get (validated_handle cfg g (Some files))) (\<lambda>checked.
     sbind (lift checked) (\<lambda>handle.
     sbind (wait cfg 7 []) (\<lambda>_.
     sbind (sync_pdfs cfg [] g) (\<lambda>_.
     sbind (verify_pdfs cfg (Some files)) (\<lambda>_.
     sbind (wait cfg 8 []) (\<lambda>_.
     sbind (get (exists_final g)) (\<lambda>there.
     sbind (lift (raise_if there (RuntimeError ''immutable local generation already exists but is not active''))) (\<lambda>_.
     sbind (\<lambda>s. (Inr (), install_files cfg (rg_generation_id g) files s)) (\<lambda>_.
     activate_handle cfg handle))))))))))"

definition stage_and_activate :: "WebDAVUpdater \<Rightarrow> RemoteGeneration \<Rightarrow> unit update_op" where
  "stage_and_activate cfg g =
     sbind (lift (raise_if (rx_media_type (rg_database g) \<noteq> ''application/vnd.sqlite3'')
       (RuntimeError ''remote serving database media type is invalid''))) (\<lambda>_.
     sbind (get (exists_final g)) (\<lambda>there.
     if there then activate_existing cfg g else activate_staged cfg g))"

definition active_binding :: "WebDAVUpdater \<Rightarrow> RemoteGeneration \<Rightarrow> UpdaterState \<Rightarrow> unit result" where
  "active_binding cfg g s =
     (case directory (rg_generation_id g) s of
        None \<Rightarrow> Inl (OSError ''unable to open database file'')
      | Some (database, vectors) \<Rightarrow>
          (case up_open cfg database vectors of None \<Rightarrow> Inl (OSError ''unable to open database file'')
           | Some f \<Rightarrow> verify_generation_binding vectors f g))"

definition repair_active :: "WebDAVUpdater \<Rightarrow> RemoteGeneration \<Rightarrow> unit update_op" where
  "repair_active cfg g =
     sbind (on_store (\<lambda>_. pin) cfg) (\<lambda>a.
     finally_do
       (sbind (get (active_binding cfg g)) (\<lambda>checked.
        sbind (lift checked) (\<lambda>_.
        sbind (wait cfg 9 [a]) (\<lambda>_.
        sync_pdfs cfg [a] g))))
       (on_store (\<lambda>dbs. unpin (database_pdfs dbs) a) cfg))"

definition poll_once :: "WebDAVUpdater \<Rightarrow> bool update_op" where
  "poll_once cfg =
     sbind (lift (up_read cfg)) (\<lambda>found.
     case found of None \<Rightarrow> raise (RuntimeError ''stable WebDAV channel is absent'')
     | Some g \<Rightarrow>
       sbind (lift (raise_if (\<not> safe_id (rg_generation_id g)) (RuntimeError ''remote generation ID is unsafe''))) (\<lambda>_.
       sbind (lift (verify_remote_manifest_contract (up_px cfg) g)) (\<lambda>_.
       sbind (lift (verify_remote_storage_contract (int (up_maximum_database_bytes cfg)) (up_maximum_sidecar_bytes cfg) (up_maximum_pdf_bytes cfg)
         (up_maximum_download_bytes cfg) g)) (\<lambda>_.
       sbind (get (prospective_state_growth cfg g)) (\<lambda>prospective.
       sbind (lift prospective) (\<lambda>growth.
       sbind (wait cfg 1 []) (\<lambda>_.
       sbind (lift (if growth \<noteq> 0 then up_capacity cfg growth else Inr ())) (\<lambda>_.
       sbind (wait cfg 2 []) (\<lambda>_.
       sbind (get (\<lambda>s. active_generation_id (us_store s) = Some (rg_generation_id g))) (\<lambda>same.
       if same then sbind (repair_active cfg g) (\<lambda>_. ret False)
       else
         sbind (get (\<lambda>s. verify_candidate_capacity (up_maximum_vector_bytes cfg) (up_maximum_sidecar_bytes cfg)
           (int (gs_maximum_resident_vector_bytes (us_store s))) (int (resident_vector_bytes (us_store s))) g)) (\<lambda>fits.
         sbind (lift fits) (\<lambda>_.
         sbind (stage_and_activate cfg g) (\<lambda>_.
         ret True)))))))))))))"

section \<open>Other threads\<close>

fun request :: "nat list \<Rightarrow> store_event \<Rightarrow> GenerationStore \<Rightarrow> bool" where
  "request own (Unpin a) s = (count_list own a < count_list (gs_pins s) a)"
| "request own (Install _ _) s = False"
| "request own (Activate _) s = False"
| "request own Restart s = False"
| "request own _ s = True"

inductive request_step :: "store_env \<Rightarrow> nat list \<Rightarrow> GenerationStore \<Rightarrow> GenerationStore \<Rightarrow> bool" for env own where
  "request own e s \<Longrightarrow> request_step env own s (apply_event env e s)"

text \<open>Other threads serve requests and keep the roots of jobs; a thread only closes a pin of its own.\<close>

definition polite :: "WebDAVUpdater \<Rightarrow> bool" where
  "polite cfg \<longleftrightarrow> (\<forall>k env own s. (request_step env own)\<^sup>*\<^sup>* s (up_requests cfg k env own s))"

lemma request_enabled: "request own e s \<Longrightarrow> enabled e s"
  by (cases e) (auto, metis count_list_0_iff not_less_zero)

text \<open>What requests leave alone: the pointer, the active entry, the handles that exist.\<close>

definition calm :: "GenerationStore \<Rightarrow> GenerationStore \<Rightarrow> bool" where
  "calm s t \<longleftrightarrow> gs_active t = gs_active s \<and> gs_current t = gs_current s
     \<and> take (length (gs_heap s)) (map he_handle (gs_heap t)) = map he_handle (gs_heap s)"

lemma calm_refl [simp]: "calm s s"
  by (simp add: calm_def)

lemma calm_trans:
  assumes "calm s t" "calm t u" shows "calm s u"
proof -
  have len: "length (gs_heap s) \<le> length (gs_heap t)" using assms(1) unfolding calm_def by (metis length_map length_take min.cobounded1 min.commute)
  have "take (length (gs_heap s)) (map he_handle (gs_heap u)) = take (length (gs_heap s)) (take (length (gs_heap t)) (map he_handle (gs_heap u)))"
    using len by (simp add: min_def)
  with assms show ?thesis by (simp add: calm_def)
qed

lemma calm_active:
  assumes "store_ok s" "calm s t"
  shows "active_generation_id t = active_generation_id s"
proof (cases "gs_active s")
  case (Some a)
  have a: "a < length (gs_heap s)" using store_held(1) [OF assms(1) store_active [OF assms(1) Some]] .
  have l: "length (gs_heap s) \<le> length (gs_heap t)" using assms(2) unfolding calm_def by (metis length_map length_take min.cobounded1 min.commute)
  have "map he_handle (gs_heap s) ! a = map he_handle (gs_heap t) ! a"
    using assms(2) a unfolding calm_def by (metis nth_take)
  then have "he_handle (gs_heap t ! a) = he_handle (gs_heap s ! a)" using a l by simp
  with Some assms(2) show ?thesis by (simp add: active_generation_id_def calm_def entry_id_def)
qed (use assms(2) in \<open>simp add: active_generation_id_def calm_def\<close>)

lemma calm_pins: "calm s (enter_pin a s)" "calm s (exit_pin a s)"
  using frame_pins [of a s] by (auto simp: calm_def frame_def enter_pin_def exit_pin_def add_references_def)

lemma calm_add_entry: "calm s (add_entry h s)"
  by (simp add: calm_def add_entry_def)

lemma calm_prune: "calm s (prune refs roots s)"
proof -
  have one: "calm t (prune_one R g t)" for R g t by (simp add: calm_def)
  have "calm s (fold (prune_one R) gs s)" for R gs
    by (induction gs arbitrary: s) (auto intro: calm_trans [OF one])
  moreover have "calm t (prune_cas refs t)" for t by (simp add: calm_def prune_cas_def Let_def)
  ultimately show ?thesis unfolding prune_def by (blast intro: calm_trans)
qed

lemma calm_prune_locked: "calm s (snd (prune_locked refs None s))"
  by (auto simp: prune_locked_def run_simps calm_prune split: sum.split)

lemma calm_acquire: "calm s (snd (acquire_gc_root_locked quota usage w g roots s))"
  by (auto simp: acquire_gc_root_locked_def Let_def run_simps split: option.split sum.splits prod.split)
    (simp_all add: calm_def)

lemma calm_request:
  assumes "request own e s" shows "calm s (apply_event env e s)"
proof (cases e)
  case (Unpin a)
  have "calm s (snd (prune_locked refs None (exit_pin a s)))" for refs by (rule calm_trans [OF calm_pins(2) calm_prune_locked])
  then show ?thesis by (auto simp: Unpin unpin_def run_simps calm_pins)
next
  case (PinGeneration g)
  have "calm s (enter_pin a (add_entry h s))" for a h by (rule calm_trans [OF calm_add_entry calm_pins(1)])
  then show ?thesis by (auto simp: PinGeneration pin_generation_def run_simps calm_pins split: option.split)
next
  case (AcquireRoot w g)
  then show ?thesis by (auto simp: acquire_generation_gc_root_def run_simps calm_acquire split: sum.split)
next
  case (ClaimRoot f)
  then show ?thesis
    by (auto simp: claim_current_generation_gc_root_def run_simps Let_def state_of_ret calm_acquire split: sum.splits list.split)
next
  case (ReleaseRoot w g)
  then show ?thesis by (auto simp: release_generation_gc_root_def run_simps calm_def split: option.split sum.split)
qed (use assms in \<open>auto simp: pin_def run_simps calm_pins split: option.split\<close>)

section \<open>The last good generation\<close>

definition sound_pdf :: "(string, bytes) dict \<Rightarrow> string \<Rightarrow> bool" where
  "sound_pdf objects d = (case map_of objects d of None \<Rightarrow> False | Some c \<Rightarrow> sha256_bytes c = d \<and> take 5 c = ''%PDF-'')"

definition active_pdfs :: "databases \<Rightarrow> GenerationStore \<Rightarrow> string list" where
  "active_pdfs dbs s = (case active_generation_id s of None \<Rightarrow> []
     | Some g \<Rightarrow> (case database_pdfs dbs g of None \<Rightarrow> [] | Some ds \<Rightarrow> ds))"

text \<open>
  What a poll must leave of the state \<open>s0\<close> it starts from: a consistent store that serves the same generation, with the
  same pointer, the same database and every PDF of it that was sound, and the pins \<open>own\<close> that the poll holds.
\<close>

definition last_good :: "WebDAVUpdater \<Rightarrow> UpdaterState \<Rightarrow> nat list \<Rightarrow> UpdaterState \<Rightarrow> bool" where
  "last_good cfg s0 own s \<longleftrightarrow>
     store_ok (us_store s)
     \<and> active_generation_id (us_store s) = active_generation_id (us_store s0) \<and> gs_current (us_store s) = gs_current (us_store s0)
     \<and> (\<forall>g. active_generation_id (us_store s0) = Some g \<longrightarrow> map_of (us_files s) g = map_of (us_files s0) g)
     \<and> (\<forall>d \<in> set (active_pdfs (databases_of cfg (us_files s0)) (us_store s0)).
          sound_pdf (gs_objects (us_store s0)) d \<longrightarrow> sound_pdf (gs_objects (us_store s)) d)
     \<and> (\<forall>a. count_list own a \<le> count_list (gs_pins (us_store s)) a)"

lemma active_there:
  assumes "store_ok s" "active_generation_id s = Some g"
  shows "g \<in> set (keys (gs_generations s))" "safe_id g"
proof -
  from assms(2) obtain a where a: "gs_active s = Some a" "g = entry_id s a" by (auto simp: active_generation_id_def)
  show "g \<in> set (keys (gs_generations s))" using store_held(2) [OF assms(1) store_active [OF assms(1) a(1)]] a(2) by simp
  have "current_generation (gs_current s) = Some g" using assms(1) a by (simp add: store_ok_def active_ok_def)
  then show "safe_id g"
    by (auto simp: current_generation_def split: pointer_file.splits sum.splits json.splits option.splits if_splits)
qed

lemma map_of_filter_fst: "map_of (filter (\<lambda>(k, _). P k) d) k = (if P k then map_of d k else None)"
  by (induction d) auto

text \<open>Pruning keeps the PDFs of the active generation.\<close>

lemma prune_active_pdfs:
  assumes ok: "store_ok s" and d: "d \<in> set (active_pdfs dbs s)"
  shows "map_of (gs_objects (prune (database_pdfs dbs) roots s)) d = map_of (gs_objects s) d"
proof -
  obtain g ds where g: "active_generation_id s = Some g" "database_pdfs dbs g = Some ds" "d \<in> set ds"
    using d that by (cases "active_generation_id s"; cases "database_pdfs dbs (the (active_generation_id s))") (auto simp: active_pdfs_def)
  let ?t = "fold (prune_one (retained_generations roots s)) (newest_generations s) s"
  have "g \<in> set (keys (gs_generations (prune (database_pdfs dbs) roots s)))"
    using active_there [OF ok g(1)] g(1) by (force simp: prune_generations)
  then have "list_ex (\<lambda>g. d \<in> set (the (database_pdfs dbs g))) (filter safe_id (keys (gs_generations ?t)))"
    using active_there(2) [OF ok g(1)] g by (auto simp: list_ex_iff prune_def intro!: bexI [of _ g])
  then show ?thesis by (simp add: prune_def prune_cas_def Let_def map_of_filter_fst)
qed

lemma active_pdfs_calm: "store_ok s \<Longrightarrow> calm s t \<Longrightarrow> active_pdfs dbs t = active_pdfs dbs s"
  using calm_active [of s t] by (simp add: active_pdfs_def)

lemma prune_locked_pdfs:
  assumes "store_ok s" "d \<in> set (active_pdfs dbs s)"
  shows "map_of (gs_objects (snd (prune_locked (database_pdfs dbs) None s))) d = map_of (gs_objects s) d"
  using prune_active_pdfs [OF assms] by (auto simp: prune_locked_def run_simps split: sum.split)

lemma objects_unchanged [simp]:
  "gs_objects (enter_pin a s) = gs_objects s" "gs_objects (exit_pin a s) = gs_objects s" "gs_objects (add_entry h s) = gs_objects s"
  by (simp_all add: enter_pin_def exit_pin_def add_references_def add_entry_def)

lemma acquire_objects: "gs_objects (snd (acquire_gc_root_locked quota usage w g roots s)) = gs_objects s"
  by (auto simp: acquire_gc_root_locked_def Let_def run_simps split: option.split sum.splits prod.split)

lemma request_pdfs:
  assumes ok: "store_ok s" and r: "request own e s" and d: "d \<in> set (active_pdfs (env_databases env) s)"
  shows "map_of (gs_objects (apply_event env e s)) d = map_of (gs_objects s) d"
proof (cases e)
  case (Unpin a)
  have a: "a \<in> set (gs_pins s)" using request_enabled [OF r] Unpin by simp
  have "d \<in> set (active_pdfs (env_databases env) (exit_pin a s))" using d active_pdfs_calm [OF ok calm_pins(2)] by simp
  from prune_locked_pdfs [OF exit_pin_ok [OF ok a] this] show ?thesis by (auto simp: Unpin unpin_def run_simps)
next
  case (PinGeneration g)
  then show ?thesis by (auto simp: pin_generation_def run_simps split: option.split)
next
  case (AcquireRoot w g)
  then show ?thesis by (auto simp: acquire_generation_gc_root_def run_simps acquire_objects split: sum.split)
next
  case (ClaimRoot f)
  then show ?thesis
    by (auto simp: claim_current_generation_gc_root_def run_simps Let_def state_of_ret acquire_objects split: sum.splits list.split)
next
  case (ReleaseRoot w g)
  then show ?thesis by (auto simp: release_generation_gc_root_def run_simps split: option.split sum.split)
qed (use r in \<open>auto simp: pin_def run_simps split: option.split\<close>)

lemma pins_unchanged [simp]:
  "gs_pins (add_entry h s) = gs_pins s" "gs_pins (prune refs roots s) = gs_pins s" "gs_pins (snd (prune_locked refs roots' s)) = gs_pins s"
proof -
  show "gs_pins (add_entry h s) = gs_pins s" by (simp add: add_entry_def)
  have "gs_pins (fold (prune_one R) gs s) = gs_pins s" for R gs by (induction gs arbitrary: s) simp_all
  then show p: "gs_pins (prune refs roots s) = gs_pins s" for roots by (simp add: prune_def prune_cas_def Let_def)
  show "gs_pins (snd (prune_locked refs roots' s)) = gs_pins s"
    by (auto simp: prune_locked_def run_simps p split: sum.split option.split)
qed

lemma count_remove1: "count_list (remove1 a xs) b = count_list xs b - (if a = b then 1 else 0)"
  by (induction xs) auto

lemma acquire_pins: "gs_pins (snd (acquire_gc_root_locked quota usage w g roots s)) = gs_pins s"
  by (auto simp: acquire_gc_root_locked_def Let_def run_simps split: option.split sum.splits prod.split)

lemma request_pins:
  assumes "request own e s" "\<forall>b. count_list own b \<le> count_list (gs_pins s) b"
  shows "\<forall>b. count_list own b \<le> count_list (gs_pins (apply_event env e s)) b"
proof (cases e)
  case (Unpin a)
  have "gs_pins (snd (unpin refs a s)) = remove1 a (gs_pins s)" for refs by (simp add: unpin_def run_simps) (simp add: exit_pin_def)
  with assms Unpin show ?thesis by (auto simp: count_remove1)
next
  case (PinGeneration g)
  then show ?thesis using assms(2) by (auto simp: pin_generation_def run_simps enter_pin_def le_Suc_eq split: option.split)
next
  case (AcquireRoot w g)
  then show ?thesis using assms(2) by (auto simp: acquire_generation_gc_root_def run_simps acquire_pins split: sum.split)
next
  case (ClaimRoot f)
  then show ?thesis using assms(2)
    by (auto simp: claim_current_generation_gc_root_def run_simps Let_def state_of_ret acquire_pins split: sum.splits list.split)
next
  case (ReleaseRoot w g)
  then show ?thesis using assms(2) by (auto simp: release_generation_gc_root_def run_simps split: option.split sum.split)
qed (use assms in \<open>auto simp: pin_def run_simps enter_pin_def le_Suc_eq split: option.split\<close>)

lemma last_good_pdfs:
  assumes "last_good cfg s0 own s"
  shows "active_pdfs (databases_of cfg (us_files s)) (us_store s) = active_pdfs (databases_of cfg (us_files s0)) (us_store s0)"
proof (cases "active_generation_id (us_store s0)")
  case (Some g)
  then have "map_of (us_files s) g = map_of (us_files s0) g" using assms by (simp add: last_good_def)
  then show ?thesis using assms Some by (simp add: last_good_def active_pdfs_def database_pdfs_def databases_of_def)
qed (use assms in \<open>simp add: last_good_def active_pdfs_def\<close>)

lemma last_good_request:
  assumes good: "last_good cfg s0 own s" and r: "request own e (us_store s)"
  shows "last_good cfg s0 own (s\<lparr>us_store := apply_event (env_of cfg s) e (us_store s)\<rparr>)"
proof -
  let ?t = "apply_event (env_of cfg s) e (us_store s)"
  have ok: "store_ok (us_store s)" using good by (simp add: last_good_def)
  have calm: "calm (us_store s) ?t" by (rule calm_request [OF r])
  have "sound_pdf (gs_objects ?t) d = sound_pdf (gs_objects (us_store s)) d" if "d \<in> set (active_pdfs (databases_of cfg (us_files s0)) (us_store s0))" for d
    using request_pdfs [OF ok r, of d "env_of cfg s"] that last_good_pdfs [OF good] by (simp add: sound_pdf_def env_of_def)
  moreover have "gs_current ?t = gs_current (us_store s)" using calm by (simp add: calm_def)
  moreover have "\<forall>b. count_list own b \<le> count_list (gs_pins ?t) b" using good by (intro request_pins [OF r]) (simp add: last_good_def)
  ultimately show ?thesis
    using good calm_active [OF ok calm] apply_event_ok [OF ok request_enabled [OF r]] by (simp add: last_good_def)
qed

lemma last_good_wait:
  assumes cfg: "polite cfg" and good: "last_good cfg s0 own s"
  shows "last_good cfg s0 own (s\<lparr>us_store := up_requests cfg k (env_of cfg s) own (us_store s)\<rparr>)"
proof -
  have "(request_step (env_of cfg s) own)\<^sup>*\<^sup>* (us_store s) (up_requests cfg k (env_of cfg s) own (us_store s))"
    using cfg by (simp add: polite_def)
  then show ?thesis
  proof (induction rule: rtranclp_induct)
    case (step t u)
    then obtain e where e: "request own e t" "u = apply_event (env_of cfg s) e t" by (auto elim: request_step.cases)
    have "env_of cfg (s\<lparr>us_store := t\<rparr>) = env_of cfg s" by (simp add: env_of_def)
    with last_good_request [OF step.IH, of e] e show ?case by simp
  qed (simp add: good)
qed

lemma valid_wait: "polite cfg \<Longrightarrow> valid (last_good cfg s0 own) (wait cfg k own) (\<lambda>_. last_good cfg s0 own) (\<lambda>_. last_good cfg s0 own)"
  by (simp add: valid_def wait_def last_good_wait)

lemma valid_get: "(\<And>s. P s \<Longrightarrow> Q (f s) s) \<Longrightarrow> valid P (get f) Q E"
  by (simp add: valid_def get_def)

lemma valid_lift_bind:
  assumes "\<And>s e. P s \<Longrightarrow> E e s" and "\<And>x. r = Inr x \<Longrightarrow> valid P (f x) Q E"
  shows "valid P (sbind (lift r) f) Q E"
  using assms by (cases r) (auto simp: valid_def sbind_def lift_def)

lemma store_object_ok [simp]: "store_ok (s\<lparr>gs_objects := x\<rparr>) = store_ok s"
  by (simp add: store_ok_def active_ok_def counted_def held_def [abs_def] entry_ok_def [abs_def] resident_vector_bytes_def entry_id_def [abs_def] cong: option.case_cong)

lemma verified_pdf: "verify_pdf_artifact m (Some c) a = Inr u \<Longrightarrow> sha256_bytes c = rx_sha256 a \<and> take 5 c = ''%PDF-'' \<and> int (length c) = rx_size_bytes a"
  by (auto simp: verify_pdf_artifact_def verify_artifact_def)

lemma last_good_store_object:
  assumes "last_good cfg s0 own s" "sha256_bytes c = d" "take 5 c = ''%PDF-''"
  shows "last_good cfg s0 own (store_object d c s)"
proof -
  have "sound_pdf (AList.update d c objects) e" if "sound_pdf objects e" for e objects
    using that assms(2,3) by (auto simp: sound_pdf_def update_conv')
  moreover have "active_generation_id (us_store (store_object d c s)) = active_generation_id (us_store s)"
    by (simp add: store_object_def active_generation_id_def entry_id_def cong: map_option_cong)
  ultimately show ?thesis using assms(1) by (auto simp: last_good_def store_object_def)
qed

lemma valid_sync_pdf:
  assumes "polite cfg"
  shows "valid (last_good cfg s0 own) (sync_pdf cfg own x) (\<lambda>_. last_good cfg s0 own) (\<lambda>_. last_good cfg s0 own)"
proof -
  obtain k a where x: "x = (k, a)" by (cases x)
  have store: "valid (last_good cfg s0 own) (\<lambda>s. (Inr (), store_object (rx_sha256 a) c s)) (\<lambda>_. last_good cfg s0 own) (\<lambda>_. last_good cfg s0 own)"
    if "verify_pdf_artifact m (Some c) a = Inr u" for c m u
    using verified_pdf [OF that] by (auto simp: valid_def intro: last_good_store_object)
  have keep: "valid (last_good cfg s0 own) (lift r) (\<lambda>_. last_good cfg s0 own) (\<lambda>_. last_good cfg s0 own)" for r :: "unit result"
    by (rule valid_lift)
  show ?thesis
    unfolding sync_pdf_def x prod.case
    by (intro valid_lift_bind valid_sbind [where R = "\<lambda>_. last_good cfg s0 own"] valid_get valid_if valid_ret valid_wait assms keep store)
qed

abbreviation keeps_good :: "WebDAVUpdater \<Rightarrow> UpdaterState \<Rightarrow> nat list \<Rightarrow> 'a update_op \<Rightarrow> bool" where
  "keeps_good cfg s0 own m \<equiv> valid (last_good cfg s0 own) m (\<lambda>_. last_good cfg s0 own) (\<lambda>_. last_good cfg s0 own)"

lemma keeps_lift: "keeps_good cfg s0 own (lift r)"
  by (rule valid_lift)

lemma keeps_bind: "keeps_good cfg s0 own m \<Longrightarrow> (\<And>x. valid (last_good cfg s0 own) (f x) Q (\<lambda>_. last_good cfg s0 own)) \<Longrightarrow>
    valid (last_good cfg s0 own) (sbind m f) Q (\<lambda>_. last_good cfg s0 own)"
  by (rule valid_sbind)

lemma keeps_get: "keeps_good cfg s0 own (get f)"
  by (rule valid_get)

lemma keeps_ret: "keeps_good cfg s0 own (ret x)"
  by (rule valid_ret)

lemma keeps_sync: "polite cfg \<Longrightarrow> keeps_good cfg s0 own (sync_pdfs cfg own g)"
  unfolding sync_pdfs_def by (intro valid_sfor valid_sync_pdf)

lemma keeps_verify: "keeps_good cfg s0 own (verify_pdfs cfg files)"
  unfolding verify_pdfs_def by (intro keeps_bind keeps_get keeps_lift)

lemma keeps_download: "polite cfg \<Longrightarrow> keeps_good cfg s0 [] (download_members cfg g)"
  unfolding download_members_def
  by (intro keeps_bind keeps_lift valid_wait) (auto intro!: keeps_bind keeps_lift valid_wait keeps_ret split: option.split)

lemmas keeps_intros = keeps_bind keeps_get keeps_lift keeps_ret keeps_sync keeps_verify keeps_download valid_wait

lemma raising_activate: "valid (last_good cfg s0 own) (activate_handle cfg h) (\<lambda>_ _. True) (\<lambda>_. last_good cfg s0 own)"
  using activate_result
  by (fastforce simp: valid_def activate_handle_def on_store_def split: prod.split sum.split)

lemma raising_existing:
  "polite cfg \<Longrightarrow> valid (last_good cfg s0 []) (activate_existing cfg g) (\<lambda>_ _. True) (\<lambda>_. last_good cfg s0 [])"
  unfolding activate_existing_def by (intro keeps_intros raising_activate)

lemma last_good_install:
  assumes good: "last_good cfg s0 own s" and new: "\<not> exists_final g s"
  shows "last_good cfg s0 own (install_files cfg (rg_generation_id g) files s)"
proof -
  let ?t = "install_files cfg (rg_generation_id g) files s"
  have ok: "store_ok (us_store s)" using good by (simp add: last_good_def)
  have "h \<noteq> rg_generation_id g" if "active_generation_id (us_store s) = Some h" for h
    using active_there(1) [OF ok that] new unfolding exists_final_def by blast
  then have "map_of (us_files ?t) h = map_of (us_files s0) h" if "active_generation_id (us_store s0) = Some h" for h
    using good that by (simp add: last_good_def install_files_def update_conv')
  moreover have "active_generation_id (us_store ?t) = active_generation_id (us_store s)"
    by (simp add: install_files_def install_def active_generation_id_def entry_id_def cong: map_option_cong)
  moreover have "store_ok (us_store ?t)" using install_ok [OF ok] new by (simp add: install_files_def exists_final_def)
  ultimately show ?thesis using good by (simp add: last_good_def) (simp add: install_files_def install_def)
qed

lemma raising_staged:
  assumes "polite cfg"
  shows "valid (last_good cfg s0 []) (activate_staged cfg g) (\<lambda>_ _. True) (\<lambda>_. last_good cfg s0 [])"
proof -
  have tail: "valid (last_good cfg s0 []) (sbind (get (exists_final g)) (\<lambda>there.
     sbind (lift (raise_if there (RuntimeError ''immutable local generation already exists but is not active''))) (\<lambda>_.
     sbind (\<lambda>s. (Inr (), install_files cfg (rg_generation_id g) files s)) (\<lambda>_. activate_handle cfg handle))))
     (\<lambda>_ _. True) (\<lambda>_. last_good cfg s0 [])" for files handle
  proof (rule validI)
    fix s e t
    assume s: "last_good cfg s0 [] s" and "sbind (get (exists_final g)) (\<lambda>there.
     sbind (lift (raise_if there (RuntimeError ''immutable local generation already exists but is not active''))) (\<lambda>_.
     sbind (\<lambda>s. (Inr (), install_files cfg (rg_generation_id g) files s)) (\<lambda>_. activate_handle cfg handle))) s = (Inl e, t)"
    then consider "t = s" | "\<not> exists_final g s" "activate_handle cfg handle (install_files cfg (rg_generation_id g) files s) = (Inl e, t)"
      by (auto simp: sbind_eqs get_def lift_def raise_if_def split: if_splits)
    then show "last_good cfg s0 [] t"
      using s by cases (auto intro: valid_Inl [OF raising_activate last_good_install])
  qed simp
  show ?thesis unfolding activate_staged_def by (intro tail keeps_intros assms)
qed

lemma raising_stage:
  assumes "polite cfg"
  shows "valid (last_good cfg s0 []) (stage_and_activate cfg g) (\<lambda>_ _. True) (\<lambda>_. last_good cfg s0 [])"
  unfolding stage_and_activate_def using assms by (intro keeps_intros valid_if raising_existing raising_staged)

text \<open>The pin of the poll and its end.\<close>

lemma keeps_pin: "valid (last_good cfg s0 []) (on_store (\<lambda>_. pin) cfg) (\<lambda>a. last_good cfg s0 [a]) (\<lambda>_. last_good cfg s0 [])"
proof (rule validI)
  fix s e t
  assume "last_good cfg s0 [] s" "on_store (\<lambda>_. pin) cfg s = (Inl e, t)"
  then show "last_good cfg s0 [] t" by (auto simp: on_store_def pin_def run_simps split: option.splits)
next
  fix s a t
  assume s: "last_good cfg s0 [] s" and run: "on_store (\<lambda>_. pin) cfg s = (Inr a, t)"
  then have t: "t = s\<lparr>us_store := enter_pin a (us_store s)\<rparr>" "snd (pin (us_store s)) = enter_pin a (us_store s)"
    by (auto simp: on_store_def pin_def run_simps split: option.splits)
  with last_good_request [OF s, of Pin] have "last_good cfg s0 [] t" by simp
  then show "last_good cfg s0 [a] t" by (auto simp: last_good_def t(1)) (auto simp: enter_pin_def)
qed

lemma keeps_unpin:
  assumes good: "last_good cfg s0 [a] s" and run: "on_store (\<lambda>dbs. unpin (database_pdfs dbs) a) cfg s = (r, t)"
  shows "last_good cfg s0 [] t"
proof -
  have good': "last_good cfg s0 [] s" using good by (simp add: last_good_def)
  have "count_list [a] a \<le> count_list (gs_pins (us_store s)) a" using good unfolding last_good_def by blast
  then have "request [] (Unpin a) (us_store s)" by simp
  from last_good_request [OF good' this] run show ?thesis by (auto simp: on_store_def env_of_def split: prod.splits)
qed

lemma keeps_repair:
  assumes "polite cfg"
  shows "keeps_good cfg s0 [] (repair_active cfg g)"
proof -
  have body: "keeps_good cfg s0 [a] (sbind (get (active_binding cfg g)) (\<lambda>checked.
        sbind (lift checked) (\<lambda>_. sbind (wait cfg 9 [a]) (\<lambda>_. sync_pdfs cfg [a] g))))" for a
    by (intro keeps_intros assms)
  have final: "valid (last_good cfg s0 [a]) (finally_do m (on_store (\<lambda>dbs. unpin (database_pdfs dbs) a) cfg)) (\<lambda>_. last_good cfg s0 []) (\<lambda>_. last_good cfg s0 [])"
    if m: "keeps_good cfg s0 [a] m" for a and m :: "unit update_op"
  proof -
    have "last_good cfg s0 [] (snd (finally_do m (on_store (\<lambda>dbs. unpin (database_pdfs dbs) a) cfg) s))" if s: "last_good cfg s0 [a] s" for s
    proof -
      obtain r t where t: "m s = (r, t)" by fastforce
      have "last_good cfg s0 [a] t" using valid_Inr [OF m s] valid_Inl [OF m s] t by (cases r) auto
      with t show ?thesis by (auto simp: finally_do_def split: prod.split sum.split dest: keeps_unpin)
    qed
    then show ?thesis by (auto simp: valid_def split: prod.split sum.split) (metis snd_conv)+
  qed
  show ?thesis unfolding repair_active_def by (intro valid_sbind [OF keeps_pin] final body)
qed


section \<open>A poll that returns\<close>

definition idle :: "WebDAVUpdater \<Rightarrow> bool" where
  "idle cfg \<longleftrightarrow> (\<forall>k env own s. up_requests cfg k env own s = s)"

definition has_pdf :: "WebDAVUpdater \<Rightarrow> UpdaterState \<Rightarrow> RemoteArtifact \<Rightarrow> bool" where
  "has_pdf cfg s a \<longleftrightarrow> verify_pdf_artifact (up_maximum_pdf_bytes cfg) (map_of (gs_objects (us_store s)) (rx_sha256 a)) a = Inr ()"

definition with_objects :: "(string, bytes) dict \<Rightarrow> UpdaterState \<Rightarrow> UpdaterState" where
  "with_objects objects s = s\<lparr>us_store := (us_store s)\<lparr>gs_objects := objects\<rparr>\<rparr>"

lemma idle_wait: "idle cfg \<Longrightarrow> wait cfg k own s = (Inr (), s)"
  by (simp add: idle_def wait_def)

lemma with_objects_id: "s = with_objects (gs_objects (us_store s)) s"
  by (simp add: with_objects_def)

lemma store_object_with: "store_object d c s = with_objects (AList.update d c (gs_objects (us_store s))) s"
  by (simp add: store_object_def with_objects_def)

lemma sync_pdf_result:
  assumes "idle cfg" and "sync_pdf cfg own (k, a) s = (Inr u, t)"
  shows "has_pdf cfg t a" "\<exists>objects. t = with_objects objects s"
    "has_pdf cfg s b \<Longrightarrow> (rx_sha256 b = rx_sha256 a \<Longrightarrow> b = a) \<Longrightarrow> has_pdf cfg t b"
proof -
  from assms consider (kept) "t = s" "has_pdf cfg s a"
    | (stored) c where "t = store_object (rx_sha256 a) c s" "verify_pdf_artifact (up_maximum_pdf_bytes cfg) (Some c) a = Inr ()"
    by (auto simp: sync_pdf_def sbind_eqs idle_wait get_def lift_def ret_def has_pdf_def split: if_splits)
  note cases = this
  show "has_pdf cfg t a" using cases by cases (simp_all add: has_pdf_def store_object_def update_conv')
  show "\<exists>objects. t = with_objects objects s" using cases with_objects_id store_object_with by cases blast+
  show "has_pdf cfg t b" if "has_pdf cfg s b" "rx_sha256 b = rx_sha256 a \<Longrightarrow> b = a"
    using cases that by cases (auto simp: has_pdf_def store_object_def update_conv')
qed

definition one_artifact :: "RemoteArtifact list \<Rightarrow> bool" where
  "one_artifact as \<longleftrightarrow> (\<forall>a \<in> set as. \<forall>b \<in> set as. rx_sha256 a = rx_sha256 b \<longrightarrow> a = b)"

lemma sync_list_result:
  assumes "idle cfg" "one_artifact as" "snd ` set xs \<subseteq> set as"
  shows "sfor (sync_pdf cfg own) xs s = (Inr u, t) \<Longrightarrow> (\<forall>a \<in> snd ` set xs. has_pdf cfg t a)
    \<and> (\<exists>objects. t = with_objects objects s) \<and> (\<forall>b \<in> set as. has_pdf cfg s b \<longrightarrow> has_pdf cfg t b)"
  using assms(3)
proof (induction xs arbitrary: s)
  case Nil
  then show ?case using with_objects_id by (auto simp: ret_def)
next
  case (Cons x xs)
  obtain k a where x: "x = (k, a)" by (cases x)
  from Cons.prems(1) obtain v r where r: "sync_pdf cfg own (k, a) s = (Inr v, r)" "sfor (sync_pdf cfg own) xs r = (Inr u, t)"
    by (auto simp: sbind_eqs x)
  note first = sync_pdf_result [OF assms(1) r(1)]
  have keep: "has_pdf cfg r b" if "b \<in> set as" "has_pdf cfg s b" for b
    using first(3) [OF that(2)] that(1) assms(2) Cons.prems(2) x by (auto simp: one_artifact_def)
  from Cons.IH [OF r(2)] Cons.prems(2) first(1,2) keep show ?case by (auto simp: x with_objects_def)
qed

lemma pdf_identity:
  assumes "rfold check_pdf_artifact [] ds = Inr seen"
  shows "one_artifact (map rd_pdf ds)"
proof -
  have "\<forall>d \<in> set ds. map_of seen (rx_sha256 (rd_pdf d)) = Some (rd_pdf d)"
    using assms
  proof (rule rfold_prefix)
    fix ys :: "RemoteDocument list" and x s s'
    assume "\<forall>d \<in> set ys. map_of s (rx_sha256 (rd_pdf d)) = Some (rd_pdf d)" "check_pdf_artifact s x = Inr s'"
    then show "\<forall>d \<in> set (ys @ [x]). map_of s' (rx_sha256 (rd_pdf d)) = Some (rd_pdf d)"
      by (auto simp: check_pdf_artifact_def Let_def update_conv' split: option.splits) (metis option.distinct(1))
  qed simp
  then show ?thesis by (auto simp: one_artifact_def) (metis option.inject)
qed

lemma sync_pdfs_result:
  assumes "idle cfg" "one_artifact (map rd_pdf (rg_documents g))" "sync_pdfs cfg own g s = (Inr u, t)"
  shows "\<exists>objects. t = with_objects objects s" "d \<in> set (rg_documents g) \<Longrightarrow> has_pdf cfg t (rd_pdf d)"
proof -
  let ?as = "map rd_pdf (rg_documents g)"
  have snds: "snd ` set (enumerate 20 ?as) = set ?as" by (simp add: set_map [symmetric] del: set_map)
  note r = sync_list_result [OF assms(1,2) eq_refl [OF snds] assms(3) [unfolded sync_pdfs_def]]
  show "\<exists>objects. t = with_objects objects s" using r by blast
  show "d \<in> set (rg_documents g) \<Longrightarrow> has_pdf cfg t (rd_pdf d)" using r snds by auto
qed

lemma rfold_each: "rfold (\<lambda>_. f) () xs = Inr () \<Longrightarrow> x \<in> set xs \<Longrightarrow> f x = Inr ()"
  by (induction xs) auto

lemma documents_bound:
  assumes "verify_documents f g = Inr ()" "d \<in> set (rg_documents g)"
  shows "rx_sha256 (rd_pdf d) \<in> (pr_sha256 \<circ> dr_pdf) ` set (df_documents f @ failed_rows f)"
proof -
  let ?kvs = "map (\<lambda>d. (rd_document_id d, d)) (rg_documents g)"
  from assms(1) have len: "length (dict_of ?kvs) = length ?kvs" and ids: "set (keys (dict_of ?kvs)) = set (map dr_document_id (database_documents f))"
    and rows: "rfold (\<lambda>_. verify_row (dict_of ?kvs)) () (database_documents f) = Inr ()"
    by (auto simp: verify_documents_def Let_def)
  have "card (set (map fst ?kvs)) = length (map fst ?kvs)"
    using distinct_card [OF wf_dict_of, of ?kvs] len keys_dict_of [of ?kvs] by simp
  then have "distinct (map fst ?kvs)" by (rule card_distinct)
  then have same: "dict_of ?kvs = ?kvs" by (rule dict_of_distinct)
  have "rd_document_id d \<in> set (keys (dict_of ?kvs))" using assms(2) unfolding same by force
  then obtain r where r: "r \<in> set (database_documents f)" "dr_document_id r = rd_document_id d" using ids by auto
  from rows r(1) have "verify_row (dict_of ?kvs) r = Inr ()" by (rule rfold_each)
  moreover have "map_of (dict_of ?kvs) (rd_document_id d) = Some d"
    using assms(2) \<open>distinct (map fst ?kvs)\<close> unfolding same by (intro map_of_is_SomeI) auto
  ultimately have "rx_sha256 (rd_pdf d) = pr_sha256 (dr_pdf r)" by (simp add: verify_row_def r(2) row_differs_def)
  moreover have "r \<in> set (df_documents f @ failed_rows f)" using r(1) by (auto simp: database_documents_def split: if_splits)
  ultimately show ?thesis by force
qed

lemma activate_handle_result:
  assumes run: "activate_handle cfg h s = (Inr u, t)" and ok: "store_ok (us_store s)"
    and g: "gh_generation_id h \<in> set (keys (gs_generations (us_store s)))" "safe_id (gh_generation_id h)"
  shows "store_ok (us_store t)" "active_generation_id (us_store t) = Some (gh_generation_id h)" "us_files t = us_files s"
    "\<And>d ds. database_pdfs (databases_of cfg (us_files s)) (gh_generation_id h) = Some ds \<Longrightarrow> d \<in> set ds \<Longrightarrow>
       map_of (gs_objects (us_store t)) d = map_of (gs_objects (us_store s)) d"
proof -
  let ?g = "gh_generation_id h" and ?dbs = "databases_of cfg (us_files s)"
  obtain a v where v: "entry_of h (us_store s) = (a, v)" by fastforce
  from run obtain st where st: "activate (up_quota cfg) (database_pdfs ?dbs) h (us_store s) = (Inr u, st)" and t: "t = s\<lparr>us_store := st\<rparr>"
    by (auto simp: activate_handle_def on_store_def split: prod.splits)
  from activate_result [OF st] v obtain roots where
    fits: "map_of (gs_entries (us_store s)) ?g = None \<longrightarrow>
      resident_vector_bytes (us_store s) + gh_resident_vector_bytes h \<le> gs_maximum_resident_vector_bytes (us_store s)"
    and pruned: "st = prune (database_pdfs ?dbs) roots (point_at ?g a v)" by auto
  note e = entry_of_ok [OF ok g(1) mp [OF fits] v]
  have pok: "store_ok (point_at ?g a v)" by (rule point_at_ok [OF e(1,2) g(2)])
  have active: "active_generation_id (point_at ?g a v) = Some ?g"
    using store_entry(2) [OF e(1,2)] by (simp add: point_at_def active_generation_id_def entry_id_def)
  show "store_ok (us_store t)" using activate_ok [OF ok g, of "up_quota cfg" "database_pdfs ?dbs"] st t by simp
  show "active_generation_id (us_store t) = Some ?g" using calm_active [OF pok calm_prune] active t pruned by simp
  show "us_files t = us_files s" by (simp add: t)
  fix d ds
  assume "database_pdfs ?dbs ?g = Some ds" "d \<in> set ds"
  then have "d \<in> set (active_pdfs ?dbs (point_at ?g a v))" by (simp add: active_pdfs_def active)
  from prune_active_pdfs [OF pok this] show "map_of (gs_objects (us_store t)) d = map_of (gs_objects (us_store s)) d"
    using e(7) by (simp add: t pruned) (simp add: point_at_def)
qed

lemma validated_handle_result:
  assumes "validated_handle cfg g (Some (db, vs)) s = Inr h"
  shows "gh_generation_id h = rg_generation_id g" "\<exists>f. up_open cfg db vs = Some f \<and> verify_generation_binding vs f g = Inr ()"
    "verify_artifact None (Some db) (rg_database g) = Inr ()"
  using assms
  by (auto simp: validated_handle_def load_generation_handle_def verify_artifact_def split: option.splits)

text \<open>The local state that a poll for \<open>g\<close> must reach: \<open>g\<close> is active and its directory and its PDFs are what the manifest says.\<close>

definition mirrored :: "WebDAVUpdater \<Rightarrow> RemoteGeneration \<Rightarrow> UpdaterState \<Rightarrow> bool" where
  "mirrored cfg g t \<longleftrightarrow>
     store_ok (us_store t) \<and> active_generation_id (us_store t) = Some (rg_generation_id g)
     \<and> (\<exists>db vs f. directory (rg_generation_id g) t = Some (db, vs) \<and> up_open cfg db vs = Some f \<and> verify_generation_binding vs f g = Inr ())
     \<and> (\<forall>d \<in> set (rg_documents g). has_pdf cfg t (rd_pdf d))"

lemma bound_pdfs:
  assumes "map_of files g' = Some (db, vs)" "up_open cfg db vs = Some f" "verify_generation_binding vs f g = Inr ()"
  shows "\<exists>ds. database_pdfs (databases_of cfg files) g' = Some ds \<and> (\<forall>d \<in> set (rg_documents g). rx_sha256 (rd_pdf d) \<in> set ds)"
proof -
  have docs: "verify_documents f g = Inr ()" using assms(3) by (auto simp: verify_generation_binding_def)
  let ?ds = "map (pr_sha256 \<circ> dr_pdf) (df_documents f @ failed_rows f)"
  have "database_pdfs (databases_of cfg files) g' = Some ?ds"
    using assms(1,2) by (simp add: database_pdfs_def databases_of_def opened_def serving_of_def failed_rows_def split: option.split)
  moreover have "\<forall>d \<in> set (rg_documents g). rx_sha256 (rd_pdf d) \<in> set ?ds" using documents_bound [OF docs] by (simp only: set_map) blast
  ultimately show ?thesis by blast
qed

lemma activated_mirrors:
  assumes ok: "store_ok (us_store s)" and g: "safe_id (rg_generation_id g)" "directory (rg_generation_id g) s = Some (db, vs)"
    and f: "up_open cfg db vs = Some f" "verify_generation_binding vs f g = Inr ()"
    and pdfs: "\<And>d. d \<in> set (rg_documents g) \<Longrightarrow> has_pdf cfg s (rd_pdf d)"
    and run: "activate_handle cfg h s = (Inr u, t)" "gh_generation_id h = rg_generation_id g"
  shows "mirrored cfg g t"
proof -
  have there: "rg_generation_id g \<in> set (keys (gs_generations (us_store s)))" "map_of (us_files s) (rg_generation_id g) = Some (db, vs)"
    using g(2) by (auto simp: directory_def split: if_splits)
  note r = activate_handle_result [OF run(1) ok, unfolded run(2), OF there(1) g(1)]
  have "directory (rg_generation_id g) t = Some (db, vs)"
    using active_there(1) [OF r(1,2)] there(2) r(3) by (simp add: directory_def)
  moreover obtain ds where ds: "database_pdfs (databases_of cfg (us_files s)) (rg_generation_id g) = Some ds"
    "\<And>d. d \<in> set (rg_documents g) \<Longrightarrow> rx_sha256 (rd_pdf d) \<in> set ds" using bound_pdfs [OF there(2) f] by blast
  then have "has_pdf cfg t (rd_pdf d)" if "d \<in> set (rg_documents g)" for d
    using r(4) [OF ds(1) ds(2) [OF that]] pdfs [OF that] by (simp add: has_pdf_def)
  ultimately show ?thesis using r(1,2) f by (auto simp: mirrored_def)
qed

lemma with_objects_fields:
  assumes "t = with_objects objects s"
  shows "store_ok (us_store t) = store_ok (us_store s)" "directory g t = directory g s" "us_files t = us_files s"
    "gs_generations (us_store t) = gs_generations (us_store s)" "gs_active (us_store t) = gs_active (us_store s)"
    "active_generation_id (us_store t) = active_generation_id (us_store s)"
  using assms by (simp_all add: with_objects_def directory_def active_generation_id_def entry_id_def cong: map_option_cong)

lemma verify_pdfs_state: "verify_pdfs cfg files s = (Inr u, t) \<Longrightarrow> t = s"
  by (auto simp: verify_pdfs_def sbind_eqs get_def lift_def)

lemma existing_mirrors:
  assumes "idle cfg" "one_artifact (map rd_pdf (rg_documents g))" "safe_id (rg_generation_id g)" "store_ok (us_store s)"
    and run: "activate_existing cfg g s = (Inr u, t)"
  shows "mirrored cfg g t"
proof -
  from run obtain h r v where h: "validated_handle cfg g (directory (rg_generation_id g) s) s = Inr h"
    and sync: "sync_pdfs cfg [] g s = (Inr v, r)" and act: "activate_handle cfg h r = (Inr u, t)"
    by (auto simp: activate_existing_def sbind_eqs get_def lift_def idle_wait [OF assms(1)] dest: verify_pdfs_state)
  obtain db vs where files: "directory (rg_generation_id g) s = Some (db, vs)"
    using h by (cases "directory (rg_generation_id g) s") (auto simp: validated_handle_def verify_artifact_def)
  note synced = sync_pdfs_result [OF assms(1,2) sync]
  obtain objects where r: "r = with_objects objects s" using synced(1) by blast
  obtain f where f: "up_open cfg db vs = Some f" "verify_generation_binding vs f g = Inr ()"
    using validated_handle_result(2) [OF h [unfolded files]] by blast
  have ok: "store_ok (us_store r)" using assms(4) with_objects_fields(1) [OF r] by simp
  have dir: "directory (rg_generation_id g) r = Some (db, vs)" using files with_objects_fields(2) [OF r] by simp
  show ?thesis
    by (rule activated_mirrors [OF ok assms(3) dir f synced(2) act validated_handle_result(1) [OF h [unfolded files]]])
qed

lemma staged_mirrors:
  assumes "idle cfg" "one_artifact (map rd_pdf (rg_documents g))" "safe_id (rg_generation_id g)" "store_ok (us_store s)"
    and run: "activate_staged cfg g s = (Inr u, t)"
  shows "mirrored cfg g t"
proof -
  have down: "b = s" if "download_members cfg g s = (Inr x, b)" for x b
    using that by (auto simp: download_members_def sbind_eqs lift_def ret_def idle_wait [OF assms(1)] split: option.splits)
  from run obtain db vs h r v where h: "validated_handle cfg g (Some (db, vs)) s = Inr h" and sync: "sync_pdfs cfg [] g s = (Inr v, r)"
    and new: "\<not> exists_final g r" and act: "activate_handle cfg h (install_files cfg (rg_generation_id g) (db, vs) r) = (Inr u, t)"
    by (auto simp: activate_staged_def sbind_eqs get_def lift_def idle_wait [OF assms(1)] dest!: verify_pdfs_state down)
  let ?s = "install_files cfg (rg_generation_id g) (db, vs) r"
  note synced = sync_pdfs_result [OF assms(1,2) sync]
  obtain objects where r: "r = with_objects objects s" using synced(1) by blast
  obtain f where f: "up_open cfg db vs = Some f" "verify_generation_binding vs f g = Inr ()"
    using validated_handle_result(2) [OF h] by blast
  have "store_ok (us_store r)" using assms(4) with_objects_fields(1) [OF r] by simp
  then have ok: "store_ok (us_store ?s)" using install_ok new by (simp add: install_files_def exists_final_def)
  have dir: "directory (rg_generation_id g) ?s = Some (db, vs)"
    by (simp add: directory_def install_files_def install_def dom_update update_conv')
  have pdfs: "has_pdf cfg ?s (rd_pdf d)" if "d \<in> set (rg_documents g)" for d
    using synced(2) [OF that] by (simp add: has_pdf_def install_files_def install_def)
  show ?thesis by (rule activated_mirrors [OF ok assms(3) dir f pdfs act validated_handle_result(1) [OF h]])
qed

lemma repaired_mirrors:
  assumes "idle cfg" "one_artifact (map rd_pdf (rg_documents g))" "store_ok (us_store s)"
    and same: "active_generation_id (us_store s) = Some (rg_generation_id g)" and run: "repair_active cfg g s = (Inr u, t)"
  shows "mirrored cfg g t"
proof -
  from same obtain a where a: "gs_active (us_store s) = Some a" by (auto simp: active_generation_id_def)
  let ?s = "s\<lparr>us_store := enter_pin a (us_store s)\<rparr>"
  have ok: "store_ok (us_store ?s)" using enter_pin_ok [OF assms(3) store_active [OF assms(3) a]] by simp
  have pinned: "on_store (\<lambda>_. pin) cfg s = (Inr a, ?s)" using a by (simp add: on_store_def pin_def run_simps)
  from run pinned obtain r v where bound: "active_binding cfg g ?s = Inr ()" and sync: "sync_pdfs cfg [a] g ?s = (Inr v, r)"
    and ended: "snd (on_store (\<lambda>dbs. unpin (database_pdfs dbs) a) cfg r) = t"
    by (auto simp: repair_active_def sbind_eqs finally_do_def get_def lift_def idle_wait [OF assms(1)] split: prod.splits sum.splits)
  note synced = sync_pdfs_result [OF assms(1,2) sync]
  obtain objects where r: "r = with_objects objects ?s" using synced(1) by blast
  note same_fields = with_objects_fields [OF r]
  have active: "gs_active (us_store r) = Some a" using same_fields(5) a by (simp add: enter_pin_def add_references_def)
  then have t: "t = r\<lparr>us_store := exit_pin a (us_store r)\<rparr>"
    using ended by (simp add: on_store_def unpin_def run_simps exit_pin_def add_references_def)
  have rok: "store_ok (us_store r)" using same_fields(1) ok by simp
  have "a \<in> set (gs_pins (us_store r))" by (simp add: r with_objects_def enter_pin_def)
  then have tok: "store_ok (us_store t)" using exit_pin_ok [OF rok] t by simp
  have "active_generation_id (us_store r) = Some (rg_generation_id g)"
    using same_fields(6) same calm_active [OF assms(3) calm_pins(1)] by simp
  then have act: "active_generation_id (us_store t) = Some (rg_generation_id g)" using calm_active [OF rok calm_pins(2)] t by simp
  have "directory (rg_generation_id g) t = directory (rg_generation_id g) ?s"
    using same_fields(3,4) t by (simp add: directory_def exit_pin_def add_references_def)
  moreover have "\<exists>db vs f. directory (rg_generation_id g) ?s = Some (db, vs) \<and> up_open cfg db vs = Some f \<and> verify_generation_binding vs f g = Inr ()"
    using bound by (auto simp: active_binding_def split: option.splits)
  ultimately show ?thesis using tok act synced(2) by (simp add: mirrored_def has_pdf_def t)
qed

text \<open>
  C7.  A poll that returns has mirrored the channel: the remote generation is active, its directory holds a database that is
  bound to the manifest, and every PDF of the manifest is stored and verified, whether the generation was downloaded, found on
  disk or already active (then the poll has repaired its PDFs).  The result says whether the active generation changed.
\<close>

theorem poll_mirrors_channel:
  assumes "idle cfg" and "store_ok (us_store s)" and "up_read cfg = Inr (Some g)" and "poll_once cfg s = (Inr changed, t)"
  shows "mirrored cfg g t \<and> changed = (active_generation_id (us_store s) \<noteq> Some (rg_generation_id g))"
proof -
  have "safe_id (rg_generation_id g) \<and> verify_remote_manifest_contract (up_px cfg) g = Inr ()
    \<and> (if active_generation_id (us_store s) = Some (rg_generation_id g) then (\<exists>u. repair_active cfg g s = (Inr u, t)) \<and> \<not> changed
        else (\<exists>u. stage_and_activate cfg g s = (Inr u, t)) \<and> changed)"
    using assms(4) by (auto simp: poll_once_def assms(3) sbind_eqs lift_def get_def ret_def idle_wait [OF assms(1)] split: if_splits)
  then have safe: "safe_id (rg_generation_id g)" and contract: "verify_remote_manifest_contract (up_px cfg) g = Inr ()"
    and run: "if active_generation_id (us_store s) = Some (rg_generation_id g) then (\<exists>u. repair_active cfg g s = (Inr u, t)) \<and> \<not> changed
        else (\<exists>u. stage_and_activate cfg g s = (Inr u, t)) \<and> changed" by blast+
  have one: "one_artifact (map rd_pdf (rg_documents g))"
    using contract by (auto simp: verify_remote_manifest_contract_def intro: pdf_identity)
  show ?thesis
  proof (cases "active_generation_id (us_store s) = Some (rg_generation_id g)")
    case True
    then obtain u where "repair_active cfg g s = (Inr u, t)" "\<not> changed" using run by auto
    with True repaired_mirrors [OF assms(1) one assms(2)] show ?thesis by auto
  next
    case False
    then obtain u where "stage_and_activate cfg g s = (Inr u, t)" changed using run by auto
    moreover from this have "mirrored cfg g t"
      using existing_mirrors [OF assms(1) one safe assms(2)] staged_mirrors [OF assms(1) one safe assms(2)]
      by (auto simp: stage_and_activate_def sbind_eqs lift_def get_def split: if_splits)
    ultimately show ?thesis using False by simp
  qed
qed

section \<open>Two polls\<close>

definition sample_remote :: "string \<Rightarrow> RemoteGeneration" where
  "sample_remote g = \<lparr>rg_generation_id = g, rg_serving_schema = ''cardrag.serving-db.v3'', rg_corpus_sha256 = ''x'', rg_contract_sha256 = ''y'',
     rg_database = \<lparr>rx_path = ''v1/generations/'' @ g @ ''/index.sqlite3'', rx_sha256 = replicate 64 (CHR ''0''), rx_size_bytes = 5,
       rx_media_type = ''application/vnd.sqlite3''\<rparr>,
     rg_documents = [], rg_issuer_codes = [], rg_document_count = 0, rg_pdf_object_count = 0, rg_ocr_object_count = 0, rg_chunk_count = 0,
     rg_embedding_provider = ''p'', rg_embedding_model = ''m'', rg_embedding_dimension = 1536, rg_embedding_count = 0, rg_issuer_ocr_counts = [],
     rg_vector_sidecar = None, rg_structure_contract = None, rg_embedding_profiles = [], rg_primary_embedding_profile_id = None,
     rg_embedding_view_counts = [], rg_vector_sidecar_contract = None, rg_parser_policy_sha256 = None, rg_embedding_policy_sha256 = None,
     rg_retrieval_policy_sha256 = None, rg_document_aggregation_profile = None, rg_document_aggregation_policy = None,
     rg_sealed_profile_sha256 = None, rg_exact_row_corpus_sha256 = None\<rparr>"

definition sample_file :: DatabaseFile where
  "sample_file = \<lparr>df_core = \<lparr>sd_size = 5, sd_schema_check = Inr (), sd_schema_id = ''cardrag.serving-db.v3'', sd_generation_id = ''b'',
       sd_embedding_model = ''m'', sd_embedding_count = 0, sd_embedding_dimension = 1536, sd_vector_check = Inr (), sd_documents = [], sd_failed = None\<rparr>,
     df_corpus_sha256 = ''x'', df_contract_sha256 = ''y'', df_embedding_provider = ''p'', df_sidecar_sha256 = None, df_sidecar_size_bytes = None,
     df_vector_shape = (0, 1536, 0), df_aggregation_status = ''candidate_default'', df_aggregation_policy = ''max_child'',
     df_sealed_profile_sha256 = None, df_exact_row_corpus_sha256 = None, df_metadata = [], df_profiles = [], df_view_counts = [],
     df_documents = [], df_failed = None, df_issuer_codes = [], df_products = 0, df_pages = 0, df_chunks = 0\<rparr>"

definition sample_px :: pydantic where
  "sample_px = \<lparr>px_dump = \<lambda>_. PNone, px_content_fields = \<lambda>_. PNone, px_manifest = \<lambda>_. None, px_ready = \<lambda>_. None, px_pointer = \<lambda>_. None,
     px_native = \<lambda>_. None, px_adopted = \<lambda>_. None, px_ocr_ready = \<lambda>_. None, px_content = \<lambda>_. None, px_content_ready = \<lambda>_. None\<rparr>"

definition sample_updater :: "string \<Rightarrow> WebDAVUpdater" where
  "sample_updater g = \<lparr>up_px = sample_px, up_read = Inr (Some (sample_remote g)), up_database = \<lambda>_. Inl (WebDAVError ''connection lost''),
     up_sidecar = \<lambda>_. Inl (WebDAVError ''connection lost''), up_object = \<lambda>_. Inl (WebDAVError ''connection lost''), up_open = \<lambda>_ _. Some sample_file,
     up_quota = \<lambda>_ _. Inr (), up_audit_usage = \<lambda>_. (0, 1), up_capacity = \<lambda>_. Inr (), up_mtime = 9, up_maximum_vector_bytes = 1000,
     up_maximum_sidecar_bytes = 1000, up_maximum_pdf_bytes = 1000, up_maximum_database_bytes = 1000, up_maximum_download_bytes = 1000,
     up_requests = \<lambda>_ _ _ s. s\<rparr>"

definition sample_state :: UpdaterState where
  "sample_state = \<lparr>us_store = run_events sample_env [Install ''b'' 2, Activate (sample_handle ''b'')] sample_store, us_files = [(''b'', ''bytes'', None)]\<rparr>"

lemma sample_updater_idle: "idle (sample_updater g)" "polite (sample_updater g)"
  by (simp_all add: idle_def polite_def sample_updater_def)

lemma sample_state_ok: "store_ok (us_store sample_state)"
proof -
  have "all_enabled sample_env [Install ''b'' 2, Activate (sample_handle ''b'')] sample_store" by code_simp
  from serving.reach_inv [OF sample_reached(1) run_steps [OF this]] show ?thesis by (simp add: sample_state_def)
qed


theorem poll_mirrors_channel_witness:
  "mirrored (sample_updater ''b'') (sample_remote ''b'') (snd (poll_once (sample_updater ''b'') sample_state))
   \<and> False = (active_generation_id (us_store sample_state) \<noteq> Some (rg_generation_id (sample_remote ''b'')))"
proof (rule poll_mirrors_channel [OF sample_updater_idle(1) sample_state_ok])
  show "up_read (sample_updater ''b'') = Inr (Some (sample_remote ''b''))" by (simp add: sample_updater_def)
  have "fst (poll_once (sample_updater ''b'') sample_state) = Inr False" by code_simp
  then show "poll_once (sample_updater ''b'') sample_state = (Inr False, snd (poll_once (sample_updater ''b'') sample_state))"
    by (metis prod.collapse)
qed

end
