(* ===== verification/Spec2Isabelle.thy ===== *)
theory Spec2Isabelle
  imports Bounded MetadataCache Cas Canonical CorpusGate Rotation RevisionHistory Gc Bundle Updater
begin

text \<open>
  CardRAG: the publication core, the worker's corpus and garbage collection logic, and the server's generation store and cache.

  \<^bold>\<open>The program.\<close>  A worker (\<open>src/apps/cardrag-worker\<close>) collects the disclosure documents of card issuers, runs OCR
  on them, builds a serving database and publishes everything to a WebDAV server: immutable objects under their
  SHA-256, a generation (database, manifest, READY marker) and at the end the channel pointer.  A server
  (\<open>src/apps/cardrag-mcp\<close>) follows the pointer, downloads and verifies a generation and answers queries.  Both share
  the core library (\<open>src/packages/cardrag-core\<close>): paths, canonical JSON, the WebDAV client, the publishers, the models
  of all control files.

  \<^bold>\<open>How the model is written.\<close>  Every modelled function is a definition at the top level of its theory, with the
  source's name where it is free.  A Python exception is a value (\<open>exn\<close>), a fallible function returns \<open>exn + 'a\<close>, a
  function with effects is a function of the state that returns a result and the state it leaves behind, so that the
  effects before a raise are kept (\<open>Effects\<close>).  Code outside \<open>src/\<close> is a parameter: the HTTP transport and the server
  (\<open>'w http\<close>), the XML parser (\<open>xml\<close>), pydantic's JSON parsing and dumping (\<open>pydantic\<close>), the operating system's file
  reads, the operation that the bounded map runs.  The HTTP parameter answers anything at all; the exchanges are
  recorded in a log that exists in the model only, and the safety statements are statements about that log.

  \<^bold>\<open>Theories and sources.\<close>
  \<^item> \<open>Prelude\<close>, \<open>Effects\<close>: exceptions, results, dicts as association lists, the Hoare logic \<open>valid\<close>, and the locale
    \<open>inv_system\<close> (an invariant of a step relation holds in every reachable state), interpreted on \<open>bstep\<close>, \<open>rstep\<close>,
    \<open>quota_step\<close> and \<open>store_step\<close>.
  \<^item> \<open>Sha256\<close>, \<open>Json\<close>, \<open>Floats\<close>, \<open>Canonical\<close>: \<open>hashlib.sha256\<close> over 32-bit words, \<open>json.dumps\<close>/\<open>json.loads\<close>, binary64 and
    ISO dates, \<open>core/canonical.py\<close>.  Canonical JSON can be read back.
  \<^item> \<open>Paths\<close>: \<open>core/paths.py\<close>, \<open>core/domain.py\<close>.  The validator accepts exactly the safe paths, and different requests
    have different paths.
  \<^item> \<open>Webdav\<close>, \<open>Cas\<close>: \<open>core/webdav.py\<close>, \<open>core/cas.py\<close>.  A publication that returns was read back; it is create-once on a
    store that follows WebDAV (\<open>mem_http\<close>), refuses other bytes, and whatever the server answers it writes nowhere else.
    A pointer is only moved after a verified readback.  A download is all or nothing.
  \<^item> \<open>OcrArtifact\<close>, \<open>Manifests\<close>: \<open>core/ocr.py\<close>, \<open>core/embedding.py\<close>, \<open>core/manifests.py\<close>: every control file as a record
    with its validators.  Verified OCR text is exactly the canonical join of its pages; a valid manifest reports OCR
    counts that match its documents, with at least 95 percent success.
  \<^item> \<open>WorkerDav\<close>, \<open>Gc\<close>: \<open>worker/webdav.py\<close> (reads, listings, delete) and \<open>worker/gc.py\<close> with the table
    \<open>gc_unreferenced\<close> of \<open>worker/state.py\<close>.  The mark phase only reads; a deletion hits nothing that is marked, only
    aged entries, and only behind a fresh read of the pointer.  The locale \<open>log_contract\<close> carries a statement about the
    log through the sweep; it is interpreted twice, for the targets and for the fence.
  \<^item> \<open>Facade\<close>, \<open>Store\<close>, \<open>Bundle\<close>: \<open>core/facade.py\<close>, the reader of a channel, and \<open>WebDAVBundlePublisher\<close> of
    \<open>worker/webdav.py\<close>.  The locale \<open>honest_server\<close> is what a publisher relies on: a request has its WebDAV effect or
    none, and a complete answer to a \<open>GET\<close> is the content; \<open>honest_publisher\<close> adds the local file system.  They are
    interpreted on \<open>mem_http\<close> and on \<open>cut_http\<close>, a server whose connection dies after a given number of requests.  For
    a reader the channel is one register (\<open>visible\<close>), and a publication refines one write of it (\<open>switched\<close>).
  \<^item> \<open>Bounded\<close>: \<open>worker/bounded.py\<close>, the bounded ordered map, as a step relation over the interleavings of its workers:
    admission limits, termination of every execution, result or first failure.
  \<^item> \<open>Contracts\<close>, \<open>CorpusDiff\<close>, \<open>Retirement\<close>, \<open>RetirementStore\<close>, \<open>CorpusGate\<close>: \<open>worker/contracts.py\<close>,
    \<open>worker/corpus_diff.py\<close>, \<open>worker/retirement.py\<close> and the part of \<open>worker/pipeline.py\<close> that joins them.  The locale
    \<open>retirement_resolver\<close> states what the corpus gate relies on; \<open>CorpusGate\<close> interprets it on the pipeline's resolver.
    A run that passes the gate accounts for every prior document; a retirement is backed by evidence; the ledger
    survives a crash between any two directory operations.
  \<^item> \<open>RevisionHistory\<close>: \<open>worker/revision_history_v5.py\<close> with the rows it reads from \<open>worker/state.py\<close>.
  \<^item> \<open>Rotation\<close>: \<open>worker/rotation.py\<close>, the daily issuer assignment, as a step relation over claims and completions.
  \<^item> \<open>MetadataCache\<close>: \<open>mcp/metadata_cache.py\<close>.  The locale \<open>cache\<close> states coherence over any history of operations and
    is interpreted on the LRU.
  \<^item> \<open>Quota\<close>: \<open>mcp/quota.py\<close>, the byte quota that all processes of the server share, as a step relation over guarded writes,
    reservations, writes without the lock, releases, crashes and reconciliations (\<open>quota_step\<close>).  The bytes on disk and what is
    still reserved stay within the durable policy; the usage traversal is exact; reconciliation removes only abandoned reservations.
  \<^item> \<open>GenStore\<close>: \<open>mcp/store.py\<close>, the generations on the server's disk with the handles that requests pin and the roots
    that long jobs keep, as a step relation over requests, jobs, updates and restarts (\<open>store_step\<close>).  Whatever is in use stays
    on disk, memory stays within its limit, pruning is exact, and an activated generation survives a restart.
  \<^item> \<open>Updater\<close>: \<open>mcp/updater.py\<close>, a poll of the channel on top of the store, with the requests that other threads complete
    while it waits.  A poll that fails leaves the last good generation in service; a poll that returns has mirrored the channel.

  \<^bold>\<open>Bounds and fuel.\<close>  The reader of JSON (\<open>loads\<close>) has fuel in proportion to the length of the text; \<open>fuel_dumps\<close>
  shows that it is enough for every text that \<open>dumps\<close> writes.  No other definition uses fuel: loops over data are
  structural or have a measure, and \<open>follow_chain\<close> recurses on the number
  of generations to retain, as the source's \<open>range(retain)\<close> does.  SHA-256 digests are compared, never assumed to be
  collision-free, except where a statement names the assumption.

  \<^bold>\<open>Not modelled.\<close>  Concurrency of the reads that \<open>asyncio.gather\<close> overlaps in the collector (they do not write), logging,
  and the verification policy of \<open>worker/webdav_verification.py\<close> with its memo, journal and quarantine (the bundle publisher is
  modelled for a client without a policy).  The issuer adapters, PDF and OCR providers, embeddings,
  database exporters and the evaluation tools (\<open>gold_*\<close>, \<open>external_gold_producer\<close>, \<open>experimental_map_reduce\<close>) are not
  modelled: they drive external services, SQLite or language models.  \<open>worker/state.py\<close> is modelled only where another
  component depends on a table.
\<close>

end
